(* ===== verification/Prelude.thy ===== *)
theory Prelude
  imports Main "HOL-Library.Word" "HOL-Library.Signed_Division"
begin

text \<open>
  The prelude of the Ardwiino development: the integer types of the firmware, the bit
  macros of \<open>src/src/shared/lib/util/util.h\<close>, the little-endian byte images that C's
  casts between structs and \<open>uint8_t *\<close> rely on, and the lemmas every component shares.

  Integers keep their width: \<open>uint8_t\<close> is \<open>8 word\<close>, \<open>int16_t\<close> and \<open>uint16_t\<close> are both
  \<open>16 word\<close> (read as signed by \<open>sint\<close>), as the code converts between them freely.
  The AVR build is the one modelled: there \<open>int\<close> has 16 bits.
\<close>

unbundle bit_operations_syntax

type_synonym u8 = "8 word"
type_synonym u16 = "16 word"
type_synonym i16 = "16 word"
type_synonym u32 = "32 word"
type_synonym i32 = "32 word"

named_theorems bit_macros \<open>the bit macros of util.h, read bit by bit\<close>
named_theorems layout \<open>sizes of the byte images of the structs\<close>

section \<open>The bit macros of util.h\<close>

definition bv :: "nat \<Rightarrow> 'a::len word" where
  "bv m = push_bit m 1"

definition bit_set_m :: "'a::len word \<Rightarrow> nat \<Rightarrow> 'a word" where
  "bit_set_m p m = p OR bv m"

definition bit_clear_m :: "'a::len word \<Rightarrow> nat \<Rightarrow> 'a word" where
  "bit_clear_m p m = p AND NOT (bv m)"

definition bit_write_m :: "bool \<Rightarrow> 'a::len word \<Rightarrow> nat \<Rightarrow> 'a word" where
  "bit_write_m c p m = (p AND NOT (bv m)) OR push_bit m (of_bool c)"

text \<open>\<open>bit_check\<close> is the masked value, not a truth value: the code compares it with \<open>bool\<close>s.\<close>

definition bit_check_m :: "'a::len word \<Rightarrow> nat \<Rightarrow> 'a word" where
  "bit_check_m v m = v AND bv m"

abbreviation truthy :: "'a::len word \<Rightarrow> bool" where
  "truthy w \<equiv> w \<noteq> 0"

lemma bit_bv [bit_macros]: "bit (bv m :: 'a::len word) n \<longleftrightarrow> n = m \<and> m < LENGTH('a)"
  by (auto simp: bv_def bit_exp_iff)

lemma bit_bit_set [bit_macros]:
  "bit (bit_set_m p m :: 'a::len word) n \<longleftrightarrow> bit p n \<or> n = m \<and> m < LENGTH('a)"
  by (auto simp: bit_set_m_def bit_or_iff bit_bv)

lemma bit_bit_clear [bit_macros]:
  "bit (bit_clear_m p m :: 'a::len word) n \<longleftrightarrow> bit p n \<and> n \<noteq> m"
  by (auto simp: bit_clear_m_def bit_and_iff bit_not_iff bit_bv dest: bit_imp_le_length)

lemma bit_bit_write [bit_macros]:
  "bit (bit_write_m c p m :: 'a::len word) n \<longleftrightarrow>
     (if n = m then c \<and> m < LENGTH('a) else bit p n)"
  by (cases c) (auto simp: bit_write_m_def bit_or_iff bit_and_iff bit_not_iff bit_bv bit_exp_iff
      dest: bit_imp_le_length)

lemma bit_check_nonzero [bit_macros]: "truthy (bit_check_m v m) \<longleftrightarrow> bit v m"
proof -
  have "truthy (bit_check_m v m) \<longleftrightarrow> (\<exists>n. bit (v AND bv m) n)"
    unfolding bit_check_m_def by (metis bit_0_eq bit_eqI bot_apply bot_bool_def)
  also have "\<dots> \<longleftrightarrow> bit v m"
    by (auto simp: bit_and_iff bit_bv dest: bit_imp_le_length)
  finally show ?thesis .
qed

lemma bit_check_zero [bit_macros]: "bit_check_m v m = 0 \<longleftrightarrow> \<not> bit v m"
  using bit_check_nonzero by blast

lemma bit_write_same: "bit p m = c \<Longrightarrow> m < LENGTH('a) \<Longrightarrow> bit_write_m c (p :: 'a::len word) m = p"
  by (rule bit_eqI) (auto simp: bit_macros)

lemma bit_write_twice [simp]: "bit_write_m c (bit_write_m d p m) m = bit_write_m c p m"
  by (rule bit_eqI) (simp add: bit_macros)

lemma bit_write_commute:
  "m \<noteq> n \<Longrightarrow> bit_write_m c (bit_write_m d p n) m = bit_write_m d (bit_write_m c p m) n"
  by (rule bit_eqI) (simp add: bit_macros)

text \<open>The byte mask, the only literal mask that meets words of several widths.\<close>

lemma bit_255_int [simp]: "bit (255 :: int) n \<longleftrightarrow> n < 8"
proof -
  have "(255 :: int) = mask 8" by (simp add: mask_eq_exp_minus_1)
  then show ?thesis by (simp only: bit_mask_iff) auto
qed

lemma unat_exp [simp]: "k < LENGTH('a) \<Longrightarrow> unat ((2 :: 'a::len word) ^ k) = 2 ^ k"
proof -
  assume "k < LENGTH('a)"
  moreover have "unat (push_bit k (1 :: 'a word)) = take_bit LENGTH('a) (push_bit k (unat (1 :: 'a word)))"
    by (rule unsigned_push_bit_eq)
  ultimately show ?thesis by (simp add: push_bit_eq_mult take_bit_nat_eq_self)
qed

lemma ucast_and_0xff [simp]: "ucast (w AND 0xff) = (ucast w :: u8)"
  by (rule bit_word_eqI) (auto simp: bit_ucast_iff bit_and_iff dest: bit_imp_le_length)

lemma bit_above_bound:
  assumes "w < (2 :: 'a::len word) ^ k" "k \<le> n"
  shows "\<not> bit w n"
proof
  assume *: "bit w n"
  then have n: "n < LENGTH('a)" by (rule bit_imp_le_length)
  with assms(2) have "unat ((2 :: 'a word) ^ k) = 2 ^ k"
    by simp
  with assms(1) have "unat w < 2 ^ k" by (simp add: word_less_nat_alt)
  then have "unat w < 2 ^ n"
    using assms(2) by (meson less_le_trans one_le_numeral power_increasing)
  then have "\<not> bit (unat w) n"
    by (simp add: bit_iff_odd)
  with * n show False by (simp add: bit_unsigned_iff)
qed

section \<open>Little-endian byte images\<close>

definition le16 :: "u16 \<Rightarrow> u8 list" where
  "le16 w = [ucast w, ucast (drop_bit 8 w)]"

definition un_le16 :: "u8 list \<Rightarrow> u16" where
  "un_le16 bs = ucast (bs ! 0) OR push_bit 8 (ucast (bs ! 1))"

definition le32 :: "u32 \<Rightarrow> u8 list" where
  "le32 w = [ucast w, ucast (drop_bit 8 w), ucast (drop_bit 16 w), ucast (drop_bit 24 w)]"

definition un_le32 :: "u8 list \<Rightarrow> u32" where
  "un_le32 bs = ucast (bs ! 0) OR push_bit 8 (ucast (bs ! 1)) OR
                push_bit 16 (ucast (bs ! 2)) OR push_bit 24 (ucast (bs ! 3))"

lemma length_le16 [simp, layout]: "length (le16 w) = 2"
  by (simp add: le16_def)

lemma length_le32 [simp, layout]: "length (le32 w) = 4"
  by (simp add: le32_def)

lemma un_le16_le16 [simp]: "un_le16 (le16 w) = w"
  by (rule bit_word_eqI)
     (auto simp: un_le16_def le16_def bit_or_iff bit_push_bit_iff bit_ucast_iff bit_drop_bit_eq)

lemma un_le16_append [simp]: "un_le16 (le16 w @ xs) = w"
  using un_le16_le16 [of w] by (simp add: un_le16_def le16_def)

lemma un_le32_le32 [simp]: "un_le32 (le32 w) = w"
proof (rule bit_word_eqI)
  fix n assume "n < LENGTH(32)"
  then consider "n < 8" | "8 \<le> n" "n < 16" | "16 \<le> n" "n < 24" | "24 \<le> n" "n < 32"
    by fastforce
  then show "bit (un_le32 (le32 w)) n = bit w n"
    by cases (auto simp: un_le32_def le32_def bit_or_iff bit_push_bit_iff bit_ucast_iff
        bit_drop_bit_eq)
qed

lemma un_le32_append [simp]: "un_le32 (le32 w @ xs) = w"
  using un_le32_le32 [of w] by (simp add: un_le32_def le32_def)

text \<open>A C \<open>bool\<close> occupies a byte: 0 or 1 when written, any non-zero byte is read as true.\<close>

definition byte_of_bool :: "bool \<Rightarrow> u8" where
  "byte_of_bool b = of_bool b"

lemma byte_of_bool_nonzero [simp]: "truthy (byte_of_bool b) = b"
  by (simp add: byte_of_bool_def)

section \<open>Bounds of words read as integers\<close>

lemma u8_bound: "uint (x :: u8) < 256" "0 \<le> uint (x :: u8)"
  using uint_lt2p [of x] by simp_all

lemma u8_exhaust:
  assumes "\<forall>n\<in>set [0..<256]. P (of_nat n)"
  shows "P (b :: u8)"
proof -
  have "unat b < 256" using unsigned_less [of b] by simp
  then have "P (of_nat (unat b))" by (intro bspec [OF assms]) simp
  then show ?thesis by simp
qed

text \<open>A masked byte is one of the numbers below the mask's bound.\<close>

lemma masked_byte:
  assumes "\<forall>n\<in>set [0..<2 ^ k]. P (of_nat n)" "k \<le> 8"
  shows "P (b AND mask k :: u8)"
proof -
  have "unat (b AND mask k) < 2 ^ k"
    using assms(2) by (simp add: take_bit_eq_mask [symmetric] unsigned_take_bit_eq)
  then have "P (of_nat (unat (b AND mask k)))" by (intro bspec [OF assms(1)]) simp
  then show ?thesis by simp
qed

lemma i16_bound: "- 32768 \<le> sint (x :: i16)" "sint (x :: i16) < 32768"
  using sint_range_size [of x] by (simp_all add: word_size)

lemma sint_of_int_16:
  "- 32768 \<le> k \<Longrightarrow> k < 32768 \<Longrightarrow> sint (word_of_int k :: i16) = k"
  by (simp add: sint_sbintrunc' signed_take_bit_int_eq_self)

lemma sint_of_int_32:
  "- 2147483648 \<le> k \<Longrightarrow> k < 2147483648 \<Longrightarrow> sint (word_of_int k :: i32) = k"
  by (simp add: sint_sbintrunc' signed_take_bit_int_eq_self)

section \<open>Lists written by index\<close>

definition list_blit :: "nat \<Rightarrow> 'a list \<Rightarrow> 'a list \<Rightarrow> 'a list" where
  "list_blit off src dst = take off dst @ src @ drop (off + length src) dst"

lemma length_list_blit [simp]:
  "off + length src \<le> length dst \<Longrightarrow> length (list_blit off src dst) = length dst"
  by (simp add: list_blit_def)

lemma nth_list_blit:
  assumes "off + length src \<le> length dst" "i < length dst"
  shows "list_blit off src dst ! i =
    (if off \<le> i \<and> i < off + length src then src ! (i - off) else dst ! i)"
  using assms by (auto simp: list_blit_def nth_append min_def)

lemma list_blit_read:
  "off + length src \<le> length dst \<Longrightarrow> take (length src) (drop off (list_blit off src dst)) = src"
  by (simp add: list_blit_def)

section \<open>Results that may be an error\<close>

definition and_then :: "'e + 'a \<Rightarrow> ('a \<Rightarrow> 'e + 'b) \<Rightarrow> 'e + 'b" where
  "and_then r f = (case r of Inl e \<Rightarrow> Inl e | Inr a \<Rightarrow> f a)"

lemma and_then_simps [simp]: "and_then (Inl e) f = Inl e" "and_then (Inr a) f = f a"
  by (simp_all add: and_then_def)

lemma map_sum_Inr: "map_sum f g r = Inr y \<longleftrightarrow> (\<exists>x. r = Inr x \<and> y = g x)"
  by (cases r) auto

lemma and_then_Inr: "and_then r f = Inr b \<longleftrightarrow> (\<exists>a. r = Inr a \<and> f a = Inr b)"
  by (cases r) simp_all

lemma and_then_Inl: "and_then r f = Inl e \<longleftrightarrow> r = Inl e \<or> (\<exists>a. r = Inr a \<and> f a = Inl e)"
  by (cases r) simp_all

end
