(* ===== verification/Config.thy ===== *)
theory Config
  imports Colours
begin

text \<open>
  The data model shared by every component: the enums of \<open>config/defines.h\<close> and
  \<open>controller/controller.h\<close>, the controller state, and the persistent configuration of
  \<open>config/config.h\<close> with its default value (\<open>config/defaults.h\<close>) and its packed byte image,
  the form in which it is stored in EEPROM and moved over USB.
\<close>

section \<open>config/defines.h\<close>

definition INVALID_PIN :: u8 where "INVALID_PIN = 0xFF"
definition REAL_GUITAR_SUBTYPE :: u8 where "REAL_GUITAR_SUBTYPE = 7"
definition REAL_DRUM_SUBTYPE :: u8 where "REAL_DRUM_SUBTYPE = 8"

datatype TiltType = NO_TILT | MPU_6050 | DIGITAL | ANALOGUE

fun tilt_val :: "TiltType \<Rightarrow> u8" where
  "tilt_val NO_TILT = 0" | "tilt_val MPU_6050 = 1" | "tilt_val DIGITAL = 2" | "tilt_val ANALOGUE = 3"

datatype InputType = WII | DIRECT | PS2

fun input_val :: "InputType \<Rightarrow> u8" where
  "input_val WII = 1" | "input_val DIRECT = 2" | "input_val PS2 = 3"

datatype SubType =
    XINPUT_GAMEPAD | XINPUT_WHEEL | XINPUT_ARCADE_STICK | XINPUT_FLIGHT_STICK | XINPUT_DANCE_PAD
  | XINPUT_LIVE_GUITAR | XINPUT_ROCK_BAND_DRUMS | XINPUT_GUITAR_HERO_DRUMS
  | XINPUT_ROCK_BAND_GUITAR | XINPUT_GUITAR_HERO_GUITAR | XINPUT_ARCADE_PAD
  | KEYBOARD_GAMEPAD | KEYBOARD_GUITAR_HERO_GUITAR | KEYBOARD_ROCK_BAND_GUITAR
  | KEYBOARD_LIVE_GUITAR | KEYBOARD_GUITAR_HERO_DRUMS | KEYBOARD_ROCK_BAND_DRUMS
  | SWITCH_GAMEPAD | PS3_GUITAR_HERO_GUITAR | PS3_GUITAR_HERO_DRUMS | PS3_ROCK_BAND_GUITAR
  | PS3_ROCK_BAND_DRUMS | PS3_GAMEPAD | WII_ROCK_BAND_GUITAR | WII_ROCK_BAND_DRUMS | MOUSE
  | MIDI_GAMEPAD | MIDI_GUITAR_HERO_GUITAR | MIDI_ROCK_BAND_GUITAR | MIDI_LIVE_GUITAR
  | MIDI_GUITAR_HERO_DRUMS | MIDI_ROCK_BAND_DRUMS

fun subtype_val :: "SubType \<Rightarrow> u8" where
  "subtype_val XINPUT_GAMEPAD = 1"
| "subtype_val XINPUT_WHEEL = 2"
| "subtype_val XINPUT_ARCADE_STICK = 3"
| "subtype_val XINPUT_FLIGHT_STICK = 4"
| "subtype_val XINPUT_DANCE_PAD = 5"
| "subtype_val XINPUT_LIVE_GUITAR = 9"
| "subtype_val XINPUT_ROCK_BAND_DRUMS = 12"
| "subtype_val XINPUT_GUITAR_HERO_DRUMS = 13"
| "subtype_val XINPUT_ROCK_BAND_GUITAR = 14"
| "subtype_val XINPUT_GUITAR_HERO_GUITAR = 15"
| "subtype_val XINPUT_ARCADE_PAD = 19"
| "subtype_val KEYBOARD_GAMEPAD = 20"
| "subtype_val KEYBOARD_GUITAR_HERO_GUITAR = 21"
| "subtype_val KEYBOARD_ROCK_BAND_GUITAR = 22"
| "subtype_val KEYBOARD_LIVE_GUITAR = 23"
| "subtype_val KEYBOARD_GUITAR_HERO_DRUMS = 24"
| "subtype_val KEYBOARD_ROCK_BAND_DRUMS = 25"
| "subtype_val SWITCH_GAMEPAD = 26"
| "subtype_val PS3_GUITAR_HERO_GUITAR = 27"
| "subtype_val PS3_GUITAR_HERO_DRUMS = 28"
| "subtype_val PS3_ROCK_BAND_GUITAR = 29"
| "subtype_val PS3_ROCK_BAND_DRUMS = 30"
| "subtype_val PS3_GAMEPAD = 31"
| "subtype_val WII_ROCK_BAND_GUITAR = 32"
| "subtype_val WII_ROCK_BAND_DRUMS = 33"
| "subtype_val MOUSE = 34"
| "subtype_val MIDI_GAMEPAD = 35"
| "subtype_val MIDI_GUITAR_HERO_GUITAR = 36"
| "subtype_val MIDI_ROCK_BAND_GUITAR = 37"
| "subtype_val MIDI_LIVE_GUITAR = 38"
| "subtype_val MIDI_GUITAR_HERO_DRUMS = 39"
| "subtype_val MIDI_ROCK_BAND_DRUMS = 40"

text \<open>The subtype a stored byte stands for, if any.\<close>

definition subtypes :: "SubType list" where
  "subtypes =
     [XINPUT_GAMEPAD, XINPUT_WHEEL, XINPUT_ARCADE_STICK, XINPUT_FLIGHT_STICK, XINPUT_DANCE_PAD,
      XINPUT_LIVE_GUITAR, XINPUT_ROCK_BAND_DRUMS, XINPUT_GUITAR_HERO_DRUMS,
      XINPUT_ROCK_BAND_GUITAR, XINPUT_GUITAR_HERO_GUITAR, XINPUT_ARCADE_PAD,
      KEYBOARD_GAMEPAD, KEYBOARD_GUITAR_HERO_GUITAR, KEYBOARD_ROCK_BAND_GUITAR,
      KEYBOARD_LIVE_GUITAR, KEYBOARD_GUITAR_HERO_DRUMS, KEYBOARD_ROCK_BAND_DRUMS,
      SWITCH_GAMEPAD, PS3_GUITAR_HERO_GUITAR, PS3_GUITAR_HERO_DRUMS, PS3_ROCK_BAND_GUITAR,
      PS3_ROCK_BAND_DRUMS, PS3_GAMEPAD, WII_ROCK_BAND_GUITAR, WII_ROCK_BAND_DRUMS, MOUSE,
      MIDI_GAMEPAD, MIDI_GUITAR_HERO_GUITAR, MIDI_ROCK_BAND_GUITAR, MIDI_LIVE_GUITAR,
      MIDI_GUITAR_HERO_DRUMS, MIDI_ROCK_BAND_DRUMS]"

definition subtype_of :: "u8 \<Rightarrow> SubType option" where
  "subtype_of b = find (\<lambda>s. subtype_val s = b) subtypes"

lemma subtype_of_val [simp]: "subtype_of (subtype_val s) = Some s"
  by (cases s) (simp_all add: subtype_of_def subtypes_def)

lemma subtype_val_inject: "subtype_val a = subtype_val b \<longleftrightarrow> a = b"
  by (metis subtype_of_val option.inject)

text \<open>The code compares subtypes by their enum values; so does this order.\<close>

instantiation SubType :: linorder
begin

definition less_eq_SubType :: "SubType \<Rightarrow> SubType \<Rightarrow> bool" where
  "less_eq_SubType a b \<longleftrightarrow> subtype_val a \<le> subtype_val b"

definition less_SubType :: "SubType \<Rightarrow> SubType \<Rightarrow> bool" where
  "less_SubType a b \<longleftrightarrow> subtype_val a < subtype_val b"

instance
  by standard (auto simp: less_eq_SubType_def less_SubType_def subtype_val_inject less_le_not_le)

end

datatype GyroOrientation = GYRO_X | GYRO_Y | GYRO_Z

fun gyro_val :: "GyroOrientation \<Rightarrow> u8" where
  "gyro_val GYRO_X = 0" | "gyro_val GYRO_Y = 1" | "gyro_val GYRO_Z = 2"

datatype GyroOrientationOld =
  POSITIVE_Z | NEGATIVE_Z | POSITIVE_Y | NEGATIVE_Y | POSITIVE_X | NEGATIVE_X

fun gyro_old_val :: "GyroOrientationOld \<Rightarrow> u8" where
  "gyro_old_val POSITIVE_Z = 0" | "gyro_old_val NEGATIVE_Z = 1" | "gyro_old_val POSITIVE_Y = 2"
| "gyro_old_val NEGATIVE_Y = 3" | "gyro_old_val POSITIVE_X = 4" | "gyro_old_val NEGATIVE_X = 5"

datatype FirmwareType = GUITAR_DEVICE_TYPE | ARDWIINO_DEVICE_TYPE

fun firmware_val :: "FirmwareType \<Rightarrow> u32" where
  "firmware_val GUITAR_DEVICE_TYPE = 0xfea124" | "firmware_val ARDWIINO_DEVICE_TYPE = 0xa2d415"

datatype FretLedMode = LEDS_DISABLED | LEDS_INLINE | APA102

fun fret_val :: "FretLedMode \<Rightarrow> u8" where
  "fret_val LEDS_DISABLED = 0" | "fret_val LEDS_INLINE = 1" | "fret_val APA102 = 2"

datatype MidiType = DISABLED | NOTE | CONTROL_COMMAND

fun midi_val :: "MidiType \<Rightarrow> u8" where
  "midi_val DISABLED = 0" | "midi_val NOTE = 1" | "midi_val CONTROL_COMMAND = 2"

datatype WiiExtType =
    WII_NUNCHUK | WII_CLASSIC_CONTROLLER | WII_CLASSIC_CONTROLLER_PRO | WII_THQ_UDRAW_TABLET
  | WII_UBISOFT_DRAWSOME_TABLET | WII_GUITAR_HERO_GUITAR_CONTROLLER
  | WII_GUITAR_HERO_DRUM_CONTROLLER | WII_DJ_HERO_TURNTABLE | WII_TAIKO_NO_TATSUJIN_CONTROLLER
  | WII_MOTION_PLUS | WII_NO_EXTENSION | WII_NOT_INITIALISED

fun wii_ext_val :: "WiiExtType \<Rightarrow> u16" where
  "wii_ext_val WII_NUNCHUK = 0x0000"
| "wii_ext_val WII_CLASSIC_CONTROLLER = 0x0001"
| "wii_ext_val WII_CLASSIC_CONTROLLER_PRO = 0x0101"
| "wii_ext_val WII_THQ_UDRAW_TABLET = 0xFF12"
| "wii_ext_val WII_UBISOFT_DRAWSOME_TABLET = 0xFF13"
| "wii_ext_val WII_GUITAR_HERO_GUITAR_CONTROLLER = 0x0003"
| "wii_ext_val WII_GUITAR_HERO_DRUM_CONTROLLER = 0x0103"
| "wii_ext_val WII_DJ_HERO_TURNTABLE = 0x0303"
| "wii_ext_val WII_TAIKO_NO_TATSUJIN_CONTROLLER = 0x0011"
| "wii_ext_val WII_MOTION_PLUS = 0x0005"
| "wii_ext_val WII_NO_EXTENSION = 0x180b"
| "wii_ext_val WII_NOT_INITIALISED = 0xFFFF"

datatype PsxControllerType =
    PSX_UNKNOWN_CONTROLLER | PSX_DUALSHOCK_1_CONTROLLER | PSX_DUALSHOCK_2_CONTROLLER
  | PSX_WIRELESS_SONY_DUALSHOCK_CONTROLLER | PSX_GUITAR_HERO_CONTROLLER | PSX_NEGCON
  | PSX_JOGCON | PSX_GUNCON | PSX_ANALOG | PSX_MOUSE | PSX_NO_DEVICE

fun psx_val :: "PsxControllerType \<Rightarrow> u8" where
  "psx_val PSX_UNKNOWN_CONTROLLER = 0" | "psx_val PSX_DUALSHOCK_1_CONTROLLER = 1"
| "psx_val PSX_DUALSHOCK_2_CONTROLLER = 2" | "psx_val PSX_WIRELESS_SONY_DUALSHOCK_CONTROLLER = 3"
| "psx_val PSX_GUITAR_HERO_CONTROLLER = 4" | "psx_val PSX_NEGCON = 5" | "psx_val PSX_JOGCON = 6"
| "psx_val PSX_GUNCON = 7" | "psx_val PSX_ANALOG = 8" | "psx_val PSX_MOUSE = 9"
| "psx_val PSX_NO_DEVICE = 10"

section \<open>controller/controller.h\<close>

definition XBOX_BTN_COUNT :: nat where "XBOX_BTN_COUNT = 16"
definition XBOX_AXIS_COUNT :: nat where "XBOX_AXIS_COUNT = 6"

record Led_t =
  led_pin :: u8
  led_red :: u8
  led_green :: u8
  led_blue :: u8

record Controller_t =
  buttons :: u16
  lt :: u8
  rt :: u8
  l_x :: i16
  l_y :: i16
  r_x :: i16
  r_y :: i16

datatype ControllerAxis = XBOX_LT | XBOX_RT | XBOX_L_X | XBOX_L_Y | XBOX_R_X | XBOX_R_Y

fun axis_ix :: "ControllerAxis \<Rightarrow> nat" where
  "axis_ix XBOX_LT = 0" | "axis_ix XBOX_RT = 1" | "axis_ix XBOX_L_X = 2" | "axis_ix XBOX_L_Y = 3"
| "axis_ix XBOX_R_X = 4" | "axis_ix XBOX_R_Y = 5"

abbreviation XBOX_WHAMMY :: ControllerAxis where "XBOX_WHAMMY \<equiv> XBOX_R_X"
abbreviation XBOX_TILT :: ControllerAxis where "XBOX_TILT \<equiv> XBOX_R_Y"

datatype ControllerButtons =
    XBOX_DPAD_UP | XBOX_DPAD_DOWN | XBOX_DPAD_LEFT | XBOX_DPAD_RIGHT | XBOX_START | XBOX_BACK
  | XBOX_LEFT_STICK | XBOX_RIGHT_STICK | XBOX_LB | XBOX_RB | XBOX_HOME | XBOX_UNUSED
  | XBOX_A | XBOX_B | XBOX_X | XBOX_Y

fun btn :: "ControllerButtons \<Rightarrow> nat" where
  "btn XBOX_DPAD_UP = 0" | "btn XBOX_DPAD_DOWN = 1" | "btn XBOX_DPAD_LEFT = 2"
| "btn XBOX_DPAD_RIGHT = 3" | "btn XBOX_START = 4" | "btn XBOX_BACK = 5"
| "btn XBOX_LEFT_STICK = 6" | "btn XBOX_RIGHT_STICK = 7" | "btn XBOX_LB = 8" | "btn XBOX_RB = 9"
| "btn XBOX_HOME = 10" | "btn XBOX_UNUSED = 11" | "btn XBOX_A = 12" | "btn XBOX_B = 13"
| "btn XBOX_X = 14" | "btn XBOX_Y = 15"

datatype SwitchButtons =
    SWITCH_Y | SWITCH_B | SWITCH_A | SWITCH_X | SWITCH_L | SWITCH_R | SWITCH_ZL | SWITCH_ZR
  | SWITCH_SELECT | SWITCH_START | SWITCH_LEFT_STICK | SWITCH_RIGHT_STICK | SWITCH_HOME
  | SWITCH_CAPTURE

fun sw :: "SwitchButtons \<Rightarrow> nat" where
  "sw SWITCH_Y = 0" | "sw SWITCH_B = 1" | "sw SWITCH_A = 2" | "sw SWITCH_X = 3"
| "sw SWITCH_L = 4" | "sw SWITCH_R = 5" | "sw SWITCH_ZL = 6" | "sw SWITCH_ZR = 7"
| "sw SWITCH_SELECT = 8" | "sw SWITCH_START = 9" | "sw SWITCH_LEFT_STICK = 10"
| "sw SWITCH_RIGHT_STICK = 11" | "sw SWITCH_HOME = 12" | "sw SWITCH_CAPTURE = 13"

lemma btn_less: "btn b < 16"
  by (cases b) simp_all

subsection \<open>The other views of a controller\<close>

text \<open>
  The code also reads a \<open>Controller_t\<close> through \<open>ControllerCombined_t\<close> (two triggers, four
  sticks, as arrays), through \<open>Guitar_t\<close> (\<open>r_x\<close> as an unsigned \<open>whammy\<close>) and as raw bytes.
\<close>

definition controller_bytes :: "Controller_t \<Rightarrow> u8 list" where
  "controller_bytes c = le16 (buttons c) @ [lt c, rt c] @ le16 (l_x c) @ le16 (l_y c) @
                        le16 (r_x c) @ le16 (r_y c)"

definition triggers_get :: "Controller_t \<Rightarrow> nat \<Rightarrow> u8" where
  "triggers_get c k = controller_bytes c ! (2 + k)"

definition sticks_get :: "Controller_t \<Rightarrow> nat \<Rightarrow> i16" where
  "sticks_get c k = [l_x c, l_y c, r_x c, r_y c] ! k"

fun sticks_put :: "nat \<Rightarrow> i16 \<Rightarrow> Controller_t \<Rightarrow> Controller_t" where
  "sticks_put k v c =
     (if k = 0 then c\<lparr>l_x := v\<rparr> else if k = 1 then c\<lparr>l_y := v\<rparr>
      else if k = 2 then c\<lparr>r_x := v\<rparr> else if k = 3 then c\<lparr>r_y := v\<rparr> else c)"

fun triggers_put :: "nat \<Rightarrow> u8 \<Rightarrow> Controller_t \<Rightarrow> Controller_t" where
  "triggers_put k v c =
     (if k = 0 then c\<lparr>lt := v\<rparr> else if k = 1 then c\<lparr>rt := v\<rparr> else c)"

definition whammy :: "Controller_t \<Rightarrow> u16" where "whammy c = r_x c"

lemma length_controller_bytes [simp, layout]: "length (controller_bytes c) = 12"
  by (simp add: controller_bytes_def)

end
