(* ===== verification/Configuration.thy ===== *)
theory Configuration
  imports Config
begin

text \<open>
  The persistent configuration: the packed structs of \<open>config/config.h\<close>, their default values
  (\<open>config/defaults.h\<close>) and the 275-byte image \<open>(uint8_t *)&config\<close> through which it is stored
  and transferred. Enum-valued fields are bytes, as in the code: nothing checks a stored byte.
\<close>

section \<open>config/config.h\<close>

record AnalogPin_t =
  apin_pin :: u8
  apin_inverted :: bool

record Pins_t =
  pin_up :: u8
  pin_down :: u8
  pin_left :: u8
  pin_right :: u8
  pin_start :: u8
  pin_back :: u8
  pin_left_stick :: u8
  pin_right_stick :: u8
  pin_LB :: u8
  pin_RB :: u8
  pin_home :: u8
  pin_capture :: u8
  pin_a :: u8
  pin_b :: u8
  pin_x :: u8
  pin_y :: u8
  pin_lt :: AnalogPin_t
  pin_rt :: AnalogPin_t
  pin_l_x :: AnalogPin_t
  pin_l_y :: AnalogPin_t
  pin_r_x :: AnalogPin_t
  pin_r_y :: AnalogPin_t

text \<open>The view \<open>PinsCombined_t\<close>: the same bytes, as arrays.\<close>

definition pins_buttons :: "Pins_t \<Rightarrow> u8 list" where
  "pins_buttons p =
     [pin_up p, pin_down p, pin_left p, pin_right p, pin_start p, pin_back p, pin_left_stick p,
      pin_right_stick p, pin_LB p, pin_RB p, pin_home p, pin_capture p, pin_a p, pin_b p, pin_x p,
      pin_y p]"

definition pins_axis :: "Pins_t \<Rightarrow> AnalogPin_t list" where
  "pins_axis p = [pin_lt p, pin_rt p, pin_l_x p, pin_l_y p, pin_r_x p, pin_r_y p]"

record AnalogKey_t =
  key_neg :: u8
  key_pos :: u8

record Keys_t =
  key_up :: u8
  key_down :: u8
  key_left :: u8
  key_right :: u8
  key_start :: u8
  key_back :: u8
  key_left_stick :: u8
  key_right_stick :: u8
  key_LB :: u8
  key_RB :: u8
  key_home :: u8
  key_capture :: u8
  key_a :: u8
  key_b :: u8
  key_x :: u8
  key_y :: u8
  key_lt :: u8
  key_rt :: u8
  key_l_x :: AnalogKey_t
  key_l_y :: AnalogKey_t
  key_r_x :: AnalogKey_t
  key_r_y :: AnalogKey_t

definition keys_buttons :: "Keys_t \<Rightarrow> u8 list" where
  "keys_buttons k =
     [key_up k, key_down k, key_left k, key_right k, key_start k, key_back k, key_left_stick k,
      key_right_stick k, key_LB k, key_RB k, key_home k, key_capture k, key_a k, key_b k, key_x k,
      key_y k]"

record MainConfig_t =
  inputType :: u8
  subType :: u8
  tiltType :: u8
  pollRate :: u8
  fretLEDMode :: u8
  mapLeftJoystickToDPad :: bool
  mapStartSelectToHome :: bool
  mapNunchukAccelToRightJoy :: bool
  cfg_signature :: u32
  cfg_version :: u32

record AxisConfig_t =
  triggerThreshold :: u8
  joyThreshold :: u8
  drumThreshold :: u8
  mpu6050Orientation :: u8
  tiltSensitivity :: i16

record MidiConfig_t =
  midi_type :: "u8 list"
  midi_note :: "u8 list"
  midi_channel :: "u8 list"

record RFConfig_t =
  rfInEnabled :: bool
  rf_id :: u32

record AxisScale_t =
  scale_multiplier :: i16
  scale_offset :: i16
  scale_deadzone :: i16

record AxisScaleConfig_t =
  sc_lt :: AxisScale_t
  sc_rt :: AxisScale_t
  sc_l_x :: AxisScale_t
  sc_l_y :: AxisScale_t
  sc_r_x :: AxisScale_t
  sc_r_y :: AxisScale_t

record DebounceConfig_t =
  deb_buttons :: u8
  deb_strum :: u8
  combinedStrum :: bool

record Configuration_t =
  cfg_main :: MainConfig_t
  cfg_pins :: Pins_t
  cfg_axis :: AxisConfig_t
  cfg_keys :: Keys_t
  cfg_leds :: "Led_t list"
  cfg_midi :: MidiConfig_t
  cfg_rf :: RFConfig_t
  cfg_pinsSP :: u8
  cfg_axisScale :: AxisScaleConfig_t
  cfg_debounce :: DebounceConfig_t

text \<open>The arrays of the struct have their declared lengths.\<close>

definition config_wf :: "Configuration_t \<Rightarrow> bool" where
  "config_wf c \<longleftrightarrow> length (cfg_leds c) = 22 \<and> length (midi_type (cfg_midi c)) = 22 \<and>
     length (midi_note (cfg_midi c)) = 22 \<and> length (midi_channel (cfg_midi c)) = 22"

section \<open>config/defaults.h\<close>

definition CONFIG_VERSION :: u32 where "CONFIG_VERSION = 15"
definition POLL_RATE :: u8 where "POLL_RATE = 0"

definition DEFAULT_AXIS_SCALE :: AxisScale_t where
  "DEFAULT_AXIS_SCALE =
     \<lparr>scale_multiplier = 0, scale_offset = - 32768, scale_deadzone = 32767\<rparr>"

definition DEFAULT_AXIS_SCALE_TRIGGER :: AxisScale_t where
  "DEFAULT_AXIS_SCALE_TRIGGER =
     \<lparr>scale_multiplier = 0, scale_offset = - 32768, scale_deadzone = 0\<rparr>"

definition INVALID_AN_PIN :: AnalogPin_t where
  "INVALID_AN_PIN = \<lparr>apin_pin = INVALID_PIN, apin_inverted = False\<rparr>"

definition EMPTY_KEY :: AnalogKey_t where
  "EMPTY_KEY = \<lparr>key_neg = INVALID_PIN, key_pos = 0\<rparr>"

definition KEYS :: Keys_t where
  "KEYS = \<lparr>key_up = 0x04, key_down = 0x16, key_left = 0x0d, key_right = 0x0e, key_start = 0x0f,
     key_back = 0x33, key_left_stick = 0x28, key_right_stick = 0x0b, key_LB = 0x50, key_RB = 0x4f,
     key_home = 0x52, key_capture = 0x51, key_a = 0x51, key_b = INVALID_PIN, key_x = INVALID_PIN,
     key_y = INVALID_PIN, key_lt = INVALID_PIN, key_rt = INVALID_PIN, key_l_x = EMPTY_KEY,
     key_l_y = EMPTY_KEY, key_r_x = EMPTY_KEY, key_r_y = EMPTY_KEY\<rparr>"

definition PINS :: Pins_t where
  "PINS = \<lparr>pin_up = INVALID_PIN, pin_down = INVALID_PIN, pin_left = INVALID_PIN,
     pin_right = INVALID_PIN, pin_start = INVALID_PIN, pin_back = INVALID_PIN,
     pin_left_stick = INVALID_PIN, pin_right_stick = INVALID_PIN, pin_LB = INVALID_PIN,
     pin_RB = INVALID_PIN, pin_home = INVALID_PIN, pin_capture = INVALID_PIN, pin_a = INVALID_PIN,
     pin_b = INVALID_PIN, pin_x = INVALID_PIN, pin_y = INVALID_PIN, pin_lt = INVALID_AN_PIN,
     pin_rt = INVALID_AN_PIN, pin_l_x = INVALID_AN_PIN, pin_l_y = INVALID_AN_PIN,
     pin_r_x = INVALID_AN_PIN, pin_r_y = INVALID_AN_PIN\<rparr>"

definition led_entry :: "nat \<Rightarrow> string \<Rightarrow> Led_t" where
  "led_entry b col = (case COLOUR (the (colour col)) of (r, g, bl) \<Rightarrow>
     \<lparr>led_pin = of_nat (b + 1), led_red = r, led_green = g, led_blue = bl\<rparr>)"

definition LED_PINS :: "Led_t list" where
  "LED_PINS =
     [led_entry (btn XBOX_A) ''Green'', led_entry (btn XBOX_B) ''Red'',
      led_entry (btn XBOX_Y) ''Yellow'', led_entry (btn XBOX_X) ''Blue'',
      led_entry (btn XBOX_LB) ''OrangeRed''] @
     replicate 17 \<lparr>led_pin = 0, led_red = 0, led_green = 0, led_blue = 0\<rparr>"

definition DEFAULT_CONFIG_MAIN :: MainConfig_t where
  "DEFAULT_CONFIG_MAIN =
     \<lparr>inputType = input_val DIRECT, subType = subtype_val XINPUT_GUITAR_HERO_GUITAR,
      tiltType = 0, pollRate = POLL_RATE, fretLEDMode = fret_val LEDS_DISABLED,
      mapLeftJoystickToDPad = True, mapStartSelectToHome = True, mapNunchukAccelToRightJoy = True,
      cfg_signature = firmware_val ARDWIINO_DEVICE_TYPE, cfg_version = CONFIG_VERSION\<rparr>"

definition DEFAULT_THRESHOLDS :: AxisConfig_t where
  "DEFAULT_THRESHOLDS =
     \<lparr>triggerThreshold = 64, joyThreshold = 64, drumThreshold = 64,
      mpu6050Orientation = gyro_val GYRO_X, tiltSensitivity = 3000\<rparr>"

definition DEFAULT_MIDI :: MidiConfig_t where
  "DEFAULT_MIDI =
     \<lparr>midi_type = replicate 22 0, midi_note = replicate 22 0, midi_channel = replicate 22 0\<rparr>"

definition DEFAULT_AXIS_SCALES :: AxisScaleConfig_t where
  "DEFAULT_AXIS_SCALES =
     \<lparr>sc_lt = DEFAULT_AXIS_SCALE_TRIGGER, sc_rt = DEFAULT_AXIS_SCALE_TRIGGER,
      sc_l_x = DEFAULT_AXIS_SCALE, sc_l_y = DEFAULT_AXIS_SCALE, sc_r_x = DEFAULT_AXIS_SCALE,
      sc_r_y = DEFAULT_AXIS_SCALE\<rparr>"

definition DEFAULT_DEBOUNCE :: DebounceConfig_t where
  "DEFAULT_DEBOUNCE = \<lparr>deb_buttons = 5, deb_strum = 20, combinedStrum = False\<rparr>"

definition DEFAULT_CONFIG :: Configuration_t where
  "DEFAULT_CONFIG =
     \<lparr>cfg_main = DEFAULT_CONFIG_MAIN, cfg_pins = PINS, cfg_axis = DEFAULT_THRESHOLDS,
      cfg_keys = KEYS, cfg_leds = LED_PINS, cfg_midi = DEFAULT_MIDI,
      cfg_rf = \<lparr>rfInEnabled = False, rf_id = 0\<rparr>, cfg_pinsSP = INVALID_PIN,
      cfg_axisScale = DEFAULT_AXIS_SCALES, cfg_debounce = DEFAULT_DEBOUNCE\<rparr>"

lemma default_config_wf: "config_wf DEFAULT_CONFIG"
  by (simp add: config_wf_def DEFAULT_CONFIG_def LED_PINS_def DEFAULT_MIDI_def)

end
