(* ===== verification/Layout.thy ===== *)
theory Layout
  imports Configuration
begin

text \<open>
  The packed byte image of \<open>Configuration_t\<close> (\<open>#pragma pack(1)\<close>, little endian), with the offset
  of every sub-struct, and the round trip between the struct and its image. A \<open>bool\<close> byte other
  than 0 and 1 is read as true.
\<close>

section \<open>Encoding\<close>

definition enc_apin :: "AnalogPin_t \<Rightarrow> u8 list" where
  "enc_apin a = [apin_pin a, byte_of_bool (apin_inverted a)]"

definition enc_pins :: "Pins_t \<Rightarrow> u8 list" where
  "enc_pins p = pins_buttons p @ concat (map enc_apin (pins_axis p))"

definition enc_akey :: "AnalogKey_t \<Rightarrow> u8 list" where
  "enc_akey a = [key_neg a, key_pos a]"

definition enc_keys :: "Keys_t \<Rightarrow> u8 list" where
  "enc_keys k = keys_buttons k @ [key_lt k, key_rt k] @ enc_akey (key_l_x k) @
     enc_akey (key_l_y k) @ enc_akey (key_r_x k) @ enc_akey (key_r_y k)"

definition enc_main :: "MainConfig_t \<Rightarrow> u8 list" where
  "enc_main m = [inputType m, subType m, tiltType m, pollRate m, fretLEDMode m,
     byte_of_bool (mapLeftJoystickToDPad m), byte_of_bool (mapStartSelectToHome m),
     byte_of_bool (mapNunchukAccelToRightJoy m)] @ le32 (cfg_signature m) @ le32 (cfg_version m)"

definition enc_axis :: "AxisConfig_t \<Rightarrow> u8 list" where
  "enc_axis a = [triggerThreshold a, joyThreshold a, drumThreshold a, mpu6050Orientation a] @
     le16 (tiltSensitivity a)"

definition enc_led :: "Led_t \<Rightarrow> u8 list" where
  "enc_led l = [led_pin l, led_red l, led_green l, led_blue l]"

definition enc_midi :: "MidiConfig_t \<Rightarrow> u8 list" where
  "enc_midi m = midi_type m @ midi_note m @ midi_channel m"

definition enc_rf :: "RFConfig_t \<Rightarrow> u8 list" where
  "enc_rf r = byte_of_bool (rfInEnabled r) # le32 (rf_id r)"

definition enc_scale :: "AxisScale_t \<Rightarrow> u8 list" where
  "enc_scale s = le16 (scale_multiplier s) @ le16 (scale_offset s) @ le16 (scale_deadzone s)"

definition scale_list :: "AxisScaleConfig_t \<Rightarrow> AxisScale_t list" where
  "scale_list s = [sc_lt s, sc_rt s, sc_l_x s, sc_l_y s, sc_r_x s, sc_r_y s]"

definition enc_scales :: "AxisScaleConfig_t \<Rightarrow> u8 list" where
  "enc_scales s = concat (map enc_scale (scale_list s))"

definition enc_debounce :: "DebounceConfig_t \<Rightarrow> u8 list" where
  "enc_debounce d = [deb_buttons d, deb_strum d, byte_of_bool (combinedStrum d)]"

definition config_bytes :: "Configuration_t \<Rightarrow> u8 list" where
  "config_bytes c = enc_main (cfg_main c) @ enc_pins (cfg_pins c) @ enc_axis (cfg_axis c) @
     enc_keys (cfg_keys c) @ concat (map enc_led (cfg_leds c)) @ enc_midi (cfg_midi c) @
     enc_rf (cfg_rf c) @ [cfg_pinsSP c] @ enc_scales (cfg_axisScale c) @
     enc_debounce (cfg_debounce c)"

section \<open>Decoding\<close>

definition dec_apin :: "u8 list \<Rightarrow> AnalogPin_t" where
  "dec_apin bs = \<lparr>apin_pin = bs ! 0, apin_inverted = truthy (bs ! 1)\<rparr>"

definition dec_pins :: "u8 list \<Rightarrow> Pins_t" where
  "dec_pins bs = \<lparr>pin_up = bs ! 0, pin_down = bs ! 1, pin_left = bs ! 2, pin_right = bs ! 3,
     pin_start = bs ! 4, pin_back = bs ! 5, pin_left_stick = bs ! 6, pin_right_stick = bs ! 7,
     pin_LB = bs ! 8, pin_RB = bs ! 9, pin_home = bs ! 10, pin_capture = bs ! 11, pin_a = bs ! 12,
     pin_b = bs ! 13, pin_x = bs ! 14, pin_y = bs ! 15, pin_lt = dec_apin (drop 16 bs),
     pin_rt = dec_apin (drop 18 bs), pin_l_x = dec_apin (drop 20 bs),
     pin_l_y = dec_apin (drop 22 bs), pin_r_x = dec_apin (drop 24 bs),
     pin_r_y = dec_apin (drop 26 bs)\<rparr>"

definition dec_akey :: "u8 list \<Rightarrow> AnalogKey_t" where
  "dec_akey bs = \<lparr>key_neg = bs ! 0, key_pos = bs ! 1\<rparr>"

definition dec_keys :: "u8 list \<Rightarrow> Keys_t" where
  "dec_keys bs = \<lparr>key_up = bs ! 0, key_down = bs ! 1, key_left = bs ! 2, key_right = bs ! 3,
     key_start = bs ! 4, key_back = bs ! 5, key_left_stick = bs ! 6, key_right_stick = bs ! 7,
     key_LB = bs ! 8, key_RB = bs ! 9, key_home = bs ! 10, key_capture = bs ! 11, key_a = bs ! 12,
     key_b = bs ! 13, key_x = bs ! 14, key_y = bs ! 15, key_lt = bs ! 16, key_rt = bs ! 17,
     key_l_x = dec_akey (drop 18 bs), key_l_y = dec_akey (drop 20 bs),
     key_r_x = dec_akey (drop 22 bs), key_r_y = dec_akey (drop 24 bs)\<rparr>"

definition dec_main :: "u8 list \<Rightarrow> MainConfig_t" where
  "dec_main bs = \<lparr>inputType = bs ! 0, subType = bs ! 1, tiltType = bs ! 2, pollRate = bs ! 3,
     fretLEDMode = bs ! 4, mapLeftJoystickToDPad = truthy (bs ! 5),
     mapStartSelectToHome = truthy (bs ! 6), mapNunchukAccelToRightJoy = truthy (bs ! 7),
     cfg_signature = un_le32 (drop 8 bs), cfg_version = un_le32 (drop 12 bs)\<rparr>"

definition dec_axis :: "u8 list \<Rightarrow> AxisConfig_t" where
  "dec_axis bs = \<lparr>triggerThreshold = bs ! 0, joyThreshold = bs ! 1, drumThreshold = bs ! 2,
     mpu6050Orientation = bs ! 3, tiltSensitivity = un_le16 (drop 4 bs)\<rparr>"

definition dec_led :: "u8 list \<Rightarrow> Led_t" where
  "dec_led bs = \<lparr>led_pin = bs ! 0, led_red = bs ! 1, led_green = bs ! 2, led_blue = bs ! 3\<rparr>"

definition dec_leds :: "nat \<Rightarrow> u8 list \<Rightarrow> Led_t list" where
  "dec_leds n bs = map (\<lambda>i. dec_led (drop (4 * i) bs)) [0..<n]"

definition dec_midi :: "u8 list \<Rightarrow> MidiConfig_t" where
  "dec_midi bs = \<lparr>midi_type = take 22 bs, midi_note = take 22 (drop 22 bs),
     midi_channel = take 22 (drop 44 bs)\<rparr>"

definition dec_rf :: "u8 list \<Rightarrow> RFConfig_t" where
  "dec_rf bs = \<lparr>rfInEnabled = truthy (bs ! 0), rf_id = un_le32 (drop 1 bs)\<rparr>"

definition dec_scale :: "u8 list \<Rightarrow> AxisScale_t" where
  "dec_scale bs = \<lparr>scale_multiplier = un_le16 bs, scale_offset = un_le16 (drop 2 bs),
     scale_deadzone = un_le16 (drop 4 bs)\<rparr>"

definition dec_scales :: "u8 list \<Rightarrow> AxisScaleConfig_t" where
  "dec_scales bs = \<lparr>sc_lt = dec_scale bs, sc_rt = dec_scale (drop 6 bs),
     sc_l_x = dec_scale (drop 12 bs), sc_l_y = dec_scale (drop 18 bs),
     sc_r_x = dec_scale (drop 24 bs), sc_r_y = dec_scale (drop 30 bs)\<rparr>"

definition dec_debounce :: "u8 list \<Rightarrow> DebounceConfig_t" where
  "dec_debounce bs = \<lparr>deb_buttons = bs ! 0, deb_strum = bs ! 1, combinedStrum = truthy (bs ! 2)\<rparr>"

definition config_of_bytes :: "u8 list \<Rightarrow> Configuration_t" where
  "config_of_bytes bs = \<lparr>cfg_main = dec_main bs, cfg_pins = dec_pins (drop 16 bs),
     cfg_axis = dec_axis (drop 44 bs), cfg_keys = dec_keys (drop 50 bs),
     cfg_leds = dec_leds 22 (drop 76 bs), cfg_midi = dec_midi (drop 164 bs),
     cfg_rf = dec_rf (drop 230 bs), cfg_pinsSP = bs ! 235,
     cfg_axisScale = dec_scales (drop 236 bs), cfg_debounce = dec_debounce (drop 272 bs)\<rparr>"

definition config_size :: nat where "config_size = 275"

section \<open>Sizes\<close>

lemma length_enc [simp, layout]:
  "length (enc_apin a) = 2" "length (enc_akey k) = 2" "length (enc_led l) = 4"
  "length (enc_scale s) = 6" "length (enc_main m) = 16" "length (enc_axis x) = 6"
  "length (enc_rf r) = 5" "length (enc_debounce d) = 3"
  by (simp_all add: enc_apin_def enc_akey_def enc_led_def enc_scale_def enc_main_def enc_axis_def
      enc_rf_def enc_debounce_def)

lemma length_enc_structs [simp, layout]:
  "length (enc_pins p) = 28" "length (enc_keys k) = 26" "length (enc_scales s) = 36"
  by (simp_all add: enc_pins_def pins_buttons_def pins_axis_def enc_keys_def keys_buttons_def
      enc_scales_def scale_list_def)

lemma length_concat_uniform:
  "(\<And>x. length (f x) = k) \<Longrightarrow> length (concat (map f xs)) = k * length xs"
  by (induction xs) simp_all

lemma drop_concat_uniform:
  assumes "\<And>x. length (f x) = k" "i < length xs"
  shows "drop (k * i) (concat (map f xs)) = f (xs ! i) @ concat (map f (drop (Suc i) xs))"
  using assms(2)
proof (induction xs arbitrary: i)
  case (Cons x xs)
  then show ?case using assms(1) by (cases i) simp_all
qed simp

lemma config_bytes_length: "config_wf c \<Longrightarrow> length (config_bytes c) = config_size"
  by (simp add: config_bytes_def config_wf_def config_size_def enc_midi_def
      length_concat_uniform [where k = 4])

section \<open>Round trip\<close>

lemma dec_apin_enc [simp]: "dec_apin (enc_apin a @ r) = a"
  by (simp add: dec_apin_def enc_apin_def)

lemma dec_akey_enc [simp]: "dec_akey (enc_akey a @ r) = a"
  by (simp add: dec_akey_def enc_akey_def)

lemma dec_led_enc [simp]: "dec_led (enc_led l @ r) = l"
  by (simp add: dec_led_def enc_led_def)

lemma dec_main_enc [simp]: "dec_main (enc_main m @ r) = m"
  by (simp add: dec_main_def enc_main_def)

lemma dec_axis_enc [simp]: "dec_axis (enc_axis a @ r) = a"
  by (simp add: dec_axis_def enc_axis_def)

lemma dec_rf_enc [simp]: "dec_rf (enc_rf a @ r) = a"
  by (simp add: dec_rf_def enc_rf_def)

lemma dec_scale_enc [simp]: "dec_scale (enc_scale s @ r) = s"
  by (simp add: dec_scale_def enc_scale_def)

lemma dec_debounce_enc [simp]: "dec_debounce (enc_debounce d) = d"
  by (simp add: dec_debounce_def enc_debounce_def)

lemma dec_pins_enc [simp]: "dec_pins (enc_pins p @ r) = p"
  by (simp add: dec_pins_def enc_pins_def pins_buttons_def pins_axis_def)

lemma dec_keys_enc [simp]: "dec_keys (enc_keys k @ r) = k"
  by (simp add: dec_keys_def enc_keys_def keys_buttons_def)

lemma dec_scales_enc [simp]: "dec_scales (enc_scales s @ r) = s"
  by (simp add: dec_scales_def enc_scales_def scale_list_def)

lemma dec_leds_enc:
  assumes "length ls = n"
  shows "dec_leds n (concat (map enc_led ls) @ r) = ls"
proof (rule nth_equalityI)
  show "length (dec_leds n (concat (map enc_led ls) @ r)) = length ls"
    using assms by (simp add: dec_leds_def)
  fix i assume "i < length (dec_leds n (concat (map enc_led ls) @ r))"
  then have i: "i < length ls" using assms by (simp add: dec_leds_def)
  then have "drop (4 * i) (concat (map enc_led ls) @ r) =
      enc_led (ls ! i) @ concat (map enc_led (drop (Suc i) ls)) @ r"
    by (simp add: drop_concat_uniform [where k = 4] length_concat_uniform [where k = 4])
  with i assms show "dec_leds n (concat (map enc_led ls) @ r) ! i = ls ! i"
    by (simp add: dec_leds_def)
qed

lemma config_of_bytes_bytes:
  assumes "config_wf c"
  shows "config_of_bytes (config_bytes c @ r) = c"
proof -
  have [simp]: "length (concat (map enc_led (cfg_leds c))) = 88"
    using assms by (simp add: length_concat_uniform [where k = 4] config_wf_def)
  have [simp]: "length (enc_midi (cfg_midi c)) = 66"
    using assms by (simp add: enc_midi_def config_wf_def)
  have [simp]: "dec_midi (enc_midi (cfg_midi c) @ s) = cfg_midi c" for s
    using assms by (simp add: dec_midi_def enc_midi_def config_wf_def)
  have [simp]: "dec_leds 22 (concat (map enc_led (cfg_leds c)) @ s) = cfg_leds c" for s
    using assms by (simp add: dec_leds_enc config_wf_def)
  have [simp]: "dec_debounce (enc_debounce d @ s) = d" for d s
    by (simp add: dec_debounce_def enc_debounce_def)
  show ?thesis
    by (simp add: config_of_bytes_def config_bytes_def nth_append)
qed

lemma config_of_bytes_wf: "275 \<le> length bs \<Longrightarrow> config_wf (config_of_bytes bs)"
  by (simp add: config_of_bytes_def config_wf_def dec_leds_def dec_midi_def)

end
