(* ===== verification/Eeprom.thy ===== *)
theory Eeprom
  imports Layout
begin

text \<open>
  The subtype table of \<open>controller/guitar_includes.c\<close> and the persistent configuration of
  \<open>src/src/avr/lib/eeprom/eeprom.c\<close>: reading it with the migrations of older versions, writing
  and reading blocks of its image, resetting it.

  The EEPROM is a map from addresses to bytes. The linker places the two EEMEM variables:
  \<open>cp\<close> is the address of \<open>config_pointer\<close>, \<open>tp\<close> that of \<open>test\<close>. \<open>past\<close> is the byte that
  flash holds past the end of the table \<open>types\<close>, which the code reads for a subtype above 40.
\<close>

section \<open>controller/guitar_includes.c\<close>

definition DRUM :: u8 where "DRUM = 1"
definition GUITAR :: u8 where "GUITAR = 2"

fun type_of_subtype :: "SubType \<Rightarrow> u8" where
  "type_of_subtype PS3_GUITAR_HERO_DRUMS = DRUM"
| "type_of_subtype PS3_ROCK_BAND_DRUMS = DRUM"
| "type_of_subtype WII_ROCK_BAND_DRUMS = DRUM"
| "type_of_subtype XINPUT_ROCK_BAND_DRUMS = DRUM"
| "type_of_subtype XINPUT_GUITAR_HERO_DRUMS = DRUM"
| "type_of_subtype MIDI_ROCK_BAND_DRUMS = DRUM"
| "type_of_subtype MIDI_GUITAR_HERO_DRUMS = DRUM"
| "type_of_subtype PS3_GUITAR_HERO_GUITAR = GUITAR"
| "type_of_subtype PS3_ROCK_BAND_GUITAR = GUITAR"
| "type_of_subtype WII_ROCK_BAND_GUITAR = GUITAR"
| "type_of_subtype XINPUT_ROCK_BAND_GUITAR = GUITAR"
| "type_of_subtype XINPUT_GUITAR_HERO_GUITAR = GUITAR"
| "type_of_subtype XINPUT_LIVE_GUITAR = GUITAR"
| "type_of_subtype MIDI_ROCK_BAND_GUITAR = GUITAR"
| "type_of_subtype MIDI_GUITAR_HERO_GUITAR = GUITAR"
| "type_of_subtype MIDI_LIVE_GUITAR = GUITAR"
| "type_of_subtype KEYBOARD_GUITAR_HERO_DRUMS = DRUM"
| "type_of_subtype KEYBOARD_GUITAR_HERO_GUITAR = GUITAR"
| "type_of_subtype KEYBOARD_ROCK_BAND_DRUMS = DRUM"
| "type_of_subtype KEYBOARD_ROCK_BAND_GUITAR = GUITAR"
| "type_of_subtype KEYBOARD_LIVE_GUITAR = GUITAR"
| "type_of_subtype _ = 0"

text \<open>The same table as the array of 41 bytes that the code indexes.\<close>

definition types :: "u8 list" where
  "types = [0, 0, 0, 0, 0, 0, 0, 0, 0, GUITAR, 0, 0, DRUM, DRUM, GUITAR, GUITAR, 0, 0, 0, 0,
            0, GUITAR, GUITAR, GUITAR, DRUM, DRUM, 0, GUITAR, DRUM, GUITAR, DRUM, 0, GUITAR, DRUM,
            0, 0, GUITAR, GUITAR, GUITAR, DRUM, DRUM]"

definition types_byte :: "(u8 \<Rightarrow> u8) \<Rightarrow> u8 \<Rightarrow> u8" where
  "types_byte past st = (if unat st < length types then types ! unat st else past st)"

definition isDrum :: "(u8 \<Rightarrow> u8) \<Rightarrow> u8 \<Rightarrow> bool" where
  "isDrum past st \<longleftrightarrow> types_byte past st = DRUM"

definition isGuitar :: "(u8 \<Rightarrow> u8) \<Rightarrow> u8 \<Rightarrow> bool" where
  "isGuitar past st \<longleftrightarrow> types_byte past st = GUITAR"

lemma types_table: "types_byte past (subtype_val s) = type_of_subtype s"
  by (cases s) (simp_all add: types_byte_def types_def)

lemma not_drum_and_guitar: "\<not> (isDrum past st \<and> isGuitar past st)"
  by (simp add: isDrum_def isGuitar_def DRUM_def GUITAR_def)

section \<open>The EEPROM and its block operations\<close>

type_synonym eeprom = "nat \<Rightarrow> u8"

definition eeprom_read_block :: "eeprom \<Rightarrow> nat \<Rightarrow> nat \<Rightarrow> u8 list" where
  "eeprom_read_block ee a n = map ee [a..<a + n]"

definition eeprom_update_block :: "u8 list \<Rightarrow> nat \<Rightarrow> eeprom \<Rightarrow> eeprom" where
  "eeprom_update_block bs a ee =
     (\<lambda>x. if a \<le> x \<and> x < a + length bs then bs ! (x - a) else ee x)"

definition writeConfigByte :: "nat \<Rightarrow> u16 \<Rightarrow> u8 \<Rightarrow> eeprom \<Rightarrow> eeprom" where
  "writeConfigByte cp off b ee = ee(cp + unat off := b)"

definition writeConfigBlock :: "nat \<Rightarrow> u16 \<Rightarrow> u8 list \<Rightarrow> eeprom \<Rightarrow> eeprom" where
  "writeConfigBlock cp off bs ee = eeprom_update_block bs (cp + unat off) ee"

definition readConfigBlock :: "nat \<Rightarrow> u16 \<Rightarrow> nat \<Rightarrow> eeprom \<Rightarrow> u8 list" where
  "readConfigBlock cp off n ee = eeprom_read_block ee (cp + unat off) n"

definition resetConfig :: "nat \<Rightarrow> eeprom \<Rightarrow> eeprom" where
  "resetConfig cp ee = eeprom_update_block (config_bytes DEFAULT_CONFIG) cp ee"

lemma length_eeprom_read [simp]: "length (eeprom_read_block ee a n) = n"
  by (simp add: eeprom_read_block_def)

lemma read_update_same [simp]:
  "length bs = n \<Longrightarrow> eeprom_read_block (eeprom_update_block bs a ee) a n = bs"
  by (auto simp: eeprom_read_block_def eeprom_update_block_def intro!: nth_equalityI)

lemma read_update_disjoint:
  "a + length bs \<le> b \<or> b + n \<le> a \<Longrightarrow>
   eeprom_read_block (eeprom_update_block bs a ee) b n = eeprom_read_block ee b n"
  by (auto simp: eeprom_read_block_def eeprom_update_block_def intro!: nth_equalityI)

lemma update_update_append:
  "eeprom_update_block ys (a + length xs) (eeprom_update_block xs a ee) =
   eeprom_update_block (xs @ ys) a ee"
  by (rule ext) (auto simp: eeprom_update_block_def nth_append)

lemma update_singleton: "eeprom_update_block [b] a ee = ee(a := b)"
  by (rule ext) (auto simp: eeprom_update_block_def)

section \<open>loadConfig\<close>

abbreviation version_of :: "Configuration_t \<Rightarrow> u32" where
  "version_of c \<equiv> cfg_version (cfg_main c)"

definition set_main :: "(MainConfig_t \<Rightarrow> MainConfig_t) \<Rightarrow> Configuration_t \<Rightarrow> Configuration_t" where
  "set_main f c = c\<lparr>cfg_main := f (cfg_main c)\<rparr>"

definition read_config :: "eeprom \<Rightarrow> nat \<Rightarrow> Configuration_t" where
  "read_config ee a = config_of_bytes (eeprom_read_block ee a config_size)"

definition mig_signature :: "Configuration_t \<Rightarrow> Configuration_t" where
  "mig_signature c =
     (if cfg_signature (cfg_main c) \<noteq> firmware_val ARDWIINO_DEVICE_TYPE
      then set_main (\<lambda>m. m\<lparr>cfg_version := 0\<rparr>) DEFAULT_CONFIG else c)"

definition mig_midi :: "Configuration_t \<Rightarrow> Configuration_t" where
  "mig_midi c = (if version_of c < 2 then c\<lparr>cfg_midi := cfg_midi DEFAULT_CONFIG\<rparr> else c)"

definition mig_subtype :: "Configuration_t \<Rightarrow> Configuration_t" where
  "mig_subtype c =
     (let c1 = (if subType (cfg_main c) = REAL_GUITAR_SUBTYPE
                then set_main (\<lambda>m. m\<lparr>subType := subtype_val XINPUT_GUITAR_HERO_GUITAR\<rparr>) c else c)
      in if subType (cfg_main c1) = REAL_DRUM_SUBTYPE
         then set_main (\<lambda>m. m\<lparr>subType := subtype_val XINPUT_GUITAR_HERO_DRUMS\<rparr>) c1 else c1)"

definition mig_leds :: "Configuration_t \<Rightarrow> Configuration_t" where
  "mig_leds c = (if version_of c < 4 then c\<lparr>cfg_leds := cfg_leds DEFAULT_CONFIG\<rparr> else c)"

definition mig_poll :: "Configuration_t \<Rightarrow> Configuration_t" where
  "mig_poll c =
     (if version_of c < 6 then set_main (\<lambda>m. m\<lparr>pollRate := POLL_RATE\<rparr>) c else c)"

definition mig_rf :: "Configuration_t \<Rightarrow> Configuration_t" where
  "mig_rf c =
     (if version_of c < 7 then c\<lparr>cfg_rf := (cfg_rf c)\<lparr>rfInEnabled := False\<rparr>\<rparr> else c)"

definition flip_whammy :: "Configuration_t \<Rightarrow> Configuration_t" where
  "flip_whammy c = c\<lparr>cfg_pins := (cfg_pins c)\<lparr>pin_r_x := (pin_r_x (cfg_pins c))
     \<lparr>apin_inverted := \<not> apin_inverted (pin_r_x (cfg_pins c))\<rparr>\<rparr>\<rparr>"

definition mig_whammy :: "(u8 \<Rightarrow> u8) \<Rightarrow> Configuration_t \<Rightarrow> Configuration_t" where
  "mig_whammy past c =
     (if version_of c < 9 \<and> isGuitar past (subType (cfg_main c)) then flip_whammy c else c)"

definition mig_debounce :: "Configuration_t \<Rightarrow> Configuration_t" where
  "mig_debounce c =
     (if version_of c < 13
      then c\<lparr>cfg_debounce := cfg_debounce DEFAULT_CONFIG,
             cfg_axisScale := cfg_axisScale DEFAULT_CONFIG\<rparr> else c)"

definition gyro_new :: "u8 \<Rightarrow> u8" where
  "gyro_new g =
     (if g = gyro_old_val NEGATIVE_X \<or> g = gyro_old_val POSITIVE_X then gyro_val GYRO_X
      else if g = gyro_old_val NEGATIVE_Y \<or> g = gyro_old_val POSITIVE_Y then gyro_val GYRO_Y
      else if g = gyro_old_val NEGATIVE_Z \<or> g = gyro_old_val POSITIVE_Z then gyro_val GYRO_Z
      else g)"

definition mig_gyro :: "Configuration_t \<Rightarrow> Configuration_t" where
  "mig_gyro c =
     (if version_of c < 14
      then c\<lparr>cfg_axis := (cfg_axis c)\<lparr>mpu6050Orientation := gyro_new (mpu6050Orientation (cfg_axis c))\<rparr>\<rparr>
      else c)"

definition mig_strum :: "Configuration_t \<Rightarrow> Configuration_t" where
  "mig_strum c =
     (if version_of c < 15 then c\<lparr>cfg_debounce := (cfg_debounce c)\<lparr>combinedStrum := False\<rparr>\<rparr> else c)"

text \<open>All migrations, in the order of the code, up to the version bump.\<close>

definition migrate :: "(u8 \<Rightarrow> u8) \<Rightarrow> Configuration_t \<Rightarrow> Configuration_t" where
  "migrate past c =
     mig_strum (mig_gyro (mig_debounce (mig_whammy past (mig_rf (mig_poll (mig_leds
       (mig_subtype (mig_midi (mig_signature c)))))))))"

definition loadConfig ::
  "(u8 \<Rightarrow> u8) \<Rightarrow> nat \<Rightarrow> nat \<Rightarrow> eeprom \<Rightarrow> Configuration_t \<times> eeprom" where
  "loadConfig past cp tp ee =
     (let c0 = read_config ee cp;
          c1 = (if version_of c0 < 8 then read_config ee tp else c0);
          c2 = migrate past c1
      in if version_of c2 < CONFIG_VERSION
         then let c3 = set_main (\<lambda>m. m\<lparr>cfg_version := CONFIG_VERSION\<rparr>) c2
              in (c3, eeprom_update_block (config_bytes c3) cp ee)
         else (c2, ee))"

section \<open>Facts of the migrations\<close>

lemmas mig_defs =
  mig_midi_def mig_leds_def mig_poll_def mig_rf_def mig_whammy_def mig_debounce_def mig_gyro_def
  mig_strum_def flip_whammy_def set_main_def

lemma mig_keeps_version [simp]:
  "version_of (mig_midi c) = version_of c" "version_of (mig_subtype c) = version_of c"
  "version_of (mig_leds c) = version_of c" "version_of (mig_poll c) = version_of c"
  "version_of (mig_rf c) = version_of c" "version_of (mig_whammy past c) = version_of c"
  "version_of (mig_debounce c) = version_of c" "version_of (mig_gyro c) = version_of c"
  "version_of (mig_strum c) = version_of c"
  by (simp_all add: mig_defs mig_subtype_def Let_def)

lemma mig_keeps_signature [simp]:
  "cfg_signature (cfg_main (mig_midi c)) = cfg_signature (cfg_main c)"
  "cfg_signature (cfg_main (mig_subtype c)) = cfg_signature (cfg_main c)"
  "cfg_signature (cfg_main (mig_leds c)) = cfg_signature (cfg_main c)"
  "cfg_signature (cfg_main (mig_poll c)) = cfg_signature (cfg_main c)"
  "cfg_signature (cfg_main (mig_rf c)) = cfg_signature (cfg_main c)"
  "cfg_signature (cfg_main (mig_whammy past c)) = cfg_signature (cfg_main c)"
  "cfg_signature (cfg_main (mig_debounce c)) = cfg_signature (cfg_main c)"
  "cfg_signature (cfg_main (mig_gyro c)) = cfg_signature (cfg_main c)"
  "cfg_signature (cfg_main (mig_strum c)) = cfg_signature (cfg_main c)"
  by (simp_all add: mig_defs mig_subtype_def Let_def)

lemma mig_keeps_subtype [simp]:
  "subType (cfg_main (mig_leds c)) = subType (cfg_main c)"
  "subType (cfg_main (mig_poll c)) = subType (cfg_main c)"
  "subType (cfg_main (mig_rf c)) = subType (cfg_main c)"
  "subType (cfg_main (mig_whammy past c)) = subType (cfg_main c)"
  "subType (cfg_main (mig_debounce c)) = subType (cfg_main c)"
  "subType (cfg_main (mig_gyro c)) = subType (cfg_main c)"
  "subType (cfg_main (mig_strum c)) = subType (cfg_main c)"
  by (simp_all add: mig_defs)

lemma mig_keeps_wf [simp]:
  "config_wf c \<Longrightarrow> config_wf (mig_midi c)" "config_wf (mig_subtype c) = config_wf c"
  "config_wf c \<Longrightarrow> config_wf (mig_leds c)" "config_wf (mig_poll c) = config_wf c"
  "config_wf (mig_rf c) = config_wf c" "config_wf (mig_whammy past c) = config_wf c"
  "config_wf (mig_debounce c) = config_wf c" "config_wf (mig_gyro c) = config_wf c"
  "config_wf (mig_strum c) = config_wf c"
  using default_config_wf
  by (simp_all add: mig_defs mig_subtype_def Let_def config_wf_def)

lemma mig_subtype_modern:
  "subType (cfg_main (mig_subtype c)) \<noteq> REAL_GUITAR_SUBTYPE"
  "subType (cfg_main (mig_subtype c)) \<noteq> REAL_DRUM_SUBTYPE"
  by (simp_all add: mig_subtype_def set_main_def Let_def REAL_GUITAR_SUBTYPE_def
      REAL_DRUM_SUBTYPE_def)

lemma mig_subtype_id:
  "subType (cfg_main c) \<noteq> REAL_GUITAR_SUBTYPE \<Longrightarrow> subType (cfg_main c) \<noteq> REAL_DRUM_SUBTYPE \<Longrightarrow>
   mig_subtype c = c"
  by (simp add: mig_subtype_def)

lemma mig_signature_good [simp]:
  "cfg_signature (cfg_main (mig_signature c)) = firmware_val ARDWIINO_DEVICE_TYPE"
  by (simp add: mig_signature_def set_main_def DEFAULT_CONFIG_def DEFAULT_CONFIG_MAIN_def)

lemma mig_signature_wf [simp]: "config_wf c \<Longrightarrow> config_wf (mig_signature c)"
  using default_config_wf by (simp add: mig_signature_def set_main_def config_wf_def)

lemma migrate_version: "version_of (migrate past c) = version_of (mig_signature c)"
  by (simp add: migrate_def)

lemma migrate_valid:
  assumes "config_wf c"
  shows "cfg_signature (cfg_main (migrate past c)) = firmware_val ARDWIINO_DEVICE_TYPE"
    and "subType (cfg_main (migrate past c)) \<noteq> REAL_GUITAR_SUBTYPE"
    and "subType (cfg_main (migrate past c)) \<noteq> REAL_DRUM_SUBTYPE"
    and "config_wf (migrate past c)"
  using assms by (simp_all add: migrate_def mig_subtype_modern)

text \<open>An up-to-date configuration with a modern subtype is not changed.\<close>

lemma migrate_current:
  assumes "cfg_signature (cfg_main c) = firmware_val ARDWIINO_DEVICE_TYPE"
    and "\<not> version_of c < CONFIG_VERSION"
    and "subType (cfg_main c) \<noteq> REAL_GUITAR_SUBTYPE" "subType (cfg_main c) \<noteq> REAL_DRUM_SUBTYPE"
  shows "migrate past c = c"
proof -
  have "\<not> version_of c < k" if "k \<le> 15" for k
    using assms(2) that by (auto simp: CONFIG_VERSION_def)
  then have v: "\<not> version_of c < 2" "\<not> version_of c < 4" "\<not> version_of c < 6"
      "\<not> version_of c < 7" "\<not> version_of c < 9" "\<not> version_of c < 13" "\<not> version_of c < 14"
      "\<not> version_of c < 15"
    by simp_all
  have "mig_signature c = c" using assms(1) by (simp add: mig_signature_def)
  moreover have "mig_midi c = c" using v by (simp add: mig_midi_def)
  moreover have "mig_subtype c = c" using assms(3,4) by (rule mig_subtype_id)
  moreover have "mig_leds c = c" "mig_poll c = c" "mig_rf c = c" "mig_whammy past c = c"
      "mig_debounce c = c" "mig_gyro c = c" "mig_strum c = c"
    using v by (simp_all add: mig_leds_def mig_poll_def mig_rf_def mig_whammy_def
        mig_debounce_def mig_gyro_def mig_strum_def)
  ultimately show ?thesis by (simp add: migrate_def)
qed

lemma read_config_wf [simp]: "config_wf (read_config ee a)"
  by (simp add: read_config_def config_of_bytes_wf config_size_def)

lemma read_config_stored:
  assumes "config_wf c"
  shows "read_config (eeprom_update_block (config_bytes c) a ee) a = c"
  using config_of_bytes_bytes [OF assms, of "[]"] config_bytes_length [OF assms]
  by (simp add: read_config_def)

lemma loadConfig_stored:
  assumes "config_wf c" "cfg_signature (cfg_main c) = firmware_val ARDWIINO_DEVICE_TYPE"
    and "\<not> version_of c < CONFIG_VERSION"
    and "subType (cfg_main c) \<noteq> REAL_GUITAR_SUBTYPE" "subType (cfg_main c) \<noteq> REAL_DRUM_SUBTYPE"
    and stored: "read_config ee cp = c"
  shows "loadConfig past cp tp ee = (c, ee)"
proof -
  have "\<not> version_of c < 8"
    using assms(3) order.trans [of "8::u32" 15 "version_of c"]
    by (simp add: CONFIG_VERSION_def not_less)
  with assms(3) migrate_current [OF assms(2-5)] stored show ?thesis
    by (simp add: loadConfig_def)
qed

section \<open>Properties\<close>

text \<open>
  C1: whatever bytes the EEPROM holds, loadConfig returns a well-formed configuration with the
  firmware's signature, a current version and none of the two retired subtypes.
\<close>

theorem loadConfig_valid:
  "let c = fst (loadConfig past cp tp ee)
   in config_wf c \<and> cfg_signature (cfg_main c) = firmware_val ARDWIINO_DEVICE_TYPE \<and>
      CONFIG_VERSION \<le> cfg_version (cfg_main c) \<and>
      subType (cfg_main c) \<noteq> REAL_GUITAR_SUBTYPE \<and> subType (cfg_main c) \<noteq> REAL_DRUM_SUBTYPE"
proof -
  define c1 where "c1 = (if version_of (read_config ee cp) < 8 then read_config ee tp
                         else read_config ee cp)"
  have "config_wf c1" by (simp add: c1_def)
  note valid = migrate_valid [OF this, of past]
  have "fst (loadConfig past cp tp ee) = (if version_of (migrate past c1) < CONFIG_VERSION
      then set_main (\<lambda>m. m\<lparr>cfg_version := CONFIG_VERSION\<rparr>) (migrate past c1) else migrate past c1)"
    by (simp add: loadConfig_def Let_def c1_def)
  with valid show ?thesis
    by (auto simp: Let_def set_main_def config_wf_def not_less)
qed

text \<open>
  C2: loading is idempotent: after a load (which may have migrated the stored configuration and
  written it back), a second load returns the same configuration and leaves the EEPROM as it is.
\<close>

theorem loadConfig_idempotent:
  "loadConfig past cp tp (snd (loadConfig past cp tp ee)) = loadConfig past cp tp ee"
proof -
  define c1 where "c1 = (if version_of (read_config ee cp) < 8 then read_config ee tp
                         else read_config ee cp)"
  define c2 where "c2 = migrate past c1"
  define c3 where "c3 = set_main (\<lambda>m. m\<lparr>cfg_version := CONFIG_VERSION\<rparr>) c2"
  have load: "loadConfig past cp tp ee = (if version_of c2 < CONFIG_VERSION
      then (c3, eeprom_update_block (config_bytes c3) cp ee) else (c2, ee))"
    by (simp add: loadConfig_def Let_def c1_def c2_def c3_def)
  show ?thesis
  proof (cases "version_of c2 < CONFIG_VERSION")
    case False
    with load show ?thesis by simp
  next
    case True
    have "config_wf c1" by (simp add: c1_def)
    note valid = migrate_valid [OF this, of past, folded c2_def]
    have "loadConfig past cp tp (eeprom_update_block (config_bytes c3) cp ee) =
          (c3, eeprom_update_block (config_bytes c3) cp ee)"
    proof (rule loadConfig_stored)
      show wf: "config_wf c3" using valid by (simp add: c3_def set_main_def config_wf_def)
      show "read_config (eeprom_update_block (config_bytes c3) cp ee) cp = c3"
        using wf by (rule read_config_stored)
    qed (use valid in \<open>simp_all add: c3_def set_main_def\<close>)
    with load True show ?thesis by simp
  qed
qed

text \<open>
  C3: a current configuration survives storage: written as its byte image at offset 0, the next
  load returns exactly it and rewrites nothing.
\<close>

theorem store_load:
  assumes "config_wf c" "cfg_signature (cfg_main c) = firmware_val ARDWIINO_DEVICE_TYPE"
    and "CONFIG_VERSION \<le> cfg_version (cfg_main c)"
    and "subType (cfg_main c) \<noteq> REAL_GUITAR_SUBTYPE" "subType (cfg_main c) \<noteq> REAL_DRUM_SUBTYPE"
  shows "loadConfig past cp tp (writeConfigBlock cp 0 (config_bytes c) ee) =
         (c, writeConfigBlock cp 0 (config_bytes c) ee)"
  using assms by (intro loadConfig_stored)
    (simp_all add: writeConfigBlock_def read_config_stored not_less)

lemma default_config_current:
  "config_wf DEFAULT_CONFIG"
  "cfg_signature (cfg_main DEFAULT_CONFIG) = firmware_val ARDWIINO_DEVICE_TYPE"
  "CONFIG_VERSION \<le> cfg_version (cfg_main DEFAULT_CONFIG)"
  "subType (cfg_main DEFAULT_CONFIG) \<noteq> REAL_GUITAR_SUBTYPE"
  "subType (cfg_main DEFAULT_CONFIG) \<noteq> REAL_DRUM_SUBTYPE"
  using default_config_wf
  by (simp_all add: DEFAULT_CONFIG_def DEFAULT_CONFIG_MAIN_def REAL_GUITAR_SUBTYPE_def
      REAL_DRUM_SUBTYPE_def)

theorem store_load_witness:
  "loadConfig (\<lambda>_. 0) 1 0 (writeConfigBlock 1 0 (config_bytes DEFAULT_CONFIG) (\<lambda>_. 0xFF)) =
   (DEFAULT_CONFIG, writeConfigBlock 1 0 (config_bytes DEFAULT_CONFIG) (\<lambda>_. 0xFF))"
  by (rule store_load) (rule default_config_current)+

lemma read_blank: "read_config (\<lambda>_. 0xFF) a = config_of_bytes (replicate 275 0xFF)"
proof -
  have "eeprom_read_block (\<lambda>_. 0xFF) a 275 = replicate 275 0xFF"
    by (rule nth_equalityI) (simp_all add: eeprom_read_block_def)
  then show ?thesis by (simp add: read_config_def config_size_def)
qed

lemma blank_config:
  "cfg_signature (cfg_main (config_of_bytes (replicate 275 0xFF))) = 0xFFFFFFFF"
  "version_of (config_of_bytes (replicate 275 0xFF)) = 0xFFFFFFFF"
  by code_simp+

lemma isGuitar_default [simp]: "isGuitar past (subType (cfg_main DEFAULT_CONFIG))"
  by (simp add: isGuitar_def types_byte_def types_def DEFAULT_CONFIG_def DEFAULT_CONFIG_MAIN_def)

text \<open>
  On a blank (erased) EEPROM the first load does not return the default configuration: the
  defaults are copied with version 0 and then migrated as if they were old, which flips the
  whammy's inversion and turns the gyro orientation X (0) into Z, as 0 was once POSITIVE_Z. A
  reset followed by a load does return the defaults.
\<close>

theorem first_boot_differs_from_reset:
  "fst (loadConfig past cp tp (\<lambda>_. 0xFF)) =
     flip_whammy (DEFAULT_CONFIG\<lparr>cfg_axis := DEFAULT_THRESHOLDS\<lparr>mpu6050Orientation := gyro_val GYRO_Z\<rparr>\<rparr>)
   \<and> fst (loadConfig past cp tp (resetConfig cp ee)) = DEFAULT_CONFIG
   \<and> fst (loadConfig past cp tp (\<lambda>_. 0xFF)) \<noteq> DEFAULT_CONFIG"
proof -
  define d where "d = set_main (\<lambda>m. m\<lparr>cfg_version := 0\<rparr>) DEFAULT_CONFIG"
  have vd: "version_of d = 0" by (simp add: d_def set_main_def)
  have guitar: "isGuitar past (subType (cfg_main d))"
    using isGuitar_default [of past] by (simp add: d_def set_main_def)
  have d_sub: "mig_subtype d = d"
    by (rule mig_subtype_id)
       (simp_all add: d_def set_main_def DEFAULT_CONFIG_def DEFAULT_CONFIG_MAIN_def
         REAL_GUITAR_SUBTYPE_def REAL_DRUM_SUBTYPE_def)
  have d_id: "mig_midi d = d" "mig_leds d = d" "mig_poll d = d" "mig_rf d = d"
    by (simp_all add: d_def mig_defs DEFAULT_CONFIG_def DEFAULT_CONFIG_MAIN_def)
  have sig: "mig_signature (config_of_bytes (replicate 275 0xFF)) = d"
    by (simp add: mig_signature_def blank_config d_def)
  have "migrate past (config_of_bytes (replicate 275 0xFF)) =
        mig_strum (mig_gyro (mig_debounce (flip_whammy d)))"
    using vd guitar by (simp add: migrate_def sig d_id d_sub mig_whammy_def)
  then have "fst (loadConfig past cp tp (\<lambda>_. 0xFF)) =
      set_main (\<lambda>m. m\<lparr>cfg_version := CONFIG_VERSION\<rparr>) (mig_strum (mig_gyro (mig_debounce (flip_whammy d))))"
    by (simp add: loadConfig_def read_blank blank_config Let_def flip_whammy_def vd CONFIG_VERSION_def)
  also have "\<dots> = flip_whammy (DEFAULT_CONFIG\<lparr>cfg_axis := DEFAULT_THRESHOLDS
      \<lparr>mpu6050Orientation := gyro_val GYRO_Z\<rparr>\<rparr>)"
    by (simp add: d_def mig_defs gyro_new_def DEFAULT_CONFIG_def DEFAULT_CONFIG_MAIN_def
        DEFAULT_THRESHOLDS_def DEFAULT_DEBOUNCE_def CONFIG_VERSION_def)
  finally have blank: "fst (loadConfig past cp tp (\<lambda>_. 0xFF)) = flip_whammy (DEFAULT_CONFIG\<lparr>cfg_axis :=
      DEFAULT_THRESHOLDS\<lparr>mpu6050Orientation := gyro_val GYRO_Z\<rparr>\<rparr>)" .
  have "loadConfig past cp tp (resetConfig cp ee) = (DEFAULT_CONFIG, resetConfig cp ee)"
    by (rule loadConfig_stored)
       (use default_config_current in \<open>simp_all add: resetConfig_def read_config_stored not_less\<close>)
  moreover have "flip_whammy (DEFAULT_CONFIG\<lparr>cfg_axis := a\<rparr>) \<noteq> DEFAULT_CONFIG" for a
    by (simp add: flip_whammy_def DEFAULT_CONFIG_def PINS_def INVALID_AN_PIN_def)
  ultimately show ?thesis using blank by simp
qed

end
