(* ===== verification/RingBuffer.thy ===== *)
theory RingBuffer
  imports Prelude
begin

text \<open>
  The byte queue of \<open>src/lib/LightweightRingBuff.h\<close>: a 64-byte array with an insertion index,
  a removal index and an 8-bit count (the code's pointers are indices into the array). The
  header leaves it to the callers to test for room and for data; the interface \<open>byte_queue\<close>
  states what such a caller gets, and the lemmas in it are what a guarded client relies on.
\<close>

section \<open>The interface: a bounded first-in first-out queue\<close>

datatype 'a queue_op = Ins 'a | Rem

text \<open>
  A guarded client: it inserts only into a queue that is not full and removes only from one that
  is not empty. It returns what was accepted and what was delivered.
\<close>

fun run_queue ::
  "('a \<Rightarrow> 's \<Rightarrow> 's) \<Rightarrow> ('s \<Rightarrow> 'a \<times> 's) \<Rightarrow> ('s \<Rightarrow> bool) \<Rightarrow> ('s \<Rightarrow> bool) \<Rightarrow>
   'a queue_op list \<Rightarrow> 's \<Rightarrow> 'a list \<times> 'a list \<times> 's" where
  "run_queue ins rem full emp [] s = ([], [], s)"
| "run_queue ins rem full emp (Ins x # ops) s =
     (if full s then run_queue ins rem full emp ops s
      else case run_queue ins rem full emp ops (ins x s) of (a, d, s') \<Rightarrow> (x # a, d, s'))"
| "run_queue ins rem full emp (Rem # ops) s =
     (if emp s then run_queue ins rem full emp ops s
      else case rem s of (y, s1) \<Rightarrow>
           (case run_queue ins rem full emp ops s1 of (a, d, s') \<Rightarrow> (a, y # d, s')))"

locale byte_queue =
  fixes ins :: "'a \<Rightarrow> 's \<Rightarrow> 's"
    and rem :: "'s \<Rightarrow> 'a \<times> 's"
    and full :: "'s \<Rightarrow> bool"
    and emp :: "'s \<Rightarrow> bool"
    and contents :: "'s \<Rightarrow> 'a list"
    and inv :: "'s \<Rightarrow> bool"
    and cap :: nat
  assumes full_iff: "inv s \<Longrightarrow> full s \<longleftrightarrow> length (contents s) = cap"
    and empty_iff: "inv s \<Longrightarrow> emp s \<longleftrightarrow> contents s = []"
    and bounded: "inv s \<Longrightarrow> length (contents s) \<le> cap"
    and ins_inv: "inv s \<Longrightarrow> length (contents s) < cap \<Longrightarrow> inv (ins x s)"
    and ins_contents: "inv s \<Longrightarrow> length (contents s) < cap \<Longrightarrow> contents (ins x s) = contents s @ [x]"
    and rem_inv: "inv s \<Longrightarrow> contents s \<noteq> [] \<Longrightarrow> inv (snd (rem s))"
    and rem_contents: "inv s \<Longrightarrow> contents s \<noteq> [] \<Longrightarrow> contents s = fst (rem s) # contents (snd (rem s))"
begin

text \<open>What was in the queue and then accepted is what was delivered and is still in it, in order.\<close>

lemma fifo:
  "inv s \<Longrightarrow> run_queue ins rem full emp ops s = (acc, del, s') \<Longrightarrow>
   inv s' \<and> contents s @ acc = del @ contents s'"
proof (induction ops arbitrary: s acc del s')
  case (Cons op ops)
  show ?case
  proof (cases op)
    case (Ins x)
    show ?thesis
    proof (cases "full s")
      case False
      with Cons.prems bounded have room: "length (contents s) < cap"
        by (fastforce simp: full_iff order_le_less)
      obtain a d s1 where r: "run_queue ins rem full emp ops (ins x s) = (a, d, s1)"
        by (cases "run_queue ins rem full emp ops (ins x s)")
      from Cons.IH [OF ins_inv [OF Cons.prems(1) room] r] Cons.prems Ins False r
      show ?thesis by (auto simp: ins_contents [OF Cons.prems(1) room])
    qed (use Cons Ins in auto)
  next
    case Rem
    show ?thesis
    proof (cases "emp s")
      case False
      with Cons.prems have data: "contents s \<noteq> []" by (simp add: empty_iff)
      obtain y s1 where y: "rem s = (y, s1)" by (cases "rem s")
      obtain a d s2 where r: "run_queue ins rem full emp ops s1 = (a, d, s2)"
        by (cases "run_queue ins rem full emp ops s1")
      from Cons.IH [OF _ r] rem_inv [OF Cons.prems(1) data] rem_contents [OF Cons.prems(1) data]
        Cons.prems Rem False r y
      show ?thesis by auto
    qed (use Cons Rem in auto)
  qed
qed simp

end

section \<open>LightweightRingBuff.h\<close>

definition BUFFER_SIZE :: nat where "BUFFER_SIZE = 64"

record RingBuff_t =
  rb_Buffer :: "u8 list"
  rb_In :: nat
  rb_Out :: nat
  rb_Count :: u8

text \<open>The count is not written: a buffer that was in use keeps it.\<close>

definition RingBuffer_InitBuffer :: "u8 list \<Rightarrow> RingBuff_t \<Rightarrow> RingBuff_t" where
  "RingBuffer_InitBuffer buf s = s\<lparr>rb_Buffer := buf, rb_In := 0, rb_Out := 0\<rparr>"

definition RingBuffer_GetCount :: "RingBuff_t \<Rightarrow> u8" where
  "RingBuffer_GetCount s = rb_Count s"

definition RingBuffer_IsFull :: "RingBuff_t \<Rightarrow> bool" where
  "RingBuffer_IsFull s \<longleftrightarrow> RingBuffer_GetCount s = of_nat BUFFER_SIZE"

definition RingBuffer_IsEmpty :: "RingBuff_t \<Rightarrow> bool" where
  "RingBuffer_IsEmpty s \<longleftrightarrow> RingBuffer_GetCount s = 0"

definition rb_next :: "nat \<Rightarrow> nat" where
  "rb_next i = (if i + 1 = BUFFER_SIZE then 0 else i + 1)"

definition RingBuffer_Insert :: "u8 \<Rightarrow> RingBuff_t \<Rightarrow> RingBuff_t" where
  "RingBuffer_Insert data s =
     s\<lparr>rb_Buffer := (rb_Buffer s)[rb_In s := data], rb_In := rb_next (rb_In s),
       rb_Count := rb_Count s + 1\<rparr>"

definition RingBuffer_Clear :: "RingBuff_t \<Rightarrow> RingBuff_t" where
  "RingBuffer_Clear s = s\<lparr>rb_Count := 0, rb_In := 0, rb_Out := 0\<rparr>"

definition RingBuffer_Remove :: "RingBuff_t \<Rightarrow> u8 \<times> RingBuff_t" where
  "RingBuffer_Remove s =
     (rb_Buffer s ! rb_Out s, s\<lparr>rb_Out := rb_next (rb_Out s), rb_Count := rb_Count s - 1\<rparr>)"

definition RingBuffer_Peek :: "RingBuff_t \<Rightarrow> u8" where
  "RingBuffer_Peek s = rb_Buffer s ! rb_Out s"

section \<open>Reading a ring\<close>

text \<open>What \<open>c\<close> removals from an array of \<open>n\<close> bytes deliver, for the rings of either size.\<close>

definition ring_read :: "nat \<Rightarrow> u8 list \<Rightarrow> nat \<Rightarrow> nat \<Rightarrow> u8 list" where
  "ring_read n buf out c = map (\<lambda>k. buf ! ((out + k) mod n)) [0..<c]"

lemma length_ring_read [simp]: "length (ring_read n buf out c) = c"
  by (simp add: ring_read_def)

lemma free_slot:
  assumes "out < n" "k < c" "c < (n :: nat)"
  shows "(out + k) mod n \<noteq> (out + c) mod n"
proof
  assume "(out + k) mod n = (out + c) mod n"
  then have "n dvd (out + c) - (out + k)"
    using assms by (metis mod_eq_dvd_iff_nat add_le_cancel_left less_imp_le)
  with assms show False by (auto dest: dvd_imp_le)
qed

lemma ring_read_put:
  assumes "length buf = n" "out < n" "c < n"
  shows "ring_read n (buf[(out + c) mod n := x]) out (Suc c) = ring_read n buf out c @ [x]"
proof -
  have "map (\<lambda>k. buf[(out + c) mod n := x] ! ((out + k) mod n)) [0..<c] = ring_read n buf out c"
    unfolding ring_read_def
    using free_slot [OF assms(2) _ assms(3), THEN not_sym]
    by (intro map_cong) (simp_all add: nth_list_update_neq)
  with assms show ?thesis by (simp add: ring_read_def)
qed

lemma ring_read_take:
  assumes "out < n"
  shows "ring_read n buf out (Suc c) = buf ! out # ring_read n buf ((out + 1) mod n) c"
proof -
  have "[0..<Suc c] = 0 # map Suc [0..<c]"
    by (simp add: map_Suc_upt upt_conv_Cons del: upt_Suc)
  with assms show ?thesis by (simp add: ring_read_def mod_simps del: upt_Suc)
qed

text \<open>A byte put over the oldest one is the first and the last of what is read.\<close>

lemma ring_read_wrap:
  assumes "length buf = n" "out < n"
  shows "ring_read n (buf[out := x]) out (Suc n) = x # tl (ring_read n buf out n) @ [x]"
proof (rule nth_equalityI)
  show "length (ring_read n (buf[out := x]) out (Suc n)) = length (x # tl (ring_read n buf out n) @ [x])"
    using assms by simp
  fix i assume "i < length (ring_read n (buf[out := x]) out (Suc n))"
  then have i: "i < Suc n" by simp
  have inside: "(out + i) mod n \<noteq> out" if "0 < i" "i < n"
    using free_slot [of out n 0 i] assms(2) that by auto
  show "ring_read n (buf[out := x]) out (Suc n) ! i = (x # tl (ring_read n buf out n) @ [x]) ! i"
  proof (cases "i = 0 \<or> i = n")
    case True
    with assms i show ?thesis
      by (auto simp: ring_read_def nth_append nth_Cons' simp del: upt_Suc)
  next
    case False
    with i inside assms show ?thesis
      by (auto simp: ring_read_def nth_append nth_Cons' nth_tl simp del: upt_Suc)
  qed
qed

section \<open>Refinement: the array is a queue\<close>

definition rb_inv :: "RingBuff_t \<Rightarrow> bool" where
  "rb_inv s \<longleftrightarrow> length (rb_Buffer s) = BUFFER_SIZE \<and> rb_In s < BUFFER_SIZE \<and> rb_Out s < BUFFER_SIZE \<and>
     unat (rb_Count s) \<le> BUFFER_SIZE \<and>
     (rb_Out s + unat (rb_Count s)) mod BUFFER_SIZE = rb_In s"

definition rb_contents :: "RingBuff_t \<Rightarrow> u8 list" where
  "rb_contents s = ring_read BUFFER_SIZE (rb_Buffer s) (rb_Out s) (unat (rb_Count s))"

lemma rb_next_mod: "i < BUFFER_SIZE \<Longrightarrow> rb_next i = (i + 1) mod BUFFER_SIZE"
  by (simp add: rb_next_def BUFFER_SIZE_def)

lemma length_rb_contents [simp]: "length (rb_contents s) = unat (rb_Count s)"
  by (simp add: rb_contents_def)

lemma count_up: "unat c < 64 \<Longrightarrow> unat (c + 1 :: u8) = unat c + 1"
  by (simp add: unat_word_ariths)

lemma count_down: "c \<noteq> 0 \<Longrightarrow> unat (c - 1 :: u8) = unat c - 1"
  by (simp add: unat_minus_one)

lemma insert_refines:
  assumes "rb_inv s" "unat (rb_Count s) < BUFFER_SIZE"
  shows "rb_inv (RingBuffer_Insert x s)" "rb_contents (RingBuffer_Insert x s) = rb_contents s @ [x]"
proof -
  let ?c = "unat (rb_Count s)"
  have c: "unat (rb_Count s + 1) = ?c + 1"
    using assms(2) by (simp add: count_up BUFFER_SIZE_def)
  have inn: "rb_In s = (rb_Out s + ?c) mod BUFFER_SIZE" and s: "length (rb_Buffer s) = BUFFER_SIZE"
    "rb_In s < BUFFER_SIZE" "rb_Out s < BUFFER_SIZE"
    using assms(1) by (simp_all add: rb_inv_def)
  have "(rb_Out s + (?c + 1)) mod BUFFER_SIZE = (rb_In s + 1) mod BUFFER_SIZE"
    by (simp add: inn mod_simps)
  then show "rb_inv (RingBuffer_Insert x s)"
    using s assms(2) by (simp add: rb_inv_def RingBuffer_Insert_def c rb_next_mod)
  show "rb_contents (RingBuffer_Insert x s) = rb_contents s @ [x]"
    using ring_read_put [OF s(1,3) assms(2)] inn by (simp add: rb_contents_def RingBuffer_Insert_def c)
qed

lemma remove_refines:
  assumes "rb_inv s" "rb_contents s \<noteq> []"
  shows "rb_inv (snd (RingBuffer_Remove s))"
    "rb_contents s = fst (RingBuffer_Remove s) # rb_contents (snd (RingBuffer_Remove s))"
proof -
  let ?c = "unat (rb_Count s)"
  have "0 < length (rb_contents s)" using assms(2) by blast
  then have c: "unat (rb_Count s - 1) = ?c - 1" "0 < ?c"
    by (cases "rb_Count s = 0"; simp add: count_down)+
  obtain k where k: "?c = Suc k" using c(2) gr0_implies_Suc by blast
  have s: "length (rb_Buffer s) = BUFFER_SIZE" "rb_In s < BUFFER_SIZE" "rb_Out s < BUFFER_SIZE"
    "k < BUFFER_SIZE" "(rb_Out s + Suc k) mod BUFFER_SIZE = rb_In s"
    using assms(1) k by (auto simp: rb_inv_def)
  have c': "unat (rb_Count s - 1) = k" using c k by simp
  show "rb_inv (snd (RingBuffer_Remove s))"
    using s c' by (simp add: rb_inv_def RingBuffer_Remove_def rb_next_mod mod_simps)
  show "rb_contents s = fst (RingBuffer_Remove s) # rb_contents (snd (RingBuffer_Remove s))"
    using s c' k by (simp add: rb_contents_def RingBuffer_Remove_def rb_next_mod ring_read_take)
qed

interpretation rb: byte_queue RingBuffer_Insert RingBuffer_Remove RingBuffer_IsFull
  RingBuffer_IsEmpty rb_contents rb_inv BUFFER_SIZE
proof unfold_locales
  fix s assume inv: "rb_inv s"
  show "RingBuffer_IsFull s \<longleftrightarrow> length (rb_contents s) = BUFFER_SIZE"
    by (simp add: RingBuffer_IsFull_def RingBuffer_GetCount_def BUFFER_SIZE_def word_unat_eq_iff)
  show "RingBuffer_IsEmpty s \<longleftrightarrow> rb_contents s = []"
    unfolding length_0_conv [symmetric]
    by (simp add: RingBuffer_IsEmpty_def RingBuffer_GetCount_def unsigned_eq_0_iff)
  show "length (rb_contents s) \<le> BUFFER_SIZE" using inv by (simp add: rb_inv_def)
next
  fix s x assume "rb_inv s" "length (rb_contents s) < BUFFER_SIZE"
  then show "rb_inv (RingBuffer_Insert x s)" "rb_contents (RingBuffer_Insert x s) = rb_contents s @ [x]"
    by (simp_all add: insert_refines)
qed (use remove_refines in blast)+

section \<open>Properties\<close>

text \<open>
  C11: the ring buffer is a first-in first-out queue for clients that test it: whatever the
  order of insertions and removals, no byte is lost, duplicated or reordered.
\<close>

theorem ring_buffer_fifo:
  assumes "rb_inv s"
    and "run_queue RingBuffer_Insert RingBuffer_Remove RingBuffer_IsFull RingBuffer_IsEmpty ops s =
         (accepted, delivered, s')"
  shows "rb_inv s' \<and> rb_contents s @ accepted = delivered @ rb_contents s'"
  using assms by (rule rb.fifo)

definition rb_empty :: RingBuff_t where
  "rb_empty = \<lparr>rb_Buffer = replicate 64 0, rb_In = 62, rb_Out = 62, rb_Count = 0\<rparr>"

theorem ring_buffer_fifo_witness:
  "\<exists>s'. run_queue RingBuffer_Insert RingBuffer_Remove RingBuffer_IsFull RingBuffer_IsEmpty
          [Ins 1, Ins 2, Rem, Ins 3, Rem, Rem, Rem] rb_empty = ([1, 2, 3], [1, 2, 3], s') \<and>
        rb_contents s' = []"
proof -
  have inv: "rb_inv rb_empty" by (simp add: rb_inv_def rb_empty_def BUFFER_SIZE_def)
  obtain a d s' where r: "run_queue RingBuffer_Insert RingBuffer_Remove RingBuffer_IsFull
      RingBuffer_IsEmpty [Ins 1, Ins 2, Rem, Ins 3, Rem, Rem, Rem] rb_empty = (a, d, s')"
    by (metis surj_pair)
  then have "a = [1, 2, 3] \<and> d = [1, 2, 3]"
    by (auto simp: RingBuffer_Insert_def RingBuffer_Remove_def RingBuffer_IsFull_def
        RingBuffer_IsEmpty_def RingBuffer_GetCount_def rb_empty_def rb_next_def BUFFER_SIZE_def
        nth_list_update split: prod.splits)
  moreover have "rb_contents rb_empty = []" by (simp add: rb_contents_def ring_read_def rb_empty_def)
  ultimately show ?thesis using ring_buffer_fifo [OF inv r] r by auto
qed

end
