(* ===== verification/Fxpt.thy ===== *)
theory Fxpt
  imports Complex_Main Config
begin

text \<open>
  The fixed-point arithmetic of \<open>src/lib/fxpt_math/fxpt_math.c\<close> (Q15 values in 16 bits, a
  four-quadrant arctangent, an arcsine polynomial) and the tilt angle of
  \<open>src/lib/mpu6050/mpu_math.c\<close> that is computed with it.

  Intermediate results keep the width C gives them on the AVR: \<open>int\<close> is 16 bits, an \<open>int32_t\<close>
  cast widens. The constants are given to \<open>q15_from_double\<close> as exact decimals.
\<close>

section \<open>Q15 arithmetic\<close>

text \<open>\<open>lrint\<close> rounds to the nearest integer, ties to even.\<close>

definition lrint :: "rat \<Rightarrow> int" where
  "lrint d = (let f = \<lfloor>d\<rfloor>; r = d - of_int f
              in if r < 1 / 2 then f else if r > 1 / 2 then f + 1
                 else if even f then f else f + 1)"

definition q15_from_double :: "rat \<Rightarrow> i16" where
  "q15_from_double d = word_of_int (lrint (d * 32768))"

definition M_1_PI :: rat where "M_1_PI = 0.31830988618379067154"

definition s16_nabs :: "i16 \<Rightarrow> i16" where
  "s16_nabs j = (let negSign = NOT (signed_drop_bit 15 j) in (j XOR negSign) - negSign)"

definition q15_mul :: "i16 \<Rightarrow> i16 \<Rightarrow> i16" where
  "q15_mul j k =
     (let intermediate = (scast j :: i32) * scast k
      in ucast (signed_drop_bit 15 (intermediate +
           (if intermediate AND 0x7FFF = 0x4000 then 0 else 0x4000))))"

text \<open>A division by zero has no result in C.\<close>

definition q15_div :: "i16 \<Rightarrow> i16 \<Rightarrow> i16 option" where
  "q15_div numer denom =
     (if denom = 0 then None else Some (word_of_int ((sint numer * 2 ^ 15) sdiv sint denom)))"

section \<open>fxpt_atan2 and fxpt_asin\<close>

definition atan_unrotated :: "i16 \<Rightarrow> i16" where
  "atan_unrotated ratio =
     (let correction = q15_mul (q15_from_double (0.273 * M_1_PI)) (s16_nabs ratio)
      in q15_mul (q15_from_double (0.25 + 0.273 * M_1_PI) + correction) ratio)"

definition atan2_opt :: "i16 \<Rightarrow> i16 \<Rightarrow> u16 option" where
  "atan2_opt y x =
     (if x = y then Some (if 0 <s y then 8192 else if y <s 0 then 40960 else 0)
      else let nabs_y = s16_nabs y; nabs_x = s16_nabs x
      in if nabs_x <s nabs_y
         then Option.bind (q15_div y x) (\<lambda>y_over_x.
                let unrotated = atan_unrotated y_over_x
                in Some (if 0 <s x then unrotated else 32768 + unrotated))
         else Option.bind (q15_div x y) (\<lambda>x_over_y.
                let unrotated = atan_unrotated x_over_y
                in Some (if 0 <s y then 16384 - unrotated else 49152 - unrotated)))"

text \<open>
  What the callers use. The first case never arises: it is proved below that there always is a
  result.
\<close>

definition fxpt_atan2 :: "i16 \<Rightarrow> i16 \<Rightarrow> u16" where
  "fxpt_atan2 y x = (case atan2_opt y x of None \<Rightarrow> 0 | Some a \<Rightarrow> a)"

definition fxpt_asin :: "i16 \<Rightarrow> u16" where
  "fxpt_asin x =
     (let x2 = q15_mul x x; x4 = q15_mul x2 x2; x8 = q15_mul x4 x4;
          f = q15_mul (q15_from_double 0.045334220547132049) x2;
          f2 = q15_from_double 0.011226216762576600;
          f3 = q15_mul (q15_from_double 0.026334281471361822) x2;
          f4 = q15_from_double 0.020596336163223834;
          f5 = q15_mul (q15_from_double 0.030582043602875735) x2;
          f6 = q15_from_double 0.044630538556294605;
          f7 = q15_mul (q15_from_double 0.075000364034134126) x2;
          f8 = q15_from_double 0.16666666300567365
      in q15_mul (q15_mul (q15_mul (q15_mul (f - f2) x4 + (f3 + f4)) x8 +
                           q15_mul (f5 + f6) x4 + (f7 + f8)) x2) x + x)"

section \<open>The tilt angle of mpu_math.c\<close>

record s_quat =
  q_w :: i16
  q_x :: i16
  q_y :: i16
  q_z :: i16

definition MUL :: i16 where "MUL = 5"

text \<open>The macro \<open>MAX\<close> is \<open>32767/MUL\<close>.\<close>

definition MAX_ANGLE :: i16 where "MAX_ANGLE = 6553"

definition clamp_angle :: "i16 \<Rightarrow> i16" where
  "clamp_angle out =
     (let o1 = (if MAX_ANGLE <s out then MAX_ANGLE else out);
          o2 = (if o1 <s - MAX_ANGLE then - MAX_ANGLE else o1)
      in o2 * MUL)"

text \<open>\<open>out\<close> is the value the caller's variable holds before the call: no case matches an angle above 2.\<close>

definition quaternionToEuler :: "s_quat \<Rightarrow> i16 \<Rightarrow> u8 \<Rightarrow> i16" where
  "quaternionToEuler q out angle =
     (let test = q_x q * q_z q - q_w q * q_y q;
          sqy = q_y q * q_y q; sqz = q_z q * q_z q; sqw = q_w q * q_w q;
          out1 = (if angle = gyro_val GYRO_X
                  then fxpt_atan2 (2 * (q_x q * q_y q - q_z q * q_w q)) (32768 - 2 * (sqy + sqz))
                  else if angle = gyro_val GYRO_Y then fxpt_asin test
                  else if angle = gyro_val GYRO_Z
                  then fxpt_atan2 (2 * (q_x q * q_w q + q_y q * q_z q)) (32768 - 2 * (sqz + sqw))
                  else out)
      in clamp_angle out1)"

section \<open>Facts\<close>

lemma lrintI:
  assumes "of_int n - 1 / 2 < d" "d < of_int n + 1 / 2"
  shows "lrint d = n"
proof (cases "of_int n \<le> d")
  case True
  then have "\<lfloor>d\<rfloor> = n" using assms by (intro floor_unique) auto
  with assms show ?thesis by (simp add: lrint_def)
next
  case False
  then have "\<lfloor>d\<rfloor> = n - 1" using assms by (intro floor_unique) auto
  with assms show ?thesis by (simp add: lrint_def)
qed

lemma q15_constants [simp]:
  "q15_from_double (0.273 * M_1_PI) = 2847" "q15_from_double (0.25 + 0.273 * M_1_PI) = 11039"
  using lrintI [of 2847 "0.273 * M_1_PI * 32768"] lrintI [of 11039 "(0.25 + 0.273 * M_1_PI) * 32768"]
  by (simp_all add: q15_from_double_def M_1_PI_def)

lemma word_of_sint_eq: "x = word_of_int (sint x)" for x :: "'a::len word"
  by simp

lemma sign_splat: "signed_drop_bit 15 (j :: i16) = (if sint j < 0 then - 1 else 0)"
proof (rule signed_word_eqI)
  have "sint j div 32768 = (if sint j < 0 then - 1 else 0)"
    using i16_bound [of j] by (auto simp: div_neg_pos_less0 intro: int_div_pos_eq)
  then show "sint (signed_drop_bit 15 j) = sint (if sint j < 0 then - 1 else 0 :: i16)"
    by (simp add: sint_signed_drop_bit_eq drop_bit_eq_div)
qed

lemma nabs_word: "s16_nabs j = (if sint j < 0 then j else - j)"
  by (simp add: s16_nabs_def sign_splat not_eq_complement)

lemma sint_nabs: "sint (s16_nabs j) = - \<bar>sint j\<bar>"
proof (cases "sint j < 0")
  case False
  have "sint (- j) = sint (word_of_int (- sint j) :: i16)" by simp
  also have "\<dots> = - sint j"
    by (rule sint_of_int_16) (use i16_bound [of j] False in simp_all)
  finally show ?thesis using False by (simp add: nabs_word)
qed (simp add: nabs_word)

text \<open>What \<open>q15_mul\<close> computes on the product: division by \<open>2 ^ 15\<close>, rounded to the nearest.\<close>

definition q15_round :: "int \<Rightarrow> int" where
  "q15_round p = (p + (if p mod 32768 = 16384 then 0 else 16384)) div 32768"

lemma ucast_sint: "ucast (w :: i32) = (word_of_int (sint w) :: i16)"
  by (rule bit_word_eqI) (simp add: bit_ucast_iff bit_signed_iff)

lemma product_bound: "\<bar>sint (j :: i16) * sint (k :: i16)\<bar> \<le> 1073741824"
proof -
  have "\<bar>sint j\<bar> \<le> 32768" "\<bar>sint k\<bar> \<le> 32768"
    using i16_bound [of j] i16_bound [of k] by simp_all
  then have "\<bar>sint j\<bar> * \<bar>sint k\<bar> \<le> 32768 * 32768"
    by (intro mult_mono) simp_all
  then show ?thesis by (simp add: abs_mult)
qed

lemma q15_mul_word: "q15_mul j k = word_of_int (q15_round (sint j * sint k))"
proof -
  define p where "p = sint j * sint k"
  define c where "c = (if p mod 32768 = 16384 then 0 else 16384 :: int)"
  have inter: "(scast j :: i32) * scast k = word_of_int p"
    by (simp add: p_def)
  have "(word_of_int p AND word_of_int (mask 15) :: i32) = word_of_int (p AND mask 15)"
    by (rule bit_word_eqI) (simp add: bit_and_iff bit_word_of_int_iff)
  moreover have "p AND mask 15 = p mod 32768"
    by (simp add: take_bit_eq_mask [symmetric] take_bit_eq_mod)
  moreover have "word_of_int (mask 15) = (0x7FFF :: i32)"
    by (simp add: mask_eq_exp_minus_1)
  ultimately have low: "(word_of_int p AND 0x7FFF :: i32) = word_of_int (p mod 32768)"
    by (simp only:)
  have "(word_of_int (p mod 32768) :: i32) = 0x4000 \<longleftrightarrow> p mod 32768 = 16384"
  proof
    assume "(word_of_int (p mod 32768) :: i32) = 0x4000"
    then have "uint (word_of_int (p mod 32768) :: i32) = uint (0x4000 :: i32)" by simp
    then show "p mod 32768 = 16384" by (simp add: uint_word_of_int)
  qed simp
  with low have sum: "(word_of_int p + (if word_of_int p AND 0x7FFF = (0x4000 :: i32) then 0 else 0x4000) :: i32) =
      word_of_int (p + c)"
    by (simp add: c_def)
  have "sint (word_of_int (p + c) :: i32) = p + c"
    using product_bound [of j k] by (intro sint_of_int_32) (auto simp: p_def c_def)
  then have "sint (signed_drop_bit 15 (word_of_int (p + c) :: i32)) = q15_round p"
    by (simp add: sint_signed_drop_bit_eq drop_bit_eq_div q15_round_def c_def)
  then show ?thesis
    unfolding q15_mul_def Let_def inter sum ucast_sint by (simp add: p_def)
qed

lemma q15_round_cases:
  obtains (tie) "p mod 32768 = 16384" "32768 * q15_round p = p - 16384"
  | (near) m where "0 \<le> m" "m < 32768" "m \<noteq> 0" "32768 * q15_round p = p + 16384 - m"
proof (cases "p mod 32768 = 16384")
  case True
  then have "q15_round p = p div 32768" by (simp add: q15_round_def)
  with True mult_div_mod_eq [of 32768 p] show ?thesis by (intro tie) simp_all
next
  case False
  define m where "m = (p + 16384) mod 32768"
  have "q15_round p = (p + 16384) div 32768" using False by (simp add: q15_round_def)
  then have eq: "32768 * q15_round p = p + 16384 - m"
    by (simp add: m_def minus_mod_eq_mult_div)
  have m: "0 \<le> m" "m < 32768" by (simp_all add: m_def)
  have "m \<noteq> 0"
  proof
    assume "m = 0"
    with eq have "p = 16384 + (q15_round p - 1) * 32768" by simp
    then have "p mod 32768 = 16384" by (metis mod_mult_self1 mod_pos_pos_trivial zero_le_numeral
        numeral_less_iff semiring_norm(76,77,78,79,80,81,82))
    with False show False by simp
  qed
  with m eq show ?thesis by (intro near)
qed

lemma q15_round_near: "32768 * q15_round p \<le> p + 16383" "p - 16384 \<le> 32768 * q15_round p"
  by (cases p rule: q15_round_cases; simp)+

lemma q15_round_bounds:
  assumes "32768 * a - 16384 < p" shows "a \<le> q15_round p"
proof -
  have "32768 * a < 32768 * q15_round p + 32768" using assms q15_round_near(2) [of p] by linarith
  then show ?thesis by simp
qed

lemma q15_round_bounds':
  assumes "p \<le> 32768 * a + 16384" shows "q15_round p \<le> a"
proof -
  have "32768 * q15_round p < 32768 * a + 32768" using assms q15_round_near(1) [of p] by linarith
  then show ?thesis by simp
qed

lemma sint_q15_mul:
  assumes "- 32768 \<le> q15_round (sint j * sint k)" "q15_round (sint j * sint k) < 32768"
  shows "sint (q15_mul j k) = q15_round (sint j * sint k)"
  using assms by (simp add: q15_mul_word sint_of_int_16)

text \<open>The correction and the coefficient of the arctangent, for a ratio of magnitude \<open>m\<close>.\<close>

definition atan_coeff :: "int \<Rightarrow> int" where
  "atan_coeff r = 11039 + q15_round (2847 * - \<bar>r\<bar>)"

lemma atan_coeff_bounds:
  assumes "\<bar>r\<bar> \<le> 32768"
  shows "8192 \<le> atan_coeff r" "atan_coeff r \<le> 11039"
    and "32768 * atan_coeff r \<le> 32768 * 11039 - 2847 * \<bar>r\<bar> + 16383"
  using assms q15_round_bounds [of "- 2847" "2847 * - \<bar>r\<bar>"]
    q15_round_bounds' [of "2847 * - \<bar>r\<bar>" 0] q15_round_near(1) [of "2847 * - \<bar>r\<bar>"]
  by (simp_all add: atan_coeff_def)

lemma atan_product_bound:
  assumes "0 \<le> m" "m \<le> 32768"
  shows "atan_coeff m * m < 8192 * 32768 + 16384"
proof -
  let ?A = "32768 * 11039 + 16383 :: int"
  have "32768 * (atan_coeff m * m) \<le> (?A - 2847 * m) * m"
    using atan_coeff_bounds(3) [of m] assms mult_right_mono [of "32768 * atan_coeff m" "?A - 2847 * m" m]
    by (simp add: algebra_simps)
  moreover have "0 \<le> (32768 - m) * (?A - 2847 * (32768 + m))"
    using assms by (intro mult_nonneg_nonneg) simp_all
  then have "(?A - 2847 * m) * m \<le> (?A - 2847 * 32768) * 32768"
    by (simp add: algebra_simps)
  ultimately show ?thesis by simp
qed

lemma atan_coeff_abs [simp]: "atan_coeff \<bar>r\<bar> = atan_coeff r"
  by (simp add: atan_coeff_def)

lemma sint_atan_unrotated:
  "sint (atan_unrotated ratio) = q15_round (atan_coeff (sint ratio) * sint ratio)"
    (is ?val_eq)
  and atan_unrotated_range:
  "0 \<le> sint ratio \<Longrightarrow> 0 \<le> sint (atan_unrotated ratio) \<and> sint (atan_unrotated ratio) \<le> 8192"
  "sint ratio \<le> 0 \<Longrightarrow> - 8192 \<le> sint (atan_unrotated ratio) \<and> sint (atan_unrotated ratio) \<le> 0"
proof -
  define r where "r = sint ratio"
  have r: "- 32768 \<le> r" "r < 32768" using i16_bound [of ratio] by (simp_all add: r_def)
  then have "\<bar>r\<bar> \<le> 32768" by simp
  note c = atan_coeff_bounds [OF this]
  note prod = atan_product_bound [of "\<bar>r\<bar>", simplified]
  have "sint (q15_mul 2847 (s16_nabs ratio)) = q15_round (2847 * - \<bar>r\<bar>)"
    using c r unfolding atan_coeff_def
    by (subst sint_q15_mul) (simp_all add: sint_nabs r_def)
  then have "sint (11039 + q15_mul 2847 (s16_nabs ratio)) = atan_coeff r"
    using c r by (simp add: atan_coeff_def signed_take_bit_int_eq_self sint_word_ariths)
  moreover have "atan_unrotated ratio = q15_mul (11039 + q15_mul 2847 (s16_nabs ratio)) ratio"
    by (simp only: atan_unrotated_def q15_constants Let_def)
  ultimately have eq: "atan_unrotated ratio = word_of_int (q15_round (atan_coeff r * r))"
    by (simp only: q15_mul_word [of "11039 + _"] r_def)
  have "0 \<le> atan_coeff r" using c by simp
  then have sgn_product: "0 \<le> r \<Longrightarrow> 0 \<le> atan_coeff r * r" "r \<le> 0 \<Longrightarrow> atan_coeff r * r \<le> 0"
    by (simp_all add: mult_nonneg_nonpos)
  have pos: "0 \<le> q15_round (atan_coeff r * r) \<and> q15_round (atan_coeff r * r) \<le> 8192" if "0 \<le> r"
  proof -
    have "0 \<le> atan_coeff r * r" "atan_coeff r * r < 8192 * 32768 + 16384"
      using that sgn_product(1) prod r by simp_all
    then show ?thesis by (intro conjI q15_round_bounds q15_round_bounds'; linarith)
  qed
  have neg: "- 8192 \<le> q15_round (atan_coeff r * r) \<and> q15_round (atan_coeff r * r) \<le> 0" if "r \<le> 0"
  proof -
    have "atan_coeff r * r \<le> 0" "- (8192 * 32768 + 16384) < atan_coeff r * r"
      using that sgn_product(2) prod r by simp_all
    then show ?thesis by (intro conjI q15_round_bounds q15_round_bounds'; linarith)
  qed
  have val: "sint (atan_unrotated ratio) = q15_round (atan_coeff r * r)"
    using pos neg eq by (cases "0 \<le> r") (auto simp: sint_of_int_16)
  then show ?val_eq by (simp add: r_def)
  show "0 \<le> sint (atan_unrotated ratio) \<and> sint (atan_unrotated ratio) \<le> 8192" if "0 \<le> sint ratio"
    using pos that val by (simp add: r_def)
  show "- 8192 \<le> sint (atan_unrotated ratio) \<and> sint (atan_unrotated ratio) \<le> 0" if "sint ratio \<le> 0"
    using neg that val by (simp add: r_def)
qed

text \<open>The quotient of a smaller by a larger coordinate keeps its sign and fits Q15.\<close>

definition q15_quot :: "i16 \<Rightarrow> i16 \<Rightarrow> i16" where
  "q15_quot n d = word_of_int ((sint n * 2 ^ 15) sdiv sint d)"

lemma q15_div_quot: "q15_div n d = (if d = 0 then None else Some (q15_quot n d))"
  by (simp add: q15_div_def q15_quot_def)

lemma sint_q15_div:
  assumes "\<bar>sint n\<bar> \<le> \<bar>sint d\<bar>" "n \<noteq> d" "d \<noteq> 0"
  shows "sint (q15_quot n d) = sgn (sint n) * sgn (sint d) * (\<bar>sint n\<bar> * 32768 div \<bar>sint d\<bar>)"
proof -
  let ?q = "\<bar>sint n\<bar> * 32768 div \<bar>sint d\<bar>"
  have ne: "sint n \<noteq> sint d" "0 < \<bar>sint d\<bar>"
    using assms(2,3) signed_word_eqI [of n d] signed_word_eqI [of d 0] by auto
  have "0 \<le> ?q" using ne(2) by (simp only: pos_imp_zdiv_nonneg_iff)
  have "- 32768 \<le> sgn (sint n) * sgn (sint d) * ?q \<and> sgn (sint n) * sgn (sint d) * ?q < 32768"
  proof (cases "\<bar>sint n\<bar> = \<bar>sint d\<bar>")
    case True
    with ne have "sgn (sint n) * sgn (sint d) = - 1"
      by (auto simp: sgn_if abs_if split: if_splits)
    moreover have "?q = 32768" using True ne by simp
    ultimately show ?thesis by simp
  next
    case False
    with assms(1) have "\<bar>sint n\<bar> * 32768 < 32768 * \<bar>sint d\<bar>" by simp
    moreover have "?q * \<bar>sint d\<bar> \<le> \<bar>sint n\<bar> * 32768"
      using ne(2) by (simp only: minus_mod_eq_div_mult [symmetric]) simp
    ultimately have "?q * \<bar>sint d\<bar> < 32768 * \<bar>sint d\<bar>" by simp
    then have "?q < 32768" by (rule mult_right_less_imp_less) simp
    with \<open>0 \<le> ?q\<close> show ?thesis by (auto simp: sgn_if)
  qed
  moreover have "(sint n * 2 ^ 15) sdiv sint d = sgn (sint n) * sgn (sint d) * ?q"
    by (simp add: signed_divide_int_def sgn_mult abs_mult)
  ultimately show ?thesis
    unfolding q15_quot_def by (simp only: sint_of_int_16)
qed

lemma q15_div_sign:
  assumes "\<bar>sint n\<bar> \<le> \<bar>sint d\<bar>" "n \<noteq> d" "d \<noteq> 0"
  shows "0 \<le> sint n * sint d \<Longrightarrow> 0 \<le> sint (q15_quot n d)"
    and "sint n * sint d \<le> 0 \<Longrightarrow> sint (q15_quot n d) \<le> 0"
proof -
  have "0 < \<bar>sint d\<bar>" using assms(3) signed_word_eqI [of d 0] by auto
  then have "0 \<le> \<bar>sint n\<bar> * 32768 div \<bar>sint d\<bar>"
    by (simp only: pos_imp_zdiv_nonneg_iff)
  then show "0 \<le> sint n * sint d \<Longrightarrow> 0 \<le> sint (q15_quot n d)"
    and "sint n * sint d \<le> 0 \<Longrightarrow> sint (q15_quot n d) \<le> 0"
    unfolding sint_q15_div [OF assms] by (auto simp: sgn_if zero_le_mult_iff mult_le_0_iff)
qed

text \<open>The unrotated angle, on the side the signs of the two coordinates give.\<close>

lemma atan_side:
  assumes "\<bar>sint n\<bar> \<le> \<bar>sint e\<bar>" "n \<noteq> e" "e \<noteq> 0"
  shows "\<exists>d. atan_unrotated (q15_quot n e) = word_of_int d \<and> \<bar>d\<bar> \<le> 8192 \<and>
    (if sint n = 0 then d = 0 else if (0 < sint n) = (0 < sint e) then 0 \<le> d else d \<le> 0)"
proof -
  define r where "r = q15_quot n e"
  define d where "d = sint (atan_unrotated r)"
  note sign = q15_div_sign [OF assms, folded r_def]
  have le: "\<bar>d\<bar> \<le> 8192"
    and pos: "0 \<le> sint n * sint e \<Longrightarrow> 0 \<le> d" and neg: "sint n * sint e \<le> 0 \<Longrightarrow> d \<le> 0"
    using sign atan_unrotated_range [of r] unfolding d_def
    by (cases "0 \<le> sint r"; auto simp: abs_le_iff)+
  have "if sint n = 0 then d = 0 else if (0 < sint n) = (0 < sint e) then 0 \<le> d else d \<le> 0"
  proof (cases "sint n = 0")
    case True
    then have "sint n * sint e = 0" by simp
    with pos neg True show ?thesis by simp
  next
    case False
    show ?thesis
    proof (cases "(0 < sint n) = (0 < sint e)")
      case True
      then have "0 \<le> sint n * sint e" by (cases "0 < sint n") (simp_all add: zero_le_mult_iff)
      with pos True False show ?thesis by simp
    next
      case other: False
      then have "sint n * sint e \<le> 0" by (cases "0 < sint n") (simp_all add: mult_le_0_iff)
      with neg other False show ?thesis by simp
    qed
  qed
  moreover have "atan_unrotated (q15_quot n e) = word_of_int d" by (simp add: d_def r_def)
  ultimately show ?thesis using le by blast
qed

section \<open>Properties\<close>

text \<open>
  C9: the arctangent has a result for every pair of coordinates, so it never divides by zero.
  Equal coordinates give an eighth or five eighths of a turn, or 0 at the origin. Otherwise the
  angle (in 1/65536 of a turn) stays in its arc: for a vector nearer to the x-axis it is within an
  eighth of a turn of that half-axis, on the side of y, and for one at least as near to the y-axis
  within an eighth of a turn of that half-axis, on the side of x.
\<close>

theorem fxpt_atan2_octant:
  "atan2_opt y x = Some (fxpt_atan2 y x) \<and>
   (if x = y then fxpt_atan2 y x = (if 0 < sint y then 8192 else if sint y < 0 then 40960 else 0)
    else if \<bar>sint y\<bar> < \<bar>sint x\<bar>
    then \<exists>d. fxpt_atan2 y x = word_of_int ((if 0 < sint x then 0 else 32768) + d) \<and> \<bar>d\<bar> \<le> 8192 \<and>
           (if sint y = 0 then d = 0 else if (0 < sint y) = (0 < sint x) then 0 \<le> d else d \<le> 0)
    else \<exists>d. fxpt_atan2 y x = word_of_int ((if 0 < sint y then 16384 else 49152) - d) \<and> \<bar>d\<bar> \<le> 8192 \<and>
           (if sint x = 0 then d = 0 else if (0 < sint x) = (0 < sint y) then 0 \<le> d else d \<le> 0))"
proof (cases "x = y")
  case True
  then show ?thesis by (simp add: fxpt_atan2_def atan2_opt_def word_sless_alt)
next
  case ne: False
  show ?thesis
  proof (cases "\<bar>sint y\<bar> < \<bar>sint x\<bar>")
    case True
    then have "x \<noteq> 0" by auto
    have branch: "s16_nabs x <s s16_nabs y"
      using True by (simp add: word_sless_alt sint_nabs)
    have "\<bar>sint y\<bar> \<le> \<bar>sint x\<bar>" using True by simp
    from atan_side [OF this ne [symmetric] \<open>x \<noteq> 0\<close>] obtain d where d: "atan_unrotated (q15_quot y x) = word_of_int d"
      "\<bar>d\<bar> \<le> 8192"
      "if sint y = 0 then d = 0 else if (0 < sint y) = (0 < sint x) then 0 \<le> d else d \<le> 0"
      by blast
    have "atan2_opt y x = Some (word_of_int ((if 0 < sint x then 0 else 32768) + d))"
      using ne branch \<open>x \<noteq> 0\<close> d(1) by (simp add: atan2_opt_def q15_div_quot Let_def word_sless_alt)
    with ne True d(2,3) show ?thesis
      by (simp only: fxpt_atan2_def option.case if_True if_False simp_thms) blast
  next
    case False
    then have xy: "\<bar>sint x\<bar> \<le> \<bar>sint y\<bar>" by simp
    have "y \<noteq> 0" using xy ne signed_word_eqI [of x 0] by auto
    have branch: "\<not> s16_nabs x <s s16_nabs y"
      using xy by (simp add: word_sless_alt sint_nabs)
    from atan_side [OF xy ne \<open>y \<noteq> 0\<close>] obtain d where d: "atan_unrotated (q15_quot x y) = word_of_int d"
      "\<bar>d\<bar> \<le> 8192"
      "if sint x = 0 then d = 0 else if (0 < sint x) = (0 < sint y) then 0 \<le> d else d \<le> 0"
      by blast
    have "atan2_opt y x = Some (word_of_int ((if 0 < sint y then 16384 else 49152) - d))"
      using ne branch \<open>y \<noteq> 0\<close> d(1) by (simp add: atan2_opt_def q15_div_quot Let_def word_sless_alt)
    with ne False d(2,3) show ?thesis
      by (simp only: fxpt_atan2_def option.case if_True if_False simp_thms) blast
  qed
qed

text \<open>
  C10: the tilt angle never overflows its 16 bits: whatever the quaternion, the orientation and
  the previous value, it is a multiple of 5 between -32765 and 32765.
\<close>

theorem quaternionToEuler_range:
  "\<exists>k. \<bar>k\<bar> \<le> 6553 \<and> sint (quaternionToEuler q out angle) = 5 * k"
proof -
  have clamp: "\<exists>k. \<bar>k\<bar> \<le> 6553 \<and> sint (clamp_angle v) = 5 * k" for v
  proof -
    define k where "k = max (- 6553) (min 6553 (sint v))"
    have "clamp_angle v = word_of_int (5 * k)"
      by (auto simp: clamp_angle_def Let_def k_def MAX_ANGLE_def MUL_def word_sless_alt
          max_def min_def)
    moreover have "\<bar>k\<bar> \<le> 6553" by (auto simp: k_def)
    moreover from this have "sint (word_of_int (5 * k) :: i16) = 5 * k"
      by (intro sint_of_int_16) (simp_all add: abs_le_iff)
    ultimately show ?thesis by metis
  qed
  show ?thesis unfolding quaternionToEuler_def Let_def by (rule clamp)
qed

end
