(* ===== verification/Pins.thy ===== *)
theory Pins
  imports Configuration
begin

text \<open>
  The pins of the AVR build (\<open>src/src/avr/lib/pins/pins.c\<close>, \<open>shared/lib/pins/pins.h\<close>) on the
  Arduino Uno (\<open>avr/variants/uno/pins_arduino.h\<close>): digital reads and writes, pin modes, and the
  analogue inputs, which are sampled one per tick in turn.

  The chip is the record \<open>avr\<close>: the three registers of each port, the status register, the ADC's
  control registers, and the flash bytes that follow the two pin tables (a pin number of 20 or
  more reads past their end). A port number selects a register of its own, also one that
  no table entry names. The ADC converts the channel selected in ADMUX; \<open>adc\<close> is the 10-bit
  sample of each channel. An index out of range is the value None.
\<close>

section \<open>Constants\<close>

definition NOT_A_PIN :: u8 where "NOT_A_PIN = 0"
definition OUTPUT :: u8 where "OUTPUT = 0"
definition INPUT :: u8 where "INPUT = 1"
definition INPUT_PULLUP :: u8 where "INPUT_PULLUP = 2"
definition PB :: u8 where "PB = 2"
definition PC :: u8 where "PC = 3"
definition PD :: u8 where "PD = 4"

definition NUM_DIGITAL_PINS :: nat where "NUM_DIGITAL_PINS = 20"
definition NUM_ANALOG_INPUTS :: nat where "NUM_ANALOG_INPUTS = 6"
definition PIN_SPI_SS :: u8 where "PIN_SPI_SS = 10"
definition PIN_SPI_MOSI :: u8 where "PIN_SPI_MOSI = 11"
definition PIN_SPI_MISO :: u8 where "PIN_SPI_MISO = 12"
definition PIN_SPI_SCK :: u8 where "PIN_SPI_SCK = 13"
definition PIN_PS2_ACK :: u8 where "PIN_PS2_ACK = 7"
definition PIN_PS2_ATT :: u8 where "PIN_PS2_ATT = 10"
definition PIN_WIRE_SDA :: u8 where "PIN_WIRE_SDA = 18"
definition PIN_WIRE_SCL :: u8 where "PIN_WIRE_SCL = 19"
definition PIN_A0 :: u8 where "PIN_A0 = 14"

definition digital_pin_to_port_PGM :: "u8 list" where
  "digital_pin_to_port_PGM =
     [PD, PD, PD, PD, PD, PD, PD, PD, PB, PB, PB, PB, PB, PB, PC, PC, PC, PC, PC, PC]"

definition digital_pin_to_bit_mask_PGM :: "u8 list" where
  "digital_pin_to_bit_mask_PGM =
     [bv 0, bv 1, bv 2, bv 3, bv 4, bv 5, bv 6, bv 7, bv 0, bv 1, bv 2, bv 3, bv 4, bv 5,
      bv 0, bv 1, bv 2, bv 3, bv 4, bv 5]"

section \<open>The chip\<close>

record avr =
  ddr :: "u8 \<Rightarrow> u8"
  port_out :: "u8 \<Rightarrow> u8"
  port_in :: "u8 \<Rightarrow> u8"
  SREG :: u8
  ADCSRA :: u8
  ADMUX :: u8
  flash_port :: "u8 \<Rightarrow> u8"
  flash_mask :: "u8 \<Rightarrow> u8"

definition ADSC :: nat where "ADSC = 6"
definition ADEN :: nat where "ADEN = 7"

definition cli :: "avr \<Rightarrow> avr" where "cli a = a\<lparr>SREG := bit_clear_m (SREG a) 7\<rparr>"
definition sei :: "avr \<Rightarrow> avr" where "sei a = a\<lparr>SREG := bit_set_m (SREG a) 7\<rparr>"

definition digitalPinToPort :: "avr \<Rightarrow> u8 \<Rightarrow> u8" where
  "digitalPinToPort a p =
     (if unat p < length digital_pin_to_port_PGM then digital_pin_to_port_PGM ! unat p
      else flash_port a p)"

definition digitalPinToBitMask :: "avr \<Rightarrow> u8 \<Rightarrow> u8" where
  "digitalPinToBitMask a p =
     (if unat p < length digital_pin_to_bit_mask_PGM then digital_pin_to_bit_mask_PGM ! unat p
      else flash_mask a p)"

section \<open>Digital pins\<close>

datatype port_reg = OutReg u8 | InReg u8

fun reg_read :: "avr \<Rightarrow> port_reg \<Rightarrow> u8" where
  "reg_read a (OutReg p) = port_out a p"
| "reg_read a (InReg p) = port_in a p"

record Pin_t =
  pin_mask :: u8
  pin_port :: port_reg
  pin_eq :: bool
  pin_pin :: u8
  pin_offset :: u8
  pin_lastMillis :: u32
  pin_milliDeBounce :: u8
  pin_analogOffset :: u8

record AnalogInfo_t =
  ai_offset :: u8
  ai_pin :: u8
  ai_inverted :: bool
  ai_value :: i16
  ai_threshold :: u16
  ai_hasDigital :: bool

definition zero_info :: AnalogInfo_t where
  "zero_info = \<lparr>ai_offset = 0, ai_pin = 0, ai_inverted = False, ai_value = 0, ai_threshold = 0,
                ai_hasDigital = False\<rparr>"

definition setUpDigital :: "avr \<Rightarrow> Configuration_t \<Rightarrow> u8 \<Rightarrow> u8 \<Rightarrow> bool \<Rightarrow> bool \<Rightarrow> Pin_t" where
  "setUpDigital a config pinNum off inverted output =
     (let port = digitalPinToPort a pinNum
      in \<lparr>pin_mask = digitalPinToBitMask a pinNum,
          pin_port = (if output then OutReg port else InReg port),
          pin_eq = inverted, pin_pin = pinNum, pin_offset = off, pin_lastMillis = 0,
          pin_milliDeBounce = deb_buttons (cfg_debounce config),
          pin_analogOffset = INVALID_PIN\<rparr>)"

text \<open>
  \<open>info.value > info.threshold\<close> compares an \<open>int16_t\<close> with a \<open>uint16_t\<close>: with a 16-bit \<open>int\<close>
  both are converted to unsigned, the order of words.
\<close>

definition digitalReadPin :: "avr \<Rightarrow> AnalogInfo_t list \<Rightarrow> Pin_t \<Rightarrow> bool option" where
  "digitalReadPin a joyData pin =
     (if pin_analogOffset pin = INVALID_PIN
      then Some (truthy (reg_read a (pin_port pin) AND pin_mask pin) = pin_eq pin)
      else if unat (pin_analogOffset pin) < length joyData
      then let info = joyData ! unat (pin_analogOffset pin)
           in Some (ai_threshold info < ai_value info)
      else None)"

definition write_out :: "u8 \<Rightarrow> bool \<Rightarrow> u8 \<Rightarrow> avr \<Rightarrow> avr" where
  "write_out port high m a =
     a\<lparr>port_out := (port_out a)
       (port := if high then port_out a port OR m else port_out a port AND NOT m)\<rparr>"

text \<open>Writing a bit of an input register toggles the output register, as the chip defines it.\<close>

fun reg_write :: "port_reg \<Rightarrow> u8 \<Rightarrow> avr \<Rightarrow> avr" where
  "reg_write (OutReg p) v a = a\<lparr>port_out := (port_out a)(p := v)\<rparr>"
| "reg_write (InReg p) v a = a\<lparr>port_out := (port_out a)(p := port_out a p XOR v)\<rparr>"

definition digitalWritePin :: "Pin_t \<Rightarrow> bool \<Rightarrow> avr \<Rightarrow> avr" where
  "digitalWritePin pin value a =
     (let r = reg_read a (pin_port pin)
      in reg_write (pin_port pin)
           (if value then r OR pin_mask pin else r AND NOT (pin_mask pin)) a)"

definition digitalWrite :: "u8 \<Rightarrow> u8 \<Rightarrow> avr \<Rightarrow> avr" where
  "digitalWrite pin val a =
     (let m = digitalPinToBitMask a pin; port = digitalPinToPort a pin
      in if port = NOT_A_PIN then a
         else (write_out port (val \<noteq> 0) m (cli a))\<lparr>SREG := SREG a\<rparr>)"

definition digitalRead :: "avr \<Rightarrow> u8 \<Rightarrow> bool" where
  "digitalRead a pin =
     (let m = digitalPinToBitMask a pin; port = digitalPinToPort a pin
      in if port = NOT_A_PIN then False else truthy (port_in a port AND m))"

definition write_mode :: "u8 \<Rightarrow> bool \<Rightarrow> u8 \<Rightarrow> avr \<Rightarrow> avr" where
  "write_mode port out m a =
     a\<lparr>ddr := (ddr a)(port := if out then ddr a port OR m else ddr a port AND NOT m)\<rparr>"

definition pinMode :: "u8 \<Rightarrow> u8 \<Rightarrow> avr \<Rightarrow> avr" where
  "pinMode pin mode a =
     (let m = digitalPinToBitMask a pin; port = digitalPinToPort a pin
      in if port = NOT_A_PIN then a
         else let b = (if mode = INPUT then write_out port False m (write_mode port False m (cli a))
                       else if mode = INPUT_PULLUP
                       then write_out port True m (write_mode port False m (cli a))
                       else write_mode port True m (cli a))
              in sei (b\<lparr>SREG := SREG a\<rparr>))"

section \<open>Analogue inputs\<close>

text \<open>The globals of pins.c and the array \<open>joyData\<close>, with the chip they act on.\<close>

record analog_state =
  hw :: avr
  joyData :: "AnalogInfo_t list"
  validAnalog :: nat
  currentAnalog :: nat
  first :: bool

definition joy_push :: "AnalogInfo_t \<Rightarrow> analog_state \<Rightarrow> analog_state option" where
  "joy_push info s =
     (if validAnalog s < length (joyData s)
      then Some (s\<lparr>joyData := (joyData s)[validAnalog s := info], validAnalog := validAnalog s + 1\<rparr>)
      else None)"

definition analog_wanted :: "bool \<Rightarrow> Configuration_t \<Rightarrow> nat \<Rightarrow> bool" where
  "analog_wanted typeIsGuitar config off \<longleftrightarrow>
     apin_pin (pins_axis (cfg_pins config) ! off) \<noteq> INVALID_PIN \<and>
     \<not> (off = 5 \<and> typeIsGuitar \<and> tiltType (cfg_main config) \<noteq> tilt_val ANALOGUE)"

definition analog_info :: "Configuration_t \<Rightarrow> nat \<Rightarrow> AnalogInfo_t" where
  "analog_info config off =
     (let apin = pins_axis (cfg_pins config) ! off
      in zero_info\<lparr>ai_offset := of_nat off, ai_hasDigital := False,
                   ai_inverted := apin_inverted apin, ai_pin := apin_pin apin - PIN_A0\<rparr>)"

definition setUpAnalogPin ::
  "bool \<Rightarrow> Configuration_t \<Rightarrow> nat \<Rightarrow> analog_state \<Rightarrow> analog_state option" where
  "setUpAnalogPin typeIsGuitar config off s =
     (if \<not> analog_wanted typeIsGuitar config off then Some s
      else joy_push (analog_info config off)
             (s\<lparr>hw := pinMode (apin_pin (pins_axis (cfg_pins config) ! off)) INPUT (hw s)\<rparr>))"

definition setUpAnalogDigitalPin ::
  "Pin_t \<Rightarrow> u8 \<Rightarrow> u16 \<Rightarrow> analog_state \<Rightarrow> (Pin_t \<times> analog_state) option" where
  "setUpAnalogDigitalPin button pin threshold s =
     map_option (Pair (button\<lparr>pin_analogOffset := of_nat (validAnalog s)\<rparr>))
       (joy_push (zero_info\<lparr>ai_offset := pin, ai_hasDigital := True, ai_threshold := threshold,
                            ai_pin := pin - PIN_A0\<rparr>)
         (s\<lparr>hw := pinMode pin INPUT (hw s)\<rparr>))"

text \<open>What the interrupt-free reader stores for a sample.\<close>

definition scale_sample :: "AnalogInfo_t \<Rightarrow> u16 \<Rightarrow> i16" where
  "scale_sample info sample =
     (let high = (ucast (drop_bit 8 sample) :: u8); low = (ucast sample :: u8);
          data = (push_bit 8 (ucast high) OR ucast low :: i16);
          data = (if \<not> ai_hasDigital info
                  then let d = data - 512 in if ai_inverted info then - d else d
                  else data)
      in data * 64)"

definition start_conversion :: "analog_state \<Rightarrow> analog_state" where
  "start_conversion s =
     s\<lparr>hw := (hw s)\<lparr>ADMUX := bv 6 OR (ai_pin (joyData s ! currentAnalog s) AND 0x07),
                    ADCSRA := bit_set_m (ADCSRA (hw s)) ADSC\<rparr>\<rparr>"

text \<open>
  One tick. Whether the conversion is still running is the hardware's answer \<open>busy\<close>; a finished
  one has cleared ADSC, and its result is the sample of the channel selected in ADMUX.
\<close>

definition tickAnalog :: "(u8 \<Rightarrow> u16) \<Rightarrow> bool \<Rightarrow> analog_state \<Rightarrow> analog_state" where
  "tickAnalog adc busy s =
     (if validAnalog s = 0 then s
      else if \<not> first s \<and> busy then s
      else let s1 = (if first s then s
                     else let i = currentAnalog s;
                              v = scale_sample (joyData s ! i) (adc (ADMUX (hw s) AND 0x07));
                              i' = (if i + 1 = validAnalog s then 0 else i + 1)
                          in s\<lparr>hw := (hw s)\<lparr>ADCSRA := bit_clear_m (ADCSRA (hw s)) ADSC\<rparr>,
                               joyData := (joyData s)[i := (joyData s ! i)\<lparr>ai_value := v\<rparr>],
                               currentAnalog := i'\<rparr>)
           in start_conversion (s1\<lparr>first := False\<rparr>))"

text \<open>The loop on ADSC ends when the hardware has cleared it.\<close>

definition stopReading :: "analog_state \<Rightarrow> analog_state" where
  "stopReading s =
     s\<lparr>hw := (hw s)\<lparr>ADCSRA := bit_clear_m (ADCSRA (hw s)) ADSC\<rparr>, first := True\<rparr>"

definition analogRead :: "(u8 \<Rightarrow> u16) \<Rightarrow> u8 \<Rightarrow> avr \<Rightarrow> u16 \<times> avr" where
  "analogRead adc pin a =
     (let pin = (if 14 \<le> pin then pin - 14 else pin);
          a1 = a\<lparr>ADMUX := bv 6 OR (pin AND 0x07)\<rparr>;
          sample = adc (ADMUX a1 AND 0x07);
          low = (ucast sample :: u8); high = (ucast (drop_bit 8 sample) :: u8)
      in (push_bit 8 (ucast high) OR ucast low,
          a1\<lparr>ADCSRA := bit_clear_m (ADCSRA a1) ADSC\<rparr>))"

text \<open>At 16 MHz: all three prescaler bits, then the enable bit.\<close>

definition setupADC :: "avr \<Rightarrow> avr" where
  "setupADC a =
     a\<lparr>ADCSRA := bit_set_m (bit_set_m (bit_set_m (bit_set_m (ADCSRA a) 2) 1) 0) ADEN\<rparr>"

fun setUpAnalogPins ::
  "bool \<Rightarrow> Configuration_t \<Rightarrow> nat list \<Rightarrow> analog_state \<Rightarrow> analog_state option" where
  "setUpAnalogPins g config [] s = Some s"
| "setUpAnalogPins g config (i # is) s =
     Option.bind (setUpAnalogPin g config i s) (setUpAnalogPins g config is)"

definition setUpValidPins :: "bool \<Rightarrow> Configuration_t \<Rightarrow> analog_state \<Rightarrow> analog_state option" where
  "setUpValidPins typeIsGuitar config s =
     setUpAnalogPins typeIsGuitar config [0..<6]
       ((stopReading s)\<lparr>validAnalog := 0, currentAnalog := 0\<rparr>)"

section \<open>Facts\<close>

lemma pin_hw_simps [simp]:
  "port_out (cli a) = port_out a" "ddr (cli a) = ddr a" "port_in (cli a) = port_in a"
  "port_out (sei a) = port_out a" "ddr (sei a) = ddr a" "port_in (sei a) = port_in a"
  by (simp_all add: cli_def digitalPinToPort_def digitalPinToBitMask_def sei_def)

lemma pin_reg_simps [simp]:
  "digitalPinToPort (a\<lparr>SREG := s\<rparr>) = digitalPinToPort a"
  "digitalPinToBitMask (a\<lparr>SREG := s\<rparr>) = digitalPinToBitMask a"
  "digitalPinToPort (sei a) = digitalPinToPort a"
  "digitalPinToBitMask (sei a) = digitalPinToBitMask a"
  "digitalPinToPort (write_out p v m a) = digitalPinToPort a"
  "digitalPinToBitMask (write_out p v m a) = digitalPinToBitMask a"
  "digitalPinToPort (write_mode p v m a) = digitalPinToPort a"
  "digitalPinToBitMask (write_mode p v m a) = digitalPinToBitMask a"
  "digitalPinToPort (cli a) = digitalPinToPort a"
  "digitalPinToBitMask (cli a) = digitalPinToBitMask a"
  "port_out (write_mode p v m a) = port_out a" "ddr (write_out p v m a) = ddr a"
  by (simp_all add: fun_eq_iff cli_def sei_def write_out_def write_mode_def digitalPinToPort_def
      digitalPinToBitMask_def)

text \<open>No two pins share a bit of a port: the two tables are checked entry by entry.\<close>

lemma pin_tables_disjoint:
  "\<forall>p\<in>set [0..<20]. \<forall>q\<in>set [0..<20]. digital_pin_to_port_PGM ! p = digital_pin_to_port_PGM ! q \<longrightarrow>
     digital_pin_to_bit_mask_PGM ! p AND digital_pin_to_bit_mask_PGM ! q =
       (if p = q then digital_pin_to_bit_mask_PGM ! p else 0)"
  by code_simp

lemma pin_table_nonzero:
  "\<forall>p\<in>set [0..<20]. digital_pin_to_bit_mask_PGM ! p \<noteq> 0 \<and> digital_pin_to_port_PGM ! p \<noteq> NOT_A_PIN"
  by code_simp

lemma pin_table_lengths [simp]:
  "length digital_pin_to_port_PGM = 20" "length digital_pin_to_bit_mask_PGM = 20"
  by (simp_all add: digital_pin_to_port_PGM_def digital_pin_to_bit_mask_PGM_def)

lemma uno_pin:
  assumes "p < (20 :: u8)"
  shows "digitalPinToPort a p = digital_pin_to_port_PGM ! unat p"
    and "digitalPinToBitMask a p = digital_pin_to_bit_mask_PGM ! unat p"
    and "digitalPinToPort a p \<noteq> NOT_A_PIN" and "digitalPinToBitMask a p \<noteq> 0"
proof -
  have "unat p < 20" using assms by (simp add: word_less_nat_alt)
  then show "digitalPinToPort a p = digital_pin_to_port_PGM ! unat p"
    and "digitalPinToBitMask a p = digital_pin_to_bit_mask_PGM ! unat p"
    and "digitalPinToPort a p \<noteq> NOT_A_PIN" and "digitalPinToBitMask a p \<noteq> 0"
    using pin_table_nonzero by (simp_all add: digitalPinToPort_def digitalPinToBitMask_def)
qed

lemma uno_pins_disjoint:
  assumes "p < (20 :: u8)" "q < 20" "digitalPinToPort a p = digitalPinToPort a q"
  shows "digitalPinToBitMask a p AND digitalPinToBitMask a q =
           (if p = q then digitalPinToBitMask a p else 0)"
proof -
  have "unat p \<in> set [0..<20]" "unat q \<in> set [0..<20]"
    using assms by (simp_all add: word_less_nat_alt)
  with pin_tables_disjoint assms(3) show ?thesis
    by (simp add: uno_pin [OF assms(1)] uno_pin [OF assms(2)] word_unat_eq_iff)
qed

text \<open>The level a pin drives.\<close>

definition out_level :: "avr \<Rightarrow> u8 \<Rightarrow> bool" where
  "out_level a p = truthy (port_out a (digitalPinToPort a p) AND digitalPinToBitMask a p)"

definition is_output :: "avr \<Rightarrow> u8 \<Rightarrow> bool" where
  "is_output a p = truthy (ddr a (digitalPinToPort a p) AND digitalPinToBitMask a p)"

lemma mask_set_clear:
  fixes x m n :: u8
  shows "m AND n = 0 \<Longrightarrow> (x OR m) AND n = x AND n"
    and "m AND n = 0 \<Longrightarrow> (x AND NOT m) AND n = x AND n"
    and "(x OR m) AND m = m" and "(x AND NOT m) AND m = 0"
proof -
  assume *: "m AND n = 0"
  have "\<not> (bit m k \<and> bit n k)" for k
    using arg_cong [OF *, of "\<lambda>w. bit w k"] by (simp add: bit_and_iff)
  then show "(x OR m) AND n = x AND n" "(x AND NOT m) AND n = x AND n"
    by (auto intro!: bit_word_eqI simp: bit_and_iff bit_or_iff bit_not_iff)
next
  show "(x OR m) AND m = m" "(x AND NOT m) AND m = 0"
    by (auto intro!: bit_word_eqI simp: bit_and_iff bit_or_iff bit_not_iff)
qed

lemma level_write_out:
  assumes "p < 20" "q < 20" "port_out b = port_out a"
  shows "port_out (write_out (digitalPinToPort a p) v (digitalPinToBitMask a p) b)
            (digitalPinToPort a q) AND digitalPinToBitMask a q = 0 \<longleftrightarrow>
         (if q = p then \<not> v else port_out a (digitalPinToPort a q) AND digitalPinToBitMask a q = 0)"
  using uno_pins_disjoint [OF assms(1,2), of a] uno_pin(4) [OF assms(1), of a] assms(3)
  by (auto simp: write_out_def mask_set_clear)

lemma level_write_mode:
  assumes "p < 20" "q < 20" "ddr b = ddr a"
  shows "ddr (write_mode (digitalPinToPort a p) v (digitalPinToBitMask a p) b)
            (digitalPinToPort a q) AND digitalPinToBitMask a q = 0 \<longleftrightarrow>
         (if q = p then \<not> v else ddr a (digitalPinToPort a q) AND digitalPinToBitMask a q = 0)"
  using uno_pins_disjoint [OF assms(1,2), of a] uno_pin(4) [OF assms(1), of a] assms(3)
  by (auto simp: write_mode_def mask_set_clear)

lemma scale_sample_word:
  "scale_sample info sample =
     (if ai_hasDigital info then sample
      else if ai_inverted info then 512 - sample else sample - 512) * 64"
proof -
  have "push_bit 8 (ucast (ucast (drop_bit 8 sample) :: u8)) OR ucast (ucast sample :: u8) = sample"
    using un_le16_le16 [of sample] by (simp add: un_le16_def le16_def or.commute)
  then show ?thesis
    by (simp add: scale_sample_def Let_def)
qed

lemma joy_push_length: "joy_push i s = Some s' \<Longrightarrow> length (joyData s') = length (joyData s)"
  by (auto simp: joy_push_def split: if_splits)

lemma setUpAnalogPins_fills:
  assumes "validAnalog s + length is \<le> length (joyData s)"
  shows "\<exists>s'. setUpAnalogPins g config is s = Some s' \<and> length (joyData s') = length (joyData s) \<and>
    validAnalog s' = validAnalog s + length (filter (analog_wanted g config) is) \<and>
    take (validAnalog s') (joyData s') =
      take (validAnalog s) (joyData s) @ map (analog_info config) (filter (analog_wanted g config) is) \<and>
    currentAnalog s' = currentAnalog s \<and> first s' = first s"
  using assms
proof (induction "is" arbitrary: s)
  case Nil
  then show ?case by simp
next
  case (Cons i "is")
  show ?case
  proof (cases "analog_wanted g config i")
    case False
    then have "setUpAnalogPin g config i s = Some s" by (simp add: setUpAnalogPin_def)
    with False Cons.IH [of s] Cons.prems show ?thesis by simp
  next
    case True
    define s1 where "s1 = s\<lparr>hw := pinMode (apin_pin (pins_axis (cfg_pins config) ! i)) INPUT (hw s),
      joyData := (joyData s)[validAnalog s := analog_info config i],
      validAnalog := validAnalog s + 1\<rparr>"
    have "setUpAnalogPin g config i s = Some s1"
      using True Cons.prems by (simp add: setUpAnalogPin_def joy_push_def s1_def)
    moreover have "take (validAnalog s1) (joyData s1) =
        take (validAnalog s) (joyData s) @ [analog_info config i]"
      using Cons.prems by (simp add: s1_def take_Suc_conv_app_nth)
    moreover have "validAnalog s1 = validAnalog s + 1" "length (joyData s1) = length (joyData s)"
      "currentAnalog s1 = currentAnalog s" "first s1 = first s"
      by (simp_all add: s1_def)
    ultimately show ?thesis using True Cons.IH [of s1] Cons.prems by auto
  qed
qed

lemma setUpValidPins_fills:
  assumes "length (joyData s) = NUM_ANALOG_INPUTS"
  shows "\<exists>s'. setUpValidPins g config s = Some s' \<and> length (joyData s') = NUM_ANALOG_INPUTS \<and>
    take (validAnalog s') (joyData s') =
      map (analog_info config) (filter (analog_wanted g config) [0..<6]) \<and>
    validAnalog s' = length (filter (analog_wanted g config) [0..<6]) \<and>
    currentAnalog s' = 0 \<and> first s'"
  using setUpAnalogPins_fills [of "(stopReading s)\<lparr>validAnalog := 0, currentAnalog := 0\<rparr>"
      "[0..<6]" g config] assms
  by (auto simp: setUpValidPins_def NUM_ANALOG_INPUTS_def stopReading_def simp del: upt.simps)

definition fresh :: "(u8 \<Rightarrow> u16) \<Rightarrow> AnalogInfo_t \<Rightarrow> AnalogInfo_t" where
  "fresh adc i = i\<lparr>ai_value := scale_sample i (adc (ai_pin i AND 0x07))\<rparr>"

text \<open>
  The turns of the sampler: it began at entry \<open>c\<close> of \<open>n\<close> and has taken \<open>k\<close> samples, so the \<open>k\<close>
  entries from \<open>c\<close> on, around the end, are fresh.
\<close>

definition sampled ::
  "(u8 \<Rightarrow> u16) \<Rightarrow> AnalogInfo_t list \<Rightarrow> nat \<Rightarrow> nat \<Rightarrow> nat \<Rightarrow> analog_state \<Rightarrow> bool" where
  "sampled adc J n c k s \<longleftrightarrow> validAnalog s = n \<and> \<not> first s \<and> length (joyData s) = length J \<and>
     (\<forall>i<length J. joyData s ! i = (if \<exists>j<k. i = (c + j) mod n then fresh adc (J ! i) else J ! i)) \<and>
     currentAnalog s = (c + k) mod n \<and>
     ADMUX (hw s) AND 0x07 = ai_pin (J ! currentAnalog s) AND 0x07"

lemma mux_channel: "(bv 6 OR (p AND 7)) AND 7 = (p AND 7 :: u8)"
proof -
  have "(bv 6 :: u8) AND 7 = 0" by (simp add: bv_def)
  then show ?thesis by (simp add: and.assoc bit.conj_disj_distrib2)
qed

lemma sampled_step:
  assumes "sampled adc J n c k s" "k < n" "n \<le> length J"
  shows "sampled adc J n c (k + 1) (tickAnalog adc False s)"
proof -
  define i where "i = (c + k) mod n"
  define i' where "i' = (c + (k + 1)) mod n"
  have "i < n" "i' < n" using assms(2) by (simp_all add: i_def i'_def)
  then have i: "i < length J" "i' < length J" using assms(3) by simp_all
  have n: "validAnalog s = n" "n \<noteq> 0" "\<not> first s" "currentAnalog s = i" "length (joyData s) = length J"
    using assms by (auto simp: sampled_def i_def)
  have turn: "(if i + 1 = n then 0 else i + 1) = i'"
    using n(2) by (simp add: i_def i'_def mod_Suc)
  have apart: "(c + j) mod n \<noteq> i" if "j < k" for j
  proof
    assume "(c + j) mod n = i"
    then have "n dvd k - j" using that mod_eq_dvd_iff_nat [of "c + j" "c + k" n] by (simp add: i_def)
    with that assms(2) show False by (auto dest: dvd_imp_le)
  qed
  then have joy: "joyData s ! i = J ! i"
    using assms(1) i(1) by (auto simp: sampled_def)
  have "(joyData s ! i)\<lparr>ai_value := scale_sample (joyData s ! i) (adc (ADMUX (hw s) AND 0x07))\<rparr> =
      fresh adc (J ! i)"
    using assms(1) joy n(4) by (simp add: sampled_def fresh_def)
  then have tick: "joyData (tickAnalog adc False s) = (joyData s)[i := fresh adc (J ! i)]"
    "currentAnalog (tickAnalog adc False s) = i'" "\<not> first (tickAnalog adc False s)"
    "validAnalog (tickAnalog adc False s) = n"
    "ADMUX (hw (tickAnalog adc False s)) AND 7 = ai_pin ((joyData s)[i := fresh adc (J ! i)] ! i') AND 7"
    using n turn by (simp_all add: tickAnalog_def start_conversion_def mux_channel Let_def)
  have taken: "(joyData s)[i := fresh adc (J ! i)] ! x =
      (if \<exists>j<k + 1. x = (c + j) mod n then fresh adc (J ! x) else J ! x)" if "x < length J" for x
    using assms(1) that n(5) i(1) by (auto simp: sampled_def nth_list_update i_def less_Suc_eq)
  moreover have "ai_pin ((joyData s)[i := fresh adc (J ! i)] ! i') = ai_pin (J ! i')"
    using taken [OF i(2)] by (simp add: fresh_def)
  ultimately show ?thesis
    using tick n(5) by (simp add: sampled_def i'_def)
qed

lemma busy_tick: "\<not> first s \<Longrightarrow> tickAnalog adc True s = s"
  by (simp add: tickAnalog_def)

lemma sampled_run:
  assumes "sampled adc J n c k s" "n \<le> length J" "k + length (filter Not bs) \<le> n"
  shows "sampled adc J n c (k + length (filter Not bs)) (fold (tickAnalog adc) bs s)"
  using assms
proof (induction bs arbitrary: k s)
  case (Cons b bs)
  show ?case
  proof (cases b)
    case True
    moreover have "tickAnalog adc True s = s" using Cons.prems(1) by (simp add: busy_tick sampled_def)
    ultimately show ?thesis using Cons by simp
  next
    case False
    with Cons.prems have "sampled adc J n c (k + 1) (tickAnalog adc False s)"
      by (intro sampled_step) auto
    with False Cons.IH [of "k + 1"] Cons.prems show ?thesis by simp
  qed
qed simp

text \<open>The tick that only starts the first conversion, and a rotation already under way.\<close>

lemma sampled_start:
  assumes "currentAnalog s < validAnalog s"
    and "first s \<or> ADMUX (hw s) AND 7 = ai_pin (joyData s ! currentAnalog s) AND 7"
  shows "sampled adc (joyData s) (validAnalog s) (currentAnalog s) 0
    (fold (tickAnalog adc) (if first s then [b] else []) s)"
  using assms by (auto simp: tickAnalog_def start_conversion_def sampled_def mux_channel)

lemma full_round:
  assumes "i < n" "c < (n :: nat)"
  shows "\<exists>j<n. i = (c + j) mod n"
proof (cases "c \<le> i")
  case True
  with assms show ?thesis by (intro exI [of _ "i - c"]) simp
next
  case False
  with assms have "c + (i + n - c) = i + n" by simp
  with assms False show ?thesis by (intro exI [of _ "i + n - c"]) simp
qed

lemma sampled_all:
  assumes "sampled adc J n c n s" "c < n" "n \<le> length J"
  shows "joyData s = map (fresh adc) (take n J) @ drop n J" "currentAnalog s = c"
proof -
  have "joyData s ! i = (map (fresh adc) (take n J) @ drop n J) ! i" if "i < length J" for i
  proof (cases "i < n")
    case True
    with full_round [OF True assms(2)] assms that show ?thesis by (simp add: sampled_def nth_append)
  next
    case False
    then have "\<not> (\<exists>j<n. i = (c + j) mod n)" using assms(2) by auto
    then have "joyData s ! i = J ! i" using assms(1) that by (simp only: sampled_def if_False simp_thms)
    with False assms that show ?thesis by (simp add: sampled_def nth_append)
  qed
  with assms show "joyData s = map (fresh adc) (take n J) @ drop n J" "currentAnalog s = c"
    by (auto simp: sampled_def intro!: nth_equalityI)
qed

section \<open>Properties\<close>

text \<open>
  C5: setting up the analogue inputs never writes past joyData: it records exactly the axes that
  have a pin, in order, each with its axis number, its channel counted from A0 and its inversion,
  and marks none of them as digital. On a guitar whose tilt is not analogue the sixth axis, the
  tilt, is left out although it has a pin. The rotation of the converter starts from entry 0.
\<close>

theorem setUpValidPins_records:
  fixes g config
  assumes "length (joyData s) = NUM_ANALOG_INPUTS"
  defines "axes \<equiv> pins_axis (cfg_pins config)"
  defines "wanted \<equiv> filter (\<lambda>i. apin_pin (axes ! i) \<noteq> INVALID_PIN \<and>
      \<not> (i = 5 \<and> g \<and> tiltType (cfg_main config) \<noteq> tilt_val ANALOGUE)) [0..<6]"
  shows "\<exists>s'. setUpValidPins g config s = Some s' \<and> length (joyData s') = NUM_ANALOG_INPUTS \<and>
    validAnalog s' = length wanted \<and>
    take (length wanted) (joyData s') =
      map (\<lambda>i. \<lparr>ai_offset = of_nat i, ai_pin = apin_pin (axes ! i) - PIN_A0,
                ai_inverted = apin_inverted (axes ! i), ai_value = 0, ai_threshold = 0,
                ai_hasDigital = False\<rparr>) wanted \<and>
    currentAnalog s' = 0 \<and> first s'"
proof -
  have wanted: "filter (analog_wanted g config) [0..<6] = wanted"
    unfolding wanted_def axes_def by (rule filter_cong) (simp_all only: analog_wanted_def)
  have info: "analog_info config = (\<lambda>i. \<lparr>ai_offset = of_nat i, ai_pin = apin_pin (axes ! i) - PIN_A0,
      ai_inverted = apin_inverted (axes ! i), ai_value = 0, ai_threshold = 0, ai_hasDigital = False\<rparr>)"
    by (simp add: fun_eq_iff analog_info_def zero_info_def axes_def Let_def)
  from setUpValidPins_fills [OF assms(1), of g config] show ?thesis
    unfolding wanted info by metis
qed

definition blank_avr :: avr where
  "blank_avr = \<lparr>ddr = (\<lambda>_. 0), port_out = (\<lambda>_. 0), port_in = (\<lambda>_. 0), SREG = 0, ADCSRA = 0,
                ADMUX = 0, flash_port = (\<lambda>_. 0), flash_mask = (\<lambda>_. 0)\<rparr>"

definition blank_analog :: analog_state where
  "blank_analog = \<lparr>hw = blank_avr, joyData = replicate 6 zero_info, validAnalog = 0,
                   currentAnalog = 0, first = True\<rparr>"

text \<open>A guitar with a pin for its whammy bar and one for its tilt, which is digital: only the first is recorded.\<close>

definition two_axes :: Configuration_t where
  "two_axes = DEFAULT_CONFIG\<lparr>cfg_pins := (cfg_pins DEFAULT_CONFIG)\<lparr>
     pin_r_x := INVALID_AN_PIN\<lparr>apin_pin := 16, apin_inverted := True\<rparr>,
     pin_r_y := INVALID_AN_PIN\<lparr>apin_pin := 17\<rparr>\<rparr>,
     cfg_main := (cfg_main DEFAULT_CONFIG)\<lparr>tiltType := tilt_val DIGITAL\<rparr>\<rparr>"

theorem setUpValidPins_witness:
  "\<exists>s'. setUpValidPins True two_axes blank_analog = Some s' \<and> validAnalog s' = 1 \<and>
    joyData s' ! 0 = \<lparr>ai_offset = 4, ai_pin = 2, ai_inverted = True, ai_value = 0,
      ai_threshold = 0, ai_hasDigital = False\<rparr>"
proof -
  let ?w = "filter (\<lambda>i. apin_pin (pins_axis (cfg_pins two_axes) ! i) \<noteq> INVALID_PIN \<and>
      \<not> (i = 5 \<and> True \<and> tiltType (cfg_main two_axes) \<noteq> tilt_val ANALOGUE)) [0..<6]"
  have w: "?w = [4]" by code_simp
  have "length (joyData blank_analog) = NUM_ANALOG_INPUTS" by (simp add: blank_analog_def NUM_ANALOG_INPUTS_def)
  from setUpValidPins_records [OF this, of True two_axes]
  obtain s' where "setUpValidPins True two_axes blank_analog = Some s'" "validAnalog s' = 1"
    "take 1 (joyData s') = [\<lparr>ai_offset = 4, ai_pin = 2, ai_inverted = True, ai_value = 0,
      ai_threshold = 0, ai_hasDigital = False\<rparr>]" "length (joyData s') = NUM_ANALOG_INPUTS"
    unfolding w by (auto simp: two_axes_def pins_axis_def INVALID_AN_PIN_def PIN_A0_def)
  moreover from this(3) have "joyData s' ! 0 = [\<lparr>ai_offset = 4, ai_pin = 2, ai_inverted = True,
      ai_value = 0, ai_threshold = 0, ai_hasDigital = False\<rparr>] ! 0"
    by (metis nth_take zero_less_one)
  ultimately show ?thesis by auto
qed

text \<open>
  The value of a 10-bit sample: an axis is centred and scaled to 16 bits, mirrored when
  inverted, and a drum pad keeps its unsigned scale. At the lowest sample an inverted axis
  overflows: it reads as the opposite extreme.
\<close>

theorem scale_sample_value:
  assumes "sample < 1024"
  shows "if ai_hasDigital info then uint (scale_sample info sample) = 64 * uint sample
         else if \<not> ai_inverted info then sint (scale_sample info sample) = 64 * (uint sample - 512)
         else sint (scale_sample info sample) =
                (if sample = 0 then - 32768 else 64 * (512 - uint sample))"
proof -
  have b: "0 \<le> uint sample" "uint sample < 1024"
    using assms by (simp_all add: word_less_alt)
  have s0: "sample = 0 \<longleftrightarrow> uint sample = 0"
    by (simp add: word_uint_eq_iff)
  have "sample * 64 = word_of_int (64 * uint sample)"
    "(sample - 512) * 64 = word_of_int (64 * (uint sample - 512))"
    "(512 - sample) * 64 = word_of_int (64 * (512 - uint sample))"
    by (simp_all add: mult.commute)
  moreover have "sint (word_of_int (64 * (512 - uint sample)) :: i16) =
      (if sample = 0 then - 32768 else 64 * (512 - uint sample))"
  proof (cases "sample = 0")
    case False
    with s0 b(1) have "1 \<le> uint sample" by linarith
    then have "sint (word_of_int (64 * (512 - uint sample)) :: i16) = 64 * (512 - uint sample)"
      by (intro sint_of_int_16) (use b in simp_all)
    with False show ?thesis by (simp only: if_False)
  qed simp
  moreover have "sint (word_of_int (64 * (uint sample - 512)) :: i16) = 64 * (uint sample - 512)"
    by (rule sint_of_int_16) (use b in simp_all)
  moreover have "uint (word_of_int (64 * uint sample) :: i16) = 64 * uint sample"
    unfolding uint_word_of_int by (rule mod_pos_pos_trivial) (use b in simp_all)
  ultimately have vals: "sint ((512 - sample) * 64) =
      (if sample = 0 then - 32768 else 64 * (512 - uint sample))"
    "sint ((sample - 512) * 64) = 64 * (uint sample - 512)" "uint (sample * 64) = 64 * uint sample"
    by metis+
  show ?thesis
    by (cases "ai_hasDigital info"; cases "ai_inverted info")
       (simp_all only: scale_sample_word vals if_True if_False simp_thms)
qed

theorem scale_sample_value_witness:
  "sint (scale_sample (zero_info\<lparr>ai_inverted := True\<rparr>) 0) = - 32768 \<and>
   sint (scale_sample (zero_info\<lparr>ai_inverted := True\<rparr>) 1) = 32704 \<and>
   uint (scale_sample (zero_info\<lparr>ai_hasDigital := True\<rparr>) 1023) = 65472"
  using scale_sample_value [of 0 "zero_info\<lparr>ai_inverted := True\<rparr>"]
    scale_sample_value [of 1 "zero_info\<lparr>ai_inverted := True\<rparr>"]
    scale_sample_value [of 1023 "zero_info\<lparr>ai_hasDigital := True\<rparr>"]
  by (simp add: zero_info_def)

text \<open>
  C7: the analogue inputs take turns, whatever entry's turn it is. As soon as as many conversions
  have finished as there are inputs, however many ticks find the converter busy in between, every
  input holds the scaled sample of its own channel, nothing else has changed, and it is the same
  entry's turn again with its channel selected, so that the next round does the same. A rotation
  that was stopped needs one more tick, which only starts the conversion. The value
  stored is the sample, less 512 on an axis and then negated if the axis is inverted, times 64, in
  16 bits.
\<close>

theorem tickAnalog_round_robin:
  assumes "currentAnalog s < validAnalog s" "validAnalog s \<le> length (joyData s)"
    and "first s \<or> ADMUX (hw s) AND 7 = ai_pin (joyData s ! currentAnalog s) AND 7"
    and "length (filter Not busy) = validAnalog s"
  shows "let s' = fold (tickAnalog adc) ((if first s then [b] else []) @ busy) s in
    joyData s' =
      map (\<lambda>i. let d = adc (ai_pin i AND 7)
                in i\<lparr>ai_value := 64 * (if ai_hasDigital i then d
                                        else if ai_inverted i then 512 - d else d - 512)\<rparr>)
          (take (validAnalog s) (joyData s)) @ drop (validAnalog s) (joyData s) \<and>
    currentAnalog s' = currentAnalog s \<and> validAnalog s' = validAnalog s \<and> \<not> first s' \<and>
    ADMUX (hw s') AND 7 = ai_pin (joyData s' ! currentAnalog s') AND 7"
proof -
  define s' where "s' = fold (tickAnalog adc) ((if first s then [b] else []) @ busy) s"
  have "sampled adc (joyData s) (validAnalog s) (currentAnalog s) (validAnalog s) s'"
    using sampled_run [OF sampled_start [OF assms(1,3), of adc b], of busy] assms(2,4)
    by (simp add: s'_def)
  note all = this sampled_all [OF this assms(1,2)]
  have "fresh adc = (\<lambda>i. let d = adc (ai_pin i AND 7)
      in i\<lparr>ai_value := 64 * (if ai_hasDigital i then d
                              else if ai_inverted i then 512 - d else d - 512)\<rparr>)"
    by (auto simp: fresh_def fun_eq_iff Let_def scale_sample_word mult.commute)
  moreover have "ai_pin (joyData s' ! currentAnalog s) = ai_pin (joyData s ! currentAnalog s)"
    using assms(1,2) all(2) by (simp add: nth_append fresh_def)
  ultimately show ?thesis
    using all unfolding s'_def [symmetric] by (simp add: sampled_def)
qed

text \<open>Two inputs, the second one's turn, and a converter that is busy once.\<close>

theorem tickAnalog_round_robin_witness:
  "let s = \<lparr>hw = blank_avr\<lparr>ADMUX := 0x41\<rparr>, joyData = [zero_info, zero_info\<lparr>ai_pin := 1\<rparr>],
            validAnalog = 2, currentAnalog = 1, first = False\<rparr>
   in map ai_value (joyData (fold (tickAnalog (\<lambda>c. if c = 0 then 512 else 514))
        [False, True, False] s)) = [0, 128]"
  using tickAnalog_round_robin [where b = False and busy = "[False, True, False]" and
      adc = "\<lambda>c. if c = 0 then 512 else 514" and
      s = "\<lparr>hw = blank_avr\<lparr>ADMUX := 0x41\<rparr>, joyData = [zero_info, zero_info\<lparr>ai_pin := 1\<rparr>],
            validAnalog = 2, currentAnalog = 1, first = False\<rparr>"]
  by (simp add: blank_avr_def zero_info_def Let_def del: fold_Cons)

text \<open>
  The pins are independent: writing or configuring one pin of the board sets that pin as
  requested and leaves the level and the direction of every other pin as it was.
\<close>

theorem pins_independent:
  assumes "p < 20" "q < 20"
  shows "out_level (digitalWrite p v a) q = (if q = p then v \<noteq> 0 else out_level a q) \<and>
    out_level (pinMode p mode a) q =
      (if q = p \<and> (mode = INPUT \<or> mode = INPUT_PULLUP) then mode = INPUT_PULLUP else out_level a q) \<and>
    is_output (pinMode p mode a) q =
      (if q = p then mode \<noteq> INPUT \<and> mode \<noteq> INPUT_PULLUP else is_output a q) \<and>
    is_output (digitalWrite p v a) q = is_output a q"
  using uno_pin(3) [OF assms(1), of a] assms
  by (simp add: level_write_out level_write_mode out_level_def is_output_def digitalWrite_def
      pinMode_def Let_def INPUT_def INPUT_PULLUP_def)

theorem pins_independent_witness:
  "out_level (digitalWrite 13 1 blank_avr) 13 \<and> \<not> out_level (digitalWrite 13 1 blank_avr) 12 \<and>
   is_output (pinMode 13 OUTPUT blank_avr) 13 \<and> \<not> is_output (pinMode 13 OUTPUT blank_avr) 12"
  using pins_independent [of 13 13 1 blank_avr OUTPUT] pins_independent [of 13 12 1 blank_avr OUTPUT]
  by (simp add: OUTPUT_def INPUT_def INPUT_PULLUP_def out_level_def is_output_def blank_avr_def)

end
