(* ===== verification/WiiExt.thy ===== *)
theory WiiExt
  imports Fxpt Pins
begin

text \<open>
  The Wii extension controllers (\<open>src/src/shared/input/inputs/wii_ext.h\<close>): identification over
  I2C, the negotiation of the high-resolution mode, and one decoder for each extension.

  The bus is a parameter: \<open>rd addr ptr n\<close> is \<open>twi_readFromPointerSlow\<close>, whose result is the
  returned flag and the bytes that were stored at the start of the caller's buffer (none when it
  fails), \<open>wr addr ptr b\<close> is \<open>twi_writeSingleToPointer\<close>. What a local array holds before
  it is written is the parameter \<open>junk\<close>, by array.
\<close>

section \<open>Decoding\<close>

definition I2C_ADDR :: u8 where "I2C_ADDR = 0x52"

definition wiiButtonBindings :: "u8 list" where
  "wiiButtonBindings =
     [8, 6, 9, 7, 2, 4, INVALID_PIN, INVALID_PIN, 15, 10, 3, INVALID_PIN, 12, 14, 13, 11]"

abbreviation wii_bind :: "ControllerButtons \<Rightarrow> nat" where
  "wii_bind b \<equiv> unat (wiiButtonBindings ! btn b)"

text \<open>What a decoder writes: the controller, the button word, the drum velocities (of direct.h).\<close>

record wii_out =
  wo_ctl :: Controller_t
  wo_buttons :: u16
  wo_drum :: "u8 list"

text \<open>A byte in an \<open>int\<close> expression.\<close>

abbreviation wide :: "u8 \<Rightarrow> i16" where "wide b \<equiv> ucast b"

definition verifyData :: "u8 list \<Rightarrow> bool" where
  "verifyData dataIn =
     (let orCheck = fold (\<lambda>b acc. acc OR b) dataIn 0x00;
          andCheck = fold (\<lambda>b acc. acc AND b) dataIn 0xFF
      in \<not> (orCheck = 0x00 \<or> andCheck = 0xFF))"

definition drum_of :: "u8 \<Rightarrow> ControllerButtons option" where
  "drum_of which =
     (if which = 0x1B then Some XBOX_RB else if which = 0x19 then Some XBOX_B
      else if which = 0x11 then Some XBOX_X else if which = 0x0F then Some XBOX_Y
      else if which = 0x1E then Some XBOX_LB else if which = 0x12 then Some XBOX_A else None)"

definition readDrumExt :: "u8 \<Rightarrow> u8 list \<Rightarrow> wii_out \<Rightarrow> wii_out" where
  "readDrumExt fullDeviceType d w =
     (let ctl = (wo_ctl w)\<lparr>l_x := push_bit 10 (wide (d ! 0) - 0x20),
                           l_y := push_bit 10 (wide (d ! 1) - 0x20)\<rparr>;
          b0 = NOT (wide (d ! 4) OR push_bit 8 (wide (d ! 5))) AND 0xfeff;
          drums = (if subtype_val MIDI_GAMEPAD \<le> fullDeviceType \<and> truthy (bit_check_m (d ! 3) 1)
                   then let vel = ucast (push_bit 5 (7 - wide (drop_bit 5 (d ! 3)))) :: u8;
                            which = drop_bit 1 (d ! 2 AND 0x7C)
                        in (case drum_of which of None \<Rightarrow> wo_drum w
                            | Some b \<Rightarrow> (wo_drum w)[btn b - 8 := vel])
                   else wo_drum w);
          b1 = bit_write_m (\<not> truthy (bit_check_m (d ! 5) 3)) b0 (wii_bind XBOX_X);
          b2 = bit_write_m (\<not> truthy (bit_check_m (d ! 5) 5)) b1 (wii_bind XBOX_Y)
      in \<lparr>wo_ctl = ctl, wo_buttons = b2, wo_drum = drums\<rparr>)"

definition wii_whammy :: "u8 \<Rightarrow> i16" where
  "wii_whammy b =
     (let r0 = wide (b AND 0x1f) - 14;
          r1 = (if r0 <s 0 then 0 else r0);
          r2 = push_bit 1 r1 + r1;
          r3 = (if 31 <s r2 then 31 else r2)
      in push_bit 11 (r3 - 16))"

definition readGuitarExt :: "u8 list \<Rightarrow> wii_out \<Rightarrow> wii_out" where
  "readGuitarExt d w =
     w\<lparr>wo_ctl := (wo_ctl w)\<lparr>l_x := push_bit 10 (wide (d ! 0 AND 0x3f) - 32),
                             l_y := push_bit 10 (wide (d ! 1 AND 0x3f) - 32),
                             r_x := wii_whammy (d ! 3)\<rparr>,
       wo_buttons := NOT (wide (d ! 4) OR push_bit 8 (wide (d ! 5)))\<rparr>"

definition readClassicExtHighRes :: "u8 list \<Rightarrow> wii_out \<Rightarrow> wii_out" where
  "readClassicExtHighRes d w =
     w\<lparr>wo_ctl := (wo_ctl w)\<lparr>l_x := push_bit 8 (wide (d ! 0) - 0x80),
                             l_y := push_bit 8 (wide (d ! 2) - 0x80),
                             r_x := push_bit 8 (wide (d ! 1) - 0x80),
                             r_y := push_bit 8 (wide (d ! 3) - 0x80),
                             lt := d ! 4, rt := d ! 5\<rparr>,
       wo_buttons := NOT (wide (d ! 6) OR push_bit 8 (wide (d ! 7)))\<rparr>"

definition readClassicExt :: "u8 list \<Rightarrow> wii_out \<Rightarrow> wii_out" where
  "readClassicExt d w =
     w\<lparr>wo_ctl := (wo_ctl w)\<lparr>l_x := wide (d ! 0 AND 0x3f) - 32,
                             l_y := wide (d ! 1 AND 0x3f) - 32,
                             r_x := (drop_bit 3 (wide (d ! 0 AND 0xc0)) OR
                                     drop_bit 5 (wide (d ! 1 AND 0xc0)) OR
                                     wide (drop_bit 7 (d ! 2))) - 16,
                             r_y := wide (d ! 2 AND 0x1f) - 16,
                             lt := drop_bit 5 (d ! 3) OR drop_bit 2 (d ! 2 AND 0x60),
                             rt := d ! 3 AND 0x1f\<rparr>,
       wo_buttons := NOT (wide (d ! 4) OR push_bit 8 (wide (d ! 5)))\<rparr>"

text \<open>One 10-bit accelerometer value, centred.\<close>

definition nunchuk_accel :: "u8 \<Rightarrow> u8 \<Rightarrow> i16" where
  "nunchuk_accel high low2 = (push_bit 2 (wide high) OR wide low2) - 511"

definition readNunchukExt :: "bool \<Rightarrow> u8 list \<Rightarrow> wii_out \<Rightarrow> wii_out" where
  "readNunchukExt mapAccel d w =
     (let ctl = (wo_ctl w)\<lparr>l_x := push_bit 8 (wide (d ! 0) - 0x80),
                           l_y := push_bit 8 (wide (d ! 1) - 0x80)\<rparr>;
          ctl = (if mapAccel
                 then let accX = nunchuk_accel (d ! 2) (drop_bit 6 (d ! 5 AND 0xC0));
                          accY = nunchuk_accel (d ! 3) (drop_bit 4 (d ! 5 AND 0x30));
                          accZ = nunchuk_accel (d ! 4) (drop_bit 2 (d ! 5 AND 0xC))
                      in ctl\<lparr>r_x := fxpt_atan2 accX accZ, r_y := fxpt_atan2 accY accZ\<rparr>
                 else ctl);
          b1 = bit_write_m (\<not> truthy (bit_check_m (d ! 5) 0)) 0 (wii_bind XBOX_A);
          b2 = bit_write_m (\<not> truthy (bit_check_m (d ! 5) 1)) b1 (wii_bind XBOX_B)
      in w\<lparr>wo_ctl := ctl, wo_buttons := b2\<rparr>)"

definition readDJExt :: "u8 list \<Rightarrow> wii_out \<Rightarrow> wii_out" where
  "readDJExt d w =
     (let rtt = drop_bit 7 (d ! 2 AND 0x80) OR drop_bit 5 (d ! 1 AND 0xC0) OR
                drop_bit 3 (d ! 0 AND 0xC0)
      in w\<lparr>wo_ctl := (wo_ctl w)\<lparr>
             l_x := push_bit 10 (wide (d ! 0 AND 0x3F) - 0x20),
             l_y := push_bit 10 (wide (d ! 1 AND 0x3F) - 0x20),
             r_x := (if truthy (d ! 4 AND 1) then 32 + (0x1F - wide (d ! 3 AND 0x1F))
                     else 32 - wide (d ! 3 AND 0x1F)),
             r_y := (if truthy (d ! 2 AND 1) then 32 + (0x1F - wide rtt) else 32 - wide rtt),
             lt := drop_bit 5 (d ! 3 AND 0xE0) OR drop_bit 2 (d ! 2 AND 0x60),
             rt := drop_bit 1 (d ! 2 AND 0x1E)\<rparr>,
           wo_buttons := NOT (push_bit 8 (wide (d ! 4)) OR wide (d ! 5)) AND 0x63CD\<rparr>)"

definition readUDrawExt :: "u8 list \<Rightarrow> wii_out \<Rightarrow> wii_out" where
  "readUDrawExt d w =
     (let b1 = bit_write_m (truthy (bit_check_m (d ! 5) 0)) 0 (wii_bind XBOX_A);
          b2 = bit_write_m (truthy (bit_check_m (d ! 5) 1)) b1 (wii_bind XBOX_B);
          b3 = bit_write_m (\<not> truthy (bit_check_m (d ! 5) 2)) b2 (wii_bind XBOX_X)
      in w\<lparr>wo_ctl := (wo_ctl w)\<lparr>
             l_x := push_bit 8 (wide (d ! 2 AND 0x0f)) OR wide (d ! 0),
             l_y := push_bit 4 (wide (d ! 2 AND 0xf0)) OR wide (d ! 1),
             rt := d ! 3\<rparr>,
           wo_buttons := b3\<rparr>)"

definition readDrawsomeExt :: "u8 list \<Rightarrow> wii_out \<Rightarrow> wii_out" where
  "readDrawsomeExt d w =
     w\<lparr>wo_ctl := (wo_ctl w)\<lparr>l_x := wide (d ! 0) OR push_bit 8 (wide (d ! 1)),
                             l_y := wide (d ! 2) OR push_bit 8 (wide (d ! 3)),
                             rt := ucast (wide (d ! 4) OR push_bit 8 (wide (d ! 5 AND 0x0f)))\<rparr>\<rparr>"

definition readTataconExt :: "u8 list \<Rightarrow> wii_out \<Rightarrow> wii_out" where
  "readTataconExt d w = w\<lparr>wo_buttons := NOT (push_bit 8 (wide (d ! 4)) OR wide (d ! 5))\<rparr>"

text \<open>The function pointer \<open>readFunction\<close> and what it points to.\<close>

datatype ext_reader =
    DrumExt | GuitarExt | ClassicExtHighRes | ClassicExt | NunchukExt | DJExt | UDrawExt
  | DrawsomeExt | TataconExt

fun run_reader :: "u8 \<Rightarrow> bool \<Rightarrow> ext_reader \<Rightarrow> u8 list \<Rightarrow> wii_out \<Rightarrow> wii_out" where
  "run_reader full acc DrumExt = readDrumExt full"
| "run_reader full acc GuitarExt = readGuitarExt"
| "run_reader full acc ClassicExtHighRes = readClassicExtHighRes"
| "run_reader full acc ClassicExt = readClassicExt"
| "run_reader full acc NunchukExt = readNunchukExt acc"
| "run_reader full acc DJExt = readDJExt"
| "run_reader full acc UDrawExt = readUDrawExt"
| "run_reader full acc DrawsomeExt = readDrawsomeExt"
| "run_reader full acc TataconExt = readTataconExt"

section \<open>Identification and polling\<close>

datatype junk_array = TickData | ExtId1 | ExtId2 | Check | Validate

type_synonym junk = "junk_array \<Rightarrow> nat \<Rightarrow> u8"
type_synonym 'd i2c_read = "u8 \<Rightarrow> u8 \<Rightarrow> nat \<Rightarrow> 'd \<Rightarrow> (bool \<times> u8 list) \<times> 'd"
type_synonym 'd i2c_write = "u8 \<Rightarrow> u8 \<Rightarrow> u8 \<Rightarrow> 'd \<Rightarrow> bool \<times> 'd"

definition fill :: "junk \<Rightarrow> junk_array \<Rightarrow> nat \<Rightarrow> u8 list" where
  "fill junk a n = map (junk a) [0..<n]"

text \<open>A read into an array: the bytes received replace its start.\<close>

definition overlay :: "u8 list \<Rightarrow> u8 list \<Rightarrow> u8 list" where
  "overlay bs buf = bs @ drop (length bs) buf"

record wii_state =
  wiiExtensionID :: u16
  wii_bytes :: nat
  mapAccel :: bool
  readFunction :: "ext_reader option"

definition readExtID :: "'d i2c_read \<Rightarrow> u8 list \<Rightarrow> 'd \<Rightarrow> u16 \<times> 'd" where
  "readExtID rd buf dev =
     (case rd I2C_ADDR 0xFA 6 dev of ((ok, bs), dev) \<Rightarrow>
        let data = overlay bs buf
        in (if \<not> verifyData data then wii_ext_val WII_NOT_INITIALISED
            else push_bit 8 (wide (data ! 0)) OR wide (data ! 5), dev))"

text \<open>
  The loop that reads until two consecutive reads agree. The arrays keep the bytes of earlier
  rounds that a short or failed read does not replace.
\<close>

fun confirm_high_res ::
  "nat \<Rightarrow> 'd i2c_read \<Rightarrow> u8 list \<Rightarrow> u8 list \<Rightarrow> 'd \<Rightarrow> (bool \<times> 'd) option" where
  "confirm_high_res 0 rd check validate dev = None"
| "confirm_high_res (Suc fuel) rd check validate dev =
     (case rd I2C_ADDR 0 8 dev of ((ok1, bs1), dev1) \<Rightarrow>
      case rd I2C_ADDR 0 8 dev1 of ((ok2, bs2), dev2) \<Rightarrow>
        let check' = overlay bs1 check; validate' = overlay bs2 validate
        in if check' = validate'
           then Some (truthy (check' ! 6) \<or> truthy (check' ! 7), dev2)
           else confirm_high_res fuel rd check' validate' dev2)"

definition reader_for :: "u16 \<Rightarrow> wii_state \<Rightarrow> wii_state" where
  "reader_for ident s =
     (if ident = wii_ext_val WII_GUITAR_HERO_GUITAR_CONTROLLER then s\<lparr>readFunction := Some GuitarExt\<rparr>
      else if ident = wii_ext_val WII_CLASSIC_CONTROLLER \<or>
              ident = wii_ext_val WII_CLASSIC_CONTROLLER_PRO then s
      else if ident = wii_ext_val WII_NUNCHUK then s\<lparr>readFunction := Some NunchukExt\<rparr>
      else if ident = wii_ext_val WII_GUITAR_HERO_DRUM_CONTROLLER then s\<lparr>readFunction := Some DrumExt\<rparr>
      else if ident = wii_ext_val WII_THQ_UDRAW_TABLET then s\<lparr>readFunction := Some UDrawExt\<rparr>
      else if ident = wii_ext_val WII_UBISOFT_DRAWSOME_TABLET then s\<lparr>readFunction := Some DrawsomeExt\<rparr>
      else if ident = wii_ext_val WII_DJ_HERO_TURNTABLE then s\<lparr>readFunction := Some DJExt\<rparr>
      else if ident = wii_ext_val WII_TAIKO_NO_TATSUJIN_CONTROLLER
      then s\<lparr>readFunction := Some TataconExt\<rparr>
      else s\<lparr>wiiExtensionID := wii_ext_val WII_NO_EXTENSION, readFunction := None\<rparr>)"

definition identify :: "'d i2c_read \<Rightarrow> 'd i2c_write \<Rightarrow> junk \<Rightarrow> 'd \<Rightarrow> u16 \<times> 'd" where
  "identify rd wr junk dev =
     (case readExtID rd (fill junk ExtId1 6) dev of (ident, dev1) \<Rightarrow>
      if ident = wii_ext_val WII_NOT_INITIALISED
      then readExtID rd (fill junk ExtId2 6)
             (snd (wr I2C_ADDR 0xFB 0x00 (snd (wr I2C_ADDR 0xF0 0x55 dev1))))
      else (ident, dev1))"

definition initWiiExt ::
  "nat \<Rightarrow> 'd i2c_read \<Rightarrow> 'd i2c_write \<Rightarrow> junk \<Rightarrow> wii_state \<Rightarrow> 'd \<Rightarrow> (wii_state \<times> 'd) option" where
  "initWiiExt fuel rd wr junk s dev =
     (case identify rd wr junk dev of (ident, dev1) \<Rightarrow>
      let s1 = s\<lparr>wiiExtensionID := ident\<rparr>;
          dev2 = (if ident = wii_ext_val WII_UBISOFT_DRAWSOME_TABLET
                  then snd (wr I2C_ADDR 0xF0 0x55 (snd (wr I2C_ADDR 0xFB 0x01 dev1))) else dev1)
      in if ident = wii_ext_val WII_CLASSIC_CONTROLLER \<or> ident = wii_ext_val WII_CLASSIC_CONTROLLER_PRO
         then (case confirm_high_res fuel rd (fill junk Check 8) (fill junk Validate 8)
                      (snd (wr I2C_ADDR 0xFE 0x03 dev2)) of
                 None \<Rightarrow> None
               | Some (highRes, dev3) \<Rightarrow>
                   Some (reader_for ident
                     (if highRes then s1\<lparr>readFunction := Some ClassicExtHighRes, wii_bytes := 8\<rparr>
                      else s1\<lparr>readFunction := Some ClassicExt, wii_bytes := 6\<rparr>), dev3))
         else Some (reader_for ident s1, dev2))"

definition tickWiiExtInput ::
  "nat \<Rightarrow> 'd i2c_read \<Rightarrow> 'd i2c_write \<Rightarrow> junk \<Rightarrow> u8 \<Rightarrow> wii_state \<Rightarrow> wii_out \<Rightarrow> 'd \<Rightarrow>
   (wii_state \<times> wii_out \<times> 'd) option" where
  "tickWiiExtInput fuel rd wr junk fullDeviceType s w dev =
     (let reinit = (\<lambda>dev. case initWiiExt fuel rd wr junk s dev of None \<Rightarrow> None
                           | Some (s', dev') \<Rightarrow> Some (s', w, dev'))
      in if wiiExtensionID s = wii_ext_val WII_NOT_INITIALISED \<or>
            wiiExtensionID s = wii_ext_val WII_NO_EXTENSION
         then reinit dev
         else case rd I2C_ADDR 0x00 (wii_bytes s) dev of ((ok, bs), dev1) \<Rightarrow>
              let data = overlay bs (fill junk TickData 8)
              in if ok \<and> \<not> verifyData (take (wii_bytes s) data) then reinit dev1
                 else case readFunction s of
                        None \<Rightarrow> Some (s, w, dev1)
                      | Some f \<Rightarrow> Some (s, run_reader fullDeviceType (mapAccel s) f data w, dev1))"

definition readWiiButton :: "u16 \<Rightarrow> Pin_t \<Rightarrow> bool" where
  "readWiiButton buttons_word pin =
     (let idx = wiiButtonBindings ! unat (pin_offset pin)
      in if idx = INVALID_PIN then False else truthy (bit_check_m buttons_word (unat idx)))"

definition initWiiExtensions :: "Configuration_t \<Rightarrow> wii_state \<Rightarrow> wii_state" where
  "initWiiExtensions config s = s\<lparr>mapAccel := mapNunchukAccelToRightJoy (cfg_main config)\<rparr>"

section \<open>The bus interface\<close>

text \<open>
  What the decoders rely on: a read stores at most as many bytes as were asked for. The law is discharged for
  the interrupt-driven driver in theory Twi.
\<close>

locale i2c_bus =
  fixes rd :: "'d i2c_read"
  assumes rd_length: "rd a p n dev = ((ok, bs), dev') \<Longrightarrow> length bs \<le> n"
begin

lemma overlay_length:
  "rd a p n dev = ((ok, bs), dev') \<Longrightarrow> n \<le> length buf \<Longrightarrow> length (overlay bs buf) = length buf"
  by (auto simp: overlay_def dest: rd_length)

lemma bytes_invariant:
  assumes "initWiiExt fuel rd wr junk s dev = Some (s', dev')" "wii_bytes s \<le> 8"
  shows "wii_bytes s' \<le> 8"
  using assms by (auto simp: initWiiExt_def reader_for_def Let_def split: prod.splits if_splits option.splits)

end

section \<open>Facts\<close>

lemma bit_wide_pair: "n < 16 \<Longrightarrow> bit (wide lo OR push_bit 8 (wide hi)) n = bit (if n < 8 then lo else hi) (n mod 8)"
  by (cases "n < 8") (auto simp: bit_or_iff bit_push_bit_iff bit_ucast_iff le_mod_geq
      dest: bit_imp_le_length)

lemma upt_32: "[0..<32] = [0, 1, 2, 3, 4, 5, 6, 7, 8, 9, 10, 11, 12, 13, 14, 15, 16, 17, 18, 19,
  20, 21, 22, 23, 24, 25, 26, 27, 28, 29, 30, 31]"
  by (simp add: upt_rec)

lemma wii_whammy_range:
  "- 32768 \<le> sint (wii_whammy b) \<and> sint (wii_whammy b) \<le> 30720 \<and> sint (wii_whammy b) mod 2048 = 0"
proof -
  define whammy_of :: "u8 \<Rightarrow> i16" where "whammy_of v = (let r0 = wide v - 14;
    r1 = (if r0 <s 0 then 0 else r0); r2 = push_bit 1 r1 + r1; r3 = (if 31 <s r2 then 31 else r2)
    in push_bit 11 (r3 - 16))" for v
  have "(0x1f :: u8) = mask 5" by (simp add: mask_eq_exp_minus_1)
  moreover have "- 32768 \<le> sint (whammy_of (b AND mask 5)) \<and> sint (whammy_of (b AND mask 5)) \<le> 30720 \<and>
      sint (whammy_of (b AND mask 5)) mod 2048 = 0"
    by (rule masked_byte) (simp_all add: upt_32 whammy_of_def Let_def word_sless_alt
        minus_exp_eq_not_mask [symmetric])
  ultimately show ?thesis by (simp add: wii_whammy_def whammy_of_def)
qed

text \<open>The pad codes with an odd value cannot come out of a shift by one of the bits 2 to 6.\<close>

lemma drum_of_reachable:
  "drum_of (drop_bit 1 (b AND 0x7C)) \<in> {None, Some XBOX_LB, Some XBOX_A}"
proof -
  have "even (drop_bit 1 (b AND 0x7C))"
    by (simp add: even_and_iff)
  then show ?thesis by (auto simp: drum_of_def)
qed

lemma stick_6bit: "\<exists>k. 0 \<le> k \<and> k < 64 \<and> sint (push_bit 10 (wide (b AND 0x3f) - 32)) = 1024 * (k - 32)"
proof (intro exI conjI)
  define k where "k = uint (b AND 0x3f)"
  have "k = uint (take_bit 6 b)" by (simp add: k_def take_bit_eq_mask mask_eq_exp_minus_1)
  then have "k = take_bit 6 (uint b)" by (simp add: unsigned_take_bit_eq)
  then have "k = uint b mod 64" by (simp add: take_bit_eq_mod)
  then have k: "0 \<le> k" "k < 64" by simp_all
  then show "0 \<le> k" "k < 64" by auto
  have "wide (b AND 0x3f) = word_of_int k" by (simp add: k_def)
  then have "push_bit 10 (wide (b AND 0x3f) - 32) = word_of_int (1024 * (k - 32))"
    by (simp add: push_bit_eq_mult)
  also have "sint \<dots> = 1024 * (k - 32)" using k by (intro sint_of_int_16) simp_all
  finally show "sint (push_bit 10 (wide (b AND 0x3f) - 32)) = 1024 * (k - 32)" .
qed

lemma readWiiButton_active_low:
  "readWiiButton (NOT (wide lo OR push_bit 8 (wide hi))) (p\<lparr>pin_offset := of_nat (btn b)\<rparr>) \<longleftrightarrow>
     wiiButtonBindings ! btn b \<noteq> INVALID_PIN \<and>
     \<not> bit (if wii_bind b < 8 then lo else hi) (wii_bind b mod 8)"
proof -
  have n: "unat (of_nat (btn b) :: u8) = btn b" using btn_less [of b] by (simp add: unat_of_nat)
  have "wiiButtonBindings ! btn b = INVALID_PIN \<or> wii_bind b < 16"
    by (cases b) (simp_all add: wiiButtonBindings_def INVALID_PIN_def)
  then show ?thesis
    by (auto simp: readWiiButton_def n bit_check_nonzero bit_not_iff bit_wide_pair Let_def
        simp del: bit.de_Morgan_disj)
qed

section \<open>Properties\<close>

text \<open>
  The guitar decoder is faithful to the wire: a bound button reads as pressed exactly when
  its bit of the two button bytes is low, the stick is its six bits centred and scaled, and the
  whammy is a multiple of 2048 that spans the signed range from its lowest value.
\<close>

theorem readGuitarExt_decodes:
  "readWiiButton (wo_buttons (readGuitarExt d w)) (p\<lparr>pin_offset := of_nat (btn b)\<rparr>) =
     (wiiButtonBindings ! btn b \<noteq> INVALID_PIN \<and>
      \<not> bit (if wii_bind b < 8 then d ! 4 else d ! 5) (wii_bind b mod 8)) \<and>
   (\<exists>kx ky. 0 \<le> kx \<and> kx < 64 \<and> 0 \<le> ky \<and> ky < 64 \<and>
      sint (l_x (wo_ctl (readGuitarExt d w))) = 1024 * (kx - 32) \<and>
      sint (l_y (wo_ctl (readGuitarExt d w))) = 1024 * (ky - 32)) \<and>
   - 32768 \<le> sint (r_x (wo_ctl (readGuitarExt d w))) \<and>
   sint (r_x (wo_ctl (readGuitarExt d w))) \<le> 30720 \<and>
   sint (r_x (wo_ctl (readGuitarExt d w))) mod 2048 = 0"
proof -
  have eqs: "wo_buttons (readGuitarExt d w) = NOT (wide (d ! 4) OR push_bit 8 (wide (d ! 5)))"
    "l_x (wo_ctl (readGuitarExt d w)) = push_bit 10 (wide (d ! 0 AND 0x3f) - 32)"
    "l_y (wo_ctl (readGuitarExt d w)) = push_bit 10 (wide (d ! 1 AND 0x3f) - 32)"
    "r_x (wo_ctl (readGuitarExt d w)) = wii_whammy (d ! 3)"
    by (simp_all add: readGuitarExt_def)
  show ?thesis
    unfolding eqs readWiiButton_active_low
    using stick_6bit [of "d ! 0"] stick_6bit [of "d ! 1"] wii_whammy_range [of "d ! 3"] by blast
qed

text \<open>
  The velocity of a drum pad is recorded at most for two of the six pads: the pad code is
  shifted into an even number, and four of the six codes tested are odd.
\<close>

theorem drum_velocity_pads:
  "\<exists>v. wo_drum (readDrumExt fullDeviceType d w) \<in>
     {wo_drum w, (wo_drum w)[btn XBOX_LB - 8 := v], (wo_drum w)[btn XBOX_A - 8 := v]}"
proof -
  have "drum_of (drop_bit 1 (d ! 2 AND 0x7C)) \<in> {None, Some XBOX_LB, Some XBOX_A}"
    by (rule drum_of_reachable)
  then show ?thesis
    by (auto simp: readDrumExt_def Let_def)
qed

text \<open>The identifiers the code knows, each with its decoder; the classic controllers are chosen apart.\<close>

definition ext_table :: "(u16 \<times> ext_reader) list" where
  "ext_table = [(0x0003, GuitarExt), (0x0000, NunchukExt), (0x0103, DrumExt), (0xFF12, UDrawExt),
     (0xFF13, DrawsomeExt), (0x0303, DJExt), (0x0011, TataconExt)]"

text \<open>The identifier in a reply of six bytes: its first and last byte, unless all are 0 or all are 0xFF.\<close>

definition ext_id :: "u8 list \<Rightarrow> u16" where
  "ext_id bs =
     (if (\<exists>b\<in>set bs. b \<noteq> 0) \<and> (\<exists>b\<in>set bs. b \<noteq> 0xFF)
      then word_of_int (256 * uint (bs ! 0) + uint (bs ! 5)) else 0xFFFF)"

text \<open>
  The bus answers pairs of complete reports of eight bytes from address 0, and is in state \<open>d'\<close>
  after them.
\<close>

fun read_pairs :: "'d i2c_read \<Rightarrow> 'd \<Rightarrow> (u8 list \<times> u8 list) list \<Rightarrow> 'd \<Rightarrow> bool" where
  "read_pairs rd d [] d' \<longleftrightarrow> d' = d"
| "read_pairs rd d ((a, b) # ps) d' \<longleftrightarrow>
     (\<exists>oka okb d1 d2. rd 0x52 0 8 d = ((oka, a), d1) \<and> rd 0x52 0 8 d1 = ((okb, b), d2) \<and>
        length a = 8 \<and> length b = 8 \<and> read_pairs rd d2 ps d')"

lemma verifyData_iff: "verifyData bs \<longleftrightarrow> (\<exists>b\<in>set bs. b \<noteq> 0) \<and> (\<exists>b\<in>set bs. b \<noteq> 0xFF)"
proof -
  have or: "fold (\<lambda>b acc. acc OR b) bs acc = 0 \<longleftrightarrow> acc = 0 \<and> (\<forall>b\<in>set bs. b = 0)" for acc :: u8
    by (induction bs arbitrary: acc) (auto simp: or_eq_0_iff)
  have "fold (\<lambda>b acc. acc AND b) bs acc = 0xFF \<longleftrightarrow> acc = 0xFF \<and> (\<forall>b\<in>set bs. b = 0xFF)" for acc :: u8
  proof (induction bs arbitrary: acc)
    case (Cons b bs)
    have "acc AND b = 0xFF \<longleftrightarrow> acc = 0xFF \<and> b = 0xFF"
    proof -
      have "(0xFF :: u8) = - 1" by simp
      then show ?thesis by (metis and.left_idem and.right_idem bit.conj_one_right and.commute)
    qed
    with Cons show ?case by auto
  qed simp
  with or [of 0] show ?thesis by (auto simp: verifyData_def Let_def)
qed

lemma readExtID_reply:
  assumes "rd I2C_ADDR 0xFA 6 dev = ((ok, bs), dev')" "length bs = 6" "length buf = 6"
  shows "readExtID rd buf dev = (ext_id bs, dev')"
proof -
  have "overlay bs buf = bs" using assms(2,3) by (simp add: overlay_def)
  moreover have "push_bit 8 (wide (bs ! 0)) OR wide (bs ! 5) = push_bit 8 (wide (bs ! 0)) + wide (bs ! 5)"
    by (rule disjunctive_add [symmetric]) (auto simp: bit_push_bit_iff bit_ucast_iff dest: bit_imp_le_length)
  moreover have "\<dots> = word_of_int (256 * uint (bs ! 0) + uint (bs ! 5))"
    by (simp add: push_bit_eq_mult)
  ultimately show ?thesis using assms(1) by (simp add: readExtID_def verifyData_iff ext_id_def)
qed

lemma confirm_agrees:
  assumes "read_pairs rd d (ps @ [(x, x)]) d'" "\<forall>(a, b)\<in>set ps. a \<noteq> b" "length ps < fuel"
    and "length check = 8" "length validate = 8"
  shows "confirm_high_res fuel rd check validate d = Some (truthy (x ! 6) \<or> truthy (x ! 7), d')"
  using assms
proof (induction ps arbitrary: d fuel check validate)
  case Nil
  then obtain n where "fuel = Suc n" by (cases fuel) auto
  with Nil show ?case by (auto simp: I2C_ADDR_def overlay_def)
next
  case (Cons p ps)
  obtain a b where p: "p = (a, b)" by (cases p) auto
  obtain n where n: "fuel = Suc n" "length ps < n" using Cons.prems(3) by (cases fuel) auto
  from Cons.prems(1) p obtain oka okb d1 d2 where r: "rd 0x52 0 8 d = ((oka, a), d1)"
    "rd 0x52 0 8 d1 = ((okb, b), d2)" "length a = 8" "length b = 8" "read_pairs rd d2 (ps @ [(x, x)]) d'"
    by auto
  have "a \<noteq> b" "\<forall>(a, b)\<in>set ps. a \<noteq> b" using Cons.prems(2) p by auto
  with Cons.IH [OF r(5) this(2) n(2) r(3,4)] r Cons.prems(4,5) show ?case
    by (simp add: n(1) I2C_ADDR_def overlay_def)
qed

text \<open>
  C14: identification, from what the bus answers. The identifier is the first and the last of the
  six bytes at 0xFA; a reply of only zeros or only 0xFF counts as not initialised, and then the two
  initialising writes are made and the identifier is read again. An identifier of the table selects
  its decoder, after two more writes for the Drawsome tablet; an unknown one, or none, selects
  nothing. A classic controller is switched to high resolution and its reports are read in pairs
  until the two of a pair agree, after any number of pairs that do not; it gets the high-resolution
  decoder with eight bytes exactly when byte 6 or 7 of the agreed report is not zero, else the
  plain one with six. Only a classic controller changes the number of bytes to read.
\<close>

theorem initWiiExt_selects:
  fixes bsa bsb :: "u8 list"
  assumes first_reply: "rd 0x52 0xFA 6 dev = ((oka, bsa), da)" "length bsa = 6"
    and second_reply: "ext_id bsa = 0xFFFF \<Longrightarrow>
      rd 0x52 0xFA 6 (snd (wr 0x52 0xFB 0x00 (snd (wr 0x52 0xF0 0x55 da)))) = ((okb, bsb), db) \<and> length bsb = 6"
  defines "i \<equiv> if ext_id bsa = 0xFFFF then ext_id bsb else ext_id bsa"
    and "d \<equiv> if ext_id bsa = 0xFFFF then db else da"
  assumes pairs: "i = 0x0001 \<or> i = 0x0101 \<Longrightarrow>
      read_pairs rd (snd (wr 0x52 0xFE 0x03 d)) (ps @ [(x, x)]) dc \<and> (\<forall>(a, b)\<in>set ps. a \<noteq> b) \<and> length ps < fuel"
  shows "\<exists>s' dev'. initWiiExt fuel rd wr junk s dev = Some (s', dev') \<and>
    (if i = 0x0001 \<or> i = 0x0101
     then dev' = dc \<and> wiiExtensionID s' = i \<and>
          (if x ! 6 = 0 \<and> x ! 7 = 0 then readFunction s' = Some ClassicExt \<and> wii_bytes s' = 6
           else readFunction s' = Some ClassicExtHighRes \<and> wii_bytes s' = 8)
     else dev' = (if i = 0xFF13 then snd (wr 0x52 0xF0 0x55 (snd (wr 0x52 0xFB 0x01 d))) else d) \<and>
          readFunction s' = map_of ext_table i \<and> wii_bytes s' = wii_bytes s \<and>
          wiiExtensionID s' = (if map_of ext_table i = None then wii_ext_val WII_NO_EXTENSION else i))"
proof -
  have bufs: "length (fill junk a n) = n" for a n by (simp add: fill_def)
  have first_id: "readExtID rd (fill junk ExtId1 6) dev = (ext_id bsa, da)"
    using first_reply by (intro readExtID_reply [of _ _ oka]) (simp_all add: bufs I2C_ADDR_def)
  have ident: "identify rd wr junk dev = (i, d)"
  proof (cases "ext_id bsa = 0xFFFF")
    case True
    from second_reply [OF True]
    have "rd I2C_ADDR 0xFA 6 (snd (wr I2C_ADDR 0xFB 0 (snd (wr I2C_ADDR 0xF0 0x55 da)))) = ((okb, bsb), db)"
      "length bsb = 6" by (simp_all add: I2C_ADDR_def)
    then have "readExtID rd (fill junk ExtId2 6) (snd (wr I2C_ADDR 0xFB 0 (snd (wr I2C_ADDR 0xF0 0x55 da)))) =
        (ext_id bsb, db)"
      by (intro readExtID_reply [of _ _ okb]) (simp_all add: bufs)
    with first_id True show ?thesis by (simp add: identify_def i_def d_def)
  next
    case False
    with first_id show ?thesis by (simp add: identify_def i_def d_def)
  qed
  show ?thesis
  proof (cases "i = 0x0001 \<or> i = 0x0101")
    case True
    from confirm_agrees [of rd "snd (wr 0x52 0xFE 0x03 d)" ps x dc fuel "fill junk Check 8" "fill junk Validate 8"]
      pairs [OF True]
    have "confirm_high_res fuel rd (fill junk Check 8) (fill junk Validate 8) (snd (wr I2C_ADDR 0xFE 0x03 d)) =
        Some (truthy (x ! 6) \<or> truthy (x ! 7), dc)"
      by (simp add: bufs I2C_ADDR_def)
    with True ident show ?thesis
      by (auto simp: initWiiExt_def reader_for_def Let_def)
  next
    case False
    with ident show ?thesis
      by (simp add: initWiiExt_def reader_for_def ext_table_def I2C_ADDR_def Let_def)
  qed
qed

text \<open>
  A bus that answers from a list: a controller that is not initialised, then the identifier of a
  classic controller, a pair of reports that differ in one byte and a pair that agrees.
\<close>

fun scripted_bus :: "u8 list list i2c_read" where
  "scripted_bus a ptr n [] = ((False, []), [])"
| "scripted_bus a ptr n (bs # rest) = ((True, bs), rest)"

definition classic_script :: "u8 list list" where
  "classic_script =
     [[0xFF, 0xFF, 0xFF, 0xFF, 0xFF, 0xFF], [0, 0, 0xA4, 0x20, 0x01, 0x01],
      [1, 2, 3, 4, 5, 6, 0, 0], [1, 2, 3, 4, 5, 6, 0, 7],
      [1, 2, 3, 4, 5, 6, 0xFE, 7], [1, 2, 3, 4, 5, 6, 0xFE, 7]]"

theorem initWiiExt_selects_witness:
  "\<exists>s' dev'. initWiiExt 2 scripted_bus (\<lambda>_ _ _ d. (True, d)) (\<lambda>_ _. 0)
      \<lparr>wiiExtensionID = 0, wii_bytes = 6, mapAccel = False, readFunction = None\<rparr> classic_script =
      Some (s', dev') \<and> dev' = [] \<and> wiiExtensionID s' = 0x0001 \<and>
    readFunction s' = Some ClassicExtHighRes \<and> wii_bytes s' = 8"
proof -
  have ids: "ext_id [0xFF, 0xFF, 0xFF, 0xFF, 0xFF, 0xFF] = 0xFFFF" "ext_id [0, 0, 0xA4, 0x20, 0x01, 0x01] = 0x0001"
    by (simp_all add: ext_id_def)
  show ?thesis
    using initWiiExt_selects [where fuel = 2 and rd = scripted_bus and wr = "\<lambda>_ _ _ d. (True, d)" and
        junk = "\<lambda>_ _. 0" and dev = classic_script and
        bsa = "[0xFF, 0xFF, 0xFF, 0xFF, 0xFF, 0xFF]" and bsb = "[0, 0, 0xA4, 0x20, 0x01, 0x01]" and
        x = "[1, 2, 3, 4, 5, 6, 0xFE, 7]" and ps = "[([1, 2, 3, 4, 5, 6, 0, 0], [1, 2, 3, 4, 5, 6, 0, 7])]" and
        s = "\<lparr>wiiExtensionID = 0, wii_bytes = 6, mapAccel = False, readFunction = None\<rparr>" and
        da = "tl classic_script" and db = "tl (tl classic_script)" and dc = "[]" and oka = True and okb = True]
    by (auto simp: classic_script_def ids)
qed

text \<open>
  C15: a bus that stops answering is not noticed: the poll decodes whatever the uninitialised
  buffer holds and never identifies again, and the negotiation of the high-resolution mode,
  once the two buffers differ, never ends.
\<close>

theorem dead_bus:
  assumes dead: "\<And>a p n dev. rd a p n dev = ((False, []), dev)"
    and "wiiExtensionID s \<noteq> wii_ext_val WII_NOT_INITIALISED"
    and "wiiExtensionID s \<noteq> wii_ext_val WII_NO_EXTENSION"
    and "readFunction s = Some f"
    and "check \<noteq> validate"
  shows "tickWiiExtInput fuel rd wr junk full s w dev =
      Some (s, run_reader full (mapAccel s) f (map (junk TickData) [0..<8]) w, dev) \<and>
    confirm_high_res fuel rd check validate dev = None"
proof
  show "tickWiiExtInput fuel rd wr junk full s w dev =
      Some (s, run_reader full (mapAccel s) f (map (junk TickData) [0..<8]) w, dev)"
    using assms(2-4) by (simp add: tickWiiExtInput_def dead overlay_def fill_def Let_def)
  show "confirm_high_res fuel rd check validate dev = None"
    using assms(5) by (induction fuel) (simp_all add: dead overlay_def)
qed

theorem dead_bus_witness:
  "\<forall>w. let s = \<lparr>wiiExtensionID = 3, wii_bytes = 6, mapAccel = False, readFunction = Some GuitarExt\<rparr>
   in tickWiiExtInput 5 (\<lambda>_ _ _ d. ((False, []), d)) (\<lambda>_ _ _ d. (True, d)) (\<lambda>_ _. 7) 15 s w () =
        Some (s, run_reader 15 False GuitarExt (map (\<lambda>_. 7) [0..<8]) w, ()) \<and>
      confirm_high_res 5 (\<lambda>_ _ _ d. ((False, []), d)) [0] [1] () = None"
proof
  fix w
  show "let s = \<lparr>wiiExtensionID = 3, wii_bytes = 6, mapAccel = False, readFunction = Some GuitarExt\<rparr>
   in tickWiiExtInput 5 (\<lambda>_ _ _ d. ((False, []), d)) (\<lambda>_ _ _ d. (True, d)) (\<lambda>_ _. 7) 15 s w () =
        Some (s, run_reader 15 False GuitarExt (map (\<lambda>_. 7) [0..<8]) w, ()) \<and>
      confirm_high_res 5 (\<lambda>_ _ _ d. ((False, []), d)) [0] [1] () = None"
    using dead_bus [of "\<lambda>_ _ _ d. ((False, []), d)" "\<lparr>wiiExtensionID = 3, wii_bytes = 6,
        mapAccel = False, readFunction = Some GuitarExt\<rparr>" GuitarExt "[0]" "[1]" 5
        "\<lambda>_ _ _ d. (True, d)" "\<lambda>_ _. 7" 15 w "()"]
    by (simp add: Let_def del: run_reader.simps confirm_high_res.simps)
qed

end
