(* ===== verification/Twi.thy ===== *)
theory Twi
  imports WiiExt
begin

text \<open>
  The interrupt-driven two-wire driver (\<open>src/src/avr/lib/i2c/i2c.c\<close>) and the pointer transfers on
  top of it (\<open>src/src/shared/lib/i2c\<close>).

  The driver's static variables and the registers of the unit form the state. The bus is outside
  the program: a parameter says which interrupt, if any, is served before each test of a polling
  loop, so a loop interleaves with the interrupts as it does on the chip. An access outside
  the 32-byte buffer is the result None. \<open>TIMEOUT\<close> is never changed, so every loop is bounded.
\<close>

section \<open>State\<close>

datatype twi_mode = TWI_READY | TWI_MRX | TWI_MTX | TWI_SRX | TWI_STX

definition TWI_BUFFER_LENGTH :: nat where "TWI_BUFFER_LENGTH = 32"

record twi =
  twi_state :: twi_mode
  twi_slarw :: u8
  twi_sendStop :: bool
  twi_inRepStart :: bool
  twi_masterBuffer :: "u8 list"
  twi_masterBufferIndex :: u8
  twi_masterBufferLength :: u8
  twi_error :: u8
  TWDR :: u8
  TWCR :: u8
  TWSR :: u8
  TWBR :: u8

definition TIMEOUT :: nat where "TIMEOUT = 32767"

text \<open>Bits of \<open>TWCR\<close> and the status codes of the unit (avr-libc).\<close>

definition TWINT :: nat where "TWINT = 7"
definition TWEA :: nat where "TWEA = 6"
definition TWSTA :: nat where "TWSTA = 5"
definition TWSTO :: nat where "TWSTO = 4"
definition TWEN :: nat where "TWEN = 2"
definition TWIE :: nat where "TWIE = 0"

lemmas twcr_bits = TWINT_def TWEA_def TWSTA_def TWSTO_def TWEN_def TWIE_def

definition TW_START :: u8 where "TW_START = 0x08"
definition TW_REP_START :: u8 where "TW_REP_START = 0x10"
definition TW_MT_SLA_ACK :: u8 where "TW_MT_SLA_ACK = 0x18"
definition TW_MT_SLA_NACK :: u8 where "TW_MT_SLA_NACK = 0x20"
definition TW_MT_DATA_ACK :: u8 where "TW_MT_DATA_ACK = 0x28"
definition TW_MT_DATA_NACK :: u8 where "TW_MT_DATA_NACK = 0x30"
definition TW_MT_ARB_LOST :: u8 where "TW_MT_ARB_LOST = 0x38"
definition TW_MR_SLA_ACK :: u8 where "TW_MR_SLA_ACK = 0x40"
definition TW_MR_SLA_NACK :: u8 where "TW_MR_SLA_NACK = 0x48"
definition TW_MR_DATA_ACK :: u8 where "TW_MR_DATA_ACK = 0x50"
definition TW_MR_DATA_NACK :: u8 where "TW_MR_DATA_NACK = 0x58"
definition TW_NO_INFO :: u8 where "TW_NO_INFO = 0xF8"
definition TW_BUS_ERROR :: u8 where "TW_BUS_ERROR = 0x00"
definition TW_READ :: u8 where "TW_READ = 1"
definition TW_WRITE :: u8 where "TW_WRITE = 0"

lemmas tw_codes = TW_START_def TW_REP_START_def TW_MT_SLA_ACK_def TW_MT_SLA_NACK_def
  TW_MT_DATA_ACK_def TW_MT_DATA_NACK_def TW_MT_ARB_LOST_def TW_MR_SLA_ACK_def TW_MR_SLA_NACK_def
  TW_MR_DATA_ACK_def TW_MR_DATA_NACK_def TW_NO_INFO_def TW_BUS_ERROR_def

section \<open>Set-up\<close>

definition twi_init_pins :: "avr \<Rightarrow> avr" where
  "twi_init_pins = write_out PC True (bv 4) \<circ> write_out PC True (bv 5)"

definition twi_init :: "twi \<Rightarrow> twi" where
  "twi_init t = t\<lparr>twi_state := TWI_READY, twi_sendStop := True, twi_inRepStart := False,
     TWSR := bit_clear_m (bit_clear_m (TWSR t) 0) 1, TWBR := 10,
     TWCR := bv TWEN OR bv TWIE OR bv TWEA\<rparr>"

definition twi_disable :: "twi \<Rightarrow> twi" where
  "twi_disable t = t\<lparr>TWCR := TWCR t AND NOT (bv TWEN OR bv TWIE OR bv TWEA)\<rparr>"

section \<open>The interrupt\<close>

definition twi_reply :: "bool \<Rightarrow> twi \<Rightarrow> twi" where
  "twi_reply ack t = t\<lparr>TWCR :=
     (if ack then bv TWEN OR bv TWIE OR bv TWINT OR bv TWEA else bv TWEN OR bv TWIE OR bv TWINT)\<rparr>"

text \<open>
  \<open>stopped\<close>: the unit clears TWSTO before the loop gives up; it then has no status to report.
\<close>

definition twi_stop :: "bool \<Rightarrow> twi \<Rightarrow> twi" where
  "twi_stop stopped t =
     (let t1 = t\<lparr>TWCR := bv TWEN OR bv TWIE OR bv TWEA OR bv TWINT OR bv TWSTO\<rparr>
      in if stopped
         then t1\<lparr>TWCR := bit_clear_m (TWCR t1) TWSTO, TWSR := TW_NO_INFO, twi_state := TWI_READY\<rparr>
         else t1)"

definition twi_releaseBus :: "twi \<Rightarrow> twi" where
  "twi_releaseBus t = t\<lparr>TWCR := bv TWEN OR bv TWIE OR bv TWEA OR bv TWINT, TWSR := TW_NO_INFO,
                        twi_state := TWI_READY\<rparr>"

text \<open>A repeated start runs with the interrupt disabled; the unit reports it in its status only.\<close>

definition twi_repeat :: "twi \<Rightarrow> twi" where
  "twi_repeat t = t\<lparr>twi_inRepStart := True, TWCR := bv TWINT OR bv TWSTA OR bv TWEN,
                    TWSR := TW_REP_START, twi_state := TWI_READY\<rparr>"

definition twi_finish :: "bool \<Rightarrow> twi \<Rightarrow> twi" where
  "twi_finish stopped t = (if twi_sendStop t then twi_stop stopped t else twi_repeat t)"

definition twi_store :: "twi \<Rightarrow> twi option" where
  "twi_store t =
     (let i = unat (twi_masterBufferIndex t)
      in if i < length (twi_masterBuffer t)
         then Some (t\<lparr>twi_masterBuffer := (twi_masterBuffer t)[i := TWDR t],
                      twi_masterBufferIndex := twi_masterBufferIndex t + 1\<rparr>)
         else None)"

definition twi_load :: "twi \<Rightarrow> twi option" where
  "twi_load t =
     (let i = unat (twi_masterBufferIndex t)
      in if i < length (twi_masterBuffer t)
         then Some (t\<lparr>TWDR := twi_masterBuffer t ! i,
                      twi_masterBufferIndex := twi_masterBufferIndex t + 1\<rparr>)
         else None)"

definition twi_more :: "twi \<Rightarrow> bool" where
  "twi_more t \<longleftrightarrow> twi_masterBufferIndex t < twi_masterBufferLength t"

definition TWI_vect :: "bool \<Rightarrow> twi \<Rightarrow> twi option" where
  "TWI_vect stopped t =
     (let st = TWSR t AND 0xF8
      in if st = TW_START \<or> st = TW_REP_START then Some (twi_reply True (t\<lparr>TWDR := twi_slarw t\<rparr>))
         else if st = TW_MT_SLA_ACK \<or> st = TW_MT_DATA_ACK
         then (if twi_more t then map_option (twi_reply True) (twi_load t)
               else Some (twi_finish stopped t))
         else if st = TW_MT_SLA_NACK \<or> st = TW_MT_DATA_NACK
         then Some (twi_stop stopped (t\<lparr>twi_error := st\<rparr>))
         else if st = TW_MT_ARB_LOST then Some (twi_releaseBus (t\<lparr>twi_error := st\<rparr>))
         else if st = TW_MR_DATA_ACK then map_option (\<lambda>t. twi_reply (twi_more t) t) (twi_store t)
         else if st = TW_MR_SLA_ACK then Some (twi_reply (twi_more t) t)
         else if st = TW_MR_DATA_NACK then map_option (twi_finish stopped) (twi_store t)
         else if st = TW_MR_SLA_NACK then Some (twi_stop stopped t)
         else if st = TW_NO_INFO then Some t
         else if st = TW_BUS_ERROR then Some (twi_stop stopped (t\<lparr>twi_error := st\<rparr>))
         else Some t)"

section \<open>The bus\<close>

text \<open>
  What the unit reports when it interrupts: its status, the byte received, and whether a stop
  condition that the handler asks for is executed in time.
\<close>

record irq =
  irq_status :: u8
  irq_data :: u8
  irq_stopped :: bool

definition serve :: "irq \<Rightarrow> twi \<Rightarrow> twi option" where
  "serve i t = TWI_vect (irq_stopped i) (t\<lparr>TWSR := irq_status i,
     TWDR := (if irq_status i = TW_MR_DATA_ACK \<or> irq_status i = TW_MR_DATA_NACK then irq_data i
              else TWDR t)\<rparr>)"

record 'h twi_hw =
  hw_irq :: "twi \<Rightarrow> 'h \<Rightarrow> irq option \<times> 'h"
  hw_wwc :: "twi \<Rightarrow> 'h \<Rightarrow> bool \<times> 'h"
  hw_delay_us :: "nat \<Rightarrow> 'h \<Rightarrow> 'h"

text \<open>
  A polling loop on the driver's state: at most \<open>k\<close> tests, each after the interrupt that
  arrived, if one did. The flag says whether the loop ended before the time-out.
\<close>

fun await :: "'h twi_hw \<Rightarrow> (twi \<Rightarrow> bool) \<Rightarrow> nat \<Rightarrow> twi \<times> 'h \<Rightarrow> (bool \<times> twi \<times> 'h) option" where
  "await dev busy 0 s = Some (False, s)"
| "await dev busy (Suc k) (t, h) =
     (case hw_irq dev t h of (q, h1) \<Rightarrow>
        case (case q of None \<Rightarrow> Some t | Some i \<Rightarrow> serve i t) of
          None \<Rightarrow> None
        | Some t1 \<Rightarrow> if busy t1 then await dev busy k (t1, h1) else Some (True, t1, h1))"

text \<open>The loop that rewrites the address while the unit reports a write collision.\<close>

fun resend :: "'h twi_hw \<Rightarrow> nat \<Rightarrow> twi \<times> 'h \<Rightarrow> bool \<times> twi \<times> 'h" where
  "resend dev 0 s = (False, s)"
| "resend dev (Suc k) (t, h) =
     (let t1 = t\<lparr>TWDR := twi_slarw t\<rparr>
      in case hw_wwc dev t1 h of (collision, h1) \<Rightarrow>
           if collision then resend dev k (t1, h1) else (True, t1, h1))"

section \<open>Transfers\<close>

definition start_bus :: "'h twi_hw \<Rightarrow> twi \<times> 'h \<Rightarrow> bool \<times> twi \<times> 'h" where
  "start_bus dev s =
     (case s of (t, h) \<Rightarrow>
        if twi_inRepStart t
        then (case resend dev TIMEOUT (t\<lparr>twi_inRepStart := False\<rparr>, h) of (ok, t1, h1) \<Rightarrow>
                (ok, if ok then t1\<lparr>TWCR := bv TWINT OR bv TWEA OR bv TWEN OR bv TWIE\<rparr> else t1, h1))
        else (True, t\<lparr>TWCR := bv TWEN OR bv TWIE OR bv TWEA OR bv TWINT OR bv TWSTA\<rparr>, h))"

definition prepare_read :: "u8 \<Rightarrow> u8 \<Rightarrow> bool \<Rightarrow> twi \<Rightarrow> twi" where
  "prepare_read address len sendStop t =
     t\<lparr>twi_state := TWI_MRX, twi_sendStop := sendStop, twi_error := 0xFF,
       twi_masterBufferIndex := 0, twi_masterBufferLength := len - 1,
       twi_slarw := TW_READ OR push_bit 1 address\<rparr>"

text \<open>What the caller gets: the bytes received, at most as many as it asked for.\<close>

definition copy_out :: "u8 \<Rightarrow> bool \<Rightarrow> twi \<Rightarrow> bool \<times> u8 list" where
  "copy_out len finished t =
     (if \<not> finished then (False, [])
      else let n = (if twi_masterBufferIndex t < len then twi_masterBufferIndex t else len)
           in (n \<noteq> 0, take (unat n) (twi_masterBuffer t)))"

definition twi_readFrom ::
  "'h twi_hw \<Rightarrow> u8 \<Rightarrow> u8 \<Rightarrow> bool \<Rightarrow> twi \<times> 'h \<Rightarrow> ((bool \<times> u8 list) \<times> twi \<times> 'h) option" where
  "twi_readFrom dev address len sendStop s =
     (if TWI_BUFFER_LENGTH < unat len then Some ((False, []), s)
      else case await dev (\<lambda>t. twi_state t \<noteq> TWI_READY) TIMEOUT s of
        None \<Rightarrow> None
      | Some (ready, t1, h1) \<Rightarrow>
          if \<not> ready then Some ((False, []), t1, h1)
          else case start_bus dev (prepare_read address len sendStop t1, h1) of (started, t2, h2) \<Rightarrow>
            if \<not> started then Some ((False, []), t2, h2)
            else map_option (\<lambda>(finished, t3, h3). (copy_out len finished t3, t3, h3))
                   (await dev (\<lambda>t. twi_state t = TWI_MRX) TIMEOUT (t2, h2)))"

definition prepare_write :: "u8 \<Rightarrow> u8 list \<Rightarrow> bool \<Rightarrow> twi \<Rightarrow> twi" where
  "prepare_write address bs sendStop t =
     t\<lparr>twi_state := TWI_MTX, twi_sendStop := sendStop, twi_error := 0xFF,
       twi_masterBufferIndex := 0, twi_masterBufferLength := of_nat (length bs),
       twi_masterBuffer := list_blit 0 bs (twi_masterBuffer t),
       twi_slarw := TW_WRITE OR push_bit 1 address\<rparr>"

definition twi_writeTo ::
  "'h twi_hw \<Rightarrow> u8 \<Rightarrow> u8 list \<Rightarrow> bool \<Rightarrow> bool \<Rightarrow> twi \<times> 'h \<Rightarrow> (bool \<times> twi \<times> 'h) option" where
  "twi_writeTo dev address bs wait sendStop s =
     (if TWI_BUFFER_LENGTH < length bs then Some (False, s)
      else case await dev (\<lambda>t. twi_state t \<noteq> TWI_READY) TIMEOUT s of
        None \<Rightarrow> None
      | Some (ready, t1, h1) \<Rightarrow>
          if \<not> ready then Some (False, t1, h1)
          else case start_bus dev (prepare_write address bs sendStop t1, h1) of (started, t2, h2) \<Rightarrow>
            if \<not> started then Some (False, t2, h2)
            else case await dev (\<lambda>t. wait \<and> twi_state t = TWI_MTX) TIMEOUT (t2, h2) of
              None \<Rightarrow> None
            | Some (finished, t3, h3) \<Rightarrow>
                Some (if finished then twi_error t3 = 0xFF else False, t3, h3))"

section \<open>i2c\_shared.c\<close>

definition twi_readFromPointerSlow ::
  "'h twi_hw \<Rightarrow> u8 \<Rightarrow> u8 \<Rightarrow> u8 \<Rightarrow> twi \<times> 'h \<Rightarrow> ((bool \<times> u8 list) \<times> twi \<times> 'h) option" where
  "twi_readFromPointerSlow dev address pointer len s =
     Option.bind (twi_writeTo dev address [pointer] True True s) (\<lambda>(ok, t, h).
       if \<not> ok then Some ((False, []), t, h)
       else twi_readFrom dev address len True (t, hw_delay_us dev 180 h))"

definition twi_readFromPointer ::
  "'h twi_hw \<Rightarrow> u8 \<Rightarrow> u8 \<Rightarrow> u8 \<Rightarrow> twi \<times> 'h \<Rightarrow> ((bool \<times> u8 list) \<times> twi \<times> 'h) option" where
  "twi_readFromPointer dev address pointer len s =
     Option.bind (twi_writeTo dev address [pointer] True True s) (\<lambda>(ok, t, h).
       if \<not> ok then Some ((False, []), t, h) else twi_readFrom dev address len True (t, h))"

definition twi_writeToPointer ::
  "'h twi_hw \<Rightarrow> u8 \<Rightarrow> u8 \<Rightarrow> u8 list \<Rightarrow> twi \<times> 'h \<Rightarrow> (bool \<times> twi \<times> 'h) option" where
  "twi_writeToPointer dev address pointer bs s = twi_writeTo dev address (pointer # bs) True True s"

definition twi_writeSingleToPointer ::
  "'h twi_hw \<Rightarrow> u8 \<Rightarrow> u8 \<Rightarrow> u8 \<Rightarrow> twi \<times> 'h \<Rightarrow> (bool \<times> twi \<times> 'h) option" where
  "twi_writeSingleToPointer dev address pointer b s = twi_writeToPointer dev address pointer [b] s"

section \<open>What the unit may report\<close>

text \<open>
  The part of the unit's behaviour the driver relies on, from the chip's data sheet: which
  status can follow, given the last one and what the driver wrote to the registers.
\<close>

datatype phase = Idle | Starting | Addressing bool | Sending | Receiving bool

definition bus_phase :: "twi \<Rightarrow> phase" where
  "bus_phase t =
     (if \<not> bit (TWCR t) TWIE \<or> bit (TWCR t) TWSTO then Idle
      else if bit (TWCR t) TWSTA then Starting
      else if TWSR t = TW_START \<or> TWSR t = TW_REP_START then Addressing (bit (TWDR t) 0)
      else if TWSR t = TW_MT_SLA_ACK \<or> TWSR t = TW_MT_DATA_ACK then Sending
      else if TWSR t = TW_MR_SLA_ACK \<or> TWSR t = TW_MR_DATA_ACK then Receiving (bit (TWCR t) TWEA)
      else Idle)"

fun next_status :: "phase \<Rightarrow> u8 list" where
  "next_status Idle = []"
| "next_status Starting = [TW_START, TW_REP_START, TW_BUS_ERROR]"
| "next_status (Addressing True) = [TW_MR_SLA_ACK, TW_MR_SLA_NACK, TW_MT_ARB_LOST, TW_BUS_ERROR]"
| "next_status (Addressing False) = [TW_MT_SLA_ACK, TW_MT_SLA_NACK, TW_MT_ARB_LOST, TW_BUS_ERROR]"
| "next_status Sending = [TW_MT_DATA_ACK, TW_MT_DATA_NACK, TW_MT_ARB_LOST, TW_BUS_ERROR]"
| "next_status (Receiving True) = [TW_MR_DATA_ACK, TW_BUS_ERROR]"
| "next_status (Receiving False) = [TW_MR_DATA_NACK, TW_MT_ARB_LOST, TW_BUS_ERROR]"

definition legal :: "twi \<Rightarrow> irq \<Rightarrow> bool" where
  "legal t i \<longleftrightarrow> irq_status i \<in> set (next_status (bus_phase t))"

text \<open>The transitions: a transfer begins while the driver is ready, or the unit interrupts.\<close>

definition arm :: "twi \<Rightarrow> twi" where
  "arm t = (if twi_inRepStart t
     then t\<lparr>twi_inRepStart := False, TWDR := twi_slarw t,
            TWCR := bv TWINT OR bv TWEA OR bv TWEN OR bv TWIE\<rparr>
     else t\<lparr>TWCR := bv TWEN OR bv TWIE OR bv TWEA OR bv TWINT OR bv TWSTA\<rparr>)"

inductive twi_step :: "twi \<Rightarrow> twi \<Rightarrow> bool" where
  start_read: "\<lbrakk>twi_state t = TWI_READY; 1 \<le> len; unat len \<le> TWI_BUFFER_LENGTH\<rbrakk> \<Longrightarrow>
     twi_step t (arm (prepare_read address len sendStop t))"
| start_write: "\<lbrakk>twi_state t = TWI_READY; length bs \<le> TWI_BUFFER_LENGTH\<rbrakk> \<Longrightarrow>
     twi_step t (arm (prepare_write address bs sendStop t))"
| interrupt: "\<lbrakk>legal t i; serve i t = Some t'\<rbrakk> \<Longrightarrow> twi_step t t'"

inductive_cases twi_stepE: "twi_step t t'"

definition mode_inv :: "phase \<Rightarrow> twi \<Rightarrow> bool" where
  "mode_inv p t =
     (case twi_state t of
        TWI_READY \<Rightarrow> p = Idle \<and> (twi_inRepStart t \<longrightarrow> TWSR t = TW_REP_START)
      | TWI_MRX \<Rightarrow> \<not> twi_inRepStart t \<and> bit (twi_slarw t) 0 \<and> unat (twi_masterBufferLength t) < TWI_BUFFER_LENGTH \<and>
          (case p of Idle \<Rightarrow> True | Sending \<Rightarrow> False
           | Addressing r \<Rightarrow> r \<and> twi_masterBufferIndex t = 0
           | Starting \<Rightarrow> twi_masterBufferIndex t = 0
           | Receiving ack \<Rightarrow> (ack \<longleftrightarrow> twi_more t) \<and>
               twi_masterBufferIndex t \<le> twi_masterBufferLength t)
      | TWI_MTX \<Rightarrow> \<not> twi_inRepStart t \<and> \<not> bit (twi_slarw t) 0 \<and>
          unat (twi_masterBufferLength t) \<le> TWI_BUFFER_LENGTH \<and>
          (case p of Receiving ack \<Rightarrow> False | Addressing r \<Rightarrow> \<not> r | _ \<Rightarrow> True)
      | _ \<Rightarrow> False)"

definition twi_inv :: "twi \<Rightarrow> bool" where
  "twi_inv t \<longleftrightarrow> length (twi_masterBuffer t) = TWI_BUFFER_LENGTH \<and> mode_inv (bus_phase t) t"

lemma phase_reply [simp]:
  "bus_phase (twi_reply ack t) =
     (if TWSR t = TW_START \<or> TWSR t = TW_REP_START then Addressing (bit (TWDR t) 0)
      else if TWSR t = TW_MT_SLA_ACK \<or> TWSR t = TW_MT_DATA_ACK then Sending
      else if TWSR t = TW_MR_SLA_ACK \<or> TWSR t = TW_MR_DATA_ACK then Receiving ack else Idle)"
  by (simp add: bus_phase_def twi_reply_def bit_or_iff bit_bv twcr_bits)

lemma phase_ended [simp]:
  "bus_phase (twi_stop stopped t) = Idle" "bus_phase (twi_releaseBus t) = Idle"
  "bus_phase (twi_repeat t) = Idle"
  by (simp_all add: bus_phase_def twi_stop_def twi_releaseBus_def twi_repeat_def Let_def bit_or_iff
      bit_bv bit_bit_clear twcr_bits tw_codes)

lemma phase_arm:
  "bus_phase (arm t) =
     (if twi_inRepStart t
      then (if TWSR t = TW_START \<or> TWSR t = TW_REP_START then Addressing (bit (twi_slarw t) 0)
            else bus_phase (arm t))
      else Starting)"
  by (simp add: bus_phase_def arm_def bit_or_iff bit_bv twcr_bits)

lemma reply_fields [simp]:
  "twi_state (twi_reply ack t) = twi_state t" "twi_slarw (twi_reply ack t) = twi_slarw t"
  "twi_masterBuffer (twi_reply ack t) = twi_masterBuffer t"
  "twi_masterBufferIndex (twi_reply ack t) = twi_masterBufferIndex t"
  "twi_masterBufferLength (twi_reply ack t) = twi_masterBufferLength t"
  "twi_more (twi_reply ack t) = twi_more t" "TWDR (twi_reply ack t) = TWDR t"
  "TWSR (twi_reply ack t) = TWSR t" "twi_sendStop (twi_reply ack t) = twi_sendStop t"
  "twi_error (twi_reply ack t) = twi_error t" "twi_inRepStart (twi_reply ack t) = twi_inRepStart t"
  by (simp_all add: twi_reply_def twi_more_def)

definition transferring :: "twi \<Rightarrow> bool" where
  "transferring t \<longleftrightarrow> length (twi_masterBuffer t) = TWI_BUFFER_LENGTH \<and> \<not> twi_inRepStart t \<and>
     (twi_state t = TWI_MRX \<and> bit (twi_slarw t) 0 \<and>
        unat (twi_masterBufferLength t) < TWI_BUFFER_LENGTH \<or>
      twi_state t = TWI_MTX \<and> \<not> bit (twi_slarw t) 0 \<and>
        unat (twi_masterBufferLength t) \<le> TWI_BUFFER_LENGTH)"

lemma stop_inv: "transferring t \<Longrightarrow> twi_inv (twi_stop stopped t)"
  by (cases stopped; simp add: twi_inv_def mode_inv_def;
      auto simp: transferring_def twi_stop_def Let_def)

lemma release_inv: "transferring t \<Longrightarrow> twi_inv (twi_releaseBus t)"
  by (simp add: twi_inv_def mode_inv_def; auto simp: transferring_def twi_releaseBus_def)

lemma repeat_inv: "transferring t \<Longrightarrow> twi_inv (twi_repeat t)"
  by (simp add: twi_inv_def mode_inv_def; auto simp: transferring_def twi_repeat_def)

lemma finish_inv: "transferring t \<Longrightarrow> twi_inv (twi_finish stopped t)"
  by (simp add: twi_finish_def stop_inv repeat_inv)

lemma transferring_upd [simp]:
  "transferring (t\<lparr>TWDR := d\<rparr>) = transferring t" "transferring (t\<lparr>TWSR := d\<rparr>) = transferring t"
  "transferring (t\<lparr>twi_error := d\<rparr>) = transferring t"
  "transferring (t\<lparr>twi_masterBufferIndex := d\<rparr>) = transferring t"
  "transferring (t\<lparr>twi_masterBuffer := (twi_masterBuffer t)[k := d]\<rparr>) = transferring t"
  by (simp_all add: transferring_def)

lemma inv_transferring: "twi_inv t \<Longrightarrow> bus_phase t \<noteq> Idle \<Longrightarrow> transferring t"
  by (auto simp: twi_inv_def mode_inv_def transferring_def split: twi_mode.splits phase.splits)

lemma more_upd [simp]:
  "twi_more (t\<lparr>TWDR := d\<rparr>) = twi_more t" "twi_more (t\<lparr>TWSR := d\<rparr>) = twi_more t"
  by (simp_all add: twi_more_def)

lemma index_in_buffer:
  "transferring t \<Longrightarrow> twi_more t \<Longrightarrow> unat (twi_masterBufferIndex t) < length (twi_masterBuffer t)"
  by (auto simp: transferring_def twi_more_def word_less_nat_alt)

lemma next_index: "(i :: u8) < n \<Longrightarrow> i + 1 \<le> n"
  by (simp add: inc_le)

lemma serve_cases:
  "irq_status i = TW_START \<or> irq_status i = TW_REP_START \<Longrightarrow>
     serve i t = Some (twi_reply True (t\<lparr>TWSR := irq_status i, TWDR := twi_slarw t\<rparr>))"
  "irq_status i = TW_MT_SLA_ACK \<or> irq_status i = TW_MT_DATA_ACK \<Longrightarrow>
     serve i t = (if twi_more t then map_option (twi_reply True) (twi_load (t\<lparr>TWSR := irq_status i\<rparr>))
                  else Some (twi_finish (irq_stopped i) (t\<lparr>TWSR := irq_status i\<rparr>)))"
  "irq_status i = TW_MT_SLA_NACK \<or> irq_status i = TW_MT_DATA_NACK \<or> irq_status i = TW_BUS_ERROR \<Longrightarrow>
     serve i t = Some (twi_stop (irq_stopped i) (t\<lparr>TWSR := irq_status i, twi_error := irq_status i\<rparr>))"
  "irq_status i = TW_MT_ARB_LOST \<Longrightarrow>
     serve i t = Some (twi_releaseBus (t\<lparr>TWSR := irq_status i, twi_error := irq_status i\<rparr>))"
  "irq_status i = TW_MR_DATA_ACK \<Longrightarrow> serve i t = map_option (\<lambda>t. twi_reply (twi_more t) t)
     (twi_store (t\<lparr>TWSR := irq_status i, TWDR := irq_data i\<rparr>))"
  "irq_status i = TW_MR_SLA_ACK \<Longrightarrow> serve i t = Some (twi_reply (twi_more t) (t\<lparr>TWSR := irq_status i\<rparr>))"
  "irq_status i = TW_MR_DATA_NACK \<Longrightarrow> serve i t = map_option (twi_finish (irq_stopped i))
     (twi_store (t\<lparr>TWSR := irq_status i, TWDR := irq_data i\<rparr>))"
  "irq_status i = TW_MR_SLA_NACK \<Longrightarrow> serve i t = Some (twi_stop (irq_stopped i) (t\<lparr>TWSR := irq_status i\<rparr>))"
  by (elim disjE | simp add: serve_def TWI_vect_def Let_def tw_codes)+

lemma reply_inv:
  assumes "length (twi_masterBuffer t) = TWI_BUFFER_LENGTH" "mode_inv (bus_phase (twi_reply ack t)) t"
  shows "twi_inv (twi_reply ack t)"
  using assms by (auto simp: twi_inv_def mode_inv_def simp del: phase_reply split: twi_mode.splits phase.splits)

lemma sent_inv:
  assumes "transferring t" "twi_state t = TWI_MTX" "st = TW_MT_SLA_ACK \<or> st = TW_MT_DATA_ACK"
  shows "\<exists>t'. (if twi_more t then map_option (twi_reply True) (twi_load (t\<lparr>TWSR := st\<rparr>))
      else Some (twi_finish stopped (t\<lparr>TWSR := st\<rparr>))) = Some t' \<and> twi_inv t'"
proof (cases "twi_more t")
  case True
  define t1 where "t1 = t\<lparr>TWSR := st, TWDR := twi_masterBuffer t ! unat (twi_masterBufferIndex t),
    twi_masterBufferIndex := twi_masterBufferIndex t + 1\<rparr>"
  have load: "twi_load (t\<lparr>TWSR := st\<rparr>) = Some t1"
    using index_in_buffer [OF assms(1) True] by (simp add: twi_load_def t1_def Let_def)
  have "TWSR t1 = st" by (simp add: t1_def)
  then have "bus_phase (twi_reply True t1) = Sending" using assms(3) by (auto simp: tw_codes)
  moreover have "mode_inv Sending t1"
    using assms(1,2) by (simp add: mode_inv_def transferring_def t1_def)
  moreover have "length (twi_masterBuffer t1) = TWI_BUFFER_LENGTH"
    using assms(1) by (simp add: transferring_def t1_def)
  ultimately have "twi_inv (twi_reply True t1)" by (intro reply_inv) simp_all
  with True load show ?thesis by simp
qed (use assms in \<open>auto intro!: finish_inv\<close>)

lemma serve_inv:
  assumes inv: "twi_inv t" and legal: "legal t i"
  shows "\<exists>t'. serve i t = Some t' \<and> twi_inv t'"
proof -
  have busy: "bus_phase t \<noteq> Idle" using legal by (auto simp: legal_def)
  note tr = inv_transferring [OF inv busy]
  have len: "length (twi_masterBuffer t) = TWI_BUFFER_LENGTH" and mode: "mode_inv (bus_phase t) t"
    using inv by (simp_all add: twi_inv_def)
  show ?thesis
  proof (cases "bus_phase t")
    case Starting
    with legal consider "irq_status i = TW_START \<or> irq_status i = TW_REP_START"
      | "irq_status i = TW_BUS_ERROR" by (auto simp: legal_def)
    then show ?thesis
    proof cases
      case 1
      with mode Starting len show ?thesis
        by (auto simp: serve_cases(1) mode_inv_def intro!: reply_inv split: twi_mode.splits)
    qed (use tr in \<open>simp add: serve_cases(3) stop_inv\<close>)
  next
    case (Addressing r)
    show ?thesis
    proof (cases r)
      case True
      with legal Addressing consider "irq_status i = TW_MR_SLA_ACK" | "irq_status i = TW_MR_SLA_NACK"
        | "irq_status i = TW_MT_ARB_LOST" | "irq_status i = TW_BUS_ERROR" by (auto simp: legal_def)
      then show ?thesis
      proof cases
        case 1
        with mode Addressing True len show ?thesis
          by (auto simp: serve_cases(6) mode_inv_def tw_codes intro!: reply_inv split: twi_mode.splits)
      qed (use tr in \<open>simp_all add: serve_cases stop_inv release_inv\<close>)
    next
      case False
      with legal Addressing consider "irq_status i = TW_MT_SLA_ACK" | "irq_status i = TW_MT_SLA_NACK"
        | "irq_status i = TW_MT_ARB_LOST" | "irq_status i = TW_BUS_ERROR" by (auto simp: legal_def)
      moreover have "twi_state t = TWI_MTX" using mode Addressing False
        by (auto simp: mode_inv_def split: twi_mode.splits)
      ultimately show ?thesis
        by cases (use tr mode in \<open>simp_all add: serve_cases stop_inv release_inv sent_inv\<close>)
    qed
  next
    case Sending
    with legal consider "irq_status i = TW_MT_DATA_ACK" | "irq_status i = TW_MT_DATA_NACK"
      | "irq_status i = TW_MT_ARB_LOST" | "irq_status i = TW_BUS_ERROR" by (auto simp: legal_def)
    moreover have "twi_state t = TWI_MTX" using mode Sending
      by (auto simp: mode_inv_def split: twi_mode.splits)
    ultimately show ?thesis
      by cases (use tr mode in \<open>simp_all add: serve_cases stop_inv release_inv sent_inv\<close>)
  next
    case (Receiving ack)
    then have mrx: "twi_state t = TWI_MRX" "ack \<longleftrightarrow> twi_more t"
      "twi_masterBufferIndex t \<le> twi_masterBufferLength t"
      using mode by (auto simp: mode_inv_def split: twi_mode.splits)
    from mrx(3) have "unat (twi_masterBufferIndex t) \<le> unat (twi_masterBufferLength t)"
      by (simp add: word_le_nat_alt)
    with tr mrx(1) have fits: "unat (twi_masterBufferIndex t) < length (twi_masterBuffer t)"
      by (auto simp: transferring_def)
    consider "irq_status i = TW_MR_DATA_ACK" "twi_more t" | "irq_status i = TW_MR_DATA_NACK"
      | "irq_status i = TW_MT_ARB_LOST" | "irq_status i = TW_BUS_ERROR"
      using legal Receiving mrx(2) by (cases ack) (auto simp: legal_def)
    then show ?thesis
    proof cases
      case 1
      then have "twi_masterBufferIndex t + 1 \<le> twi_masterBufferLength t"
        by (simp add: twi_more_def next_index)
      with 1 tr mrx(1) fits show ?thesis
        by (auto simp: serve_cases(5) twi_store_def Let_def mode_inv_def tw_codes transferring_def
            intro!: reply_inv)
    next
      case 2
      with tr fits show ?thesis
        by (auto simp: serve_cases(7) twi_store_def Let_def transferring_def intro!: finish_inv)
    qed (use tr in \<open>simp_all add: serve_cases stop_inv release_inv\<close>)
  qed (use busy in simp)
qed

text \<open>Beginning a transfer.\<close>

lemma arm_inv:
  assumes "length (twi_masterBuffer t) = TWI_BUFFER_LENGTH" "twi_masterBufferIndex t = 0"
    and "twi_inRepStart t \<longrightarrow> TWSR t = TW_REP_START"
    and "twi_state t = TWI_MRX \<and> bit (twi_slarw t) 0 \<and> unat (twi_masterBufferLength t) < TWI_BUFFER_LENGTH \<or>
      twi_state t = TWI_MTX \<and> \<not> bit (twi_slarw t) 0 \<and> unat (twi_masterBufferLength t) \<le> TWI_BUFFER_LENGTH"
  shows "twi_inv (arm t)"
proof -
  have "bus_phase (arm t) = (if twi_inRepStart t then Addressing (bit (twi_slarw t) 0) else Starting)"
    using assms(3) by (simp add: bus_phase_def arm_def bit_or_iff bit_bv twcr_bits)
  with assms show ?thesis by (auto simp: twi_inv_def mode_inv_def arm_def)
qed

lemma unat_pred: "1 \<le> (len :: u8) \<Longrightarrow> unat (len - 1) = unat len - 1"
  by (simp add: unat_sub)

lemma prepare_read_inv:
  assumes "twi_inv t" "twi_state t = TWI_READY" "1 \<le> len" "unat len \<le> TWI_BUFFER_LENGTH"
  shows "twi_inv (arm (prepare_read address len sendStop t))"
proof (rule arm_inv)
  have "1 \<le> unat len" using assms(3) by (simp add: word_le_nat_alt)
  then have "unat (len - 1) < TWI_BUFFER_LENGTH" using assms(4) unat_pred [OF assms(3)] by simp
  then show "twi_state (prepare_read address len sendStop t) = TWI_MRX \<and>
      bit (twi_slarw (prepare_read address len sendStop t)) 0 \<and>
      unat (twi_masterBufferLength (prepare_read address len sendStop t)) < TWI_BUFFER_LENGTH \<or>
      twi_state (prepare_read address len sendStop t) = TWI_MTX \<and>
      \<not> bit (twi_slarw (prepare_read address len sendStop t)) 0 \<and>
      unat (twi_masterBufferLength (prepare_read address len sendStop t)) \<le> TWI_BUFFER_LENGTH"
    by (simp add: prepare_read_def TW_READ_def bit_or_iff bit_push_bit_iff)
qed (use assms in \<open>auto simp: prepare_read_def twi_inv_def mode_inv_def\<close>)

lemma prepare_write_inv:
  assumes "twi_inv t" "twi_state t = TWI_READY" "length bs \<le> TWI_BUFFER_LENGTH"
  shows "twi_inv (arm (prepare_write address bs sendStop t))"
proof (rule arm_inv)
  have "unat (of_nat (length bs) :: u8) = length bs"
    using assms(3) by (simp add: unat_of_nat TWI_BUFFER_LENGTH_def)
  then show "twi_state (prepare_write address bs sendStop t) = TWI_MRX \<and>
      bit (twi_slarw (prepare_write address bs sendStop t)) 0 \<and>
      unat (twi_masterBufferLength (prepare_write address bs sendStop t)) < TWI_BUFFER_LENGTH \<or>
      twi_state (prepare_write address bs sendStop t) = TWI_MTX \<and>
      \<not> bit (twi_slarw (prepare_write address bs sendStop t)) 0 \<and>
      unat (twi_masterBufferLength (prepare_write address bs sendStop t)) \<le> TWI_BUFFER_LENGTH"
    using assms(3)
    by (simp add: prepare_write_def TW_WRITE_def bit_or_iff bit_push_bit_iff del: push_bit_of_Suc_0)
       (simp add: bit_0)
qed (use assms in \<open>auto simp: prepare_write_def twi_inv_def mode_inv_def\<close>)

lemma step_inv: "twi_step t t' \<Longrightarrow> twi_inv t \<Longrightarrow> twi_inv t'"
  by (induction rule: twi_step.induct)
     (auto dest: serve_inv intro: prepare_read_inv prepare_write_inv)

section \<open>A transfer as the bus plays it\<close>

text \<open>A unit that reports a given list of interrupts, each as soon as the registers allow it.\<close>

definition scripted :: "irq list twi_hw" where
  "scripted = \<lparr>hw_irq = (\<lambda>t h. case h of [] \<Rightarrow> (None, [])
                             | i # is \<Rightarrow> if legal t i then (Some i, is) else (None, h)),
               hw_wwc = (\<lambda>_ h. (False, h)), hw_delay_us = (\<lambda>_ h. h)\<rparr>"

abbreviation report :: "u8 \<Rightarrow> u8 \<Rightarrow> irq" where
  "report st b \<equiv> \<lparr>irq_status = st, irq_data = b, irq_stopped = True\<rparr>"

definition received :: "nat \<Rightarrow> u8 list \<Rightarrow> twi \<Rightarrow> bool" where
  "received n bs t \<longleftrightarrow> twi_state t = TWI_MRX \<and> twi_sendStop t \<and> length bs < n \<and> n \<le> 32 \<and>
     twi_masterBufferIndex t = of_nat (length bs) \<and> twi_masterBufferLength t = of_nat (n - 1) \<and>
     length (twi_masterBuffer t) = 32 \<and> take (length bs) (twi_masterBuffer t) = bs \<and>
     bus_phase t = Receiving (length bs + 1 < n)"

lemma received_more:
  assumes "length bs < n" "n \<le> 32" "twi_masterBufferIndex t = of_nat (length bs)"
    "twi_masterBufferLength t = of_nat (n - 1)"
  shows "twi_more t \<longleftrightarrow> length bs + 1 < n"
proof -
  have "unat (of_nat (length bs) :: u8) = length bs" "unat (of_nat (n - 1) :: u8) = n - 1"
    unfolding unat_of_nat using assms(1,2) by simp_all
  then show ?thesis using assms by (auto simp: twi_more_def word_less_nat_alt)
qed

lemma take_snoc: "length bs < length xs \<Longrightarrow> take (length bs) xs = bs \<Longrightarrow>
   take (Suc (length bs)) (xs[length bs := b]) = bs @ [b]"
  by (simp add: take_Suc_conv_app_nth)

lemma received_ack:
  assumes "received n bs t" "length bs + 1 < n"
  shows "\<exists>t'. serve (report TW_MR_DATA_ACK b) t = Some t' \<and> received n (bs @ [b]) t'"
proof -
  have u: "unat (of_nat (length bs) :: u8) = length bs" "length bs < length (twi_masterBuffer t)"
    using assms by (auto simp: received_def unat_of_nat)
  define t1 where "t1 = t\<lparr>TWSR := TW_MR_DATA_ACK, TWDR := b,
    twi_masterBuffer := (twi_masterBuffer t)[length bs := b],
    twi_masterBufferIndex := of_nat (length bs) + 1\<rparr>"
  have "serve (report TW_MR_DATA_ACK b) t = Some (twi_reply (twi_more t1) t1)"
    using assms u by (simp add: serve_cases(5) twi_store_def received_def t1_def Let_def)
  moreover have "twi_more t1 \<longleftrightarrow> length (bs @ [b]) + 1 < n"
    by (rule received_more) (use assms in \<open>auto simp: received_def t1_def add.commute\<close>)
  moreover have "bus_phase (twi_reply (twi_more t1) t1) = Receiving (twi_more t1)"
    by (simp add: t1_def tw_codes)
  ultimately show ?thesis
    using assms u take_snoc [OF u(2)] by (auto simp: received_def t1_def add.commute)
qed

lemma received_end:
  assumes "received n bs t"
  shows "length bs + 1 = n \<Longrightarrow> \<exists>t'. serve (report TW_MR_DATA_NACK b) t = Some t' \<and>
      twi_state t' = TWI_READY \<and> twi_masterBufferIndex t' = of_nat n \<and>
      take n (twi_masterBuffer t') = bs @ [b]"
    and "\<exists>t'. serve (report TW_BUS_ERROR b) t = Some t' \<and>
      twi_state t' = TWI_READY \<and> twi_masterBufferIndex t' = of_nat (length bs) \<and>
      take (length bs) (twi_masterBuffer t') = bs \<and> twi_error t' = TW_BUS_ERROR"
proof -
  have u: "unat (of_nat (length bs) :: u8) = length bs" "length bs < length (twi_masterBuffer t)"
    using assms by (auto simp: received_def unat_of_nat)
  show "\<exists>t'. serve (report TW_MR_DATA_NACK b) t = Some t' \<and> twi_state t' = TWI_READY \<and>
      twi_masterBufferIndex t' = of_nat n \<and> take n (twi_masterBuffer t') = bs @ [b]"
    if "length bs + 1 = n"
    using assms u take_snoc [OF u(2), of b] that
    by (auto simp: serve_cases(7) twi_store_def received_def Let_def twi_finish_def twi_stop_def)
  show "\<exists>t'. serve (report TW_BUS_ERROR b) t = Some t' \<and> twi_state t' = TWI_READY \<and>
      twi_masterBufferIndex t' = of_nat (length bs) \<and> take (length bs) (twi_masterBuffer t') = bs \<and>
      twi_error t' = TW_BUS_ERROR"
    using assms by (auto simp: serve_cases(3) received_def twi_stop_def Let_def)
qed

lemma await_ack:
  assumes "received n bs t" "length bs + length cs < n" "length cs \<le> k"
  shows "\<exists>t'. received n (bs @ cs) t' \<and>
    await scripted (\<lambda>t. twi_state t = TWI_MRX) k (t, map (report TW_MR_DATA_ACK) cs @ rest) =
    await scripted (\<lambda>t. twi_state t = TWI_MRX) (k - length cs) (t', rest)"
  using assms
proof (induction cs arbitrary: bs t k)
  case (Cons c cs)
  obtain t1 where t1: "serve (report TW_MR_DATA_ACK c) t = Some t1" "received n (bs @ [c]) t1"
    using received_ack [OF Cons.prems(1), of c] Cons.prems(2) by auto
  obtain k' where k: "k = Suc k'" using Cons.prems(3) by (cases k) auto
  have "legal t (report TW_MR_DATA_ACK c)"
    using Cons.prems by (auto simp: legal_def received_def)
  moreover have "twi_state t1 = TWI_MRX" using t1(2) by (simp add: received_def)
  ultimately show ?case
    using t1 Cons.IH [OF t1(2), of k'] Cons.prems(2,3) by (simp add: k scripted_def)
qed auto

lemma await_scripted:
  "0 < k \<Longrightarrow> await scripted busy k (t, i # is) =
     (if legal t i
      then (case serve i t of None \<Rightarrow> None
            | Some t1 \<Rightarrow> if busy t1 then await scripted busy (k - 1) (t1, is) else Some (True, t1, is))
      else if busy t then await scripted busy (k - 1) (t, i # is) else Some (True, t, i # is))"
  by (cases k) (auto simp: scripted_def split: option.splits)

lemma await_start:
  assumes inv: "twi_inv t" "twi_state t = TWI_READY" "\<not> twi_inRepStart t"
    and len: "1 \<le> len" "unat len \<le> 32"
  shows "\<exists>t'. received (unat len) [] t' \<and>
    twi_readFrom scripted a len True (t, report TW_START 0 # report TW_MR_SLA_ACK 0 # is) =
    map_option (\<lambda>(finished, t3, h3). (copy_out len finished t3, t3, h3))
      (await scripted (\<lambda>t. twi_state t = TWI_MRX) 32765 (t', is))"
proof -
  define tA where "tA = arm (prepare_read a len True t)"
  define tB where "tB = twi_reply True (tA\<lparr>TWSR := TW_START, TWDR := twi_slarw tA\<rparr>)"
  define tC where "tC = twi_reply (twi_more tB) (tB\<lparr>TWSR := TW_MR_SLA_ACK\<rparr>)"
  have idle: "bus_phase t = Idle" using inv by (simp add: twi_inv_def mode_inv_def)
  have A: "bus_phase tA = Starting" "twi_state tA = TWI_MRX" "bit (twi_slarw tA) 0"
    "twi_masterBufferIndex tA = 0" "twi_masterBufferLength tA = len - 1" "twi_sendStop tA"
    "length (twi_masterBuffer tA) = 32"
    using inv by (auto simp: tA_def arm_def prepare_read_def bus_phase_def bit_or_iff bit_bv twcr_bits
        TW_READ_def twi_inv_def TWI_BUFFER_LENGTH_def)
  have B: "serve (report TW_START 0) tA = Some tB" "bus_phase tB = Addressing True"
    "twi_state tB = TWI_MRX" "twi_masterBufferIndex tB = 0" "twi_masterBufferLength tB = len - 1"
    using A by (simp_all add: tB_def serve_cases(1))
  have C: "serve (report TW_MR_SLA_ACK 0) tB = Some tC" "twi_state tC = TWI_MRX"
    using B by (simp_all add: tC_def serve_cases(6))
  have n: "1 \<le> unat len" using len(1) by (simp add: word_le_nat_alt)
  have more: "twi_more tB \<longleftrightarrow> 1 < unat len"
    using received_more [of "[]" "unat len" tB] B(4,5) n len(2) by simp
  have "bus_phase tC = Receiving (twi_more tB)" by (simp add: tC_def tw_codes)
  with A B C more n len(2) have rx: "received (unat len) [] tC"
    by (simp add: received_def tC_def tB_def)
  have "await scripted (\<lambda>t. twi_state t \<noteq> TWI_READY) TIMEOUT
      (t, report TW_START 0 # report TW_MR_SLA_ACK 0 # is) =
      Some (True, t, report TW_START 0 # report TW_MR_SLA_ACK 0 # is)"
    using idle inv(2) by (simp add: await_scripted TIMEOUT_def legal_def)
  moreover have "start_bus scripted (prepare_read a len True t, h) = (True, tA, h)" for h
    using inv(3) by (simp add: start_bus_def prepare_read_def tA_def arm_def)
  moreover have "await scripted (\<lambda>t. twi_state t = TWI_MRX) TIMEOUT
      (tA, report TW_START 0 # report TW_MR_SLA_ACK 0 # is) =
      await scripted (\<lambda>t. twi_state t = TWI_MRX) 32765 (tC, is)"
    using A B C by (simp add: await_scripted TIMEOUT_def legal_def)
  ultimately show ?thesis
    using rx len(2) by (intro exI [of _ tC]) (simp add: twi_readFrom_def TWI_BUFFER_LENGTH_def)
qed

lemma copy_out_ready:
  assumes "twi_masterBufferIndex t = of_nat m" "take m (twi_masterBuffer t) = bs" "0 < m" "m \<le> unat len"
  shows "copy_out len True t = (True, bs)"
proof -
  have "uint len < 256" by (rule u8_bound(1))
  then have "int (unat len) < 256" by simp
  then have "m < 256" using assms(4) by linarith
  then have m: "unat (of_nat m :: u8) = m" by (simp add: unat_of_nat)
  define n where "n = (if twi_masterBufferIndex t < len then twi_masterBufferIndex t else len)"
  have n: "unat n = m"
    using assms(4) m by (auto simp: n_def assms(1) word_less_nat_alt)
  then have "n \<noteq> 0" using assms(3) by auto
  then show ?thesis by (simp add: copy_out_def n_def [symmetric] n assms(2))
qed

lemma after_read:
  assumes "serve i t = Some t'" "legal t i" "twi_state t' = TWI_READY"
    and "twi_masterBufferIndex t' = of_nat m" "take m (twi_masterBuffer t') = bs"
    and "0 < m" "m \<le> unat len" "0 < k"
  shows "map_option (\<lambda>(finished, t3, h3). (copy_out len finished t3, t3, h3))
      (await scripted (\<lambda>t. twi_state t = TWI_MRX) k (t, [i])) = Some ((True, bs), t', [])"
proof -
  have "await scripted (\<lambda>t. twi_state t = TWI_MRX) k (t, [i]) = Some (True, t', [])"
    using assms(1-3,8) by (simp add: await_scripted)
  then show ?thesis using copy_out_ready [OF assms(4-7)] by simp
qed

section \<open>The transfers keep the invariant\<close>

definition legal_dev :: "'h twi_hw \<Rightarrow> bool" where
  "legal_dev dev \<longleftrightarrow> (\<forall>t h i h'. hw_irq dev t h = (Some i, h') \<longrightarrow> legal t i)"

lemma await_inv:
  assumes "legal_dev dev" "twi_inv t"
  shows "\<exists>ok t' h'. await dev busy k (t, h) = Some (ok, t', h') \<and> twi_inv t' \<and> (ok \<longrightarrow> \<not> busy t')"
  using assms(2)
proof (induction k arbitrary: t h)
  case (Suc k)
  obtain q h1 where q: "hw_irq dev t h = (q, h1)" by force
  obtain t1 where t1: "(case q of None \<Rightarrow> Some t | Some i \<Rightarrow> serve i t) = Some t1" "twi_inv t1"
  proof (cases q)
    case (Some i)
    then have "legal t i" using assms(1) q by (auto simp: legal_dev_def)
    from serve_inv [OF Suc.prems this] Some that show ?thesis by auto
  qed (use Suc.prems that in auto)
  show ?case using q t1 Suc.IH [OF t1(2), of h1] by auto
qed auto

lemma resend_sets:
  "resend dev k (t, h) = (ok, t', h') \<Longrightarrow>
   t' = t\<lparr>TWDR := twi_slarw t\<rparr> \<or> \<not> ok \<and> t' = t"
proof (induction k arbitrary: t h)
  case (Suc k)
  obtain c h1 where c: "hw_wwc dev (t\<lparr>TWDR := twi_slarw t\<rparr>) h = (c, h1)" by force
  show ?case
    using Suc.IH [of "t\<lparr>TWDR := twi_slarw t\<rparr>" h1] Suc.prems c
    by (cases c) auto
qed simp

lemma phase_idle_TWDR: "bus_phase t = Idle \<Longrightarrow> bus_phase (t\<lparr>TWDR := d, twi_inRepStart := b\<rparr>) = Idle"
  "bus_phase t = Idle \<Longrightarrow> bus_phase (t\<lparr>twi_inRepStart := b\<rparr>) = Idle"
  by (auto simp: bus_phase_def split: if_splits)

lemma start_bus_inv:
  assumes "start_bus dev (t, h) = (ok, t', h')" "bus_phase t = Idle" "twi_inv (arm t)"
    and "twi_state t = TWI_MRX \<or> twi_state t = TWI_MTX"
  shows "twi_inv t'"
proof (cases "twi_inRepStart t")
  case False
  then show ?thesis using assms(1,3) by (auto simp: start_bus_def arm_def)
next
  case True
  obtain t1 where r: "resend dev TIMEOUT (t\<lparr>twi_inRepStart := False\<rparr>, h) = (ok, t1, h')"
    and t': "t' = (if ok then t1\<lparr>TWCR := bv TWINT OR bv TWEA OR bv TWEN OR bv TWIE\<rparr> else t1)"
    using assms(1) True by (auto simp: start_bus_def split: prod.splits)
  show ?thesis
  proof (cases ok)
    case ok: True
    then have "t' = arm t" using resend_sets [OF r] True t' by (simp add: arm_def)
    with assms(3) show ?thesis by simp
  next
    case False
    then have "t' = t\<lparr>TWDR := twi_slarw t, twi_inRepStart := False\<rparr> \<or> t' = t\<lparr>twi_inRepStart := False\<rparr>"
      using resend_sets [OF r] t' by auto
    moreover have "bus_phase (arm t) \<noteq> Idle \<Longrightarrow> transferring (arm t)"
      using inv_transferring [OF assms(3)] .
    ultimately show ?thesis
      using assms(2-4) True phase_idle_TWDR [OF assms(2)]
      by (auto simp: twi_inv_def mode_inv_def arm_def)
  qed
qed

lemma ready_idle: "twi_inv t \<Longrightarrow> twi_state t = TWI_READY \<Longrightarrow> bus_phase t = Idle"
  by (simp add: twi_inv_def mode_inv_def)

lemma phase_prepare [simp]:
  "bus_phase (prepare_read a len stop t) = bus_phase t"
  "bus_phase (prepare_write a bs stop t) = bus_phase t"
  "twi_state (prepare_read a len stop t) = TWI_MRX"
  "twi_state (prepare_write a bs stop t) = TWI_MTX"
  by (simp_all add: prepare_read_def prepare_write_def bus_phase_def)

lemma twi_writeTo_inv:
  assumes "legal_dev dev" "twi_inv t"
  shows "\<exists>ok t' h'. twi_writeTo dev address bs wait stop (t, h) = Some (ok, t', h') \<and> twi_inv t'"
proof (cases "TWI_BUFFER_LENGTH < length bs")
  case False
  obtain ready t1 h1 where r: "await dev (\<lambda>t. twi_state t \<noteq> TWI_READY) TIMEOUT (t, h) = Some (ready, t1, h1)"
    "twi_inv t1" "ready \<longrightarrow> twi_state t1 = TWI_READY"
    using await_inv [OF assms, of "\<lambda>t. twi_state t \<noteq> TWI_READY" TIMEOUT h] by auto
  show ?thesis
  proof (cases ready)
    case True
    obtain started t2 h2 where s: "start_bus dev (prepare_write address bs stop t1, h1) = (started, t2, h2)"
      by (metis prod_cases3)
    have "twi_inv t2"
      by (rule start_bus_inv [OF s])
         (use r True False ready_idle in \<open>simp_all add: prepare_write_inv\<close>)
    from await_inv [OF assms(1) this, of "\<lambda>t. wait \<and> twi_state t = TWI_MTX" TIMEOUT h2] r s True False
    show ?thesis using \<open>twi_inv t2\<close> by (auto simp: twi_writeTo_def)
  qed (use r False in \<open>auto simp: twi_writeTo_def\<close>)
qed (use assms(2) in \<open>auto simp: twi_writeTo_def\<close>)

lemma copy_out_length: "length (snd (copy_out len finished t)) \<le> unat len"
  by (auto simp: copy_out_def Let_def word_less_nat_alt)

lemma twi_readFrom_inv:
  assumes "legal_dev dev" "twi_inv t" "1 \<le> len"
  shows "\<exists>r t' h'. twi_readFrom dev address len stop (t, h) = Some (r, t', h') \<and> twi_inv t' \<and>
    length (snd r) \<le> unat len"
proof (cases "TWI_BUFFER_LENGTH < unat len")
  case False
  obtain ready t1 h1 where r: "await dev (\<lambda>t. twi_state t \<noteq> TWI_READY) TIMEOUT (t, h) = Some (ready, t1, h1)"
    "twi_inv t1" "ready \<longrightarrow> twi_state t1 = TWI_READY"
    using await_inv [OF assms(1,2), of "\<lambda>t. twi_state t \<noteq> TWI_READY" TIMEOUT h] by auto
  show ?thesis
  proof (cases ready)
    case True
    obtain started t2 h2 where s: "start_bus dev (prepare_read address len stop t1, h1) = (started, t2, h2)"
      by (metis prod_cases3)
    have t2: "twi_inv t2"
      by (rule start_bus_inv [OF s])
         (use r True False ready_idle assms(3) in
           \<open>simp_all add: prepare_read_inv\<close>)
    obtain fin t3 h3 where w: "await dev (\<lambda>t. twi_state t = TWI_MRX) TIMEOUT (t2, h2) = Some (fin, t3, h3)"
      "twi_inv t3"
      using await_inv [OF assms(1) t2, of "\<lambda>t. twi_state t = TWI_MRX" TIMEOUT h2] by auto
    obtain ok bs where c: "copy_out len fin t3 = (ok, bs)" by force
    show ?thesis
      using r s True False t2 w c copy_out_length [of len fin t3]
      by (cases started) (simp_all add: twi_readFrom_def)
  qed (use r False in \<open>simp add: twi_readFrom_def\<close>)
qed (use assms(2) in \<open>simp add: twi_readFrom_def\<close>)

section \<open>The driver as the bus of the extension controllers\<close>

definition slow_read :: "'h twi_hw \<Rightarrow> (twi \<times> 'h) i2c_read" where
  "slow_read dev a p n s =
     (case twi_readFromPointerSlow dev a p (of_nat n) s of Some r \<Rightarrow> r | None \<Rightarrow> ((False, []), s))"

lemma unat_of_nat_le: "unat (of_nat n :: u8) \<le> n"
  by (simp add: unat_of_nat)

lemma twi_readFrom_length:
  "twi_readFrom dev a len stop s = Some ((ok, bs), s') \<Longrightarrow> length bs \<le> unat len"
  using copy_out_length [of len]
  by (auto simp: twi_readFrom_def split: if_splits option.splits prod.splits) (metis snd_conv)

interpretation twi_bus: i2c_bus "slow_read dev" for dev
proof unfold_locales
  fix a p n s ok bs s'
  assume "slow_read dev a p n s = ((ok, bs), s')"
  then show "length bs \<le> n"
    using twi_readFrom_length [of dev a "of_nat n"] order_trans [OF _ unat_of_nat_le]
    by (fastforce simp: slow_read_def twi_readFromPointerSlow_def bind_eq_Some_conv
        split: option.splits prod.splits if_splits)
qed

section \<open>Properties\<close>

text \<open>
  C27: no interrupt the unit can report makes the driver leave its 32-byte buffer: in every
  state reached by any interleaving of transfers and interrupts, from a driver that is idle, the
  handler's accesses stay inside, and the state machine's invariant holds.
\<close>

theorem twi_handler_in_bounds:
  assumes "twi_step\<^sup>*\<^sup>* (twi_init t) t'" "legal t' i"
    and "length (twi_masterBuffer t) = TWI_BUFFER_LENGTH" "TWSR t = TW_NO_INFO"
  shows "serve i t' \<noteq> None"
proof -
  have "twi_inv (twi_init t)"
    using assms(3,4)
    by (simp add: twi_inv_def mode_inv_def twi_init_def bus_phase_def tw_codes bit_or_iff bit_bv
        twcr_bits bit_clear_m_def bv_def)
  from assms(1) this have "twi_inv t'" by (induction rule: rtranclp_induct) (auto dest: step_inv)
  from serve_inv [OF this assms(2)] show ?thesis by auto
qed

text \<open>
  C28: a read of n bytes that the device acknowledges delivers exactly the bytes it sent, in
  order; and one that a bus error cuts short after its first byte is reported as a success too,
  with the bytes so far.
\<close>

theorem twi_read_delivers:
  assumes "twi_inv t" "twi_state t = TWI_READY" "\<not> twi_inRepStart t"
    and "unat len = length bs + 1" "length bs < 32" "0 < k" "k \<le> length bs"
  shows "(\<exists>t'. twi_readFrom scripted a len True (t, report TW_START 0 # report TW_MR_SLA_ACK 0 #
             map (report TW_MR_DATA_ACK) bs @ [report TW_MR_DATA_NACK b]) =
           Some ((True, bs @ [b]), t', []) \<and> twi_state t' = TWI_READY) \<and>
    (\<exists>t'. twi_readFrom scripted a len True (t, report TW_START 0 # report TW_MR_SLA_ACK 0 #
             map (report TW_MR_DATA_ACK) (take k bs) @ [report TW_BUS_ERROR 0]) =
           Some ((True, take k bs), t', []) \<and> twi_state t' = TWI_READY \<and> twi_error t' = TW_BUS_ERROR)"
proof (intro conjI)
  have len: "1 \<le> len" "unat len \<le> 32" using assms(4,5) by (simp_all add: word_le_nat_alt)
  let ?busy = "\<lambda>t. twi_state t = TWI_MRX"
  obtain t0 where t0: "received (unat len) [] t0" "twi_readFrom scripted a len True
      (t, report TW_START 0 # report TW_MR_SLA_ACK 0 # map (report TW_MR_DATA_ACK) bs @
          [report TW_MR_DATA_NACK b]) =
      map_option (\<lambda>(finished, t3, h3). (copy_out len finished t3, t3, h3))
        (await scripted ?busy 32765 (t0, map (report TW_MR_DATA_ACK) bs @ [report TW_MR_DATA_NACK b]))"
    using await_start [OF assms(1-3) len, of a] by blast
  obtain t1 where t1: "received (unat len) bs t1" "await scripted ?busy 32765
      (t0, map (report TW_MR_DATA_ACK) bs @ [report TW_MR_DATA_NACK b]) =
      await scripted ?busy (32765 - length bs) (t1, [report TW_MR_DATA_NACK b])"
    using await_ack [OF t0(1), of bs 32765 "[report TW_MR_DATA_NACK b]"] assms(4,5) by auto
  obtain t2 where t2: "serve (report TW_MR_DATA_NACK b) t1 = Some t2" "twi_state t2 = TWI_READY"
    "twi_masterBufferIndex t2 = of_nat (unat len)" "take (unat len) (twi_masterBuffer t2) = bs @ [b]"
    using received_end(1) [OF t1(1)] assms(4) by auto
  have "legal t1 (report TW_MR_DATA_NACK b)" using t1(1) assms(4) by (simp add: received_def legal_def)
  from after_read [OF t2(1) this t2(2-4), of len "32765 - length bs"] t0(2) t1(2) t2(2) assms(4,5)
  show "\<exists>t'. twi_readFrom scripted a len True (t, report TW_START 0 # report TW_MR_SLA_ACK 0 #
             map (report TW_MR_DATA_ACK) bs @ [report TW_MR_DATA_NACK b]) =
           Some ((True, bs @ [b]), t', []) \<and> twi_state t' = TWI_READY" by auto
next
  have len: "1 \<le> len" "unat len \<le> 32" using assms(4,5) by (simp_all add: word_le_nat_alt)
  let ?busy = "\<lambda>t. twi_state t = TWI_MRX" and ?cs = "take k bs"
  obtain t0 where t0: "received (unat len) [] t0" "twi_readFrom scripted a len True
      (t, report TW_START 0 # report TW_MR_SLA_ACK 0 # map (report TW_MR_DATA_ACK) ?cs @
          [report TW_BUS_ERROR 0]) =
      map_option (\<lambda>(finished, t3, h3). (copy_out len finished t3, t3, h3))
        (await scripted ?busy 32765 (t0, map (report TW_MR_DATA_ACK) ?cs @ [report TW_BUS_ERROR 0]))"
    using await_start [OF assms(1-3) len, of a] by blast
  obtain t1 where t1: "received (unat len) ?cs t1" "await scripted ?busy 32765
      (t0, map (report TW_MR_DATA_ACK) ?cs @ [report TW_BUS_ERROR 0]) =
      await scripted ?busy (32765 - length ?cs) (t1, [report TW_BUS_ERROR 0])"
    using await_ack [OF t0(1), of ?cs 32765 "[report TW_BUS_ERROR 0]"] assms(4,5,7) by auto
  obtain t2 where t2: "serve (report TW_BUS_ERROR 0) t1 = Some t2" "twi_state t2 = TWI_READY"
    "twi_masterBufferIndex t2 = of_nat (length ?cs)" "take (length ?cs) (twi_masterBuffer t2) = ?cs"
    "twi_error t2 = TW_BUS_ERROR"
    using received_end(2) [OF t1(1)] by auto
  have "legal t1 (report TW_BUS_ERROR 0)"
    using t1(1) by (cases "length ?cs + 1 < unat len") (auto simp: received_def legal_def)
  from after_read [OF t2(1) this t2(2-4), of len "32765 - length ?cs"] t0(2) t1(2) t2(2,5) assms(4-7)
  show "\<exists>t'. twi_readFrom scripted a len True (t, report TW_START 0 # report TW_MR_SLA_ACK 0 #
             map (report TW_MR_DATA_ACK) ?cs @ [report TW_BUS_ERROR 0]) =
           Some ((True, ?cs), t', []) \<and> twi_state t' = TWI_READY \<and> twi_error t' = TW_BUS_ERROR"
    by auto
qed

text \<open>A chip out of reset.\<close>

definition twi_reset :: twi where
  "twi_reset = \<lparr>twi_state = TWI_READY, twi_slarw = 0, twi_sendStop = False, twi_inRepStart = False,
     twi_masterBuffer = replicate 32 0, twi_masterBufferIndex = 0, twi_masterBufferLength = 0,
     twi_error = 0, TWDR = 0xFF, TWCR = 0, TWSR = TW_NO_INFO, TWBR = 0\<rparr>"

lemma twi_reset_inv: "twi_inv twi_reset" "twi_inv (twi_init twi_reset)"
  by (simp_all add: twi_reset_def twi_init_def twi_inv_def mode_inv_def bus_phase_def
      TWI_BUFFER_LENGTH_def tw_codes bit_or_iff bit_bv twcr_bits bit_clear_m_def bv_def)

theorem twi_handler_witness:
  "\<exists>t'. twi_step\<^sup>*\<^sup>* (twi_init twi_reset) t' \<and> legal t' (report TW_START 0) \<and>
     serve (report TW_START 0) t' \<noteq> None"
proof -
  define t' where "t' = arm (prepare_read 0x52 6 True (twi_init twi_reset))"
  have "twi_step (twi_init twi_reset) t'"
    unfolding t'_def by (rule start_read) (simp_all add: twi_init_def TWI_BUFFER_LENGTH_def)
  then have reach: "twi_step\<^sup>*\<^sup>* (twi_init twi_reset) t'" by blast
  have leg: "legal t' (report TW_START 0)"
    by (simp add: t'_def legal_def bus_phase_def arm_def prepare_read_def twi_init_def bit_or_iff
        bit_bv twcr_bits)
  have "serve (report TW_START 0) t' \<noteq> None"
    by (rule twi_handler_in_bounds [OF reach leg]) (simp_all add: twi_reset_def TWI_BUFFER_LENGTH_def)
  with reach leg show ?thesis by blast
qed

theorem twi_read_delivers_witness:
  "(\<exists>t'. twi_readFrom scripted 0x52 3 True (twi_reset, [report TW_START 0, report TW_MR_SLA_ACK 0,
       report TW_MR_DATA_ACK 10, report TW_MR_DATA_ACK 20, report TW_MR_DATA_NACK 30]) =
     Some ((True, [10, 20, 30]), t', [])) \<and>
   (\<exists>t'. twi_readFrom scripted 0x52 3 True (twi_reset, [report TW_START 0, report TW_MR_SLA_ACK 0,
       report TW_MR_DATA_ACK 10, report TW_BUS_ERROR 0]) =
     Some ((True, [10]), t', []) \<and> twi_error t' = TW_BUS_ERROR)"
  using twi_read_delivers [OF twi_reset_inv(1), where len = 3 and bs = "[10, 20]"
      and k = 1 and a = "0x52" and b = 30]
  by (auto simp: twi_reset_def)

text \<open>
  C29: on a bus that behaves as the data sheet says, every transfer returns: whatever the device
  does, within the time-outs, with the driver's invariant kept and at most the bytes asked for.
\<close>

theorem twi_transfers_return:
  assumes "legal_dev dev" "twi_inv t" "1 \<le> len"
  shows "\<exists>ok bs t' h'. twi_readFromPointerSlow dev a p len (t, h) = Some ((ok, bs), t', h') \<and>
    twi_inv t' \<and> length bs \<le> unat len"
proof -
  obtain ok t1 h1 where w: "twi_writeTo dev a [p] True True (t, h) = Some (ok, t1, h1)" "twi_inv t1"
    using twi_writeTo_inv [OF assms(1,2)] by blast
  obtain r t2 h2 where "twi_readFrom dev a len True (t1, hw_delay_us dev 180 h1) = Some (r, t2, h2)"
    "twi_inv t2" "length (snd r) \<le> unat len"
    using twi_readFrom_inv [OF assms(1) w(2) assms(3)] by blast
  with w show ?thesis by (cases r) (auto simp: twi_readFromPointerSlow_def)
qed

theorem twi_transfers_witness:
  "\<exists>ok bs t' h'. twi_readFromPointerSlow scripted 0x52 0xFA 6 (twi_reset, [report TW_START 0]) =
     Some ((ok, bs), t', h') \<and> twi_inv t' \<and> length bs \<le> 6"
proof -
  have "legal_dev scripted" by (auto simp: legal_dev_def scripted_def split: list.splits if_splits)
  from twi_transfers_return [OF this twi_reset_inv(1), where len = 6 and a = "0x52" and p = "0xFA"
      and h = "[report TW_START 0]"]
  show ?thesis by simp
qed

end
