(* ===== verification/Direct.thy ===== *)
theory Direct
  imports WiiExt
begin

text \<open>
  The pins wired directly to the board (\<open>src/src/shared/input/inputs/direct.h\<close>): their set-up
  from the configuration, the search for a pin the user touches, and one poll of the analogue
  inputs. The result None is an access outside one of the arrays.

  \<open>g\<close> and \<open>d\<close> stand for the globals \<open>typeIsGuitar\<close> and \<open>typeIsDrum\<close>; \<open>adc\<close> gives the sample of
  each channel, \<open>busy\<close> whether the background conversion still runs. \<open>built_RF_TX\<close> says whether the
  program is built with RF\_TX, as the radio transmitter's is.
\<close>

record direct_state =
  an :: analog_state
  pinData :: "Pin_t list"
  validPins :: nat
  detectedPin :: u8
  lookingForDigital :: bool
  lookingForAnalog :: bool
  lastAnalogValue :: "i16 list"
  lastDigitalValue :: "bool list"
  analogueData :: "i16 list"
  usingI2C :: bool
  usingSPI :: bool
  spPin :: u8
  dir_tiltType :: u8
  drumVelocity :: "u8 list"
  scales :: "AxisScale_t list"
  built_RF_TX :: bool

abbreviation on_hw :: "(avr \<Rightarrow> avr) \<Rightarrow> direct_state \<Rightarrow> direct_state" where
  "on_hw f s \<equiv> s\<lparr>an := (an s)\<lparr>hw := f (hw (an s))\<rparr>\<rparr>"

section \<open>Set-up\<close>

definition reinit_pin :: "Pin_t \<Rightarrow> avr \<Rightarrow> avr" where
  "reinit_pin p = pinMode (pin_pin p)
     (if pin_eq p \<or> pin_analogOffset p \<noteq> INVALID_PIN then INPUT else INPUT_PULLUP)"

definition reinitDirectInput :: "direct_state \<Rightarrow> direct_state" where
  "reinitDirectInput s =
     (let s1 = (if spPin s \<noteq> INVALID_PIN then on_hw (pinMode (spPin s) OUTPUT) s else s)
      in on_hw (fold reinit_pin (take (validPins s1) (pinData s1))) s1)"

definition is_fret :: "nat \<Rightarrow> bool" where
  "is_fret i \<longleftrightarrow> btn XBOX_A \<le> i \<or> i = btn XBOX_LB \<or> i = btn XBOX_RB"

definition strum_debounce :: "bool \<Rightarrow> Configuration_t \<Rightarrow> nat \<Rightarrow> Pin_t \<Rightarrow> Pin_t" where
  "strum_debounce g config i pin =
     (if g \<and> (i = btn XBOX_DPAD_DOWN \<or> i = btn XBOX_DPAD_UP)
      then pin\<lparr>pin_milliDeBounce := deb_strum (cfg_debounce config)\<rparr> else pin)"

definition add_pin :: "Pin_t \<Rightarrow> direct_state \<Rightarrow> direct_state option" where
  "add_pin pin s =
     (if validPins s < length (pinData s)
      then Some (s\<lparr>pinData := (pinData s)[validPins s := pin], validPins := validPins s + 1\<rparr>)
      else None)"

definition initDirectPin ::
  "bool \<Rightarrow> bool \<Rightarrow> Configuration_t \<Rightarrow> nat \<Rightarrow> direct_state \<Rightarrow> direct_state option" where
  "initDirectPin g d config i s =
     (if inputType (cfg_main config) = input_val DIRECT
      then (let num = pins_buttons (cfg_pins config) ! i
            in if num = INVALID_PIN then Some s
               else let pin = setUpDigital (hw (an s)) config num (of_nat i)
                          (is_fret i \<and> fretLEDMode (cfg_main config) = fret_val LEDS_INLINE) False
                    in if d \<and> is_fret i \<and> PIN_A0 \<le> num
                       then Option.bind
                              (setUpAnalogDigitalPin pin num
                                (push_bit 3 (ucast (drumThreshold (cfg_axis config)))) (an s))
                              (\<lambda>(pin', an'). add_pin pin' (s\<lparr>an := an'\<rparr>))
                       else add_pin (strum_debounce g config i pin)
                              (on_hw (pinMode num (if pin_eq pin then INPUT else INPUT_PULLUP)) s))
      else add_pin (strum_debounce g config i (setUpDigital (hw (an s)) config 0 (of_nat i) False False)) s)"

fun initDirectPins ::
  "bool \<Rightarrow> bool \<Rightarrow> Configuration_t \<Rightarrow> nat list \<Rightarrow> direct_state \<Rightarrow> direct_state option" where
  "initDirectPins g d config [] s = Some s"
| "initDirectPins g d config (i # is) s =
     Option.bind (initDirectPin g d config i s) (initDirectPins g d config is)"

definition axis_scales :: "AxisScaleConfig_t \<Rightarrow> AxisScale_t list" where
  "axis_scales c = [sc_lt c, sc_rt c, sc_l_x c, sc_l_y c, sc_r_x c, sc_r_y c]"

definition initDirectInput ::
  "bool \<Rightarrow> bool \<Rightarrow> Configuration_t \<Rightarrow> direct_state \<Rightarrow> direct_state option" where
  "initDirectInput g d config s =
     (let m = cfg_main config;
          s1 = s\<lparr>usingI2C := tiltType m = tilt_val MPU_6050 \<or> inputType m = input_val WII,
                 usingSPI := fretLEDMode m = fret_val APA102 \<or> inputType m = input_val PS2,
                 spPin := cfg_pinsSP config, dir_tiltType := tiltType m,
                 scales := axis_scales (cfg_axisScale config), validPins := 0\<rparr>
      in Option.bind (setUpValidPins g config (an s1)) (\<lambda>an'.
           let s2 = s1\<lparr>an := an'\<rparr>;
               s3 = (if cfg_pinsSP config \<noteq> INVALID_PIN
                     then on_hw (pinMode (cfg_pinsSP config) OUTPUT) s2 else s2)
           in initDirectPins g d config [0..<XBOX_BTN_COUNT] s3))"

section \<open>The search for a pin\<close>

definition shouldSkipPin :: "direct_state \<Rightarrow> u8 \<Rightarrow> bool" where
  "shouldSkipPin s i \<longleftrightarrow>
     i = 13 \<or> i = 0 \<or> i = 1 \<or>
     usingI2C s \<and> (i = PIN_WIRE_SDA \<or> i = PIN_WIRE_SCL) \<or>
     built_RF_TX s \<and> (i = PIN_SPI_MOSI \<or> i = PIN_SPI_MISO \<or> i = PIN_SPI_SCK \<or> i = PIN_SPI_SS \<or>
                       i = 8 \<or> i = 2) \<or>
     usingSPI s \<and> (i = PIN_SPI_MOSI \<or> i = PIN_SPI_MISO \<or> i = PIN_SPI_SCK \<or> i = PIN_SPI_SS)"

abbreviation digital_pins :: "nat list" where "digital_pins \<equiv> [0..<NUM_DIGITAL_PINS]"

definition findDigitalPin :: "direct_state \<Rightarrow> direct_state" where
  "findDigitalPin s =
     (if lookingForDigital s then s
      else (fold (\<lambda>i s. if shouldSkipPin s (of_nat i) then s
                        else (let s1 = on_hw (pinMode (of_nat i) INPUT_PULLUP) s
                              in s1\<lparr>lastDigitalValue := (lastDigitalValue s1)
                                     [i := digitalRead (hw (an s1)) (of_nat i)]\<rparr>))
             digital_pins (s\<lparr>detectedPin := 0xff, an := stopReading (an s)\<rparr>))
           \<lparr>lookingForDigital := True\<rparr>)"

definition findAnalogPin :: "(u8 \<Rightarrow> u16) \<Rightarrow> direct_state \<Rightarrow> direct_state" where
  "findAnalogPin adc s =
     (if lookingForAnalog s then s
      else (fold (\<lambda>i s. let s1 = on_hw (pinMode (PIN_A0 + of_nat i) INPUT_PULLUP) s
                        in case analogRead adc (of_nat i) (hw (an s1)) of (v, hw') \<Rightarrow>
                             on_hw (\<lambda>_. hw') (s1\<lparr>lastAnalogValue := (lastAnalogValue s1)[i := v]\<rparr>))
             [0..<NUM_ANALOG_INPUTS] (s\<lparr>detectedPin := 0xff, an := stopReading (an s)\<rparr>))
           \<lparr>lookingForAnalog := True\<rparr>)"

definition stopSearching :: "direct_state \<Rightarrow> direct_state" where
  "stopSearching s =
     (if lookingForDigital s
      then fold (\<lambda>i s. let s1 = (if shouldSkipPin s (of_nat i) then s
                                 else on_hw (pinMode (of_nat i) INPUT) s)
                       in s1\<lparr>lastDigitalValue := (lastDigitalValue s1)
                              [i := digitalRead (hw (an s1)) (of_nat i)]\<rparr>) digital_pins s
      else s)\<lparr>lookingForDigital := False, lookingForAnalog := False\<rparr>"

definition setSP :: "bool \<Rightarrow> direct_state \<Rightarrow> direct_state" where
  "setSP sp s =
     (if spPin s \<noteq> INVALID_PIN then on_hw (digitalWrite (spPin s) (of_bool sp)) s else s)"

text \<open>One round of the analogue search: the inputs in turn, until one has moved by more than 10.\<close>

fun search_analog :: "(u8 \<Rightarrow> u16) \<Rightarrow> nat list \<Rightarrow> direct_state \<Rightarrow> direct_state" where
  "search_analog adc [] s = s"
| "search_analog adc (i # is) s =
     (case analogRead adc (of_nat i) (hw (an s)) of (v, hw') \<Rightarrow>
        let s1 = on_hw (\<lambda>_. hw') s
        in if 10 < \<bar>sint (v - lastAnalogValue s ! i)\<bar>
           then s1\<lparr>detectedPin := of_nat i + PIN_A0, lookingForAnalog := False\<rparr>
           else search_analog adc is s1)"

fun search_digital :: "nat list \<Rightarrow> direct_state \<Rightarrow> direct_state" where
  "search_digital [] s = s"
| "search_digital (i # is) s =
     (if \<not> shouldSkipPin s (of_nat i) \<and> digitalRead (hw (an s)) (of_nat i) \<noteq> lastDigitalValue s ! i
      then (stopSearching s)\<lparr>detectedPin := of_nat i, lookingForDigital := False\<rparr>
      else search_digital is s)"

section \<open>A poll\<close>

text \<open>The scaling of an axis, in 32 bits as the code computes it.\<close>

definition scale_axis :: "AxisScale_t \<Rightarrow> i16 \<Rightarrow> i32" where
  "scale_axis sc v =
     (let val = (scast v - scast (scale_offset sc) :: i32);
          val = val * scast (scale_multiplier sc);
          val = (word_of_int (sint val sdiv 1024) :: i32);
          val = val + (- 32768);
          val = (if 32767 <s val then 32767 else val)
      in if val <s - 32768 then - 32768 else val)"

definition apply_deadzone :: "bool \<Rightarrow> AxisScale_t \<Rightarrow> i32 \<Rightarrow> i32" where
  "apply_deadzone trigger_like sc val =
     (if trigger_like then (if val <s scast (scale_deadzone sc) then - 32768 else val)
      else if val <s scast (scale_deadzone sc) \<and> scast (- scale_deadzone sc) <s val then 0 else val)"

definition tick_axis ::
  "bool \<Rightarrow> AnalogInfo_t \<Rightarrow> Controller_t \<times> direct_state \<Rightarrow> (Controller_t \<times> direct_state) option" where
  "tick_axis g info cs =
     (case cs of (c, s) \<Rightarrow>
        let off = unat (ai_offset info)
        in if off < length (analogueData s) \<and> off < length (scales s)
           then let sc = scales s ! off;
                    val = apply_deadzone (off < 2 \<or> g \<and> off = axis_ix XBOX_WHAMMY) sc
                            (scale_axis sc (ai_value info));
                    s' = s\<lparr>analogueData := (analogueData s)[off := ai_value info]\<rparr>
                in Some (if 2 \<le> off then sticks_put (off - 2) (ucast val) c
                         else triggers_put off (ucast (drop_bit 8 (ucast val :: u16))) c, s')
           else None)"

definition tick_pad ::
  "AnalogInfo_t \<Rightarrow> Controller_t \<times> direct_state \<Rightarrow> (Controller_t \<times> direct_state) option" where
  "tick_pad info cs =
     (case cs of (c, s) \<Rightarrow>
        let ix = uint (ai_offset info) - 8
        in if 0 \<le> ix \<and> nat ix < length (drumVelocity s)
           then Some (c, s\<lparr>drumVelocity := (drumVelocity s)[nat ix := ucast (ai_value info)]\<rparr>)
           else None)"

fun tick_analog_inputs ::
  "bool \<Rightarrow> nat list \<Rightarrow> Controller_t \<times> direct_state \<Rightarrow> (Controller_t \<times> direct_state) option" where
  "tick_analog_inputs g [] cs = Some cs"
| "tick_analog_inputs g (i # is) cs =
     (let s = snd cs; info = joyData (an s) ! i
      in if ai_hasDigital info
         then Option.bind (tick_pad info cs) (tick_analog_inputs g is)
         else if i = axis_ix XBOX_TILT \<and> g \<and> dir_tiltType s = tilt_val DIGITAL
         then tick_analog_inputs g is cs
         else Option.bind (tick_axis g info cs) (tick_analog_inputs g is))"

definition tickDirectInput ::
  "(u8 \<Rightarrow> u16) \<Rightarrow> bool \<Rightarrow> bool \<Rightarrow> Controller_t \<times> direct_state \<Rightarrow>
   (Controller_t \<times> direct_state) option" where
  "tickDirectInput adc busy g cs =
     (case cs of (c, s) \<Rightarrow>
        if lookingForAnalog s then Some (c, search_analog adc [0..<NUM_ANALOG_INPUTS] s)
        else if lookingForDigital s then Some (c, search_digital digital_pins s)
        else let s1 = s\<lparr>an := tickAnalog adc busy (an s)\<rparr>
             in if validAnalog (an s1) \<le> length (joyData (an s1))
                then tick_analog_inputs g [0..<validAnalog (an s1)] (c, s1)
                else None)"

section \<open>Facts\<close>

lemma sint_scast_32 [simp]: "sint (scast (v :: i16) :: i32) = sint v"
proof -
  have "sint (word_of_int (sint v) :: i32) = sint v"
    by (rule sint_of_int_32) (use i16_bound [of v] in simp_all)
  then show ?thesis by simp
qed

text \<open>No step of the scaling leaves 32 bits, so it is the exact one, clamped.\<close>

lemma scale_axis_exact:
  "sint (scale_axis sc v) =
     max (- 32768) (min 32767
       (((sint v - sint (scale_offset sc)) * sint (scale_multiplier sc)) sdiv 1024 - 32768))"
proof -
  define a where "a = sint v - sint (scale_offset sc)"
  define m where "m = sint (scale_multiplier sc)"
  define q where "q = (a * m) sdiv 1024"
  have "\<bar>a\<bar> \<le> 65535" "\<bar>m\<bar> \<le> 32768"
    using i16_bound [of v] i16_bound [of "scale_offset sc"] i16_bound [of "scale_multiplier sc"]
    by (simp_all add: a_def m_def abs_le_iff)
  then have "\<bar>a\<bar> * \<bar>m\<bar> \<le> 65535 * 32768" by (intro mult_mono) simp_all
  then have am: "\<bar>a * m\<bar> \<le> 2147450880" by (simp add: abs_mult)
  have q: "\<bar>q\<bar> \<le> 2097120"
  proof -
    have "\<bar>a * m\<bar> div 1024 \<le> 2147450880 div 1024" using am by (rule zdiv_mono1) simp
    moreover have "\<bar>q\<bar> \<le> \<bar>a * m\<bar> div 1024"
      by (simp add: q_def signed_divide_int_def abs_mult sgn_if pos_imp_zdiv_nonneg_iff)
    ultimately show ?thesis by simp
  qed
  have diff: "(scast v - scast (scale_offset sc) :: i32) = word_of_int a"
    by (simp add: a_def)
  have prod: "(word_of_int a * scast (scale_multiplier sc) :: i32) = word_of_int (a * m)"
    by (simp add: m_def)
  have quot: "sint (word_of_int (a * m) :: i32) sdiv 1024 = q"
    using am by (subst sint_of_int_32) (simp_all add: q_def abs_le_iff)
  have sum: "sint (word_of_int q + (- 32768) :: i32) = q - 32768"
  proof -
    have "(word_of_int q + (- 32768) :: i32) = word_of_int (q - 32768)" by simp
    then show ?thesis using q by (simp only:) (rule sint_of_int_32, simp_all add: abs_le_iff)
  qed
  define w where "w = (word_of_int q + (- 32768) :: i32)"
  have "scale_axis sc v = (let val = (if 32767 <s w then 32767 else w)
      in if val <s - 32768 then - 32768 else val)"
    unfolding scale_axis_def Let_def diff prod quot w_def ..
  then have "sint (scale_axis sc v) = max (- 32768) (min 32767 (sint w))"
    by (auto simp: Let_def word_sless_alt max_def min_def)
  moreover have "sint w = q - 32768" unfolding w_def by (rule sum)
  ultimately show ?thesis by (simp only: q_def a_def m_def)
qed

text \<open>The dead zone on the numbers, and the byte a trigger stores.\<close>

lemma neg_i16: "- (32768::int) < sint (v :: i16) \<Longrightarrow> sint (- v) = - sint v"
proof -
  assume "- (32768::int) < sint v"
  moreover have "- v = word_of_int (- sint v)" by (simp flip: wi_hom_neg)
  ultimately show ?thesis
    using i16_bound [of v] by (simp only:) (rule sint_of_int_16, simp_all)
qed

lemma apply_deadzone_exact:
  "sint (apply_deadzone tr sc v) =
    (if tr then if sint v < sint (scale_deadzone sc) then - 32768 else sint v
     else if sint v < sint (scale_deadzone sc) \<and> - sint (scale_deadzone sc) < sint v then 0 else sint v)"
proof (cases "- 32768 < sint (scale_deadzone sc)")
  case True
  from neg_i16 [OF this] show ?thesis by (simp add: apply_deadzone_def word_sless_alt)
next
  case False
  then have "sint (scale_deadzone sc) = - 32768" using i16_bound [of "scale_deadzone sc"] by simp
  moreover from this have "scale_deadzone sc = - 32768"
    by (intro signed_word_eqI) simp
  ultimately show ?thesis
    by (simp add: apply_deadzone_def word_sless_alt)
qed

lemma upper_byte:
  "ucast (drop_bit 8 (ucast (v :: i32) :: u16)) = (word_of_int (sint v div 256) :: u8)"
proof (rule word_uint_eqI)
  have mid: "a mod 65536 div 256 = a div 256 mod 256" for a :: int
    using zmod_zmult2_eq [of 256 a 256] by simp
  have "uint (ucast v :: u16) = sint v mod 65536"
    by (simp only: ucast_sint uint_word_of_int) simp
  moreover have "uint (ucast (drop_bit 8 x) :: u8) = uint x div 256 mod 256" for x :: u16
  proof -
    show ?thesis
      using mid [of "uint x"] by (simp only: unsigned_ucast_eq unsigned_drop_bit_eq take_bit_eq_mod)
        (simp add: drop_bit_eq_div take_bit_eq_mod)
  qed
  ultimately have "uint (ucast (drop_bit 8 (ucast v :: u16)) :: u8) = (sint v mod 65536) div 256 mod 256"
    by simp
  also have "\<dots> = sint v div 256 mod 256"
    by (simp add: mid)
  finally show "uint (ucast (drop_bit 8 (ucast v :: u16)) :: u8) = uint (word_of_int (sint v div 256) :: u8)"
    by (simp add: uint_word_of_int)
qed

lemma tick_axis_exact:
  "tick_axis g info (c, s) =
    (let off = unat (ai_offset info); sc = scales s ! off;
         exact = (sint (ai_value info) - sint (scale_offset sc)) * sint (scale_multiplier sc);
         v = max (- 32768) (min 32767 (exact sdiv 1024 - 32768));
         zone = sint (scale_deadzone sc);
         rest = (if v < zone then - 32768 else v);
         centred = (if v < zone \<and> - zone < v then 0 else v)
     in if off < length (analogueData s) \<and> off < length (scales s)
        then Some
          (if off = 0 \<or> off = 1
             then triggers_put off (if v < zone then 128 else word_of_int (v div 256)) c
           else if g \<and> off = axis_ix XBOX_WHAMMY then sticks_put (off - 2) (word_of_int rest) c
           else sticks_put (off - 2) (word_of_int centred) c,
           s\<lparr>analogueData := (analogueData s)[off := ai_value info]\<rparr>)
        else None)"
proof -
  define off where "off = unat (ai_offset info)"
  define sc where "sc = scales s ! off"
  define w where "w = scale_axis sc (ai_value info)"
  define v where "v = max (- 32768) (min 32767
     (((sint (ai_value info) - sint (scale_offset sc)) * sint (scale_multiplier sc)) sdiv 1024 - 32768))"
  define zone where "zone = sint (scale_deadzone sc)"
  have w: "sint w = v" by (simp only: w_def v_def scale_axis_exact)
  have v: "- 32768 \<le> v" "v \<le> 32767" by (simp_all add: v_def)
  have dz: "sint (apply_deadzone tr sc w) = (if tr then if v < zone then - 32768 else v
      else if v < zone \<and> - zone < v then 0 else v)" for tr
    by (simp only: apply_deadzone_exact w zone_def)
  have stick: "(ucast (apply_deadzone tr sc w) :: i16) = word_of_int (if tr then if v < zone then - 32768 else v
      else if v < zone \<and> - zone < v then 0 else v)" for tr
    by (simp only: ucast_sint dz)
  have trigger: "ucast (drop_bit 8 (ucast (apply_deadzone True sc w) :: u16)) =
      (if v < zone then 128 else word_of_int (v div 256) :: u8)"
    by (subst upper_byte) (simp only: dz, simp)
  have two: "off < 2 \<longleftrightarrow> off = 0 \<or> off = 1" by auto
  show ?thesis
    unfolding tick_axis_def Let_def prod.case
    unfolding off_def [symmetric] unfolding sc_def [symmetric] unfolding w_def [symmetric]
      v_def [symmetric] zone_def [symmetric]
    using trigger
    by (cases "off < 2"; cases "g \<and> off = axis_ix XBOX_WHAMMY")
      (auto simp: stick two simp del: triggers_put.simps sticks_put.simps)
qed

definition configured_pins :: "Configuration_t \<Rightarrow> nat list" where
  "configured_pins config =
     filter (\<lambda>i. inputType (cfg_main config) \<noteq> input_val DIRECT \<or>
                  pins_buttons (cfg_pins config) ! i \<noteq> INVALID_PIN) [0..<XBOX_BTN_COUNT]"

lemma add_pin_fits:
  "validPins s < length (pinData s) \<Longrightarrow> \<exists>s'. add_pin pin s = Some s' \<and>
     length (pinData s') = length (pinData s) \<and> validPins s' = validPins s + 1 \<and>
     take (validPins s') (pinData s') = take (validPins s) (pinData s) @ [pin]"
  by (simp add: add_pin_def take_Suc_conv_app_nth)

text \<open>The fields of a pin that do not depend on the board.\<close>

definition pin_key :: "Pin_t \<Rightarrow> nat \<times> u8 \<times> u8 \<times> u32" where
  "pin_key p = (unat (pin_offset p), pin_milliDeBounce p, pin_analogOffset p, pin_lastMillis p)"

definition expected_key :: "bool \<Rightarrow> Configuration_t \<Rightarrow> nat \<Rightarrow> nat \<times> u8 \<times> u8 \<times> u32" where
  "expected_key g config i =
     (i, if g \<and> i \<le> 1 then deb_strum (cfg_debounce config) else deb_buttons (cfg_debounce config),
      INVALID_PIN, 0)"

lemma pin_key_direct:
  "i < 16 \<Longrightarrow> pin_key (strum_debounce g config i (setUpDigital a config n (of_nat i) iv out)) =
     expected_key g config i"
  by (auto simp: pin_key_def expected_key_def strum_debounce_def setUpDigital_def Let_def unat_of_nat)

lemma initDirectPins_records:
  assumes "\<not> d" "validPins s + length is \<le> length (pinData s)" "\<forall>i\<in>set is. i < 16"
  shows "\<exists>s'. initDirectPins g d config is s = Some s' \<and> length (pinData s') = length (pinData s) \<and>
    joyData (an s') = joyData (an s) \<and> validAnalog (an s') = validAnalog (an s) \<and>
    currentAnalog (an s') = currentAnalog (an s) \<and> analogueData s' = analogueData s \<and>
    scales s' = scales s \<and>
    map pin_key (take (validPins s') (pinData s')) = map pin_key (take (validPins s) (pinData s)) @
      map (expected_key g config)
        (filter (\<lambda>i. inputType (cfg_main config) \<noteq> input_val DIRECT \<or>
                      pins_buttons (cfg_pins config) ! i \<noteq> INVALID_PIN) is) \<and>
    validPins s' = validPins s + length
        (filter (\<lambda>i. inputType (cfg_main config) \<noteq> input_val DIRECT \<or>
                      pins_buttons (cfg_pins config) ! i \<noteq> INVALID_PIN) is)"
  using assms(2,3)
proof (induction "is" arbitrary: s)
  case (Cons i "is")
  let ?wanted = "inputType (cfg_main config) \<noteq> input_val DIRECT \<or>
      pins_buttons (cfg_pins config) ! i \<noteq> INVALID_PIN"
  show ?case
  proof (cases ?wanted)
    case False
    then have "initDirectPin g d config i s = Some s" by (simp add: initDirectPin_def)
    with False Cons.IH [of s] Cons.prems show ?thesis by simp
  next
    case True
    obtain p f where step: "initDirectPin g d config i s = add_pin p (on_hw f s)"
      and key: "pin_key p = expected_key g config i"
    proof (cases "inputType (cfg_main config) = input_val DIRECT")
      case direct: True
      show ?thesis
        using direct True assms(1) Cons.prems
        by (intro that) (auto simp: initDirectPin_def Let_def intro: pin_key_direct)
    next
      case other: False
      show ?thesis
        using other Cons.prems
        by (intro that [where f = "\<lambda>h. h"]) (auto simp: initDirectPin_def intro: pin_key_direct)
    qed
    obtain s1 where s1: "add_pin p (on_hw f s) = Some s1" "length (pinData s1) = length (pinData s)"
      "validPins s1 = validPins s + 1"
      "take (validPins s1) (pinData s1) = take (validPins s) (pinData s) @ [p]"
      using add_pin_fits [of "on_hw f s" p] Cons.prems by auto
    have "joyData (an s1) = joyData (an s)" "validAnalog (an s1) = validAnalog (an s)"
      "currentAnalog (an s1) = currentAnalog (an s)" "analogueData s1 = analogueData s"
      "scales s1 = scales s"
      using s1(1) by (auto simp: add_pin_def split: if_splits)
    with s1 step key True Cons.IH [of s1] Cons.prems show ?thesis by auto
  qed
qed simp

lemma setUpValidPins_keeps:
  "setUpValidPins g config a = Some a' \<Longrightarrow> length (joyData a) = NUM_ANALOG_INPUTS \<Longrightarrow>
   length (joyData a') = NUM_ANALOG_INPUTS \<and> validAnalog a' \<le> NUM_ANALOG_INPUTS"
  using setUpValidPins_fills [of a g config] length_filter_le [of "analog_wanted g config" "[0..<6]"]
  by (auto simp: NUM_ANALOG_INPUTS_def)

definition direct_wf :: "direct_state \<Rightarrow> bool" where
  "direct_wf s \<longleftrightarrow> length (joyData (an s)) = NUM_ANALOG_INPUTS \<and> length (pinData s) = XBOX_BTN_COUNT \<and>
     length (analogueData s) = XBOX_AXIS_COUNT \<and> length (drumVelocity s) = 8 \<and>
     length (scales s) = XBOX_AXIS_COUNT"

lemma initDirectInput_fits:
  assumes "direct_wf s" "\<not> d"
  shows "\<exists>s'. initDirectInput g d config s = Some s' \<and> length (pinData s') = XBOX_BTN_COUNT \<and>
    validPins s' = length (configured_pins config) \<and>
    map pin_key (take (validPins s') (pinData s')) =
      map (expected_key g config) (configured_pins config) \<and>
    take (validAnalog (an s')) (joyData (an s')) =
      map (analog_info config) (filter (analog_wanted g config) [0..<6]) \<and>
    length (joyData (an s')) = 6 \<and> validAnalog (an s') = length (filter (analog_wanted g config) [0..<6]) \<and>
    currentAnalog (an s') = 0 \<and> length (analogueData s') = 6 \<and> length (scales s') = 6"
proof -
  obtain a' where a: "setUpValidPins g config (an s) = Some a'"
    "take (validAnalog a') (joyData a') = map (analog_info config) (filter (analog_wanted g config) [0..<6])"
    "length (joyData a') = 6" "validAnalog a' = length (filter (analog_wanted g config) [0..<6])"
    "currentAnalog a' = 0"
    using setUpValidPins_fills [of "an s" g config] assms(1) by (auto simp: direct_wf_def NUM_ANALOG_INPUTS_def)
  define s3 where "s3 = (let s2 = s\<lparr>
      usingI2C := tiltType (cfg_main config) = tilt_val MPU_6050 \<or> inputType (cfg_main config) = input_val WII,
      usingSPI := fretLEDMode (cfg_main config) = fret_val APA102 \<or> inputType (cfg_main config) = input_val PS2,
      spPin := cfg_pinsSP config, dir_tiltType := tiltType (cfg_main config),
      scales := axis_scales (cfg_axisScale config), validPins := 0, an := a'\<rparr>
    in if cfg_pinsSP config \<noteq> INVALID_PIN then on_hw (pinMode (cfg_pinsSP config) OUTPUT) s2 else s2)"
  have s3: "validPins s3 = 0" "length (pinData s3) = 16" "joyData (an s3) = joyData a'"
    "validAnalog (an s3) = validAnalog a'" "currentAnalog (an s3) = 0" "length (analogueData s3) = 6"
    "length (scales s3) = 6"
    using assms(1) by (simp_all add: s3_def Let_def direct_wf_def XBOX_BTN_COUNT_def XBOX_AXIS_COUNT_def
        axis_scales_def a(5))
  have "initDirectInput g d config s = initDirectPins g d config [0..<XBOX_BTN_COUNT] s3"
    using a(1) by (simp add: initDirectInput_def s3_def Let_def del: initDirectPins.simps)
  with initDirectPins_records [OF assms(2), of s3 "[0..<XBOX_BTN_COUNT]" g config] s3 a
  show ?thesis by (auto simp: XBOX_BTN_COUNT_def configured_pins_def simp del: upt.simps)
qed

section \<open>Properties\<close>

text \<open>
  C19: on anything but a drum kit the set-up of the pins stays inside its arrays and records
  exactly the configured buttons, in order, each with its debounce time (the strum's for the
  strum of a guitar).
\<close>

theorem initDirectInput_records:
  assumes "direct_wf s" "\<not> d"
  shows "\<exists>s'. initDirectInput g d config s = Some s' \<and> length (pinData s') = XBOX_BTN_COUNT \<and>
    map pin_key (take (validPins s') (pinData s')) =
      map (expected_key g config) (configured_pins config) \<and>
    take (validAnalog (an s')) (joyData (an s')) =
      map (analog_info config) (filter (analog_wanted g config) [0..<6])"
  using initDirectInput_fits [OF assms, of g config] by auto

definition blank_pin :: Pin_t where
  "blank_pin = \<lparr>pin_mask = 0, pin_port = InReg 0, pin_eq = False, pin_pin = 0, pin_offset = 0,
                pin_lastMillis = 0, pin_milliDeBounce = 0, pin_analogOffset = 0\<rparr>"

definition blank_direct :: direct_state where
  "blank_direct = \<lparr>an = blank_analog, pinData = replicate 16 blank_pin, validPins = 0,
     detectedPin = 0xff, lookingForDigital = False, lookingForAnalog = False,
     lastAnalogValue = replicate 6 0, lastDigitalValue = replicate 20 False,
     analogueData = replicate 6 0, usingI2C = False, usingSPI = False, spPin = 0, dir_tiltType = 0,
     drumVelocity = replicate 8 0, scales = replicate 6 DEFAULT_AXIS_SCALE,
     built_RF_TX = False\<rparr>"

lemma blank_direct_wf: "direct_wf blank_direct"
  by (simp add: direct_wf_def blank_direct_def blank_analog_def NUM_ANALOG_INPUTS_def
      XBOX_BTN_COUNT_def XBOX_AXIS_COUNT_def)

theorem initDirectInput_witness:
  "\<exists>s'. initDirectInput True False (DEFAULT_CONFIG\<lparr>cfg_pins := PINS\<lparr>pin_down := 5, pin_a := 6\<rparr>\<rparr>)
      blank_direct = Some s' \<and> length (pinData s') = XBOX_BTN_COUNT \<and>
    map pin_key (take (validPins s') (pinData s')) = [(1, 20, 0xFF, 0), (12, 5, 0xFF, 0)]"
  using initDirectInput_records [OF blank_direct_wf, of False True
      "DEFAULT_CONFIG\<lparr>cfg_pins := PINS\<lparr>pin_down := 5, pin_a := 6\<rparr>\<rparr>"]
  by (auto simp: configured_pins_def XBOX_BTN_COUNT_def pins_buttons_def PINS_def INVALID_PIN_def
      DEFAULT_CONFIG_def DEFAULT_CONFIG_MAIN_def expected_key_def DEFAULT_DEBOUNCE_def upt_rec)

text \<open>
  C20: one axis of a poll. The scaled value is the exact 16-bit clamping of
  (value - offset) * multiplier / 1024 - 32768, although the code computes it in 32 bits; it is
  -32768 below the dead zone for the two triggers and a guitar's whammy bar, 0 within the dead zone
  for the other axes. A stick stores that value, without a further wrap-around; a trigger stores
  the upper byte of its two's complement, so that at rest it reads 128 and not 0. An offset
  outside the tables fails.
\<close>

theorem axis_scaling:
  "tick_axis g info (c, s) =
    (let off = unat (ai_offset info); sc = scales s ! off;
         exact = (sint (ai_value info) - sint (scale_offset sc)) * sint (scale_multiplier sc);
         v = max (- 32768) (min 32767 (exact sdiv 1024 - 32768));
         zone = sint (scale_deadzone sc);
         rest = (if v < zone then - 32768 else v);
         centred = (if v < zone \<and> - zone < v then 0 else v)
     in if off < length (analogueData s) \<and> off < length (scales s)
        then Some
          (if off = 0 \<or> off = 1
             then triggers_put off (if v < zone then 128 else word_of_int (v div 256)) c
           else if g \<and> off = axis_ix XBOX_WHAMMY then sticks_put (off - 2) (word_of_int rest) c
           else sticks_put (off - 2) (word_of_int centred) c,
           s\<lparr>analogueData := (analogueData s)[off := ai_value info]\<rparr>)
        else None) \<and>
   sint (scale_axis sc' x) = max (- 32768) (min 32767
     (((sint x - sint (scale_offset sc')) * sint (scale_multiplier sc')) sdiv 1024 - 32768)) \<and>
   sint (ucast (scale_axis sc' x) :: i16) = sint (scale_axis sc' x)"
proof (intro conjI)
  show "sint (scale_axis sc' x) = max (- 32768) (min 32767
     (((sint x - sint (scale_offset sc')) * sint (scale_multiplier sc')) sdiv 1024 - 32768))"
    by (rule scale_axis_exact)
  show "sint (ucast (scale_axis sc' x) :: i16) = sint (scale_axis sc' x)"
    unfolding ucast_sint
    by (intro sint_of_int_16) (simp_all add: scale_axis_exact)
qed (simp only: tick_axis_exact)

text \<open>
  An analogue drum pad is recorded under its pin number, not its button: a pad on A2 or
  above makes the poll write past the eight velocities, one on A0 or A1 writes the velocity of
  another button.
\<close>

lemma drum_pad_slot:
  assumes "setUpAnalogDigitalPin button pin thr a = Some (button', a')"
    and "PIN_A0 \<le> pin" "length (drumVelocity s) = 8"
  shows "tick_pad (joyData a' ! validAnalog a) (c, s) =
    (if pin = PIN_A0 then Some (c, s\<lparr>drumVelocity := (drumVelocity s)[btn XBOX_X - 8 := 0]\<rparr>)
     else if pin = PIN_A0 + 1 then Some (c, s\<lparr>drumVelocity := (drumVelocity s)[btn XBOX_Y - 8 := 0]\<rparr>)
     else None)"
proof -
  have info: "ai_offset (joyData a' ! validAnalog a) = pin" "ai_value (joyData a' ! validAnalog a) = 0"
    using assms(1) by (auto simp: setUpAnalogDigitalPin_def joy_push_def zero_info_def split: if_splits)
  have "14 \<le> uint pin" using assms(2) by (simp add: PIN_A0_def word_le_def)
  moreover have "pin = 14 \<longleftrightarrow> uint pin = 14" "pin = 15 \<longleftrightarrow> uint pin = 15"
    by (simp_all add: word_uint_eq_iff)
  ultimately show ?thesis
    using info assms(3) by (auto simp: tick_pad_def PIN_A0_def Let_def)
qed

lemma drum_pad_slot_witness:
  "\<forall>c. tick_pad (joyData (snd (the (setUpAnalogDigitalPin blank_pin 16 512 blank_analog))) ! 0)
      (c, blank_direct) = None"
proof
  fix c
  obtain b a' where *: "setUpAnalogDigitalPin blank_pin 16 512 blank_analog = Some (b, a')"
    by (auto simp: setUpAnalogDigitalPin_def joy_push_def blank_analog_def)
  have "length (drumVelocity blank_direct) = 8" by (simp add: blank_direct_def)
  from drum_pad_slot [OF * _ this, of c] *
  show "tick_pad (joyData (snd (the (setUpAnalogDigitalPin blank_pin 16 512 blank_analog))) ! 0)
      (c, blank_direct) = None"
    by (simp add: PIN_A0_def blank_analog_def)
qed

end
