(* ===== verification/Spi.thy ===== *)
theory Spi
  imports Pins
begin

text \<open>
  The SPI master of the AVR build (\<open>src/src/avr/lib/spi/spi.c\<close>) at 16 MHz: the clock divider,
  the set-up of the pins, and the two lines driven by hand between transfers. A transfer itself
  is the hardware's; its users take it as a parameter.
\<close>

definition F_CPU :: u32 where "F_CPU = 16000000"

definition SPE :: nat where "SPE = 6"
definition DORD :: nat where "DORD = 5"
definition MSTR :: nat where "MSTR = 4"
definition CPOL :: nat where "CPOL = 3"
definition CPHA :: nat where "CPHA = 2"

record spi_regs =
  SPCR :: u8
  SPSR :: u8

definition clock_div :: "u32 \<Rightarrow> u8" where
  "clock_div clock =
     (if F_CPU div 2 \<le> clock then 0 else if F_CPU div 4 \<le> clock then 1
      else if F_CPU div 8 \<le> clock then 2 else if F_CPU div 16 \<le> clock then 3
      else if F_CPU div 32 \<le> clock then 4 else if F_CPU div 64 \<le> clock then 5 else 7)"

text \<open>\<open>SPSR = clockDiv & 1\<close> writes the only writable bit of the register.\<close>

definition calculateClock :: "u32 \<Rightarrow> u8 \<Rightarrow> spi_regs" where
  "calculateClock clock config =
     (let clockDiv = clock_div clock XOR 0x1
      in \<lparr>SPCR = bv SPE OR bv MSTR OR config OR (drop_bit 1 clockDiv AND 0x03),
          SPSR = clockDiv AND 0x01\<rparr>)"

text \<open>The local \<open>config\<close> is not initialised: \<open>junk\<close> is what it holds.\<close>

definition spi_config :: "u8 \<Rightarrow> bool \<Rightarrow> bool \<Rightarrow> bool \<Rightarrow> u8" where
  "spi_config junk cpol cpha lsbfirst =
     (let c1 = (if cpol then junk OR bv CPOL else junk);
          c2 = (if cpha then c1 OR bv CPHA else c1)
      in if lsbfirst then c2 OR bv DORD else c2)"

definition spi_begin ::
  "u8 \<Rightarrow> u32 \<Rightarrow> bool \<Rightarrow> bool \<Rightarrow> bool \<Rightarrow> avr \<Rightarrow> avr \<times> spi_regs" where
  "spi_begin junk clock cpol cpha lsbfirst a =
     (pinMode PIN_SPI_SS OUTPUT (digitalWrite PIN_SPI_SS 1 (pinMode PIN_SPI_SCK OUTPUT
        (pinMode PIN_SPI_MISO INPUT_PULLUP (pinMode PIN_SPI_MOSI OUTPUT a)))),
      calculateClock clock (spi_config junk cpol cpha lsbfirst))"

definition spi_high :: "avr \<Rightarrow> avr" where
  "spi_high a = digitalWrite PIN_SPI_MOSI 1 (digitalWrite PIN_SPI_SCK 1 a)"

definition spi_low :: "avr \<Rightarrow> avr" where
  "spi_low a = digitalWrite PIN_SPI_MOSI 0 (digitalWrite PIN_SPI_SCK 0 a)"

section \<open>The clock of the bus\<close>

text \<open>
  The divider that the chip applies for the two SPR bits and SPI2X, as its data sheet gives it.
\<close>

definition hw_divider :: "spi_regs \<Rightarrow> nat" where
  "hw_divider r =
     (let fast = truthy (SPSR r AND 1); spr = unat (SPCR r AND 3)
      in if fast then [2, 8, 32, 64] ! spr else [4, 16, 64, 128] ! spr)"

lemma F_CPU_div:
  "F_CPU div 2 = 8000000" "F_CPU div 4 = 4000000" "F_CPU div 8 = 2000000"
  "F_CPU div 16 = 1000000" "F_CPU div 32 = 500000" "F_CPU div 64 = 250000"
  by (simp_all add: F_CPU_def)

lemma hw_divider_calculate:
  assumes "config AND 3 = 0"
  shows "hw_divider (calculateClock clock config) =
    (let n = unat clock in if 8000000 \<le> n then 2 else if 4000000 \<le> n then 4 else if 2000000 \<le> n then 8
     else if 1000000 \<le> n then 16 else if 500000 \<le> n then 32 else if 250000 \<le> n then 64 else 128)"
proof -
  have "hw_divider (calculateClock clock config) =
      (let clockDiv = clock_div clock XOR 0x1
       in if truthy (clockDiv AND 1) then [2, 8, 32, 64] ! unat (drop_bit 1 clockDiv AND 3)
          else [4, 16, 64, 128] ! unat (drop_bit 1 clockDiv AND 3))"
    using assms by (simp add: hw_divider_def calculateClock_def Let_def bv_def SPE_def MSTR_def
        bit.conj_disj_distrib2 and.assoc)
  then show ?thesis
    by (simp add: clock_div_def F_CPU_div word_le_nat_alt Let_def)
qed

lemma spi_config_low: "junk AND 3 = 0 \<Longrightarrow> spi_config junk cpol cpha lsbfirst AND 3 = 0"
  by (simp add: spi_config_def bv_def CPOL_def CPHA_def DORD_def Let_def bit.conj_disj_distrib2)

section \<open>Properties\<close>

text \<open>
  The SPI clock is the fastest of the chip's that does not exceed the one asked for, or the
  slowest it has, as long as the uninitialised local that the settings are merged into happens
  to leave the divider bits clear.
\<close>

theorem spi_clock_fastest:
  assumes "junk AND 3 = 0"
  shows "let d = hw_divider (snd (spi_begin junk clock cpol cpha lsbfirst a))
         in d \<in> {2, 4, 8, 16, 32, 64, 128} \<and> (16000000 div d \<le> unat clock \<or> d = 128) \<and>
            (\<forall>d'\<in>{2, 4, 8, 16, 32, 64, 128}. 16000000 div d' \<le> unat clock \<longrightarrow> d \<le> d')"
  using hw_divider_calculate [OF spi_config_low [OF assms], of clock cpol cpha lsbfirst]
  by (auto simp: spi_begin_def Let_def)

theorem spi_clock_fastest_witness:
  "hw_divider (snd (spi_begin 0 100000 True True True blank_avr)) = 128 \<and>
   hw_divider (snd (spi_begin 0 8000000 True True False blank_avr)) = 2 \<and>
   hw_divider (snd (spi_begin 0 8000000 True True False blank_avr)) \<noteq>
   hw_divider (snd (spi_begin 3 8000000 True True False blank_avr))"
  using spi_clock_fastest [of 0 100000 True True True blank_avr]
    spi_clock_fastest [of 0 8000000 True True False blank_avr]
  by (simp add: Let_def spi_begin_def hw_divider_def calculateClock_def spi_config_def clock_div_def
      F_CPU_div bv_def SPE_def MSTR_def CPOL_def CPHA_def DORD_def)

end
