(* ===== verification/Timer.thy ===== *)
theory Timer
  imports Spi
begin

text \<open>
  The clock of the AVR build (\<open>src/src/avr/lib/timer/timer.c\<close>) at 16 MHz: the overflow interrupt
  of timer 0, the milliseconds and microseconds computed from its count, and the set-up of the
  timer. Arithmetic on \<open>unsigned long\<close> has 32 bits.
\<close>

record timer0 =
  tm_avr :: avr
  timer0_overflow_count :: u32
  TCNT0 :: u8
  TIFR0 :: u8
  TCCR0B :: u8
  TIMSK0 :: u8

abbreviation (input) TOV0 :: nat where "TOV0 \<equiv> 0"
abbreviation (input) CS01 :: nat where "CS01 \<equiv> 1"
abbreviation (input) CS00 :: nat where "CS00 \<equiv> 0"
abbreviation (input) TOIE0 :: nat where "TOIE0 \<equiv> 0"

definition clockCyclesPerMicrosecond :: u32 where
  "clockCyclesPerMicrosecond = F_CPU div 1000000"

definition clockCyclesToMicroseconds :: "u32 \<Rightarrow> u32" where
  "clockCyclesToMicroseconds a = a div clockCyclesPerMicrosecond"

definition MICROSECONDS_PER_TIMER0_OVERFLOW :: u32 where
  "MICROSECONDS_PER_TIMER0_OVERFLOW = clockCyclesToMicroseconds (64 * 256)"

definition TIMER0_OVF_vect :: "timer0 \<Rightarrow> timer0" where
  "TIMER0_OVF_vect s = s\<lparr>timer0_overflow_count := timer0_overflow_count s + 1\<rparr>"

text \<open>The status register is saved, interrupts are disabled for the reading, and it is restored.\<close>

definition millis :: "timer0 \<Rightarrow> u32 \<times> timer0" where
  "millis s =
     (let oldSREG = SREG (tm_avr s); s1 = s\<lparr>tm_avr := cli (tm_avr s)\<rparr>;
          m = timer0_overflow_count s1;
          s2 = s1\<lparr>tm_avr := (tm_avr s1)\<lparr>SREG := oldSREG\<rparr>\<rparr>
      in ((m * (MICROSECONDS_PER_TIMER0_OVERFLOW div 8)) div (1000 div 8), s2))"

definition micros :: "timer0 \<Rightarrow> u32 \<times> timer0" where
  "micros s =
     (let oldSREG = SREG (tm_avr s); s1 = s\<lparr>tm_avr := cli (tm_avr s)\<rparr>;
          m = timer0_overflow_count s1; t = TCNT0 s1;
          m' = (if truthy (TIFR0 s1 AND bv TOV0) \<and> t < 255 then m + 1 else m);
          s2 = s1\<lparr>tm_avr := (tm_avr s1)\<lparr>SREG := oldSREG\<rparr>\<rparr>
      in ((push_bit 8 m' + ucast t) * (64 div clockCyclesPerMicrosecond), s2))"

definition setupMicrosTimer :: "timer0 \<Rightarrow> timer0" where
  "setupMicrosTimer s =
     s\<lparr>TCCR0B := bit_set_m (bit_set_m (TCCR0B s) CS01) CS00, TIMSK0 := bit_set_m (TIMSK0 s) TOIE0\<rparr>"

lemma cli_restored [simp]: "(cli a)\<lparr>SREG := SREG a\<rparr> = a"
  by (simp add: cli_def)

lemma overflow_us [simp]:
  "MICROSECONDS_PER_TIMER0_OVERFLOW = 1024"
  by code_simp

lemma cycles_per_tick: "64 div clockCyclesPerMicrosecond = 4"
  by code_simp

lemma overflows: "timer0_overflow_count ((TIMER0_OVF_vect ^^ n) s) = timer0_overflow_count s + of_nat n"
  by (induction n) (simp_all add: TIMER0_OVF_vect_def)

lemma of_nat_shift_wrap: "(of_nat n * 128 :: u32) = of_nat (n mod 2 ^ 25 * 128)"
proof -
  have "n * 128 mod 2 ^ 32 = n mod 2 ^ 25 * 128"
    using mult_mod_right [of 128 n "2 ^ 25"] by (simp add: mult.commute)
  then have "(of_nat (n * 128) :: u32) = of_nat (n mod 2 ^ 25 * 128)"
    by (simp only: word_of_nat_eq_iff) (simp add: take_bit_eq_mod)
  then show ?thesis by simp
qed

lemma of_nat_div_125: "a < 2 ^ 32 \<Longrightarrow> (of_nat a :: u32) div 125 = of_nat (a div 125)"
  by (simp add: word_unat_eq_iff unat_div unat_of_nat)

lemma overflows_frame:
  "tm_avr ((TIMER0_OVF_vect ^^ n) s) = tm_avr s" "TCNT0 ((TIMER0_OVF_vect ^^ n) s) = TCNT0 s"
  "TIFR0 ((TIMER0_OVF_vect ^^ n) s) = TIFR0 s"
  by (induction n) (simp_all add: TIMER0_OVF_vect_def)

lemma millis_count:
  assumes "timer0_overflow_count s = of_nat n"
  shows "millis s = (of_nat (n mod 2 ^ 25 * 1024 div 1000), s)"
proof -
  have less: "n mod 2 ^ 25 * 128 < (2 ^ 32 :: nat)"
    using mod_less_divisor [of "2 ^ 25" n] by simp
  have "fst (millis s) = (of_nat n * 128) div 125"
    by (simp add: millis_def Let_def assms)
  also have "\<dots> = of_nat (n mod 2 ^ 25 * 128) div 125"
    by (simp only: of_nat_shift_wrap)
  also have "\<dots> = of_nat (n mod 2 ^ 25 * 128 div 125)"
    using less by (rule of_nat_div_125)
  also have "n mod 2 ^ 25 * 128 div 125 = n mod 2 ^ 25 * 1024 div 1000"
    using div_mult_mult1 [of 8 "n mod 2 ^ 25 * 128" 125] by (simp add: mult.commute mult.left_commute)
  finally have "fst (millis s) = of_nat (n mod 2 ^ 25 * 1024 div 1000)" .
  moreover have "snd (millis s) = s"
    by (simp add: millis_def Let_def)
  ultimately show ?thesis
    by (simp only: prod_eq_iff fst_conv snd_conv)
qed

lemma micros_count:
  assumes "timer0_overflow_count s = of_nat n"
    and "pending = (bit (TIFR0 s) TOV0 \<and> TCNT0 s < 255)"
  shows "micros s = (of_nat (((n + of_bool pending) * 256 + unat (TCNT0 s)) * 4), s)"
proof -
  have tov: "truthy (TIFR0 s AND bv TOV0) = bit (TIFR0 s) TOV0"
    using bit_check_nonzero unfolding bit_check_m_def .
  have "fst (micros s) = (push_bit 8 (of_nat n + of_bool pending) + ucast (TCNT0 s)) * 4"
    using assms(2) by (simp add: micros_def Let_def tov [simplified] cycles_per_tick assms(1))
  also have "\<dots> = of_nat (((n + of_bool pending) * 256 + unat (TCNT0 s)) * 4)"
    by (cases pending) (simp_all add: push_bit_eq_mult)
  finally show ?thesis
    by (simp add: prod_eq_iff) (simp add: micros_def Let_def)
qed

text \<open>
  C34: n overflows (of 1.024 ms) after the start, millis returns 1.024 n rounded down only while n is
  below 2^25: the product wraps there, so that after 9 hours and 32 minutes the clock starts again
  from 0, long before the 32-bit result is used up. micros counts a pending overflow and steps by 4.
  Both leave the interrupt flag as they found it.
\<close>

theorem millis_micros_exact:
  "(\<exists>s'. millis ((TIMER0_OVF_vect ^^ n) (s\<lparr>timer0_overflow_count := 0\<rparr>)) =
     (of_nat (n mod 2 ^ 25 * 1024 div 1000), s') \<and> SREG (tm_avr s') = SREG (tm_avr s)) \<and>
   (let pending = of_bool (bit (TIFR0 s) TOV0 \<and> TCNT0 s < 255)
    in \<exists>s'. micros ((TIMER0_OVF_vect ^^ n) (s\<lparr>timer0_overflow_count := 0\<rparr>)) =
     (of_nat (((n + pending) * 256 + unat (TCNT0 s)) * 4), s') \<and> SREG (tm_avr s') = SREG (tm_avr s))"
proof -
  let ?s = "(TIMER0_OVF_vect ^^ n) (s\<lparr>timer0_overflow_count := 0\<rparr>)"
  have "timer0_overflow_count ?s = of_nat n"
    by (simp add: overflows)
  from millis_count [OF this] micros_count [OF this refl] show ?thesis
    by (simp only: overflows_frame Let_def) (auto simp: overflows_frame)
qed

end
