(* ===== verification/Ps2.thy ===== *)
theory Ps2
  imports Timer
begin

text \<open>
  The PlayStation controllers (\<open>src/src/shared/input/inputs/ps2_cnt.h\<close>): exchanges over SPI
  with the attention line, the retried commands, and the decoding of a poll's reply.

  The controller at the other end and the clock are the parameter \<open>ps2_bus\<close>: what a transferred
  byte returns, how it sees the attention line, the millisecond counter and the delay. Errors are an
  access past the 32-byte buffer and the end of the fuel of a retry loop.
\<close>

section \<open>Enumerations and tables\<close>

datatype PsxButton =
    PSB_SELECT | PSB_L3 | PSB_R3 | PSB_START | PSB_PAD_UP | PSB_PAD_RIGHT | PSB_PAD_DOWN
  | PSB_PAD_LEFT | PSB_L2 | PSB_R2 | PSB_L1 | PSB_R1 | PSB_TRIANGLE | PSB_CIRCLE | PSB_CROSS
  | PSB_SQUARE

fun psb :: "PsxButton \<Rightarrow> u8" where
  "psb PSB_SELECT = 0" | "psb PSB_L3 = 1" | "psb PSB_R3 = 2" | "psb PSB_START = 3"
| "psb PSB_PAD_UP = 4" | "psb PSB_PAD_RIGHT = 5" | "psb PSB_PAD_DOWN = 6" | "psb PSB_PAD_LEFT = 7"
| "psb PSB_L2 = 8" | "psb PSB_R2 = 9" | "psb PSB_L1 = 10" | "psb PSB_R1 = 11"
| "psb PSB_TRIANGLE = 12" | "psb PSB_CIRCLE = 13" | "psb PSB_CROSS = 14" | "psb PSB_SQUARE = 15"

datatype MouseButton = PMB_LEFT | PMB_RIGHT

fun pmb :: "MouseButton \<Rightarrow> u8" where "pmb PMB_LEFT = 9" | "pmb PMB_RIGHT = 10"

datatype GHButton = GH_STAR_POWER | GH_GREEN | GH_RED | GH_YELLOW | GH_BLUE | GH_ORANGE

fun gh :: "GHButton \<Rightarrow> u8" where
  "gh GH_STAR_POWER = psb PSB_L2" | "gh GH_GREEN = psb PSB_R2" | "gh GH_RED = psb PSB_CIRCLE"
| "gh GH_YELLOW = psb PSB_TRIANGLE" | "gh GH_BLUE = psb PSB_CROSS" | "gh GH_ORANGE = psb PSB_SQUARE"

datatype PsxAnalogButton =
    PSAB_PAD_RIGHT | PSAB_PAD_LEFT | PSAB_PAD_UP | PSAB_PAD_DOWN | PSAB_TRIANGLE | PSAB_CIRCLE
  | PSAB_CROSS | PSAB_SQUARE | PSAB_L1 | PSAB_R1 | PSAB_L2 | PSAB_R2

fun psab :: "PsxAnalogButton \<Rightarrow> nat" where
  "psab PSAB_PAD_RIGHT = 0" | "psab PSAB_PAD_LEFT = 1" | "psab PSAB_PAD_UP = 2"
| "psab PSAB_PAD_DOWN = 3" | "psab PSAB_TRIANGLE = 4" | "psab PSAB_CIRCLE = 5"
| "psab PSAB_CROSS = 6" | "psab PSAB_SQUARE = 7" | "psab PSAB_L1 = 8" | "psab PSAB_R1 = 9"
| "psab PSAB_L2 = 10" | "psab PSAB_R2 = 11"

definition PS_INVALID :: u8 where "PS_INVALID = 0xFF"

text \<open>The three binding tables, indexed by the button's offset.\<close>

definition dualShockButtonBindings :: "u8 list" where
  "dualShockButtonBindings =
     [psb PSB_PAD_UP, psb PSB_PAD_DOWN, psb PSB_PAD_LEFT, psb PSB_PAD_RIGHT, psb PSB_START,
      psb PSB_SELECT, psb PSB_L3, psb PSB_R3, psb PSB_L1, psb PSB_R1, PS_INVALID, PS_INVALID,
      psb PSB_CROSS, psb PSB_CIRCLE, psb PSB_SQUARE, psb PSB_TRIANGLE]"

definition mouseButtonBindings :: "u8 list" where
  "mouseButtonBindings =
     [PS_INVALID, PS_INVALID, PS_INVALID, PS_INVALID, PS_INVALID, PS_INVALID, PS_INVALID,
      PS_INVALID, PS_INVALID, PS_INVALID, PS_INVALID, PS_INVALID, pmb PMB_LEFT, pmb PMB_RIGHT,
      PS_INVALID, PS_INVALID]"

definition guitarHeroButtonBindings :: "u8 list" where
  "guitarHeroButtonBindings =
     [psb PSB_PAD_UP, psb PSB_PAD_DOWN, psb PSB_PAD_LEFT, psb PSB_PAD_RIGHT, psb PSB_START,
      psb PSB_SELECT, PS_INVALID, PS_INVALID, gh GH_ORANGE, PS_INVALID, PS_INVALID, PS_INVALID,
      gh GH_GREEN, gh GH_RED, gh GH_BLUE, gh GH_YELLOW]"

datatype ps2_command = EnterConfig | ExitConfig | ReadType | SetMode | SetPressures | PollInput

fun command_bytes :: "ps2_command \<Rightarrow> u8 list" where
  "command_bytes EnterConfig = [0x01, 0x43, 0x00, 0x01]"
| "command_bytes ExitConfig = [0x01, 0x43, 0x00, 0x00]"
| "command_bytes ReadType = [0x01, 0x45, 0x00]"
| "command_bytes SetMode = [0x01, 0x44, 0x00, 0x01, 0x00]"
| "command_bytes SetPressures = [0x01, 0x4F, 0x00, 0xFF, 0xFF, 0x03, 0x00, 0x00, 0x00]"
| "command_bytes PollInput = [0x01, 0x42, 0x00]"

definition COMMAND_TIMEOUT :: u32 where "COMMAND_TIMEOUT = 250"
definition COMMAND_RETRY_INTERVAL :: nat where "COMMAND_RETRY_INTERVAL = 10"
definition NEGCON_I_II_BUTTON_THRESHOLD :: u8 where "NEGCON_I_II_BUTTON_THRESHOLD = 128"
definition NEGCON_L_BUTTON_THRESHOLD :: u8 where "NEGCON_L_BUTTON_THRESHOLD = 240"
definition PS2_BUFFER_SIZE :: nat where "PS2_BUFFER_SIZE = 32"

section \<open>Replies\<close>

definition isValidReply :: "u8 list \<Rightarrow> bool" where
  "isValidReply status \<longleftrightarrow> status ! 1 \<noteq> 0xFF \<and> (status ! 2 = 0x5A \<or> status ! 2 = 0x00)"
definition isFlightStickReply :: "u8 list \<Rightarrow> bool" where
  "isFlightStickReply status \<longleftrightarrow> status ! 1 AND 0xF0 = 0x50"
definition isNegconReply :: "u8 list \<Rightarrow> bool" where
  "isNegconReply status \<longleftrightarrow> status ! 1 = 0x23"
definition isJogconReply :: "u8 list \<Rightarrow> bool" where
  "isJogconReply status \<longleftrightarrow> status ! 1 AND 0xF0 = 0xE0"
definition isGunconReply :: "u8 list \<Rightarrow> bool" where
  "isGunconReply status \<longleftrightarrow> status ! 1 = 0x63"
definition isMouseReply :: "u8 list \<Rightarrow> bool" where
  "isMouseReply status \<longleftrightarrow> status ! 1 = 0x12"
definition isDualShockReply :: "u8 list \<Rightarrow> bool" where
  "isDualShockReply status \<longleftrightarrow> status ! 1 AND 0xF0 = 0x70"
definition isDualShock2Reply :: "u8 list \<Rightarrow> bool" where
  "isDualShock2Reply status \<longleftrightarrow> status ! 1 = 0x79"
definition isDigitalReply :: "u8 list \<Rightarrow> bool" where
  "isDigitalReply status \<longleftrightarrow> status ! 1 AND 0xF0 = 0x40"
definition isConfigReply :: "u8 list \<Rightarrow> bool" where
  "isConfigReply status \<longleftrightarrow> status ! 1 AND 0xF0 = 0xF0"

section \<open>Exchanges\<close>

record 'd ps2_bus =
  bus_transfer :: "u8 \<Rightarrow> 'd \<Rightarrow> u8 \<times> 'd"
  bus_attention :: "bool \<Rightarrow> 'd \<Rightarrow> 'd"
  bus_millis :: "'d \<Rightarrow> u32"
  bus_delay_ms :: "nat \<Rightarrow> 'd \<Rightarrow> 'd"

datatype ps2_error = OutOfBounds | OutOfFuel

record ps2_state =
  ps2_hw :: avr
  attention :: Pin_t
  inputBuffer :: "u8 list"
  buttonWord :: u16
  ps2CtrlType :: u8

definition noAttention :: "'d ps2_bus \<Rightarrow> ps2_state \<Rightarrow> 'd \<Rightarrow> ps2_state \<times> 'd" where
  "noAttention bus s dev =
     (s\<lparr>ps2_hw := digitalWritePin (attention s) True (spi_high (ps2_hw s))\<rparr>,
      bus_attention bus True dev)"

definition signalAttention :: "'d ps2_bus \<Rightarrow> ps2_state \<Rightarrow> 'd \<Rightarrow> ps2_state \<times> 'd" where
  "signalAttention bus s dev =
     (s\<lparr>ps2_hw := spi_low (digitalWritePin (attention s) False (ps2_hw s))\<rparr>,
      bus_attention bus False dev)"

text \<open>
  The bytes to send are given as a list (\<open>0x5A\<close> repeated where the code passes NULL); the answers go to
  the buffer from an offset on.
\<close>

fun shiftDataInOut ::
  "'d ps2_bus \<Rightarrow> u8 list \<Rightarrow> nat \<Rightarrow> u8 list \<Rightarrow> 'd \<Rightarrow> ps2_error + (u8 list \<times> 'd)" where
  "shiftDataInOut bus [] off buf dev = Inr (buf, dev)"
| "shiftDataInOut bus (b # bs) off buf dev =
     (case bus_transfer bus b dev of (resp, dev1) \<Rightarrow>
        if off < length buf then shiftDataInOut bus bs (off + 1) (buf[off := resp]) dev1
        else Inl OutOfBounds)"

text \<open>The bytes still missing after the command: 8-bit arithmetic, which wraps for a short reply.\<close>

definition reply_left :: "u8 list \<Rightarrow> u8 \<Rightarrow> u8" where
  "reply_left buf len = (buf ! 1 AND 0x0F) * 2 - len + 3"

definition gather_reply ::
  "'d ps2_bus \<Rightarrow> u8 list \<Rightarrow> u8 list \<Rightarrow> 'd \<Rightarrow> ps2_error + (bool \<times> u8 list \<times> 'd)" where
  "gather_reply bus out buf dev =
     and_then (if 3 < length out then shiftDataInOut bus (drop 3 out) 3 buf dev else Inr (buf, dev))
       (\<lambda>(buf1, dev1).
          let left = reply_left buf (of_nat (length out))
          in if left = 0 then Inr (True, buf1, dev1)
             else if length out + unat left \<le> PS2_BUFFER_SIZE
             then and_then (shiftDataInOut bus (replicate (unat left) 0x5A) (length out) buf1 dev1)
                    (\<lambda>(buf2, dev2). Inr (True, buf2, dev2))
             else Inr (False, buf1, dev1))"

definition exchange ::
  "'d ps2_bus \<Rightarrow> u8 list \<Rightarrow> u8 list \<Rightarrow> 'd \<Rightarrow> ps2_error + (bool \<times> u8 list \<times> 'd)" where
  "exchange bus out buf dev =
     (if 3 \<le> length out \<and> length out \<le> PS2_BUFFER_SIZE
      then and_then (shiftDataInOut bus (take 3 out) 0 buf dev)
             (\<lambda>(buf1, dev1). if isValidReply buf1 then gather_reply bus out buf1 dev1
                             else Inr (False, buf1, dev1))
      else Inr (False, buf, dev))"

text \<open>The boolean says whether the code returns its buffer or NULL.\<close>

definition autoShiftData ::
  "'d ps2_bus \<Rightarrow> u8 list \<Rightarrow> ps2_state \<Rightarrow> 'd \<Rightarrow> ps2_error + (bool \<times> ps2_state \<times> 'd)" where
  "autoShiftData bus out s dev =
     (case signalAttention bus s dev of (s1, dev1) \<Rightarrow>
        and_then (exchange bus out (inputBuffer s1) dev1)
          (\<lambda>(ok, buf, dev2). case noAttention bus (s1\<lparr>inputBuffer := buf\<rparr>) dev2 of
             (s2, dev3) \<Rightarrow> Inr (ok, s2, dev3)))"

fun sendCommand_loop ::
  "nat \<Rightarrow> 'd ps2_bus \<Rightarrow> ps2_command \<Rightarrow> u32 \<Rightarrow> u8 \<Rightarrow> bool \<Rightarrow> ps2_state \<Rightarrow> 'd \<Rightarrow>
   ps2_error + (bool \<times> ps2_state \<times> 'd)" where
  "sendCommand_loop 0 bus cmd start cnt ret s dev = Inl OutOfFuel"
| "sendCommand_loop (Suc fuel) bus cmd start cnt ret s dev =
     and_then (autoShiftData bus (command_bytes cmd) s dev) (\<lambda>(ok, s1, dev1).
       let cnt1 = (if ok then cnt + 1 else cnt);
           ret1 = (if ok then (if cmd = EnterConfig then isConfigReply (inputBuffer s1)
                               else if cmd = ExitConfig then \<not> isConfigReply (inputBuffer s1)
                               else 3 \<le> cnt1)
                   else ret);
           dev2 = (if ret1 then dev1 else bus_delay_ms bus COMMAND_RETRY_INTERVAL dev1)
       in if \<not> ret1 \<and> bus_millis bus dev2 - start \<le> COMMAND_TIMEOUT
          then sendCommand_loop fuel bus cmd start cnt1 ret1 s1 dev2
          else Inr (ret1, s1, dev2))"

definition sendCommand ::
  "nat \<Rightarrow> 'd ps2_bus \<Rightarrow> ps2_command \<Rightarrow> ps2_state \<Rightarrow> 'd \<Rightarrow> ps2_error + (bool \<times> ps2_state \<times> 'd)" where
  "sendCommand fuel bus cmd s dev =
     sendCommand_loop fuel bus cmd (bus_millis bus dev) 0 False s dev"

section \<open>Decoding a reply\<close>

text \<open>Each case of \<open>read\<close> in turn, on the controller and the controller type.\<close>

definition decode_flightstick :: "u8 list \<Rightarrow> Controller_t \<times> u8 \<Rightarrow> Controller_t \<times> u8" where
  "decode_flightstick inp = (\<lambda>(c, t). (c, if isFlightStickReply inp then psx_val PSX_ANALOG else t))"

definition decode_negcon :: "u8 list \<Rightarrow> Controller_t \<times> u8 \<Rightarrow> Controller_t \<times> u8" where
  "decode_negcon inp = (\<lambda>(c, t).
     if isNegconReply inp
     then (let b1 = bit_write_m (NEGCON_I_II_BUTTON_THRESHOLD < inp ! 6) (buttons c) (btn XBOX_X);
               b2 = bit_write_m (NEGCON_I_II_BUTTON_THRESHOLD < inp ! 7) b1 (btn XBOX_Y);
               b3 = bit_write_m (NEGCON_L_BUTTON_THRESHOLD < inp ! 8) b2 (btn XBOX_LB)
           in (c\<lparr>l_x := push_bit 8 (ucast (inp ! 5) - 128), buttons := b3\<rparr>, psx_val PSX_NEGCON))
     else (c, t))"

definition decode_jogcon :: "u8 list \<Rightarrow> Controller_t \<times> u8 \<Rightarrow> Controller_t \<times> u8" where
  "decode_jogcon inp = (\<lambda>(c, t).
     if isJogconReply inp
     then (let x = (if inp ! 6 < 0x80
                    then (if inp ! 5 < 0x80 then ucast (inp ! 5) else 0x80 - 1)
                    else (if 0x80 < inp ! 5 then ucast (inp ! 5) else 0x80 + 1)) :: i16
           in (c\<lparr>l_x := x + 0x80\<rparr>, psx_val PSX_JOGCON))
     else (c, t))"

definition decode_mouse :: "u8 list \<Rightarrow> Controller_t \<times> u8 \<Rightarrow> Controller_t \<times> u8" where
  "decode_mouse inp = (\<lambda>(c, t).
     if isMouseReply inp
     then (c\<lparr>l_x := push_bit 8 (ucast (inp ! 5) - 128), l_y := push_bit 8 (- (ucast (inp ! 6) - 127))\<rparr>,
           psx_val PSX_MOUSE)
     else (c, t))"

definition decode_dualshock ::
  "bool \<Rightarrow> u16 \<Rightarrow> u8 list \<Rightarrow> Controller_t \<times> u8 \<Rightarrow> Controller_t \<times> u8" where
  "decode_dualshock typeIsGuitar bword inp = (\<lambda>(c, t).
     if isDualShockReply inp \<or> isFlightStickReply inp
     then (let c1 = c\<lparr>r_x := push_bit 8 (ucast (inp ! 5) - 128),
                      r_y := push_bit 8 (- (ucast (inp ! 6) - 127)),
                      l_x := push_bit 8 (ucast (inp ! 7) - 128),
                      l_y := push_bit 8 (- (ucast (inp ! 8) - 127))\<rparr>;
               (c2, t2) = (if typeIsGuitar
                 then (c1\<lparr>l_x := 0, l_y := 0, r_x := push_bit 8 (ucast (inp ! 8) - 128),
                          r_y := (if truthy (bit_check_m bword (unat (gh GH_STAR_POWER))) then 32767 else 0)\<rparr>,
                       psx_val PSX_GUITAR_HERO_CONTROLLER)
                 else (c1, t))
           in if isDualShock2Reply inp
              then (c2\<lparr>lt := inp ! (psab PSAB_L2 + 9), rt := inp ! (psab PSAB_R2 + 9)\<rparr>,
                    psx_val PSX_DUALSHOCK_2_CONTROLLER)
              else if \<not> isFlightStickReply inp then (c2, psx_val PSX_DUALSHOCK_1_CONTROLLER)
              else (c2, t2))
     else (c, t))"

definition reply_buttons :: "u8 list \<Rightarrow> u16" where
  "reply_buttons inp = NOT (push_bit 8 (ucast (inp ! 4)) OR ucast (inp ! 3))"

definition decode_reply ::
  "bool \<Rightarrow> u8 list \<Rightarrow> Controller_t \<times> u8 \<Rightarrow> Controller_t \<times> u8" where
  "decode_reply typeIsGuitar inp ct =
     decode_dualshock typeIsGuitar (reply_buttons inp) inp
       (decode_mouse inp (decode_jogcon inp (decode_negcon inp (decode_flightstick inp ct))))"

definition read_ps2 ::
  "nat \<Rightarrow> 'd ps2_bus \<Rightarrow> bool \<Rightarrow> Controller_t \<times> ps2_state \<Rightarrow> 'd \<Rightarrow>
   ps2_error + (bool \<times> (Controller_t \<times> ps2_state) \<times> 'd)" where
  "read_ps2 fuel bus typeIsGuitar cs dev =
     (case cs of (c, s) \<Rightarrow>
        and_then (autoShiftData bus (command_bytes PollInput) s dev) (\<lambda>(ok, s1, dev1).
          if \<not> ok then Inr (False, (c, s1), dev1)
          else if isConfigReply (inputBuffer s1)
          then and_then (sendCommand fuel bus ExitConfig s1 dev1)
                 (\<lambda>(_, s2, dev2). Inr (True, (c, s2), dev2))
          else (case decode_reply typeIsGuitar (inputBuffer s1) (c, ps2CtrlType s1) of (c', t') \<Rightarrow>
                 Inr (True, (c', s1\<lparr>buttonWord := reply_buttons (inputBuffer s1), ps2CtrlType := t'\<rparr>),
                      dev1))))"

text \<open>The disposable reads, each followed by a delay of 1 ms, then the one that counts.\<close>

fun begin_reads ::
  "nat \<Rightarrow> nat \<Rightarrow> 'd ps2_bus \<Rightarrow> bool \<Rightarrow> Controller_t \<times> ps2_state \<Rightarrow> 'd \<Rightarrow>
   ps2_error + (bool \<times> (Controller_t \<times> ps2_state) \<times> 'd)" where
  "begin_reads 0 fuel bus g cs dev = read_ps2 fuel bus g cs dev"
| "begin_reads (Suc n) fuel bus g cs dev =
     and_then (read_ps2 fuel bus g cs dev)
       (\<lambda>(_, cs1, dev1). begin_reads n fuel bus g cs1 (bus_delay_ms bus 1 dev1))"

definition begin_ps2 ::
  "nat \<Rightarrow> 'd ps2_bus \<Rightarrow> bool \<Rightarrow> Controller_t \<times> ps2_state \<Rightarrow> 'd \<Rightarrow>
   ps2_error + (bool \<times> (Controller_t \<times> ps2_state) \<times> 'd)" where
  "begin_ps2 = begin_reads 5"

definition initPS2CtrlInput ::
  "'d ps2_bus \<Rightarrow> u8 \<Rightarrow> Configuration_t \<Rightarrow> ps2_state \<Rightarrow> 'd \<Rightarrow> ps2_state \<times> spi_regs \<times> 'd" where
  "initPS2CtrlInput bus junk config s dev =
     (case spi_begin junk 100000 True True True (ps2_hw s) of (hw1, regs) \<Rightarrow>
        let att = setUpDigital hw1 config PIN_PS2_ATT 0 False True;
            s1 = s\<lparr>ps2_hw := pinMode PIN_PS2_ATT OUTPUT hw1, attention := att\<rparr>
        in case noAttention bus s1 dev of (s2, dev2) \<Rightarrow> (s2, regs, dev2))"

text \<open>The commands of the set-up, whose results the code ignores.\<close>

fun send_all ::
  "nat \<Rightarrow> 'd ps2_bus \<Rightarrow> ps2_command list \<Rightarrow> ps2_state \<Rightarrow> 'd \<Rightarrow> ps2_error + (ps2_state \<times> 'd)" where
  "send_all fuel bus [] s dev = Inr (s, dev)"
| "send_all fuel bus (cmd # cmds) s dev =
     and_then (sendCommand fuel bus cmd s dev) (\<lambda>(_, s1, dev1). send_all fuel bus cmds s1 dev1)"

definition setup_ps2 ::
  "nat \<Rightarrow> 'd ps2_bus \<Rightarrow> bool \<Rightarrow> Controller_t \<times> ps2_state \<Rightarrow> 'd \<Rightarrow>
   ps2_error + (bool \<times> (Controller_t \<times> ps2_state) \<times> 'd)" where
  "setup_ps2 fuel bus g cs dev =
     (if ps2CtrlType (snd cs) = psx_val PSX_NO_DEVICE
      then and_then (begin_ps2 fuel bus g cs dev) (\<lambda>(ok, cs1, dev1).
             if \<not> ok then Inr (False, cs1, dev1)
             else and_then (send_all fuel bus [EnterConfig, SetMode, SetPressures, ExitConfig]
                              (snd cs1) dev1)
                    (\<lambda>(s2, dev2). Inr (True, (fst cs1, s2), dev2)))
      else Inr (True, cs, dev))"

definition tickPS2CtrlInput ::
  "nat \<Rightarrow> 'd ps2_bus \<Rightarrow> bool \<Rightarrow> Controller_t \<times> ps2_state \<Rightarrow> 'd \<Rightarrow>
   ps2_error + ((Controller_t \<times> ps2_state) \<times> 'd)" where
  "tickPS2CtrlInput fuel bus g cs dev =
     and_then (setup_ps2 fuel bus g cs dev) (\<lambda>(ready, cs1, dev1).
       if \<not> ready then Inr (cs1, dev1)
       else and_then (read_ps2 fuel bus g cs1 dev1) (\<lambda>(ok, (c, s), dev2).
              Inr ((c, if ok then s else s\<lparr>ps2CtrlType := psx_val PSX_NO_DEVICE\<rparr>), dev2)))"

definition ps2_bindings :: "u8 \<Rightarrow> u8 list" where
  "ps2_bindings t =
     (if t = psx_val PSX_GUITAR_HERO_CONTROLLER then guitarHeroButtonBindings
      else if t = psx_val PSX_MOUSE then mouseButtonBindings else dualShockButtonBindings)"

definition readPS2Button :: "u8 \<Rightarrow> u16 \<Rightarrow> Pin_t \<Rightarrow> bool" where
  "readPS2Button t bword pin =
     (let b = ps2_bindings t ! unat (pin_offset pin)
      in if b = PS_INVALID then False else truthy (bit_check_m bword (unat b)))"

section \<open>Facts\<close>

text \<open>
  The clock of the bus. \<open>U\<close> counts the microseconds since the start of the timer; the milliseconds
  the code reads are those of the board's own \<open>millis\<close>, from the overflows that have occurred by
  then, one every 1024 microseconds: they advance in steps of 1.024 rounded down and go back to 0
  when their product wraps. Every transfer and every change of the attention line takes at most a
  second, and a delay takes at least its time and at most a second more.
\<close>

definition bus_clock :: "'d ps2_bus \<Rightarrow> ('d \<Rightarrow> nat) \<Rightarrow> bool" where
  "bus_clock bus U \<longleftrightarrow>
     (\<forall>d. \<exists>t. timer0_overflow_count t = of_nat (U d div 1024) \<and> bus_millis bus d = fst (millis t)) \<and>
     (\<forall>b d. U d \<le> U (snd (bus_transfer bus b d)) \<and> U (snd (bus_transfer bus b d)) \<le> U d + 1000000) \<and>
     (\<forall>v d. U d \<le> U (bus_attention bus v d) \<and> U (bus_attention bus v d) \<le> U d + 1000000) \<and>
     (\<forall>n d. U d + 1000 * n \<le> U (bus_delay_ms bus n d) \<and>
            U (bus_delay_ms bus n d) \<le> U d + 1000 * n + 1000000)"

lemma bus_clock_millis:
  "bus_clock bus U \<Longrightarrow> bus_millis bus d = of_nat (U d div 1024 mod 2 ^ 25 * 1024 div 1000)"
  unfolding bus_clock_def using millis_count by (metis fst_conv)

text \<open>
  The difference of two readings when at least 260 milliseconds and at most a thousand seconds have
  passed: more than 250, with or without the wrap between them, where the second reading is the
  smaller one and the difference of the words is huge.
\<close>

lemma div_bracket: "0 < k \<Longrightarrow> k * (v div k) \<le> v" "0 < k \<Longrightarrow> v < k * (v div k) + k" for v k :: nat
  using dividend_less_times_div [of k v] by (simp_all add: mult.commute)

lemma word_difference:
  fixes x y e :: nat
  assumes "y + k = x + e" "(of_nat k :: u32) = 0" "250 < e" "e < 2 ^ 32"
  shows "250 < (of_nat y - of_nat x :: u32)"
proof -
  have "of_nat y + of_nat k = (of_nat x + of_nat e :: u32)"
    using arg_cong [OF assms(1), of "of_nat :: nat \<Rightarrow> u32"] by (simp only: of_nat_add)
  then have diff: "(of_nat y - of_nat x :: u32) = of_nat e"
    unfolding assms(2) by (simp add: algebra_simps)
  have "unat (of_nat e :: u32) = e"
    using assms(4) by (simp only: unat_of_nat take_bit_nat_eq_self len_of_numeral_defs) (simp add: take_bit_nat_eq_self)
  moreover have "unat (250 :: u32) = 250" by simp
  ultimately show ?thesis
    unfolding diff word_less_nat_alt by (simp only: assms(3))
qed

lemma clock_difference:
  fixes n m :: nat
  assumes "m + 260000 \<le> n" "n \<le> m + 1000000000"
  shows "250 < (of_nat (n div 1024 mod 2 ^ 25 * 1024 div 1000) -
      of_nat (m div 1024 mod 2 ^ 25 * 1024 div 1000) :: u32)"
proof -
  have brackets: "1024 * (n div 1024) \<le> n" "n < 1024 * (n div 1024) + 1024"
    "1024 * (m div 1024) \<le> m" "m < 1024 * (m div 1024) + 1024"
    by (rule div_bracket; simp)+
  then have "m div 1024 + 253 \<le> n div 1024" "n div 1024 \<le> m div 1024 + 976563"
    using assms by linarith+
  moreover define q where "q = n div 1024 - m div 1024"
  ultimately have q: "253 \<le> q" "q \<le> 976563" "n div 1024 = m div 1024 + q"
    by linarith+
  define a where "a = m div 1024 mod 2 ^ 25"
  define c where "c = n div 1024 mod 2 ^ 25"
  have ac: "a < 33554432" "c = (if a + q < 33554432 then a + q else a + q - 33554432)"
  proof -
    show a: "a < 33554432" by (simp add: a_def)
    have "c = (a + q) mod 33554432" by (simp add: a_def c_def q(3) mod_add_left_eq)
    with a q(2) show "c = (if a + q < 33554432 then a + q else a + q - 33554432)"
      by (simp add: mod_if [of "a + q"])
  qed
  define x where "x = a * 1024 div 1000"
  define y where "y = c * 1024 div 1000"
  have x: "1000 * x \<le> a * 1024" "a * 1024 < 1000 * x + 1000"
    and y: "1000 * y \<le> c * 1024" "c * 1024 < 1000 * y + 1000"
    unfolding x_def y_def by (rule div_bracket; simp)+
  have "250 < (of_nat y - of_nat x :: u32)"
  proof (cases "a + q < 33554432")
    case True
    then have "c = a + q" using ac(2) by simp
    with True x y q have "x + 250 < y" "y < 40000000" by linarith+
    then show ?thesis by (intro word_difference [of y 0 x "y - x"]) simp_all
  next
    case False
    then have "c + 33554432 = a + q" using ac(2) by simp
    with ac(1) x y q have less: "y < x" "x < 40000000" by linarith+
    define e where "e = 4294967296 - (x - y)"
    have "y + 4294967296 = x + e" "250 < e" "e < 2 ^ 32" using less by (simp_all add: e_def)
    then show ?thesis by (intro word_difference [of y 4294967296 x e]) simp_all
  qed
  then show ?thesis by (simp only: x_def y_def a_def c_def)
qed

text \<open>An exchange that fits stays in the buffer, ends, and its time is bounded.\<close>

lemma shiftDataInOut_fits:
  assumes "off + length bs \<le> length buf"
  shows "\<exists>buf' dev'. shiftDataInOut bus bs off buf dev = Inr (buf', dev') \<and> length buf' = length buf \<and>
    (bus_clock bus T \<longrightarrow> T dev \<le> T dev' \<and> T dev' \<le> T dev + 1000000 * length bs)"
  using assms
proof (induction bs arbitrary: off buf dev)
  case (Cons b bs)
  obtain r dev1 where x: "bus_transfer bus b dev = (r, dev1)" by (cases "bus_transfer bus b dev")
  from Cons.prems Cons.IH [of "off + 1" "buf[off := r]" dev1]
  obtain buf' dev' where rest: "shiftDataInOut bus bs (off + 1) (buf[off := r]) dev1 = Inr (buf', dev')"
    "length buf' = length buf"
    "bus_clock bus T \<longrightarrow> T dev1 \<le> T dev' \<and> T dev' \<le> T dev1 + 1000000 * length bs" by auto
  have "bus_clock bus T \<Longrightarrow> T dev \<le> T dev1 \<and> T dev1 \<le> T dev + 1000000"
    using x unfolding bus_clock_def by (metis snd_conv)
  with rest x Cons.prems show ?case by auto
qed simp

lemma gather_reply_fits:
  assumes "3 \<le> length out" "length out \<le> PS2_BUFFER_SIZE" "length buf = PS2_BUFFER_SIZE"
  shows "\<exists>ok buf' dev'. gather_reply bus out buf dev = Inr (ok, buf', dev') \<and>
    length buf' = PS2_BUFFER_SIZE \<and>
    (bus_clock bus T \<longrightarrow> T dev \<le> T dev' \<and> T dev' \<le> T dev + 29000000)"
proof -
  have "\<exists>buf1 dev1. (if 3 < length out then shiftDataInOut bus (drop 3 out) 3 buf dev else Inr (buf, dev)) =
      Inr (buf1, dev1) \<and> length buf1 = PS2_BUFFER_SIZE \<and>
      (bus_clock bus T \<longrightarrow> T dev \<le> T dev1 \<and> T dev1 \<le> T dev + 1000000 * (length out - 3))"
    using assms shiftDataInOut_fits [of 3 "drop 3 out" buf bus dev T] by (cases "3 < length out") auto
  then obtain buf1 dev1 where one: "(if 3 < length out then shiftDataInOut bus (drop 3 out) 3 buf dev
      else Inr (buf, dev)) = Inr (buf1, dev1)" "length buf1 = PS2_BUFFER_SIZE"
    "bus_clock bus T \<longrightarrow> T dev \<le> T dev1 \<and> T dev1 \<le> T dev + 1000000 * (length out - 3)" by blast
  let ?left = "reply_left buf (of_nat (length out))"
  show ?thesis
  proof (cases "?left \<noteq> 0 \<and> length out + unat ?left \<le> PS2_BUFFER_SIZE")
    case True
    obtain buf2 dev2 where two: "shiftDataInOut bus (replicate (unat ?left) 0x5A) (length out) buf1 dev1 =
        Inr (buf2, dev2)" "length buf2 = PS2_BUFFER_SIZE"
      "bus_clock bus T \<longrightarrow> T dev1 \<le> T dev2 \<and> T dev2 \<le> T dev1 + 1000000 * unat ?left"
      using True one(2) shiftDataInOut_fits [of "length out" "replicate (unat ?left) 0x5A" buf1 bus dev1 T]
      by auto
    with True one assms show ?thesis by (auto simp: gather_reply_def Let_def PS2_BUFFER_SIZE_def)
  next
    case False
    with one assms show ?thesis by (auto simp: gather_reply_def Let_def PS2_BUFFER_SIZE_def)
  qed
qed

lemma exchange_fits:
  assumes "length buf = PS2_BUFFER_SIZE"
  shows "\<exists>ok buf' dev'. exchange bus out buf dev = Inr (ok, buf', dev') \<and>
    length buf' = PS2_BUFFER_SIZE \<and>
    (bus_clock bus T \<longrightarrow> T dev \<le> T dev' \<and> T dev' \<le> T dev + 32000000)"
proof (cases "3 \<le> length out \<and> length out \<le> PS2_BUFFER_SIZE")
  case True
  then have three: "length (take 3 out) = 3" by simp
  obtain buf1 dev1 where one: "shiftDataInOut bus (take 3 out) 0 buf dev = Inr (buf1, dev1)"
    "length buf1 = PS2_BUFFER_SIZE" "bus_clock bus T \<longrightarrow> T dev \<le> T dev1 \<and> T dev1 \<le> T dev + 3000000"
    using assms shiftDataInOut_fits [of 0 "take 3 out" buf bus dev T, unfolded three]
    by (auto simp: PS2_BUFFER_SIZE_def)
  obtain ok buf2 dev2 where "gather_reply bus out buf1 dev1 = Inr (ok, buf2, dev2)"
    "length buf2 = PS2_BUFFER_SIZE" "bus_clock bus T \<longrightarrow> T dev1 \<le> T dev2 \<and> T dev2 \<le> T dev1 + 29000000"
    using gather_reply_fits [of out buf1 bus dev1 T] True one(2) by blast
  with one True show ?thesis by (auto simp: exchange_def)
qed (use assms in \<open>auto simp: exchange_def\<close>)

lemma autoShiftData_fits:
  assumes "length (inputBuffer s) = PS2_BUFFER_SIZE"
  shows "\<exists>ok s' dev'. autoShiftData bus out s dev = Inr (ok, s', dev') \<and>
    length (inputBuffer s') = PS2_BUFFER_SIZE \<and>
    (bus_clock bus T \<longrightarrow> T dev \<le> T dev' \<and> T dev' \<le> T dev + 34000000)"
proof -
  define dev1 where "dev1 = bus_attention bus False dev"
  obtain ok buf dev2 where ex: "exchange bus out (inputBuffer s) dev1 = Inr (ok, buf, dev2)"
    "length buf = PS2_BUFFER_SIZE" "bus_clock bus T \<longrightarrow> T dev1 \<le> T dev2 \<and> T dev2 \<le> T dev1 + 32000000"
    using exchange_fits [OF assms, of bus out dev1 T] by blast
  have "T dev \<le> T dev1 \<and> T dev1 \<le> T dev + 1000000 \<and> T dev2 \<le> T (bus_attention bus True dev2) \<and>
      T (bus_attention bus True dev2) \<le> T dev2 + 1000000" if "bus_clock bus T"
    using that unfolding bus_clock_def dev1_def by blast
  with ex show ?thesis
    by (auto simp: autoShiftData_def signalAttention_def noAttention_def dev1_def)
qed

text \<open>
  The retries: \<open>k\<close> rounds after the start, at \<open>u0\<close>, at least \<open>10 k\<close> milliseconds and at most
  \<open>38 k\<close> seconds have passed, so that the 26th round finds the time-out over.
\<close>

lemma sendCommand_loop_ends:
  assumes "length (inputBuffer s) = PS2_BUFFER_SIZE" "bus_clock bus T"
    and "start = of_nat (u0 div 1024 mod 2 ^ 25 * 1024 div 1000)"
    and "u0 + 10000 * k \<le> T dev" "T dev \<le> u0 + 38000000 * k" "k + fuel = 26" "k \<le> 25"
  shows "\<exists>ret' s' dev'. sendCommand_loop fuel bus cmd start cnt ret s dev = Inr (ret', s', dev') \<and>
    length (inputBuffer s') = PS2_BUFFER_SIZE"
  using assms
proof (induction fuel arbitrary: k cnt ret s dev)
  case (Suc fuel)
  obtain ok s1 dev1 where a: "autoShiftData bus (command_bytes cmd) s dev = Inr (ok, s1, dev1)"
    "length (inputBuffer s1) = PS2_BUFFER_SIZE" "T dev \<le> T dev1" "T dev1 \<le> T dev + 34000000"
    using autoShiftData_fits [of s bus "command_bytes cmd" dev T] Suc.prems(1,2) by blast
  define cnt1 where "cnt1 = (if ok then cnt + 1 else cnt)"
  define ret1 where "ret1 = (if ok then (if cmd = EnterConfig then isConfigReply (inputBuffer s1)
      else if cmd = ExitConfig then \<not> isConfigReply (inputBuffer s1) else 3 \<le> cnt1) else ret)"
  define dev2 where "dev2 = bus_delay_ms bus COMMAND_RETRY_INTERVAL dev1"
  have step: "sendCommand_loop (Suc fuel) bus cmd start cnt ret s dev =
      (if \<not> ret1 \<and> bus_millis bus dev2 - start \<le> COMMAND_TIMEOUT
       then sendCommand_loop fuel bus cmd start cnt1 ret1 s1 dev2
       else Inr (ret1, s1, if ret1 then dev1 else dev2))"
    using a(1) by (simp add: cnt1_def ret1_def dev2_def Let_def)
  have delay: "\<forall>n d. T d + 1000 * n \<le> T (bus_delay_ms bus n d) \<and>
      T (bus_delay_ms bus n d) \<le> T d + 1000 * n + 1000000"
    using Suc.prems(2) unfolding bus_clock_def by blast
  have t2: "T dev1 + 10000 \<le> T dev2" "T dev2 \<le> T dev1 + 10000 + 1000000"
    using spec [OF spec [OF delay, of 10], of dev1] by (simp_all add: dev2_def COMMAND_RETRY_INTERVAL_def)
  have bounds: "u0 + 10000 * (k + 1) \<le> T dev2" "T dev2 \<le> u0 + 38000000 * (k + 1)"
    using a(3,4) t2 Suc.prems(4,5) by simp_all
  show ?case
  proof (cases "k = 25")
    case True
    then have "u0 + 260000 \<le> T dev2" "T dev2 \<le> u0 + 1000000000" using bounds by simp_all
    from clock_difference [OF this]
    have "250 < bus_millis bus dev2 - start"
      unfolding bus_clock_millis [OF Suc.prems(2), of dev2] Suc.prems(3) .
    then have "\<not> bus_millis bus dev2 - start \<le> COMMAND_TIMEOUT"
      by (simp only: COMMAND_TIMEOUT_def linorder_not_le)
    with step a(2) show ?thesis by auto
  next
    case False
    then have "k + 1 + fuel = 26" "k + 1 \<le> 25" using Suc.prems(6,7) by simp_all
    from Suc.IH [OF a(2) Suc.prems(2,3) bounds this] step a(2) show ?thesis by auto
  qed
qed simp

lemma sendCommand_ends:
  assumes "length (inputBuffer s) = PS2_BUFFER_SIZE" "bus_clock bus T"
  shows "\<exists>ret s' dev'. sendCommand 26 bus cmd s dev = Inr (ret, s', dev') \<and>
    length (inputBuffer s') = PS2_BUFFER_SIZE"
  using sendCommand_loop_ends [OF assms bus_clock_millis [OF assms(2), of dev], of 0 dev 26]
  by (simp add: sendCommand_def)

lemma read_ps2_ends:
  assumes "length (inputBuffer s) = PS2_BUFFER_SIZE" "bus_clock bus T"
  shows "\<exists>ok c' s' dev'. read_ps2 26 bus g (c, s) dev = Inr (ok, (c', s'), dev') \<and>
    length (inputBuffer s') = PS2_BUFFER_SIZE"
proof -
  obtain ok s1 dev1 where a: "autoShiftData bus (command_bytes PollInput) s dev = Inr (ok, s1, dev1)"
    "length (inputBuffer s1) = PS2_BUFFER_SIZE"
    using autoShiftData_fits [OF assms(1), of bus "command_bytes PollInput" dev T] by blast
  show ?thesis
    using a sendCommand_ends [OF a(2) assms(2), of ExitConfig dev1]
    by (auto simp: read_ps2_def split: prod.splits simp del: command_bytes.simps)
qed

lemma begin_reads_ends:
  assumes "length (inputBuffer s) = PS2_BUFFER_SIZE" "bus_clock bus T"
  shows "\<exists>ok c' s' dev'. begin_reads n 26 bus g (c, s) dev = Inr (ok, (c', s'), dev') \<and>
    length (inputBuffer s') = PS2_BUFFER_SIZE"
  using assms(1)
proof (induction n arbitrary: c s dev)
  case 0
  then show ?case using read_ps2_ends [OF _ assms(2)] by auto
next
  case (Suc n)
  obtain ok c1 s1 dev1 where "read_ps2 26 bus g (c, s) dev = Inr (ok, (c1, s1), dev1)"
    "length (inputBuffer s1) = PS2_BUFFER_SIZE"
    using read_ps2_ends [OF Suc.prems assms(2), of g c dev] by blast
  with Suc.IH [of s1 c1 "bus_delay_ms bus 1 dev1"] show ?case by auto
qed

lemma send_all_ends:
  assumes "length (inputBuffer s) = PS2_BUFFER_SIZE" "bus_clock bus T"
  shows "\<exists>s' dev'. send_all 26 bus cmds s dev = Inr (s', dev') \<and>
    length (inputBuffer s') = PS2_BUFFER_SIZE"
  using assms(1)
proof (induction cmds arbitrary: s dev)
  case (Cons cmd cmds)
  obtain r s1 dev1 where "sendCommand 26 bus cmd s dev = Inr (r, s1, dev1)"
    "length (inputBuffer s1) = PS2_BUFFER_SIZE"
    using sendCommand_ends [OF Cons.prems assms(2), of cmd dev] by blast
  with Cons.IH [of s1 dev1] show ?case by auto
qed simp

text \<open>With any fuel and any clock, the only possible error is the end of the fuel.\<close>

definition in_bounds :: "('a \<Rightarrow> ps2_state) \<Rightarrow> ps2_error + 'a \<Rightarrow> bool" where
  "in_bounds st r \<longleftrightarrow> r = Inl OutOfFuel \<or>
     (\<exists>a. r = Inr a \<and> length (inputBuffer (st a)) = PS2_BUFFER_SIZE)"

lemma in_bounds_and_then:
  assumes "in_bounds st r"
    and "\<And>a. r = Inr a \<Longrightarrow> length (inputBuffer (st a)) = PS2_BUFFER_SIZE \<Longrightarrow> in_bounds st' (f a)"
  shows "in_bounds st' (and_then r f)"
  using assms by (auto simp: in_bounds_def)

lemma autoShiftData_in_bounds:
  assumes "length (inputBuffer s) = PS2_BUFFER_SIZE"
  shows "in_bounds (\<lambda>(ok, s, dev). s) (autoShiftData bus out s dev)"
  using autoShiftData_fits [OF assms, of bus out dev "\<lambda>_. 0"] by (auto simp: in_bounds_def)

lemma sendCommand_in_bounds:
  assumes "length (inputBuffer s) = PS2_BUFFER_SIZE"
  shows "in_bounds (\<lambda>(ret, s, dev). s) (sendCommand fuel bus cmd s dev)"
proof -
  have "in_bounds (\<lambda>(ret, s, dev). s) (sendCommand_loop fuel bus cmd start cnt ret s dev)" for start cnt ret
    using assms
  proof (induction fuel arbitrary: cnt ret s dev)
    case (Suc fuel)
    show ?case
      unfolding sendCommand_loop.simps
      by (rule in_bounds_and_then [OF autoShiftData_in_bounds [OF Suc.prems]])
         (use Suc.IH in \<open>auto simp: Let_def in_bounds_def split: prod.splits\<close>)
  qed (simp add: in_bounds_def)
  then show ?thesis by (simp add: sendCommand_def)
qed

lemma read_ps2_in_bounds:
  assumes "length (inputBuffer (snd cs)) = PS2_BUFFER_SIZE"
  shows "in_bounds (\<lambda>(ok, cs, dev). snd cs) (read_ps2 fuel bus g cs dev)"
proof -
  obtain c s where cs: "cs = (c, s)" by (cases cs)
  have "in_bounds (\<lambda>(ok, cs, dev). snd cs)
      (if \<not> ok then Inr (False, (c, s1), dev1)
       else if isConfigReply (inputBuffer s1)
       then and_then (sendCommand fuel bus ExitConfig s1 dev1)
              (\<lambda>(_, s2, dev2). Inr (True, (c, s2), dev2))
       else (case decode_reply g (inputBuffer s1) (c, ps2CtrlType s1) of (c', t') \<Rightarrow>
              Inr (True, (c', s1\<lparr>buttonWord := reply_buttons (inputBuffer s1), ps2CtrlType := t'\<rparr>),
                   dev1)))"
    if len: "length (inputBuffer s1) = PS2_BUFFER_SIZE" for ok s1 dev1
    using in_bounds_and_then [OF sendCommand_in_bounds [OF len], of fuel bus ExitConfig dev1
      "\<lambda>(ok, cs, dev). snd cs" "\<lambda>(_, s2, dev2). Inr (True, (c, s2), dev2)"] len
    by (auto simp: in_bounds_def split: prod.splits)
  then show ?thesis
    unfolding read_ps2_def cs prod.case
    by (intro in_bounds_and_then [OF autoShiftData_in_bounds]) (use assms cs in auto)
qed

lemma begin_reads_in_bounds:
  assumes "length (inputBuffer (snd cs)) = PS2_BUFFER_SIZE"
  shows "in_bounds (\<lambda>(ok, cs, dev). snd cs) (begin_reads n fuel bus g cs dev)"
  using assms
proof (induction n arbitrary: cs dev)
  case 0
  then show ?case using read_ps2_in_bounds by simp
next
  case (Suc n)
  show ?case
    unfolding begin_reads.simps
    by (rule in_bounds_and_then [OF read_ps2_in_bounds [OF Suc.prems]])
       (use Suc.IH in \<open>auto split: prod.splits\<close>)
qed

lemma send_all_in_bounds:
  assumes "length (inputBuffer s) = PS2_BUFFER_SIZE"
  shows "in_bounds fst (send_all fuel bus cmds s dev)"
  using assms
proof (induction cmds arbitrary: s dev)
  case (Cons cmd cmds)
  show ?case
    unfolding send_all.simps
    by (rule in_bounds_and_then [OF sendCommand_in_bounds [OF Cons.prems]])
       (use Cons.IH in \<open>auto split: prod.splits\<close>)
qed (simp add: in_bounds_def)

lemma setup_ps2_in_bounds:
  assumes "length (inputBuffer (snd cs)) = PS2_BUFFER_SIZE"
  shows "in_bounds (\<lambda>(ok, cs, dev). snd cs) (setup_ps2 fuel bus g cs dev)"
proof (cases "ps2CtrlType (snd cs) = psx_val PSX_NO_DEVICE")
  case True
  have send: "in_bounds (\<lambda>(ok, cs, dev). snd cs) (if \<not> ok then Inr (False, cs1, dev1)
      else and_then (send_all fuel bus [EnterConfig, SetMode, SetPressures, ExitConfig] (snd cs1) dev1)
        (\<lambda>(s2, dev2). Inr (True, (fst cs1, s2), dev2)))"
    if len: "length (inputBuffer (snd cs1)) = PS2_BUFFER_SIZE" for ok cs1 dev1
  proof (cases ok)
    case True
    show ?thesis
      by (simp only: True simp_thms if_False,
          rule in_bounds_and_then [OF send_all_in_bounds [OF len]])
         (auto simp: in_bounds_def split: prod.splits)
  qed (use len in \<open>cases cs1, simp add: in_bounds_def\<close>)
  have "in_bounds (\<lambda>(ok, cs, dev). snd cs) (begin_ps2 fuel bus g cs dev)"
    using begin_reads_in_bounds [OF assms] by (simp add: begin_ps2_def)
  then have "in_bounds (\<lambda>(ok, cs, dev). snd cs) (and_then (begin_ps2 fuel bus g cs dev)
      (\<lambda>(ok, cs1, dev1). if \<not> ok then Inr (False, cs1, dev1)
        else and_then (send_all fuel bus [EnterConfig, SetMode, SetPressures, ExitConfig]
               (snd cs1) dev1) (\<lambda>(s2, dev2). Inr (True, (fst cs1, s2), dev2))))"
    by (rule in_bounds_and_then)
       (unfold split_beta, rule send [unfolded split_beta], simp add: split_beta)
  with True show ?thesis by (simp add: setup_ps2_def del: send_all.simps)
qed (use assms in \<open>simp add: setup_ps2_def in_bounds_def\<close>)

lemma tickPS2CtrlInput_in_bounds:
  assumes "length (inputBuffer (snd cs)) = PS2_BUFFER_SIZE"
  shows "in_bounds (\<lambda>(cs, dev). snd cs) (tickPS2CtrlInput fuel bus g cs dev)"
proof -
  have poll: "in_bounds (\<lambda>(cs, dev). snd cs) (if \<not> ready then Inr (cs1, dev1)
       else and_then (read_ps2 fuel bus g cs1 dev1) (\<lambda>(ok, (c, s), dev2).
              Inr ((c, if ok then s else s\<lparr>ps2CtrlType := psx_val PSX_NO_DEVICE\<rparr>), dev2)))"
    if len: "length (inputBuffer (snd cs1)) = PS2_BUFFER_SIZE" for ready cs1 dev1
  proof (cases ready)
    case True
    show ?thesis
      by (simp only: True simp_thms if_False,
          rule in_bounds_and_then [OF read_ps2_in_bounds [OF len]])
         (auto simp: in_bounds_def split: prod.splits)
  qed (use len in \<open>cases cs1, simp add: in_bounds_def\<close>)
  show ?thesis
    unfolding tickPS2CtrlInput_def
    by (rule in_bounds_and_then [OF setup_ps2_in_bounds [OF assms]])
       (unfold split_beta, rule poll [unfolded split_beta], simp add: split_beta)
qed

section \<open>Properties\<close>

text \<open>
  C17: a poll of a PlayStation port always ends, within 26 rounds of each retried command, and
  never reads or writes outside the 32-byte reply buffer, whatever the controller answers. The
  time-outs are measured with the board's own clock, which advances in steps of 1.024 ms rounded
  down and may start again from 0 at any moment, also within the command; it is assumed that the
  clock is the timer's, that a byte and a change of the attention line take at most a second each,
  and that a delay takes its time.
\<close>

theorem tickPS2_ends_in_bounds:
  assumes "length (inputBuffer s) = PS2_BUFFER_SIZE" "bus_clock bus T"
  shows "\<exists>c' s' dev'. tickPS2CtrlInput 26 bus g (c, s) dev = Inr ((c', s'), dev') \<and>
    length (inputBuffer s') = PS2_BUFFER_SIZE"
proof -
  have "\<exists>ready c1 s1 dev1. setup_ps2 26 bus g (c, s) dev = Inr (ready, (c1, s1), dev1) \<and>
      length (inputBuffer s1) = PS2_BUFFER_SIZE"
  proof (cases "ps2CtrlType s = psx_val PSX_NO_DEVICE")
    case True
    obtain ok c1 s1 dev1 where b: "begin_ps2 26 bus g (c, s) dev = Inr (ok, (c1, s1), dev1)"
      "length (inputBuffer s1) = PS2_BUFFER_SIZE"
      using begin_reads_ends [OF assms, of 5 g c dev] by (auto simp: begin_ps2_def)
    obtain s2 dev2 where "send_all 26 bus [EnterConfig, SetMode, SetPressures, ExitConfig] s1 dev1 =
        Inr (s2, dev2)" "length (inputBuffer s2) = PS2_BUFFER_SIZE"
      using send_all_ends [OF b(2) assms(2)] by blast
    with True b show ?thesis by (auto simp: setup_ps2_def simp del: send_all.simps)
  qed (use assms in \<open>auto simp: setup_ps2_def\<close>)
  then obtain ready c1 s1 dev1 where ready: "setup_ps2 26 bus g (c, s) dev = Inr (ready, (c1, s1), dev1)"
    "length (inputBuffer s1) = PS2_BUFFER_SIZE" by blast
  from ready read_ps2_ends [OF ready(2) assms(2), of g c1 dev1] show ?thesis
    by (auto simp: tickPS2CtrlInput_def)
qed

text \<open>A silent port, in microseconds: every byte reads as 0xFF, and only delays take time.\<close>

definition timer_at :: "nat \<Rightarrow> timer0" where
  "timer_at u = \<lparr>tm_avr = blank_avr, timer0_overflow_count = of_nat (u div 1024), TCNT0 = 0,
                 TIFR0 = 0, TCCR0B = 0, TIMSK0 = 0\<rparr>"

definition silent_bus :: "nat ps2_bus" where
  "silent_bus = \<lparr>bus_transfer = (\<lambda>b u. (0xFF, u)), bus_attention = (\<lambda>v u. u),
                 bus_millis = (\<lambda>u. fst (millis (timer_at u))),
                 bus_delay_ms = (\<lambda>n u. u + 1000 * n)\<rparr>"

definition ps2_reset :: ps2_state where
  "ps2_reset = \<lparr>ps2_hw = blank_avr,
     attention = setUpDigital blank_avr DEFAULT_CONFIG PIN_PS2_ATT 0 False True,
     inputBuffer = replicate 32 0, buttonWord = 0, ps2CtrlType = psx_val PSX_NO_DEVICE\<rparr>"

text \<open>A poll that begins 50 ms before the clock goes back to 0.\<close>

theorem tickPS2_ends_witness:
  "\<forall>c. \<exists>c' s' dev'. tickPS2CtrlInput 26 silent_bus True (c, ps2_reset) 34359688368 = Inr ((c', s'), dev') \<and>
    length (inputBuffer s') = PS2_BUFFER_SIZE"
proof
  fix c
  have clock: "\<exists>t. timer0_overflow_count t = of_nat (u div 1024) \<and> fst (millis (timer_at u)) = fst (millis t)" for u
    by (rule exI [of _ "timer_at u"]) (simp add: timer_at_def)
  show "\<exists>c' s' dev'. tickPS2CtrlInput 26 silent_bus True (c, ps2_reset) 34359688368 = Inr ((c', s'), dev') \<and>
    length (inputBuffer s') = PS2_BUFFER_SIZE"
    by (rule tickPS2_ends_in_bounds [where T = "\<lambda>u. u"])
       (simp_all add: ps2_reset_def PS2_BUFFER_SIZE_def bus_clock_def silent_bus_def clock)
qed

text \<open>
  A guitar that answers like a DualShock, as the PlayStation guitars do, is never treated as one for its
  buttons: after any such reply the controller type is a DualShock's, and the buttons are looked
  up in the DualShock table, not in the guitar's.
\<close>

theorem guitar_bindings_unused:
  assumes "isDualShockReply inp"
  shows "snd (decode_reply True inp (c, t)) \<in>
      {psx_val PSX_DUALSHOCK_1_CONTROLLER, psx_val PSX_DUALSHOCK_2_CONTROLLER} \<and>
    ps2_bindings (snd (decode_reply True inp (c, t))) = dualShockButtonBindings"
proof -
  have "\<not> isFlightStickReply inp"
    using assms by (simp add: isDualShockReply_def isFlightStickReply_def)
  then have "snd (decode_dualshock True b inp ct) \<in>
      {psx_val PSX_DUALSHOCK_1_CONTROLLER, psx_val PSX_DUALSHOCK_2_CONTROLLER}" for b ct
    using assms by (auto simp: decode_dualshock_def Let_def split: prod.splits)
  then have *: "snd (decode_reply True inp (c, t)) \<in>
      {psx_val PSX_DUALSHOCK_1_CONTROLLER, psx_val PSX_DUALSHOCK_2_CONTROLLER}"
    by (simp only: decode_reply_def)
  then show ?thesis by (auto simp: ps2_bindings_def)
qed

theorem guitar_bindings_unused_witness:
  "\<forall>c. ps2_bindings (snd (decode_reply True [0xFF, 0x79, 0x5A] (c, 10))) = dualShockButtonBindings"
proof
  fix c
  show "ps2_bindings (snd (decode_reply True [0xFF, 0x79, 0x5A] (c, 10))) = dualShockButtonBindings"
    using guitar_bindings_unused [of "[0xFF, 0x79, 0x5A]" c 10] by (simp add: isDualShockReply_def)
qed

end
