(* ===== verification/Input.thy ===== *)
theory Input
  imports Direct Ps2
begin

text \<open>
  The tilt sensors (\<open>src/src/shared/input/inputs/guitar.h\<close>) and the input handler
  (\<open>src/src/shared/input/input_handler.c\<close>): initialisation from the configuration, one poll of
  the selected source with the debouncing of its buttons, and the velocities for MIDI.

  What a read of the motion sensor's queue gives is a parameter, the quaternion's four words if the
  packet holds one; the theory Motion supplies it from the sensor's driver. Time is read by each debounced pin twice, at
  the test and at the update: \<open>clk i\<close> is the pair of readings at pin \<open>i\<close>.
\<close>

section \<open>guitar.h\<close>

datatype tilt_tick = MPUTilt | DigitalTilt

record guitar_state =
  mpuTilt :: i16
  mpuOrientation :: u8
  tiltPin :: u8
  tiltInverted :: bool
  guitar_scale :: AxisScale_t
  guitar_tick :: "tilt_tick option"

text \<open>\<open>q._l[k] >> 23\<close>, stored in 16 bits.\<close>

definition quat_part :: "i32 \<Rightarrow> i16" where
  "quat_part l = ucast (signed_drop_bit 23 l)"

text \<open>
  The union's words are overwritten by the parts while they are read, but only after the word in
  question has been read.
\<close>

definition tickMPUTilt ::
  "(i32 \<times> i32 \<times> i32 \<times> i32) option \<Rightarrow> guitar_state \<Rightarrow> Controller_t \<times> direct_state \<Rightarrow>
   guitar_state \<times> Controller_t \<times> direct_state" where
  "tickMPUTilt fifo gs cs =
     (case cs of (c, s) \<Rightarrow>
        let gs1 = (case fifo of None \<Rightarrow> gs
                   | Some (l0, l1, l2, l3) \<Rightarrow>
                       let t = quaternionToEuler
                                 \<lparr>q_w = quat_part l0, q_x = quat_part l1, q_y = quat_part l2,
                                  q_z = quat_part l3\<rparr> (mpuTilt gs) (mpuOrientation gs)
                       in gs\<lparr>mpuTilt := if tiltInverted gs then - t else t\<rparr>)
        in (gs1, c\<lparr>r_y := ucast (scale_axis (guitar_scale gs1) (mpuTilt gs1))\<rparr>,
            s\<lparr>analogueData := (analogueData s)[axis_ix XBOX_TILT := mpuTilt gs1]\<rparr>))"

definition tickDigitalTilt :: "guitar_state \<Rightarrow> Controller_t \<times> direct_state \<Rightarrow>
   guitar_state \<times> Controller_t \<times> direct_state" where
  "tickDigitalTilt gs cs =
     (case cs of (c, s) \<Rightarrow>
        (gs, c\<lparr>r_y := of_bool (\<not> digitalRead (hw (an s)) (tiltPin gs)) * 32767\<rparr>, s))"

text \<open>\<open>initMPU6050\<close> works on the state of the sensor's driver (theory Mpu6050) only; the pointer \<open>tick\<close> keeps its value if neither case matches.\<close>

definition initGuitar ::
  "bool \<Rightarrow> Configuration_t \<Rightarrow> guitar_state \<times> direct_state \<Rightarrow> guitar_state \<times> direct_state" where
  "initGuitar g config gd =
     (case gd of (gs, s) \<Rightarrow>
        if \<not> g then (gs, s)
        else let (gs1, s1) =
               (if tiltType (cfg_main config) = tilt_val MPU_6050
                then (gs\<lparr>mpuOrientation := mpu6050Orientation (cfg_axis config),
                        guitar_tick := Some MPUTilt\<rparr>, s)
                else if tiltType (cfg_main config) = tilt_val DIGITAL
                then let p = apin_pin (pin_r_y (cfg_pins config))
                     in (gs\<lparr>tiltPin := p, guitar_tick := Some DigitalTilt\<rparr>,
                         on_hw (pinMode p INPUT_PULLUP) s)
                else (gs, s))
             in (gs1\<lparr>guitar_scale := sc_r_y (cfg_axisScale config),
                     tiltInverted := apin_inverted (pin_r_y (cfg_pins config))\<rparr>, s1))"

text \<open>The clamp of the whammy is done on an \<open>int32_t\<close> that holds an unsigned 16-bit value.\<close>

definition clamp_whammy :: "u16 \<Rightarrow> u16" where
  "clamp_whammy v =
     (let w = uint v; w = (if w > 0xFFFF then 0xFFFF else w); w = (if w < 0 then 0 else w)
      in word_of_int w)"

definition tickGuitar ::
  "(i32 \<times> i32 \<times> i32 \<times> i32) option \<Rightarrow> bool \<Rightarrow> guitar_state \<Rightarrow> Controller_t \<times> direct_state \<Rightarrow>
   guitar_state \<times> Controller_t \<times> direct_state" where
  "tickGuitar fifo g gs cs =
     (case cs of (c, s) \<Rightarrow>
        if \<not> g then (gs, c, s)
        else let c1 = c\<lparr>r_x := clamp_whammy (whammy c)\<rparr>
             in case guitar_tick gs of None \<Rightarrow> (gs, c1, s)
                | Some MPUTilt \<Rightarrow> tickMPUTilt fifo gs (c1, s)
                | Some DigitalTilt \<Rightarrow> tickDigitalTilt gs (c1, s))"

definition GH5NECK_ADDR :: u8 where "GH5NECK_ADDR = 0x0D"

text \<open>The three reads of a Guitar Hero 5 neck, whose bytes are not used yet.\<close>

definition tickGH5Neck :: "'d i2c_read \<Rightarrow> u8 \<Rightarrow> 'd \<Rightarrow> 'd" where
  "tickGH5Neck rd junk dev =
     (case rd GH5NECK_ADDR 0x11 1 dev of ((_, bs), dev1) \<Rightarrow>
        if truthy (overlay bs [junk] ! 0)
        then snd (rd GH5NECK_ADDR 0x15 1 (snd (rd GH5NECK_ADDR 0x12 1 dev1))) else dev1)"

section \<open>The state of the input handler\<close>

datatype source = FromWii | FromPins | FromPs2

record input_state =
  direct :: direct_state
  wii :: wii_state
  wii_buttons :: u16
  ps2 :: ps2_state
  guitar :: guitar_state
  tick_function :: "source option"
  read_button_function :: "source option"
  in_joyThreshold :: i16
  in_triggerThreshold :: i16
  mapJoyLeftDpad :: bool
  mapStartSelectHome :: bool
  mergedStrum :: bool

text \<open>Everything the poll takes from outside: the two buses, the converter, the sensor, the clock.\<close>

record ('i, 'p) input_env =
  env_twi_init :: "'i \<Rightarrow> 'i"
  env_rd :: "'i i2c_read"
  env_wr :: "'i i2c_write"
  env_junk :: junk
  env_ps2 :: "'p ps2_bus"
  env_adc :: "u8 \<Rightarrow> u16"
  env_adc_busy :: bool
  env_fifo :: "(i32 \<times> i32 \<times> i32 \<times> i32) option"
  env_clk :: "nat \<Rightarrow> u32 \<times> u32"
  env_fullDeviceType :: u8
  env_guitar :: bool
  env_fuel :: nat

datatype input_error = ArrayBounds | Diverges | NullCall

fun of_ps2_error :: "ps2_error \<Rightarrow> input_error" where
  "of_ps2_error OutOfBounds = ArrayBounds"
| "of_ps2_error OutOfFuel = Diverges"

text \<open>The chip is one: the PlayStation driver works on the registers of the pins.\<close>

definition lend_chip :: "input_state \<Rightarrow> ps2_state" where
  "lend_chip s = (ps2 s)\<lparr>ps2_hw := hw (an (direct s))\<rparr>"

definition return_chip :: "ps2_state \<Rightarrow> input_state \<Rightarrow> input_state" where
  "return_chip p s = s\<lparr>ps2 := p, direct := on_hw (\<lambda>_. ps2_hw p) (direct s)\<rparr>"

section \<open>initInputs\<close>

definition init_source ::
  "('i, 'p) input_env \<Rightarrow> u8 \<Rightarrow> Configuration_t \<Rightarrow> input_state \<times> 'p \<Rightarrow> input_state \<times> 'p" where
  "init_source env junk config sp =
     (case sp of (s, pdev) \<Rightarrow>
        let t = inputType (cfg_main config)
        in if t = input_val WII
           then (s\<lparr>wii := initWiiExtensions config (wii s), tick_function := Some FromWii,
                   read_button_function := Some FromWii\<rparr>, pdev)
           else if t = input_val DIRECT then (s\<lparr>read_button_function := Some FromPins\<rparr>, pdev)
           else if t = input_val PS2
           then (case initPS2CtrlInput (env_ps2 env) junk config (lend_chip s) pdev of
                   (p', _, pdev') \<Rightarrow>
                     ((return_chip p' s)\<lparr>read_button_function := Some FromPs2,
                                         tick_function := Some FromPs2\<rparr>, pdev'))
           else (s, pdev))"

definition init_buses ::
  "('i, 'p) input_env \<Rightarrow> u8 \<Rightarrow> Configuration_t \<Rightarrow> input_state \<times> 'i \<Rightarrow> input_state \<times> 'i" where
  "init_buses env junk config si =
     (case si of (s, idev) \<Rightarrow>
        (if inputType (cfg_main config) \<noteq> input_val PS2 \<and> fretLEDMode (cfg_main config) = fret_val APA102
         then s\<lparr>direct := on_hw (\<lambda>h. fst (spi_begin junk (F_CPU div 2) True True False h)) (direct s)\<rparr>
         else s,
         if inputType (cfg_main config) = input_val WII \<or> tiltType (cfg_main config) = tilt_val MPU_6050
         then env_twi_init env idev else idev))"

definition initInputs ::
  "('i, 'p) input_env \<Rightarrow> u8 \<Rightarrow> bool \<Rightarrow> Configuration_t \<Rightarrow> input_state \<Rightarrow> 'i \<times> 'p \<Rightarrow>
   input_error + (input_state \<times> 'i \<times> 'p)" where
  "initInputs env junk d config s devs =
     (let g = env_guitar env;
          s1 = s\<lparr>mapJoyLeftDpad := mapLeftJoystickToDPad (cfg_main config),
                 mapStartSelectHome := mapStartSelectToHome (cfg_main config),
                 mergedStrum := g \<and> combinedStrum (cfg_debounce config),
                 direct := on_hw setupADC (direct s)\<rparr>
      in case init_source env junk config (s1, snd devs) of (s2, pdev) \<Rightarrow>
         case init_buses env junk config (s2, fst devs) of (s3, idev) \<Rightarrow>
         case initDirectInput g d config (direct s3) of
           None \<Rightarrow> Inl ArrayBounds
         | Some dir \<Rightarrow>
             (case initGuitar g config (guitar s3, dir) of (gs, dir') \<Rightarrow>
                Inr (s3\<lparr>direct := dir', guitar := gs,
                        in_joyThreshold := push_bit 8 (ucast (joyThreshold (cfg_axis config))),
                        in_triggerThreshold := ucast (triggerThreshold (cfg_axis config))\<rparr>,
                     idev, pdev)))"

section \<open>tickInputs\<close>

definition tick_source ::
  "('i, 'p) input_env \<Rightarrow> Controller_t \<times> input_state \<Rightarrow> 'i \<times> 'p \<Rightarrow>
   input_error + ((Controller_t \<times> input_state) \<times> 'i \<times> 'p)" where
  "tick_source env cs devs =
     (case cs of (c, s) \<Rightarrow> case devs of (idev, pdev) \<Rightarrow>
        (case tick_function s of
           None \<Rightarrow> Inr ((c, s), idev, pdev)
         | Some FromPins \<Rightarrow> Inr ((c, s), idev, pdev)
         | Some FromWii \<Rightarrow>
             (case tickWiiExtInput (env_fuel env) (env_rd env) (env_wr env) (env_junk env)
                     (env_fullDeviceType env) (wii s)
                     \<lparr>wo_ctl = c, wo_buttons = wii_buttons s, wo_drum = drumVelocity (direct s)\<rparr> idev of
                None \<Rightarrow> Inl Diverges
              | Some (w', out, idev') \<Rightarrow>
                  Inr ((wo_ctl out,
                        s\<lparr>wii := w', wii_buttons := wo_buttons out,
                          direct := (direct s)\<lparr>drumVelocity := wo_drum out\<rparr>\<rparr>), idev', pdev))
         | Some FromPs2 \<Rightarrow>
             (case tickPS2CtrlInput (env_fuel env) (env_ps2 env) (env_guitar env) (c, lend_chip s) pdev of
                Inl e \<Rightarrow> Inl (of_ps2_error e)
              | Inr ((c', p'), pdev') \<Rightarrow> Inr ((c', return_chip p' s), idev, pdev'))))"

definition read_button :: "input_state \<Rightarrow> Pin_t \<Rightarrow> input_error + bool" where
  "read_button s pin =
     (case read_button_function s of
        None \<Rightarrow> Inl NullCall
      | Some FromPins \<Rightarrow>
          (case digitalReadPin (hw (an (direct s))) (joyData (an (direct s))) pin of
             None \<Rightarrow> Inl ArrayBounds | Some v \<Rightarrow> Inr v)
      | Some FromWii \<Rightarrow> Inr (readWiiButton (wii_buttons s) pin)
      | Some FromPs2 \<Rightarrow> Inr (readPS2Button (ps2CtrlType (ps2 s)) (buttonWord (ps2 s)) pin))"

text \<open>
  One pin of the debouncing loop. The comparison is between a truth value, 0 or 1, and the
  masked bit, 0 or \<open>2 ^ offset\<close>.
\<close>

definition debounce_index :: "bool \<Rightarrow> nat \<Rightarrow> nat" where
  "debounce_index merged i = (if merged \<and> i = btn XBOX_DPAD_UP then btn XBOX_DPAD_DOWN else i)"

definition debounce_pin ::
  "(nat \<Rightarrow> u32 \<times> u32) \<Rightarrow> nat \<Rightarrow> Controller_t \<times> input_state \<Rightarrow>
   input_error + (Controller_t \<times> input_state)" where
  "debounce_pin clk i cs =
     (case cs of (c, s) \<Rightarrow>
        let pins = pinData (direct s); pin = pins ! i;
            j = debounce_index (mergedStrum s) i; pin2 = pins ! j
        in if ucast (pin_milliDeBounce pin2) < fst (clk i) - pin_lastMillis pin2
           then and_then (read_button s pin) (\<lambda>val.
                  let off = unat (pin_offset pin)
                  in if of_bool val \<noteq> bit_check_m (buttons c) off
                     then Inr (c\<lparr>buttons := bit_write_m val (buttons c) off\<rparr>,
                               s\<lparr>direct := (direct s)\<lparr>pinData :=
                                   pins[j := pin2\<lparr>pin_lastMillis := snd (clk i)\<rparr>]\<rparr>\<rparr>)
                     else Inr (c, s))
           else Inr (c, s))"

fun debounce ::
  "(nat \<Rightarrow> u32 \<times> u32) \<Rightarrow> nat list \<Rightarrow> Controller_t \<times> input_state \<Rightarrow>
   input_error + (Controller_t \<times> input_state)" where
  "debounce clk [] cs = Inr cs"
| "debounce clk (i # is) cs = and_then (debounce_pin clk i cs) (debounce clk is)"

text \<open>The macro CHECK_JOY: 16-bit signed comparisons with the threshold and its negation.\<close>

definition CHECK_JOY :: "i16 \<Rightarrow> i16 \<Rightarrow> nat \<Rightarrow> nat \<Rightarrow> u16 \<Rightarrow> u16" where
  "CHECK_JOY joy threshold neg pos b =
     (let b1 = (if joy <s - threshold then bit_set_m b neg else b)
      in if threshold <s joy then bit_set_m b1 pos else b1)"

definition map_joystick :: "input_state \<Rightarrow> Controller_t \<Rightarrow> Controller_t" where
  "map_joystick s c =
     (if mapJoyLeftDpad s
      then c\<lparr>buttons :=
             CHECK_JOY (l_y c) (in_joyThreshold s) (btn XBOX_DPAD_DOWN) (btn XBOX_DPAD_UP)
              (CHECK_JOY (l_x c) (in_joyThreshold s) (btn XBOX_DPAD_LEFT) (btn XBOX_DPAD_RIGHT)
                (buttons c))\<rparr>
      else c)"

definition map_home :: "input_state \<Rightarrow> Controller_t \<Rightarrow> Controller_t" where
  "map_home s c =
     (if mapStartSelectHome s \<and> truthy (bit_check_m (buttons c) (btn XBOX_START)) \<and>
         truthy (bit_check_m (buttons c) (btn XBOX_BACK))
      then c\<lparr>buttons := bit_set_m (bit_clear_m (bit_clear_m (buttons c) (btn XBOX_START))
                          (btn XBOX_BACK)) (btn XBOX_HOME)\<rparr>
      else c)"

definition tickInputs ::
  "('i, 'p) input_env \<Rightarrow> Controller_t \<times> input_state \<Rightarrow> 'i \<times> 'p \<Rightarrow>
   input_error + ((Controller_t \<times> input_state) \<times> 'i \<times> 'p)" where
  "tickInputs env cs devs =
     and_then (tick_source env cs devs) (\<lambda>((c1, s1), idev, pdev).
       case tickDirectInput (env_adc env) (env_adc_busy env) (env_guitar env) (c1, direct s1) of
         None \<Rightarrow> Inl ArrayBounds
       | Some (c2, dir) \<Rightarrow>
           and_then (debounce (env_clk env) [0..<validPins dir] (c2, s1\<lparr>direct := dir\<rparr>))
             (\<lambda>(c3, s3).
                let c4 = map_home s3 (map_joystick s3 c3)
                in case tickGuitar (env_fifo env) (env_guitar env) (guitar s3) (c4, direct s3) of
                     (gs, c5, dir') \<Rightarrow>
                       Inr ((c5, s3\<lparr>guitar := gs, direct := dir'\<rparr>), idev, pdev)))"

section \<open>getVelocity\<close>

definition MIDI_STANDARD_VELOCITY :: u8 where "MIDI_STANDARD_VELOCITY = 64"

definition getVelocity :: "bool \<Rightarrow> input_state \<Rightarrow> Controller_t \<Rightarrow> nat \<Rightarrow> u8" where
  "getVelocity d s c off =
     (if off < XBOX_BTN_COUNT
      then (if d \<and> 8 < off \<and> off < 16 then drumVelocity (direct s) ! (off - 8)
            else if truthy (bit_check_m (buttons c) off) then MIDI_STANDARD_VELOCITY else 0)
      else if XBOX_BTN_COUNT + 2 < off
      then of_bool (in_triggerThreshold s < sticks_get c (off - XBOX_BTN_COUNT - 2))
      else of_bool (in_triggerThreshold s <s ucast (triggers_get c (off - XBOX_BTN_COUNT))))"

section \<open>Facts of the debouncing\<close>

lemma of_bool_check_same:
  assumes "of_bool v = bit_check_m (b :: u16) off" "off < 16"
  shows "bit b off = v"
  using assms by (metis bit_check_nonzero of_bool_eq_0_iff)

lemma debounce_pin_other:
  assumes "debounce_pin clk i (c, s) = Inr (c', s')"
    and "k \<noteq> unat (pin_offset (pinData (direct s) ! i))"
  shows "bit (buttons c') k = bit (buttons c) k"
  using assms
  by (auto simp: debounce_pin_def Let_def and_then_Inr bit_bit_write split: if_splits)

lemma map_update_same: "f y = f (xs ! j) \<Longrightarrow> map f (xs[j := y]) = map f xs"
  by (metis list_update_beyond list_update_id map_update not_le nth_map)

text \<open>A step of the loop changes one button bit and the time of one pin.\<close>

lemma debounce_pin_frame:
  assumes "debounce_pin clk i (c, s) = Inr (c', s')"
  shows "\<exists>b t. c' = c\<lparr>buttons := b\<rparr> \<and> (s' = s \<or> s' = s\<lparr>direct := (direct s)\<lparr>pinData :=
    (pinData (direct s))[debounce_index (mergedStrum s) i :=
      (pinData (direct s) ! debounce_index (mergedStrum s) i)\<lparr>pin_lastMillis := t\<rparr>]\<rparr>\<rparr>)"
proof -
  have "\<exists>b. x = x\<lparr>buttons := b\<rparr>" for x :: Controller_t
    by (rule exI [of _ "buttons x"]) simp
  with assms show ?thesis
    by (auto simp: debounce_pin_def Let_def and_then_Inr split: if_splits)
qed

lemma debounce_pin_offsets:
  assumes "debounce_pin clk i (c, s) = Inr (c', s')"
  shows "map pin_offset (pinData (direct s')) = map pin_offset (pinData (direct s))"
  using debounce_pin_frame [OF assms] by (auto simp: map_update_same)

lemma debounce_other:
  assumes "debounce clk is (c, s) = Inr (c', s')"
    and "\<forall>i\<in>set is. i < length (pinData (direct s)) \<and> k \<noteq> unat (map pin_offset (pinData (direct s)) ! i)"
  shows "bit (buttons c') k = bit (buttons c) k"
  using assms
proof (induction "is" arbitrary: c s)
  case (Cons i "is")
  then obtain c1 s1 where one: "debounce_pin clk i (c, s) = Inr (c1, s1)"
    "debounce clk is (c1, s1) = Inr (c', s')"
    by (auto simp: and_then_Inr)
  have "bit (buttons c1) k = bit (buttons c) k"
    using debounce_pin_other [OF one(1), of k] Cons.prems(2) by auto
  moreover have "bit (buttons c') k = bit (buttons c1) k"
    using Cons.IH [OF one(2)] debounce_pin_offsets [OF one(1)] Cons.prems(2)
    by (metis length_map list.set_intros(2))
  ultimately show ?case by simp
qed simp

lemma tick_analog_buttons:
  "tick_analog_inputs g is (c, s) = Some (c', s') \<Longrightarrow>
   buttons c' = buttons c \<and> pinData s' = pinData s \<and> validPins s' = validPins s"
proof (induction "is" arbitrary: c s)
  case (Cons i "is")
  have "pinData s1 = pinData s \<and> validPins s1 = validPins s \<and> buttons c1 = buttons c"
    if "tick_pad info (c, s) = Some (c1, s1) \<or> tick_axis g info (c, s) = Some (c1, s1)" for info c1 s1
    using that by (auto simp: tick_pad_def tick_axis_def Let_def split: if_splits)
  with Cons show ?case
    by (auto simp: Let_def bind_eq_Some_conv split: if_splits) metis+
qed simp

lemma fold_keeps: "(\<And>i s. P (f i s) = P s) \<Longrightarrow> P (fold f is s) = P s"
  by (induction "is" arbitrary: s) simp_all

lemma search_keeps:
  "pinData (search_analog adc is s) = pinData s \<and> validPins (search_analog adc is s) = validPins s"
  "pinData (stopSearching s) = pinData s \<and> validPins (stopSearching s) = validPins s"
  "pinData (search_digital is s) = pinData s \<and> validPins (search_digital is s) = validPins s"
proof -
  show "pinData (search_analog adc is s) = pinData s \<and> validPins (search_analog adc is s) = validPins s"
    by (induction "is" arbitrary: s) (auto simp: Let_def split: prod.splits)
  show stop: "pinData (stopSearching s) = pinData s \<and> validPins (stopSearching s) = validPins s" for s
    by (auto simp: stopSearching_def Let_def fold_keeps [where P = pinData]
        fold_keeps [where P = validPins])
  show "pinData (search_digital is s) = pinData s \<and> validPins (search_digital is s) = validPins s"
    using stop by (induction "is") auto
qed

lemma tickDirectInput_keeps:
  "tickDirectInput adc busy g (c, s) = Some (c', s') \<Longrightarrow>
   buttons c' = buttons c \<and> pinData s' = pinData s \<and> validPins s' = validPins s"
  using tick_analog_buttons [of g _ c "s\<lparr>an := tickAnalog adc busy (an s)\<rparr>" c' s']
  by (auto simp: tickDirectInput_def Let_def search_keeps split: if_splits)

lemma bit_CHECK_JOY: "k \<noteq> neg \<Longrightarrow> k \<noteq> pos \<Longrightarrow> bit (CHECK_JOY joy t neg pos b) k = bit b k"
  "bit b k \<Longrightarrow> bit (CHECK_JOY joy t neg pos b) k"
  by (auto simp: CHECK_JOY_def Let_def bit_bit_set)

lemma map_joystick_keeps: "bit (buttons c) k \<Longrightarrow> bit (buttons (map_joystick s c)) k"
  by (simp add: map_joystick_def bit_CHECK_JOY(2))

lemma map_home_keeps: "bit (buttons c) k \<Longrightarrow> k \<noteq> 4 \<Longrightarrow> k \<noteq> 5 \<Longrightarrow> bit (buttons (map_home s c)) k"
  by (auto simp: map_home_def bit_bit_set bit_bit_clear)

lemma tickGuitar_buttons: "tickGuitar fifo g gs (c, s) = (gs', c', s') \<Longrightarrow> buttons c' = buttons c"
  by (auto simp: tickGuitar_def tickMPUTilt_def tickDigitalTilt_def Let_def
      split: if_splits option.splits tilt_tick.splits)

section \<open>The invariant of the poll\<close>

text \<open>
  What the initialisation establishes on a board that is not a drum kit and every poll keeps: the
  counters stay inside their arrays, every analogue input drives one of the six axes, every pin
  one of the sixteen buttons, and no pin reads an analogue input.
\<close>

definition analog_ok :: "analog_state \<Rightarrow> bool" where
  "analog_ok a \<longleftrightarrow> length (joyData a) = NUM_ANALOG_INPUTS \<and> validAnalog a \<le> NUM_ANALOG_INPUTS \<and>
     (validAnalog a = 0 \<or> currentAnalog a < validAnalog a) \<and>
     (\<forall>i<validAnalog a. \<not> ai_hasDigital (joyData a ! i) \<and>
        unat (ai_offset (joyData a ! i)) < XBOX_AXIS_COUNT)"

definition pins_ok :: "nat \<Rightarrow> Pin_t list \<Rightarrow> bool" where
  "pins_ok n ps \<longleftrightarrow> n \<le> XBOX_BTN_COUNT \<and> length ps = XBOX_BTN_COUNT \<and>
     (\<forall>i<n. unat (pin_offset (ps ! i)) < XBOX_BTN_COUNT \<and> pin_analogOffset (ps ! i) = INVALID_PIN)"

definition direct_ok :: "direct_state \<Rightarrow> bool" where
  "direct_ok s \<longleftrightarrow> analog_ok (an s) \<and> pins_ok (validPins s) (pinData s) \<and>
     length (analogueData s) = XBOX_AXIS_COUNT \<and> length (scales s) = XBOX_AXIS_COUNT"

definition input_wf :: "input_state \<Rightarrow> bool" where
  "input_wf s \<longleftrightarrow> direct_ok (direct s) \<and> read_button_function s \<noteq> None \<and>
     length (inputBuffer (ps2 s)) = PS2_BUFFER_SIZE"

lemma analog_ok_hw [simp]: "analog_ok (a\<lparr>hw := h\<rparr>) = analog_ok a"
  by (simp add: analog_ok_def)

lemma direct_ok_upd [simp]:
  "direct_ok (s\<lparr>drumVelocity := v\<rparr>) = direct_ok s" "direct_ok (s\<lparr>detectedPin := p\<rparr>) = direct_ok s"
  "direct_ok (s\<lparr>lookingForDigital := b\<rparr>) = direct_ok s"
  "direct_ok (s\<lparr>lookingForAnalog := b\<rparr>) = direct_ok s"
  "direct_ok (s\<lparr>lastAnalogValue := av\<rparr>) = direct_ok s"
  "direct_ok (s\<lparr>lastDigitalValue := dv\<rparr>) = direct_ok s"
  "direct_ok (s\<lparr>an := (an s)\<lparr>hw := h\<rparr>\<rparr>) = direct_ok s"
  "direct_ok (s\<lparr>analogueData := (analogueData s)[k := x]\<rparr>) = direct_ok s"
  by (simp_all add: direct_ok_def)

lemma tickAnalog_ok: "analog_ok a \<Longrightarrow> analog_ok (tickAnalog adc busy a)"
  by (auto simp: analog_ok_def tickAnalog_def start_conversion_def Let_def nth_list_update
      split: if_splits)

lemma search_analog_ok: "direct_ok (search_analog adc is s) = direct_ok s"
  by (induction "is" arbitrary: s) (auto simp: Let_def split: prod.splits)

lemma stopSearching_ok: "direct_ok (stopSearching s) = direct_ok s"
  by (auto simp: stopSearching_def Let_def fold_keeps [where P = direct_ok])

lemma search_digital_ok: "direct_ok (search_digital is s) = direct_ok s"
  by (induction "is" arbitrary: s) (auto simp: stopSearching_ok)

lemma tick_analog_inputs_ok:
  assumes "direct_ok s" "\<forall>i\<in>set is. i < validAnalog (an s)"
  shows "\<exists>c' s'. tick_analog_inputs g is (c, s) = Some (c', s') \<and> direct_ok s'"
  using assms
proof (induction "is" arbitrary: c s)
  case (Cons i "is")
  let ?info = "joyData (an s) ! i"
  have info: "\<not> ai_hasDigital ?info" "unat (ai_offset ?info) < 6"
    using Cons.prems by (auto simp: direct_ok_def analog_ok_def XBOX_AXIS_COUNT_def)
  have "\<exists>c1 s1. tick_axis g ?info (c, s) = Some (c1, s1) \<and> direct_ok s1 \<and> an s1 = an s"
    using info Cons.prems(1) by (auto simp: tick_axis_def Let_def direct_ok_def XBOX_AXIS_COUNT_def)
  then obtain c1 s1 where "tick_axis g ?info (c, s) = Some (c1, s1)" "direct_ok s1" "an s1 = an s"
    by blast
  with Cons.IH [of s1 c1] Cons.IH [of s c] Cons.prems info(1) show ?case by (auto simp: Let_def)
qed simp

lemma tickDirectInput_ok:
  assumes "direct_ok s"
  shows "\<exists>c' s'. tickDirectInput adc busy g (c, s) = Some (c', s') \<and> direct_ok s'"
proof -
  define s1 where "s1 = s\<lparr>an := tickAnalog adc busy (an s)\<rparr>"
  have s1: "direct_ok s1" using assms tickAnalog_ok by (simp add: s1_def direct_ok_def)
  then have "validAnalog (an s1) \<le> length (joyData (an s1))"
    by (simp add: direct_ok_def analog_ok_def)
  with s1 tick_analog_inputs_ok [OF s1, of "[0..<validAnalog (an s1)]" g c] assms show ?thesis
    by (auto simp: tickDirectInput_def Let_def search_analog_ok search_digital_ok s1_def [symmetric])
qed

lemma read_button_ok:
  assumes "read_button_function s \<noteq> None" "pin_analogOffset p = INVALID_PIN"
  shows "\<exists>v. read_button s p = Inr v"
  using assms by (auto simp: read_button_def digitalReadPin_def split: source.splits)

lemma debounce_pin_ok:
  assumes "input_wf s" "i < validPins (direct s)"
  shows "\<exists>c' s'. debounce_pin clk i (c, s) = Inr (c', s') \<and> input_wf s' \<and>
    validPins (direct s') = validPins (direct s)"
proof -
  have ok: "pin_analogOffset (pinData (direct s) ! i) = INVALID_PIN" "read_button_function s \<noteq> None"
    using assms by (auto simp: input_wf_def direct_ok_def pins_ok_def)
  obtain v where v: "read_button s (pinData (direct s) ! i) = Inr v"
    using read_button_ok [OF ok(2,1)] by blast
  have "pins_ok (validPins (direct s)) ((pinData (direct s))[j := (pinData (direct s) ! j)\<lparr>pin_lastMillis := t\<rparr>])"
    for j t
    using assms
    by (cases "j < length (pinData (direct s))")
       (auto simp: input_wf_def direct_ok_def pins_ok_def nth_list_update)
  with assms(1) v show ?thesis
    by (auto simp: debounce_pin_def Let_def input_wf_def direct_ok_def)
qed

lemma debounce_ok:
  assumes "input_wf s" "\<forall>i\<in>set is. i < validPins (direct s)"
  shows "\<exists>c' s'. debounce clk is (c, s) = Inr (c', s') \<and> input_wf s'"
  using assms
proof (induction "is" arbitrary: c s)
  case (Cons i "is")
  obtain c1 s1 where "debounce_pin clk i (c, s) = Inr (c1, s1)" "input_wf s1"
    "validPins (direct s1) = validPins (direct s)"
    using debounce_pin_ok [OF Cons.prems(1), of i clk c] Cons.prems(2) by auto
  with Cons.IH [of s1 c1] Cons.prems(2) show ?case by auto
qed simp

lemma tick_source_ok:
  assumes "input_wf s"
  shows "tick_source env (c, s) devs = Inl Diverges \<or>
    (\<exists>c' s' devs'. tick_source env (c, s) devs = Inr ((c', s'), devs') \<and> input_wf s')"
proof -
  have len: "length (inputBuffer (snd (c, lend_chip s))) = PS2_BUFFER_SIZE"
    using assms by (simp add: input_wf_def lend_chip_def)
  have "in_bounds (\<lambda>(cs, dev). snd cs)
      (tickPS2CtrlInput (env_fuel env) (env_ps2 env) (env_guitar env) (c, lend_chip s) (snd devs))"
    by (rule tickPS2CtrlInput_in_bounds [OF len])
  then show ?thesis
    using assms
    by (auto simp: tick_source_def in_bounds_def input_wf_def return_chip_def
        split: prod.splits option.splits source.splits)
qed

lemma tickGuitar_ok: "tickGuitar fifo g gs (c, s) = (gs', c', s') \<Longrightarrow> direct_ok s \<Longrightarrow> direct_ok s'"
  by (auto simp: tickGuitar_def tickMPUTilt_def tickDigitalTilt_def Let_def
      split: if_splits option.splits tilt_tick.splits)

lemma initDirectInput_ok:
  assumes "direct_wf s"
  shows "\<exists>s'. initDirectInput g False config s = Some s' \<and> direct_ok s'"
proof -
  obtain s' where s': "initDirectInput g False config s = Some s'"
    and n: "validPins s' = length (configured_pins config)" "length (pinData s') = 16"
    and pins: "map pin_key (take (validPins s') (pinData s')) =
      map (expected_key g config) (configured_pins config)"
    and joy: "take (validAnalog (an s')) (joyData (an s')) =
      map (analog_info config) (filter (analog_wanted g config) [0..<6])"
    and lens: "length (joyData (an s')) = 6" "currentAnalog (an s') = 0"
      "validAnalog (an s') = length (filter (analog_wanted g config) [0..<6])"
      "length (analogueData s') = 6" "length (scales s') = 6"
    using initDirectInput_fits [OF assms, of False g config] by (auto simp: XBOX_BTN_COUNT_def)
  have fits: "validPins s' \<le> 16" "validAnalog (an s') \<le> 6"
    using n(1) lens(3) length_filter_le [of _ "[0..<16]"] length_filter_le [of _ "[0..<6]"]
    by (simp_all only: configured_pins_def XBOX_BTN_COUNT_def length_upt)
       (metis diff_zero)+
  have "unat (pin_offset (pinData s' ! i)) < 16 \<and> pin_analogOffset (pinData s' ! i) = INVALID_PIN"
    if i: "i < validPins s'" for i
  proof -
    have "pin_key (pinData s' ! i) = map pin_key (take (validPins s') (pinData s')) ! i"
      using i n fits by simp
    also have "\<dots> = expected_key g config (configured_pins config ! i)"
      unfolding pins using i n(1) by simp
    finally have key: "pin_key (pinData s' ! i) = expected_key g config (configured_pins config ! i)" .
    have "configured_pins config ! i \<in> set (configured_pins config)" using i n(1) by simp
    then have "configured_pins config ! i < 16" by (simp add: configured_pins_def XBOX_BTN_COUNT_def)
    with key show ?thesis by (simp add: pin_key_def expected_key_def)
  qed
  moreover have "\<not> ai_hasDigital (joyData (an s') ! i) \<and> unat (ai_offset (joyData (an s') ! i)) < 6"
    if i: "i < validAnalog (an s')" for i
  proof -
    define ws where "ws = filter (analog_wanted g config) [0..<6]"
    have len: "i < length ws" using i lens(3) by (simp only: ws_def)
    have "joyData (an s') ! i = take (validAnalog (an s')) (joyData (an s')) ! i" using i by simp
    also have "\<dots> = analog_info config (ws ! i)"
      unfolding joy ws_def [symmetric] using len by simp
    finally have info: "joyData (an s') ! i = analog_info config (ws ! i)" .
    have "ws ! i \<in> set ws" using len by simp
    then have "ws ! i < 6" by (simp add: ws_def)
    with info show ?thesis by (simp add: analog_info_def Let_def unat_of_nat)
  qed
  ultimately show ?thesis
    using s' n lens fits
    by (auto simp: direct_ok_def pins_ok_def analog_ok_def XBOX_BTN_COUNT_def NUM_ANALOG_INPUTS_def
        XBOX_AXIS_COUNT_def simp del: upt.simps)
qed

definition reset_input :: "input_state \<Rightarrow> bool" where
  "reset_input s \<longleftrightarrow> direct_wf (direct s) \<and> length (inputBuffer (ps2 s)) = PS2_BUFFER_SIZE \<and>
     read_button_function s = None"

lemma initPS2_buffer:
  "initPS2CtrlInput bus junk config p dev = (p', regs, dev') \<Longrightarrow>
   length (inputBuffer p') = length (inputBuffer p)"
  by (auto simp: initPS2CtrlInput_def noAttention_def Let_def split: prod.splits)

lemma direct_wf_hw: "direct_wf (s\<lparr>an := (an s)\<lparr>hw := h\<rparr>\<rparr>) = direct_wf s"
  by (simp add: direct_wf_def)

lemma init_source_ok:
  assumes "init_source env junk config (s, pdev) = (s', pdev')" "reset_input s"
  shows "direct_wf (direct s') \<and> length (inputBuffer (ps2 s')) = PS2_BUFFER_SIZE \<and>
    (read_button_function s' \<noteq> None \<longleftrightarrow>
       inputType (cfg_main config) \<in> {input_val WII, input_val DIRECT, input_val PS2})"
  using assms
  by (auto simp: init_source_def reset_input_def Let_def return_chip_def lend_chip_def direct_wf_hw
      dest!: initPS2_buffer split: if_splits prod.splits)

lemma initGuitar_ok: "initGuitar g config (gs, s) = (gs', s') \<Longrightarrow> direct_ok s \<Longrightarrow> direct_ok s'"
  by (auto simp: initGuitar_def Let_def split: if_splits)

section \<open>Properties\<close>

text \<open>
  C22: debouncing one pin: outside its interval after its last change a pin is ignored; after it the
  button's bit is the level that was read, and no other bit moves. A held button other than the
  first restarts its interval at every poll, so its release is seen late.
\<close>

theorem debounce_pin_correct:
  assumes "read_button s (pinData (direct s) ! i) = Inr val"
    and "off = unat (pin_offset (pinData (direct s) ! i))" "off < 16"
    and "j = debounce_index (mergedStrum s) i" "j < length (pinData (direct s))"
    and "pj = pinData (direct s) ! j"
  shows "\<exists>c' s'. debounce_pin clk i (c, s) = Inr (c', s') \<and>
    (if ucast (pin_milliDeBounce pj) < fst (clk i) - pin_lastMillis pj
     then (\<forall>k. bit (buttons c') k = (if k = off then val else bit (buttons c) k)) \<and>
          (bit (buttons c) off = val \<and> (val \<longrightarrow> off = 0) \<longrightarrow> s' = s) \<and>
          (bit (buttons c) off \<noteq> val \<or> val \<and> off \<noteq> 0 \<longrightarrow>
             pin_lastMillis (pinData (direct s') ! j) = snd (clk i))
     else c' = c \<and> s' = s)"
proof -
  have same: "of_bool val = bit_check_m (buttons c) off \<longleftrightarrow>
      bit (buttons c) off = val \<and> (val \<longrightarrow> off = 0)"
  proof (cases val)
    case True
    have "(1 :: u16) = bit_check_m (buttons c) off \<longleftrightarrow> bit (buttons c) off \<and> off = 0"
    proof
      assume eq: "1 = bit_check_m (buttons c) off"
      then have "bit (bit_check_m (buttons c) off) 0" by (metis bit_1_0)
      then show "bit (buttons c) off \<and> off = 0" by (auto simp: bit_check_m_def bit_and_iff bit_bv)
    next
      assume "bit (buttons c) off \<and> off = 0"
      then show "1 = bit_check_m (buttons c) off"
        by (intro bit_word_eqI) (auto simp: bit_check_m_def bit_and_iff bit_bv bit_1_iff)
    qed
    with True show ?thesis by auto
  next
    case False
    then show ?thesis by (metis bit_check_zero of_bool_eq_0_iff)
  qed
  show ?thesis
    using assms same by (auto simp: debounce_pin_def Let_def bit_bit_write)
qed

definition blank_input :: input_state where
  "blank_input = \<lparr>direct = blank_direct, wii = \<lparr>wiiExtensionID = wii_ext_val WII_NO_EXTENSION,
       wii_bytes = 6, mapAccel = False, readFunction = None\<rparr>, wii_buttons = 0, ps2 = ps2_reset,
     guitar = \<lparr>mpuTilt = 0, mpuOrientation = 0, tiltPin = 0, tiltInverted = False,
       guitar_scale = DEFAULT_AXIS_SCALE, guitar_tick = None\<rparr>,
     tick_function = None, read_button_function = None, in_joyThreshold = 0,
     in_triggerThreshold = 0, mapJoyLeftDpad = False, mapStartSelectHome = False,
     mergedStrum = False\<rparr>"

definition blank_controller :: Controller_t where
  "blank_controller = \<lparr>buttons = 0, lt = 0, rt = 0, l_x = 0, l_y = 0, r_x = 0, r_y = 0\<rparr>"

text \<open>A Wii button word with bit 13 set, read by a pin bound to it (offset 14, X) that is held.\<close>

theorem debounce_pin_witness:
  "let p = blank_pin\<lparr>pin_offset := 14, pin_milliDeBounce := 5\<rparr>;
       s = blank_input\<lparr>read_button_function := Some FromWii, wii_buttons := bv 13,
             direct := blank_direct\<lparr>pinData := replicate 16 p\<rparr>\<rparr>;
       c = blank_controller\<lparr>buttons := bv 14\<rparr>
   in \<exists>c' s'. debounce_pin (\<lambda>_. (100, 101)) 0 (c, s) = Inr (c', s') \<and>
        (\<forall>k. bit (buttons c') k = (k = 14)) \<and> pin_lastMillis (pinData (direct s') ! 0) = 101"
proof -
  define p where "p = blank_pin\<lparr>pin_offset := 14, pin_milliDeBounce := 5\<rparr>"
  define s where "s = blank_input\<lparr>read_button_function := Some FromWii, wii_buttons := bv 13,
             direct := blank_direct\<lparr>pinData := replicate 16 p\<rparr>\<rparr>"
  define c where "c = blank_controller\<lparr>buttons := bv 14\<rparr>"
  have 1: "read_button s (pinData (direct s) ! 0) = Inr True"
    by (simp add: s_def p_def read_button_def readWiiButton_def wiiButtonBindings_def INVALID_PIN_def
        bit_check_m_def bv_def)
  have 2: "14 = unat (pin_offset (pinData (direct s) ! 0))" by (simp add: s_def p_def)
  have 3: "0 = debounce_index (mergedStrum s) 0"
    by (simp add: s_def blank_input_def debounce_index_def)
  have 4: "0 < length (pinData (direct s))" by (simp add: s_def)
  have 5: "p = pinData (direct s) ! 0" by (simp add: s_def)
  have 6: "ucast (pin_milliDeBounce p) < fst (100 :: u32, 101 :: u32) - pin_lastMillis p"
    by (simp add: p_def blank_pin_def)
  obtain c' s' where *: "debounce_pin (\<lambda>_. (100, 101)) 0 (c, s) = Inr (c', s')"
    "\<forall>k. bit (buttons c') k = (if k = 14 then True else bit (buttons c) k)"
    "pin_lastMillis (pinData (direct s') ! 0) = snd (100, 101)"
    using debounce_pin_correct [OF 1 2 _ 3 4 5, of "\<lambda>_. (100, 101)" c] 6 by force
  have "\<forall>k. bit (buttons c') k = (k = 14)" using *(2) by (simp add: c_def bit_bv)
  with *(1,3) show ?thesis
    unfolding Let_def p_def [symmetric] s_def [symmetric] c_def [symmetric] by auto
qed

text \<open>
  A button bit that no configured pin drives is never cleared: with the pins read directly,
  once the joystick mapping has set a d-pad direction, or the start and select mapping the home
  button, of a board without that pin, the bit stays set in every later poll.
\<close>

theorem undriven_button_sticks:
  assumes "tickInputs env (c, s) devs = Inr ((c', s'), devs')"
    and "tick_function s = None"
    and "validPins (direct s) \<le> length (pinData (direct s))"
    and "\<forall>p\<in>set (take (validPins (direct s)) (pinData (direct s))). unat (pin_offset p) \<noteq> k"
    and "bit (buttons c) k" "k \<noteq> btn XBOX_START" "k \<noteq> btn XBOX_BACK"
  shows "bit (buttons c') k"
proof -
  have src: "tick_source env (c, s) devs = Inr ((c, s), fst devs, snd devs)"
    using assms(2) by (simp add: tick_source_def split: prod.splits)
  obtain c2 dir where dir: "tickDirectInput (env_adc env) (env_adc_busy env) (env_guitar env)
      (c, direct s) = Some (c2, dir)"
    using assms(1) src by (cases "tickDirectInput (env_adc env) (env_adc_busy env) (env_guitar env)
      (c, direct s)") (auto simp: tickInputs_def)
  obtain r where deb: "debounce (env_clk env) [0..<validPins dir] (c2, s\<lparr>direct := dir\<rparr>) = Inr r"
    using assms(1) src dir
    by (cases "debounce (env_clk env) [0..<validPins dir] (c2, s\<lparr>direct := dir\<rparr>)")
       (auto simp: tickInputs_def)
  obtain c3 s3 where r: "r = (c3, s3)" by (cases r)
  have c': "\<exists>gs d'. tickGuitar (env_fifo env) (env_guitar env) (guitar s3)
      (map_home s3 (map_joystick s3 c3), direct s3) = (gs, c', d')"
    using assms(1) src dir deb r by (auto simp: tickInputs_def Let_def split: prod.splits)
  note deb = deb [unfolded r]
  note keeps = tickDirectInput_keeps [OF dir]
  have "bit (buttons c3) k = bit (buttons c2) k"
  proof (rule debounce_other [OF deb])
    show "\<forall>i\<in>set [0..<validPins dir]. i < length (pinData (direct (s\<lparr>direct := dir\<rparr>))) \<and>
        k \<noteq> unat (map pin_offset (pinData (direct (s\<lparr>direct := dir\<rparr>))) ! i)"
      using keeps assms(3,4) by (auto simp: set_conv_nth)
  qed
  with keeps assms(5) have "bit (buttons c3) k" by simp
  then have "bit (buttons (map_home s3 (map_joystick s3 c3))) k"
    using assms(6,7) by (intro map_home_keeps map_joystick_keeps) simp_all
  with c' show ?thesis by (metis tickGuitar_buttons)
qed

text \<open>A board without pins whose home bit was set earlier.\<close>

definition quiet_env :: "(unit, nat) input_env" where
  "quiet_env = \<lparr>env_twi_init = (\<lambda>d. d), env_rd = (\<lambda>_ _ _ d. ((False, []), d)),
     env_wr = (\<lambda>_ _ _ d. (True, d)), env_junk = (\<lambda>_ _. 0), env_ps2 = silent_bus,
     env_adc = (\<lambda>_. 512), env_adc_busy = False, env_fifo = None, env_clk = (\<lambda>_. (100, 101)),
     env_fullDeviceType = 1, env_guitar = False, env_fuel = 26\<rparr>"

theorem undriven_button_witness:
  "\<exists>c' s' devs'. tickInputs quiet_env (blank_controller\<lparr>buttons := bv 10\<rparr>, blank_input) ((), 0) =
      Inr ((c', s'), devs') \<and> bit (buttons c') 10"
proof -
  have "\<exists>r devs'. tickInputs quiet_env (blank_controller\<lparr>buttons := bv 10\<rparr>, blank_input) ((), 0) =
      Inr (r, devs')"
    by (simp add: tickInputs_def tick_source_def quiet_env_def blank_input_def blank_direct_def
        tickDirectInput_def tickAnalog_def blank_analog_def tickGuitar_def Let_def)
  then obtain c' s' devs' where t: "tickInputs quiet_env (blank_controller\<lparr>buttons := bv 10\<rparr>,
      blank_input) ((), 0) = Inr ((c', s'), devs')" by auto
  have "bit (buttons c') 10"
    by (rule undriven_button_sticks [OF t])
       (simp_all add: blank_input_def blank_direct_def bit_bv)
  with t show ?thesis by blast
qed

text \<open>
  The joystick threshold: up to 127 a direction is pressed exactly beyond 256 times the
  configured value; from 128 on the product wraps, and the positive direction is pressed for
  every stick position but one at 128.
\<close>

theorem CHECK_JOY_threshold:
  "let t = push_bit 8 (ucast (v :: u8)) :: i16; b' = CHECK_JOY joy t neg pos b
   in (v < 128 \<longrightarrow> neg < 16 \<and> pos < 16 \<longrightarrow> neg \<noteq> pos \<longrightarrow>
         bit b' neg = (bit b neg \<or> sint joy < - 256 * uint v) \<and>
         bit b' pos = (bit b pos \<or> 256 * uint v < sint joy)) \<and>
      (v = 128 \<longrightarrow> pos < 16 \<longrightarrow> joy \<noteq> - 32768 \<longrightarrow> bit b' pos)"
proof -
  define t where "t = (push_bit 8 (ucast v) :: i16)"
  have t: "t = word_of_int (256 * uint v)" by (simp add: t_def push_bit_eq_mult)
  have small: "sint t = 256 * uint v \<and> sint (- t) = - 256 * uint v" if "v < 128"
  proof -
    have v: "0 \<le> uint v" "uint v < 128" using that u8_bound(2) [of v] by (auto simp: word_less_alt)
    have "sint t = 256 * uint v"
      unfolding t by (rule sint_of_int_16) (use v in linarith)+
    moreover have "- t = word_of_int (- 256 * uint v)" by (simp add: t)
    moreover have "sint (word_of_int (- 256 * uint v) :: i16) = - 256 * uint v"
      by (rule sint_of_int_16) (use v in linarith)+
    ultimately show ?thesis by metis
  qed
  have "t <s joy" if "v = 128" "joy \<noteq> - 32768"
  proof -
    have "t = - 32768" using that(1) by (simp add: t)
    moreover have "sint joy \<noteq> - 32768" using that(2) signed_word_eqI [of joy "- 32768"] by auto
    ultimately show ?thesis using i16_bound [of joy] by (simp add: word_sless_alt)
  qed
  with small show ?thesis
    unfolding Let_def t_def [symmetric]
    by (auto simp: CHECK_JOY_def Let_def bit_bit_set word_sless_alt)
qed

theorem CHECK_JOY_threshold_witness:
  "bit (CHECK_JOY 16385 (push_bit 8 (ucast (64 :: u8))) 2 3 0) 3 \<and>
   \<not> bit (CHECK_JOY 16384 (push_bit 8 (ucast (64 :: u8))) 2 3 0) 3 \<and>
   bit (CHECK_JOY 0 (push_bit 8 (ucast (128 :: u8))) 2 3 0) 3"
  using CHECK_JOY_threshold [of 64 16385 2 3 0] CHECK_JOY_threshold [of 64 16384 2 3 0]
    CHECK_JOY_threshold [of 128 0 2 3 0]
  by (simp add: Let_def)

text \<open>
  C25: a poll of the inputs never leaves its arrays and never calls through an unset pointer: from
  a state that satisfies the invariant it either polls one of the buses for ever or ends in such a
  state, whatever the controllers, the converter and the sensor answer.
\<close>

theorem tickInputs_safe:
  assumes "input_wf s"
  shows "tickInputs env (c, s) devs = Inl Diverges \<or>
    (\<exists>c' s' devs'. tickInputs env (c, s) devs = Inr ((c', s'), devs') \<and> input_wf s')"
proof (cases "tick_source env (c, s) devs = Inl Diverges")
  case False
  then obtain c1 s1 i1 p1 where src: "tick_source env (c, s) devs = Inr ((c1, s1), i1, p1)"
    "input_wf s1"
    using tick_source_ok [OF assms, of env c devs] by auto
  obtain c2 dir where dir: "tickDirectInput (env_adc env) (env_adc_busy env) (env_guitar env)
      (c1, direct s1) = Some (c2, dir)" "direct_ok dir"
    using tickDirectInput_ok [of "direct s1"] src(2) by (metis input_wf_def)
  have wf: "input_wf (s1\<lparr>direct := dir\<rparr>)" using src(2) dir(2) by (simp add: input_wf_def)
  obtain c3 s3 where deb: "debounce (env_clk env) [0..<validPins dir] (c2, s1\<lparr>direct := dir\<rparr>) = Inr (c3, s3)"
    "input_wf s3"
    using debounce_ok [OF wf, of "[0..<validPins dir]" "env_clk env" c2] by auto
  obtain gs c5 dir' where g: "tickGuitar (env_fifo env) (env_guitar env) (guitar s3)
      (map_home s3 (map_joystick s3 c3), direct s3) = (gs, c5, dir')" by (metis prod_cases3)
  have "input_wf (s3\<lparr>guitar := gs, direct := dir'\<rparr>)"
    using tickGuitar_ok [OF g] deb(2) by (simp add: input_wf_def)
  with src(1) dir(1) deb(1) g show ?thesis by (simp add: tickInputs_def Let_def)
qed (simp add: tickInputs_def)

theorem tickInputs_safe_witness:
  "let s = blank_input\<lparr>read_button_function := Some FromPins\<rparr>
   in \<exists>r. tickInputs quiet_env (blank_controller, s) ((), 0) = r \<and>
     (r = Inl Diverges \<or> (\<exists>c' s' devs'. r = Inr ((c', s'), devs') \<and> input_wf s'))"
proof -
  have "input_wf (blank_input\<lparr>read_button_function := Some FromPins\<rparr>)"
    by (simp add: input_wf_def direct_ok_def analog_ok_def pins_ok_def blank_input_def
        blank_direct_def blank_analog_def NUM_ANALOG_INPUTS_def XBOX_BTN_COUNT_def
        XBOX_AXIS_COUNT_def ps2_reset_def PS2_BUFFER_SIZE_def)
  from tickInputs_safe [OF this, of quiet_env blank_controller "((), 0)"]
  show ?thesis by (simp add: Let_def)
qed

text \<open>
  C26: after the initialisation of a board that is not a drum kit the invariant of the poll holds
  exactly if the configured input type is one of the three the code knows; with another value
  the pointer to the button reader stays unset.
\<close>

theorem initInputs_establishes:
  assumes "reset_input s"
  shows "\<exists>s' devs'. initInputs env junk False config s devs = Inr (s', devs') \<and>
    (input_wf s' \<longleftrightarrow> inputType (cfg_main config) \<in> {input_val WII, input_val DIRECT, input_val PS2})"
proof -
  define s0 where "s0 = s\<lparr>mapJoyLeftDpad := mapLeftJoystickToDPad (cfg_main config),
                 mapStartSelectHome := mapStartSelectToHome (cfg_main config),
                 mergedStrum := env_guitar env \<and> combinedStrum (cfg_debounce config),
                 direct := on_hw setupADC (direct s)\<rparr>"
  have s0: "reset_input s0" using assms by (simp add: s0_def reset_input_def direct_wf_hw)
  obtain s2 pdev where src: "init_source env junk config (s0, snd devs) = (s2, pdev)" by force
  obtain s3 idev where bus: "init_buses env junk config (s2, fst devs) = (s3, idev)" by force
  have s3: "direct_wf (direct s3)" "length (inputBuffer (ps2 s3)) = PS2_BUFFER_SIZE"
    "read_button_function s3 \<noteq> None \<longleftrightarrow>
       inputType (cfg_main config) \<in> {input_val WII, input_val DIRECT, input_val PS2}"
    using init_source_ok [OF src s0] bus by (auto simp: init_buses_def direct_wf_hw split: if_splits)
  obtain dir where dir: "initDirectInput (env_guitar env) False config (direct s3) = Some dir"
    "direct_ok dir"
    using initDirectInput_ok [OF s3(1)] by blast
  obtain gs dir' where g: "initGuitar (env_guitar env) config (guitar s3, dir) = (gs, dir')" by force
  show ?thesis
    using src bus dir g s3 initGuitar_ok [OF g]
    by (simp add: initInputs_def s0_def [symmetric] Let_def input_wf_def)
qed

theorem initInputs_witness:
  "\<exists>s' devs'. initInputs quiet_env 0 False DEFAULT_CONFIG blank_input ((), 0) = Inr (s', devs') \<and>
     input_wf s'"
proof -
  have "reset_input blank_input"
    using blank_direct_wf by (simp add: reset_input_def blank_input_def ps2_reset_def PS2_BUFFER_SIZE_def)
  from initInputs_establishes [OF this, of quiet_env 0 DEFAULT_CONFIG "((), 0)"]
  show ?thesis by (simp add: DEFAULT_CONFIG_def DEFAULT_CONFIG_MAIN_def)
qed

end
