(* ===== verification/Reports.thy ===== *)
theory Reports
  imports Input
begin

text \<open>
  The reports sent to the host (\<open>src/src/shared/output/reports.c\<close>, \<open>reports/*.h\<close>,
  \<open>controller_structs.h\<close>): how each kind of report is filled from the state of the controller.

  Every filler works on the one static buffer of the main program, which is never cleared: a
  filler takes the report of the last time and returns the new one with its size.
\<close>

section \<open>controller\_structs.h\<close>

definition SIMULTANEOUS_KEYS :: nat where "SIMULTANEOUS_KEYS = 6"

record USB_PS3Report_Data_t =
  ps3_rid :: u8
  ps3_buttons :: u16
  ps3_hat :: u8
  ps3_l_x :: u8
  ps3_l_y :: u8
  ps3_r_x :: u8
  ps3_r_y :: u8
  ps3_axis :: "u8 list"
  ps3_accel :: "i16 list"

record USB_XInputReport_Data_t =
  xi_rid :: u8
  xi_rsize :: u8
  xi_data :: Controller_t
  xi_reserved :: "u8 list"

record MIDI_EventPacket_t =
  ev_event :: u8
  ev_data1 :: u8
  ev_data2 :: u8
  ev_data3 :: u8

record USB_MIDI_Data_t =
  midi_rid :: u8
  midi_events :: "MIDI_EventPacket_t list"

record USB_ID_MouseReport_Data_t =
  mouse_rid :: u8
  mouse_button :: u8
  mouse_x :: "8 word"
  mouse_y :: "8 word"
  mouse_scroll_y :: "8 word"
  mouse_scroll_x :: "8 word"

record USB_ID_KeyboardReport_Data_t =
  kbd_rid :: u8
  kbd_modifier :: u8
  kbd_reserved :: u8
  kbd_keys :: "u8 list"

datatype HID_Report =
    REPORT_ID_XINPUT | REPORT_ID_XINPUT_2 | REPORT_ID_XINPUT_3 | REPORT_ID_XINPUT_4
  | REPORT_ID_GAMEPAD | REPORT_ID_MOUSE | REPORT_ID_KBD | REPORT_ID_MIDI | REPORT_ID_CONTROL

fun report_id :: "HID_Report \<Rightarrow> u8" where
  "report_id REPORT_ID_XINPUT = 0" | "report_id REPORT_ID_XINPUT_2 = 1"
| "report_id REPORT_ID_XINPUT_3 = 2" | "report_id REPORT_ID_XINPUT_4 = 3"
| "report_id REPORT_ID_GAMEPAD = 4" | "report_id REPORT_ID_MOUSE = 5" | "report_id REPORT_ID_KBD = 6"
| "report_id REPORT_ID_MIDI = 7" | "report_id REPORT_ID_CONTROL = 8"

text \<open>The bytes of the structs, which have no padding on this chip.\<close>

definition ps3_bytes :: "USB_PS3Report_Data_t \<Rightarrow> u8 list" where
  "ps3_bytes r = [ps3_rid r] @ le16 (ps3_buttons r) @
     [ps3_hat r, ps3_l_x r, ps3_l_y r, ps3_r_x r, ps3_r_y r] @ ps3_axis r @
     concat (map le16 (ps3_accel r))"

definition xinput_bytes :: "USB_XInputReport_Data_t \<Rightarrow> u8 list" where
  "xinput_bytes r = [xi_rid r, xi_rsize r] @ controller_bytes (xi_data r) @ xi_reserved r"

definition midi_event_bytes :: "MIDI_EventPacket_t \<Rightarrow> u8 list" where
  "midi_event_bytes e = [ev_event e, ev_data1 e, ev_data2 e, ev_data3 e]"

definition midi_bytes :: "USB_MIDI_Data_t \<Rightarrow> u8 list" where
  "midi_bytes r = [midi_rid r] @ concat (map midi_event_bytes (midi_events r))"

definition mouse_bytes :: "USB_ID_MouseReport_Data_t \<Rightarrow> u8 list" where
  "mouse_bytes r = [mouse_rid r, mouse_button r, mouse_x r, mouse_y r, mouse_scroll_y r,
                    mouse_scroll_x r]"

definition kbd_bytes :: "USB_ID_KeyboardReport_Data_t \<Rightarrow> u8 list" where
  "kbd_bytes r = [kbd_rid r, kbd_modifier r, kbd_reserved r] @ kbd_keys r"

section \<open>XInput\<close>

definition fillXInputReport ::
  "Controller_t \<Rightarrow> USB_XInputReport_Data_t \<Rightarrow> nat \<times> USB_XInputReport_Data_t" where
  "fillXInputReport c r =
     (20, r\<lparr>xi_rid := report_id REPORT_ID_XINPUT, xi_rsize := 20, xi_data := c\<rparr>)"

section \<open>Mouse\<close>

definition fillMouseReport ::
  "Controller_t \<Rightarrow> USB_ID_MouseReport_Data_t \<Rightarrow> nat \<times> USB_ID_MouseReport_Data_t" where
  "fillMouseReport c r =
     (let eighth = (\<lambda>v :: i16. word_of_int (sint v sdiv 8));
          r1 = r\<lparr>mouse_rid := report_id REPORT_ID_MOUSE,
                 mouse_x := eighth (signed_drop_bit 8 (l_x c)),
                 mouse_y := eighth (- signed_drop_bit 8 (l_y c)),
                 mouse_scroll_y := eighth (signed_drop_bit 8 (r_y c)),
                 mouse_scroll_x := eighth (signed_drop_bit 8 (r_x c))\<rparr>;
          b = bit_write_m (truthy (bit_check_m (buttons c) (btn XBOX_A))) (mouse_button r1) 0;
          b = bit_write_m (truthy (bit_check_m (buttons c) (btn XBOX_B))) b 1;
          b = bit_write_m (truthy (bit_check_m (buttons c) (btn XBOX_X))) b 3
      in (6, r1\<lparr>mouse_button := b\<rparr>))"

section \<open>Keyboard\<close>

text \<open>
  \<open>*used++\<close> reads the count and then moves the pointer: the count itself is never increased, and
  a second key would be written at an index read from \<open>beyond\<close>, the byte after the count.
  The thresholds are kept in an int, which has 16 bits on the AVR boards; on the Pico it has 32 and
  a shifted threshold stays positive.
\<close>

definition put_key :: "nat \<Rightarrow> u8 \<Rightarrow> u8 list \<Rightarrow> u8 list option" where
  "put_key k key ks = (if k < length ks then Some (ks[k := key]) else None)"

definition checkJoyKey :: "u8 \<Rightarrow> u8 \<Rightarrow> u8 \<Rightarrow> i16 \<Rightarrow> i16 \<Rightarrow> nat \<Rightarrow> u8 list \<Rightarrow> u8 list option" where
  "checkJoyKey beyond neg pos val thresh used ks =
     (if used < SIMULTANEOUS_KEYS
      then let first = neg \<noteq> 0 \<and> val <s - thresh
           in Option.bind (if first then put_key used neg ks else Some ks) (\<lambda>ks1.
                if pos \<noteq> 0 \<and> thresh <s val
                then put_key (if first then unat beyond else used) pos ks1 else Some ks1)
      else Some ks)"

record keyboard_state =
  keysConfig :: Keys_t
  joyThresholdKb :: i16
  triggerThresholdKb :: i16

definition initKeyboard :: "Configuration_t \<Rightarrow> keyboard_state" where
  "initKeyboard config =
     \<lparr>keysConfig = cfg_keys config,
      joyThresholdKb = push_bit 8 (ucast (joyThreshold (cfg_axis config))),
      triggerThresholdKb = push_bit 8 (ucast (triggerThreshold (cfg_axis config)))\<rparr>"

text \<open>The loop over the sixteen buttons, with the number of keys used so far.\<close>

fun button_keys :: "u8 list \<Rightarrow> u16 \<Rightarrow> nat list \<Rightarrow> nat \<times> u8 list \<Rightarrow> nat \<times> u8 list" where
  "button_keys keys b [] uk = uk"
| "button_keys keys b (i # is) (used, ks) =
     (if used < SIMULTANEOUS_KEYS
      then button_keys keys b is
             (if keys ! i \<noteq> 0 \<and> truthy (bit_check_m b i) then (used + 1, ks[used := keys ! i])
              else (used, ks))
      else (used, ks))"

text \<open>The six analogue inputs in the order they are checked: negative key, positive key, value, threshold.\<close>

definition axis_checks :: "keyboard_state \<Rightarrow> Controller_t \<Rightarrow> (u8 \<times> u8 \<times> i16 \<times> i16) list" where
  "axis_checks k c =
     (let j = (\<lambda>a v. (key_neg a, key_pos a, v, joyThresholdKb k));
          t = (\<lambda>key v. (0, key, ucast v, triggerThresholdKb k))
      in [j (key_l_x (keysConfig k)) (l_x c), j (key_l_y (keysConfig k)) (l_y c),
          j (key_r_x (keysConfig k)) (r_x c), j (key_r_y (keysConfig k)) (r_y c),
          t (key_lt (keysConfig k)) (lt c), t (key_rt (keysConfig k)) (rt c)])"

fun axis_keys :: "u8 \<Rightarrow> nat \<Rightarrow> (u8 \<times> u8 \<times> i16 \<times> i16) list \<Rightarrow> u8 list \<Rightarrow> u8 list option" where
  "axis_keys beyond used [] ks = Some ks"
| "axis_keys beyond used ((neg, pos, v, thresh) # cs) ks =
     Option.bind (checkJoyKey beyond neg pos v thresh used ks) (axis_keys beyond used cs)"

definition fillKeyboardReport ::
  "u8 \<Rightarrow> keyboard_state \<Rightarrow> Controller_t \<Rightarrow> USB_ID_KeyboardReport_Data_t \<Rightarrow>
   (nat \<times> USB_ID_KeyboardReport_Data_t) option" where
  "fillKeyboardReport beyond k c r =
     (case button_keys (keys_buttons (keysConfig k)) (buttons c) [0..<btn XBOX_Y + 1] (0, kbd_keys r) of
        (used, ks) \<Rightarrow>
          map_option (\<lambda>ks'. (9, r\<lparr>kbd_rid := report_id REPORT_ID_KBD, kbd_keys := ks'\<rparr>))
            (axis_keys beyond used (axis_checks k c) ks))"

section \<open>MIDI\<close>

definition MIDI_COMMAND_NOTE_ON :: u8 where "MIDI_COMMAND_NOTE_ON = 0x90"
definition MIDI_COMMAND_CONTROL_CHANGE :: u8 where "MIDI_COMMAND_CONTROL_CHANGE = 0xB0"

definition midi_event :: "MidiConfig_t \<Rightarrow> nat \<Rightarrow> u8 \<Rightarrow> MIDI_EventPacket_t" where
  "midi_event m i vel =
     (let cmd = (if midi_type m ! i = midi_val NOTE then MIDI_COMMAND_NOTE_ON
                 else MIDI_COMMAND_CONTROL_CHANGE)
      in \<lparr>ev_event = push_bit 4 0 OR drop_bit 4 cmd, ev_data1 = cmd OR midi_channel m ! i,
          ev_data2 = midi_note m ! i, ev_data3 = vel\<rparr>)"

text \<open>\<open>vel\<close> is the velocity of each input; the state is the next free event, the last velocities and the events.\<close>

fun midi_loop ::
  "(nat \<Rightarrow> u8) \<Rightarrow> MidiConfig_t \<Rightarrow> nat list \<Rightarrow> nat \<times> u8 list \<times> MIDI_EventPacket_t list \<Rightarrow>
   (nat \<times> u8 list \<times> MIDI_EventPacket_t list) option" where
  "midi_loop vel m [] s = Some s"
| "midi_loop vel m (i # is) (idx, prev, evs) =
     (if midi_type m ! i = midi_val DISABLED then midi_loop vel m is (idx, prev, evs)
      else let v = drop_bit 1 (vel i)
           in if prev ! i = v then midi_loop vel m is (idx, prev, evs)
              else if idx < length evs
              then midi_loop vel m is (idx + 1, prev[i := v], evs[idx := midi_event m i v])
              else None)"

definition fillMIDIReport ::
  "bool \<Rightarrow> input_state \<Rightarrow> MidiConfig_t \<Rightarrow> Controller_t \<Rightarrow> u8 list \<times> USB_MIDI_Data_t \<Rightarrow>
   (nat \<times> u8 list \<times> USB_MIDI_Data_t) option" where
  "fillMIDIReport d s m c lr =
     (case lr of (prev, r) \<Rightarrow>
        map_option (\<lambda>(idx, prev', evs). (1 + idx * 4, prev',
            r\<lparr>midi_rid := report_id REPORT_ID_MIDI, midi_events := evs\<rparr>))
          (midi_loop (getVelocity d s c) m [0..<XBOX_BTN_COUNT + XBOX_AXIS_COUNT]
            (0, prev, midi_events r)))"

section \<open>PS3, Switch and Wii\<close>

abbreviation no_btn :: u8 where "no_btn \<equiv> 0xff"

definition btn_codes :: "ControllerButtons option list \<Rightarrow> u8 list" where
  "btn_codes = map (\<lambda>b. case b of None \<Rightarrow> no_btn | Some b \<Rightarrow> of_nat (btn b))"

definition ps3ButtonBindings :: "u8 list" where
  "ps3ButtonBindings = btn_codes [Some XBOX_Y, Some XBOX_A, Some XBOX_B, Some XBOX_X, None, None,
     Some XBOX_LB, Some XBOX_RB, Some XBOX_BACK, Some XBOX_START, Some XBOX_LEFT_STICK,
     Some XBOX_RIGHT_STICK, Some XBOX_HOME, Some XBOX_UNUSED]"

definition psGHButtonBindings :: "u8 list" where
  "psGHButtonBindings = btn_codes [Some XBOX_Y, Some XBOX_A, Some XBOX_B, Some XBOX_X, Some XBOX_LB,
     None, None, Some XBOX_RB, Some XBOX_BACK, Some XBOX_START, Some XBOX_LEFT_STICK,
     Some XBOX_RIGHT_STICK, Some XBOX_HOME, Some XBOX_UNUSED]"

definition psRBButonBindings :: "u8 list" where
  "psRBButonBindings = btn_codes [Some XBOX_X, Some XBOX_A, Some XBOX_B, Some XBOX_Y, Some XBOX_LB,
     None, None, Some XBOX_RB, Some XBOX_BACK, Some XBOX_START, Some XBOX_LEFT_STICK,
     Some XBOX_RIGHT_STICK, Some XBOX_HOME, Some XBOX_UNUSED]"

definition ps3DrumButtonBindings :: "u8 list" where
  "ps3DrumButtonBindings = btn_codes [Some XBOX_Y, Some XBOX_A, Some XBOX_B, Some XBOX_X, Some XBOX_RB,
     Some XBOX_LB, None, None, Some XBOX_BACK, Some XBOX_START, Some XBOX_LEFT_STICK,
     Some XBOX_RIGHT_STICK, Some XBOX_HOME, Some XBOX_UNUSED]"

definition ps3AxisBindings :: "u8 list" where
  "ps3AxisBindings = btn_codes [Some XBOX_DPAD_UP, Some XBOX_DPAD_RIGHT, Some XBOX_DPAD_DOWN,
     Some XBOX_DPAD_LEFT, None, None, Some XBOX_LB, Some XBOX_RB, Some XBOX_Y, Some XBOX_B,
     Some XBOX_A, Some XBOX_X]"

definition ghAxisBindings :: "u8 list" where
  "ghAxisBindings = btn_codes [Some XBOX_DPAD_LEFT, Some XBOX_DPAD_DOWN, Some XBOX_DPAD_RIGHT,
     Some XBOX_DPAD_UP, Some XBOX_X, Some XBOX_B]"

definition ghAxisBindings2 :: "u8 list" where
  "ghAxisBindings2 = btn_codes [None, Some XBOX_LB, Some XBOX_Y, Some XBOX_A]"

definition hat_bindings :: "u8 list" where
  "hat_bindings = [0x08, 0x00, 0x04, 0x08, 0x06, 0x07, 0x05, 0x08, 0x02, 0x01, 0x03]"

record ps3_state =
  ps3_btns :: "u8 list"
  ps3_axes :: "u8 list"
  currentAxisBindingsLen :: nat

definition ps3_static :: ps3_state where
  "ps3_static = \<lparr>ps3_btns = ps3ButtonBindings, ps3_axes = ps3AxisBindings, currentAxisBindingsLen = 0\<rparr>"

definition initPS3 :: "u8 \<Rightarrow> ps3_state \<Rightarrow> ps3_state" where
  "initPS3 t s =
     (let s1 = (if subtype_val SWITCH_GAMEPAD < t \<and> subtype_val PS3_GAMEPAD < t
                then s\<lparr>ps3_axes := list_blit 0 ghAxisBindings (ps3_axes s),
                       currentAxisBindingsLen := length ghAxisBindings\<rparr> else s);
          s2 = (if t = subtype_val SWITCH_GAMEPAD
                then s1\<lparr>ps3_btns := (ps3_btns s1)[sw SWITCH_B := of_nat (btn XBOX_B),
                                                   sw SWITCH_A := of_nat (btn XBOX_A)]\<rparr> else s1)
      in if t = subtype_val PS3_GUITAR_HERO_DRUMS \<or> t = subtype_val PS3_ROCK_BAND_DRUMS
         then s2\<lparr>ps3_btns := ps3DrumButtonBindings\<rparr>
         else if t = subtype_val PS3_GUITAR_HERO_GUITAR then s2\<lparr>ps3_btns := psGHButtonBindings\<rparr>
         else if t = subtype_val PS3_ROCK_BAND_GUITAR \<or> t = subtype_val WII_ROCK_BAND_GUITAR
         then s2\<lparr>ps3_btns := psRBButonBindings\<rparr>
         else s2)"

text \<open>One round of the loop over the buttons; a shift by 0xff of the mask gives 0 on this chip.\<close>

definition ps3_button :: "u8 \<Rightarrow> ps3_state \<Rightarrow> Controller_t \<Rightarrow> nat \<Rightarrow> USB_PS3Report_Data_t \<Rightarrow> USB_PS3Report_Data_t" where
  "ps3_button t s c i r =
     (let button = ps3_btns s ! i
      in if button = no_btn then r
         else let pressed = truthy (bit_check_m (buttons c) (unat button));
                  r1 = r\<lparr>ps3_buttons := bit_write_m pressed (ps3_buttons r) i\<rparr>
              in if i < currentAxisBindingsLen s
                 then let pressed =
                        (if t = subtype_val PS3_GUITAR_HERO_GUITAR \<and> i < length ghAxisBindings2
                         then pressed \<or> truthy (bit_check_m (buttons c) (unat (ghAxisBindings2 ! i)))
                         else pressed)
                      in r1\<lparr>ps3_axis := (ps3_axis r1)[i := (if pressed then 0xFF else 0x00)]\<rparr>
                 else r1)"

definition hat_of :: "u16 \<Rightarrow> u8" where
  "hat_of b = (let d = ucast (b AND 0xF) :: u8 in if 0x0a < d then 0x08 else hat_bindings ! unat d)"

abbreviation high_byte :: "i16 \<Rightarrow> u8" where
  "high_byte v \<equiv> ucast (signed_drop_bit 8 v + 128)"

definition ps3_guitar :: "u8 \<Rightarrow> Controller_t \<Rightarrow> USB_PS3Report_Data_t \<Rightarrow> USB_PS3Report_Data_t" where
  "ps3_guitar t c r =
     (let tilt = (r_y c = 32767)
      in if t = subtype_val PS3_GUITAR_HERO_GUITAR
         then r\<lparr>ps3_r_x := ucast (signed_drop_bit 9 (r_x c) + 128 + 64),
                ps3_accel := (ps3_accel r)[0 := (if tilt then - 4000 else 7975)], ps3_r_y := 0x7d\<rparr>
         else if t = subtype_val PS3_ROCK_BAND_GUITAR \<or> t = subtype_val WII_ROCK_BAND_GUITAR
         then r\<lparr>ps3_r_x := high_byte (r_x c),
                ps3_buttons := bit_write_m tilt (ps3_buttons r) (sw SWITCH_R), ps3_r_y := 128 - lt c\<rparr>
         else r)"

definition ps3_pad :: "u8 \<Rightarrow> Controller_t \<Rightarrow> USB_PS3Report_Data_t \<Rightarrow> USB_PS3Report_Data_t" where
  "ps3_pad t c r =
     (if t = subtype_val PS3_GAMEPAD \<or> t = subtype_val SWITCH_GAMEPAD
      then r\<lparr>ps3_buttons := bit_write_m (50 < rt c)
               (bit_write_m (50 < lt c) (ps3_buttons r) (sw SWITCH_L)) (sw SWITCH_R),
             ps3_axis := (ps3_axis r)[4 := lt c, 5 := rt c],
             ps3_l_x := high_byte (l_x c), ps3_l_y := high_byte (l_y c),
             ps3_r_x := high_byte (r_x c), ps3_r_y := high_byte (r_y c)\<rparr>
      else r\<lparr>ps3_l_x := 0x80, ps3_l_y := 0x80\<rparr>)"

definition switch_flip :: "u8 \<Rightarrow> USB_PS3Report_Data_t \<Rightarrow> USB_PS3Report_Data_t" where
  "switch_flip t r = (if t = subtype_val SWITCH_GAMEPAD
     then r\<lparr>ps3_l_y := 255 - ps3_l_y r, ps3_r_y := 255 - ps3_r_y r\<rparr> else r)"

definition fillPS3Report ::
  "u8 \<Rightarrow> ps3_state \<Rightarrow> Controller_t \<Rightarrow> USB_PS3Report_Data_t \<Rightarrow> nat \<times> USB_PS3Report_Data_t" where
  "fillPS3Report t s c r =
     (let r1 = fold (ps3_button t s c) [0..<14] (r\<lparr>ps3_rid := report_id REPORT_ID_GAMEPAD\<rparr>);
          r2 = r1\<lparr>ps3_hat := hat_of (buttons c)\<rparr>
      in (28, switch_flip t (ps3_pad t c (ps3_guitar t c r2))))"

section \<open>reports.c\<close>

datatype filler = MouseFiller | MIDIFiller | XInputFiller | KeyboardFiller | PS3Filler

definition initReports :: "u8 \<Rightarrow> filler" where
  "initReports t =
     (if t = subtype_val MOUSE then MouseFiller
      else if subtype_val MIDI_GAMEPAD \<le> t then MIDIFiller
      else if t \<le> subtype_val XINPUT_ARCADE_PAD then XInputFiller
      else if subtype_val KEYBOARD_GAMEPAD \<le> t \<and> t \<le> subtype_val KEYBOARD_ROCK_BAND_DRUMS
      then KeyboardFiller
      else PS3Filler)"

section \<open>Facts\<close>

definition pressed_keys :: "u8 list \<Rightarrow> u16 \<Rightarrow> nat list \<Rightarrow> u8 list" where
  "pressed_keys keys b is = map (\<lambda>i. keys ! i) (filter (\<lambda>i. keys ! i \<noteq> 0 \<and> bit b i) is)"

lemma list_blit_snoc:
  "u < length ks \<Longrightarrow> list_blit (Suc u) qs (ks[u := x]) = list_blit u (x # qs) ks"
  by (simp add: list_blit_def take_Suc_conv_app_nth)

lemma button_keys_fills:
  assumes "used \<le> 6" "length ks = 6" "ps = take (6 - used) (pressed_keys keys b is)"
  shows "button_keys keys b is (used, ks) = (used + length ps, list_blit used ps ks)"
  using assms
proof (induction "is" arbitrary: used ks ps)
  case Nil
  then show ?case by (simp add: pressed_keys_def list_blit_def)
next
  case (Cons i "is")
  show ?case
  proof (cases "used < 6 \<and> keys ! i \<noteq> 0 \<and> bit b i")
    case True
    define qs where "qs = take (6 - (used + 1)) (pressed_keys keys b is)"
    have ps: "ps = keys ! i # qs"
      using True Cons.prems(3) by (simp add: pressed_keys_def qs_def Suc_diff_Suc take_Cons')
    have "length qs \<le> 5 - used" by (simp add: qs_def)
    moreover have "used < length ks" using True Cons.prems(2) by simp
    ultimately have "list_blit (used + 1) qs (ks[used := keys ! i]) = list_blit used ps ks"
      by (simp add: list_blit_snoc ps)
    with True Cons.IH [OF _ _ qs_def, of "ks[used := keys ! i]"] Cons.prems(1,2) ps
    show ?thesis by (simp add: SIMULTANEOUS_KEYS_def bit_check_nonzero)
  next
    case False
    show ?thesis
    proof (cases "used < 6")
      case True
      with False have "pressed_keys keys b (i # is) = pressed_keys keys b is"
        by (auto simp: pressed_keys_def)
      with True False Cons.IH [of used ks ps] Cons.prems show ?thesis
        by (auto simp: SIMULTANEOUS_KEYS_def bit_check_nonzero)
    next
      case False
      with Cons.prems have "ps = []" by simp
      with False Cons.prems show ?thesis by (simp add: SIMULTANEOUS_KEYS_def list_blit_def)
    qed
  qed
qed

text \<open>
  The keys an analogue input asks for: on its negative and on its positive side, over the limits
  that a configured threshold stands for. A threshold of 128 or more turns negative when it is
  shifted into a 16-bit integer; that of 128 is its own negation.
\<close>

definition key_limits :: "u8 \<Rightarrow> int \<times> int" where
  "key_limits j =
     (let t = 256 * uint j
      in if uint j < 128 then (- t, t)
         else if uint j = 128 then (- 32768, - 32768) else (65536 - t, t - 65536))"

definition stick_asks :: "u8 \<Rightarrow> AnalogKey_t \<Rightarrow> i16 \<Rightarrow> u8 list \<times> u8 list" where
  "stick_asks j a v =
     (if key_neg a \<noteq> 0 \<and> sint v < fst (key_limits j) then [key_neg a] else [],
      if key_pos a \<noteq> 0 \<and> snd (key_limits j) < sint v then [key_pos a] else [])"

definition trigger_asks :: "u8 \<Rightarrow> u8 \<Rightarrow> u8 \<Rightarrow> u8 list \<times> u8 list" where
  "trigger_asks j key v = ([], if key \<noteq> 0 \<and> snd (key_limits j) < uint v then [key] else [])"

text \<open>Where they are written, when the buttons fill \<open>n\<close> slots.\<close>

definition key_writes :: "nat \<Rightarrow> u8 \<Rightarrow> u8 list \<times> u8 list \<Rightarrow> (nat \<times> u8) list" where
  "key_writes n beyond asks =
     map (Pair n) (fst asks) @ map (Pair (if fst asks = [] then n else unat beyond)) (snd asks)"

abbreviation put_keys :: "(nat \<times> u8) list \<Rightarrow> u8 list \<Rightarrow> u8 list" where
  "put_keys W ks \<equiv> fold (\<lambda>w ks. ks[fst w := snd w]) W ks"

fun asked :: "u8 \<times> u8 \<times> i16 \<times> i16 \<Rightarrow> u8 list \<times> u8 list" where
  "asked (neg, pos, v, thresh) =
     (if neg \<noteq> 0 \<and> v <s - thresh then [neg] else [], if pos \<noteq> 0 \<and> thresh <s v then [pos] else [])"

lemma threshold_limits:
  fixes j :: u8 and v :: i16
  shows "v <s - push_bit 8 (ucast j) \<longleftrightarrow> sint v < fst (key_limits j)"
    and "push_bit 8 (ucast j) <s v \<longleftrightarrow> snd (key_limits j) < sint v"
proof -
  define t where "t = (push_bit 8 (ucast j) :: i16)"
  have j: "0 \<le> uint j" "uint j < 256" using u8_bound by simp_all
  have t: "t = word_of_int (256 * uint j)"
    by (simp add: t_def push_bit_eq_mult mult.commute)
  have "sint t = (if uint j < 128 then 256 * uint j else 256 * uint j - 65536) \<and>
    sint (- t) = fst (key_limits j)"
  proof (cases "uint j < 128")
    case True
    have "sint (word_of_int (256 * uint j) :: i16) = 256 * uint j"
      "sint (word_of_int (- (256 * uint j)) :: i16) = - (256 * uint j)"
      by (rule sint_of_int_16; use True j in linarith)+
    moreover have "- t = word_of_int (- (256 * uint j))" by (simp add: t)
    ultimately show ?thesis using True by (simp only: t key_limits_def Let_def if_True fst_conv)
  next
    case False
    have "t = word_of_int (256 * uint j - 65536)" "- t = word_of_int (65536 - 256 * uint j)"
      by (simp_all add: t flip: wi_hom_sub)
    moreover have "sint (word_of_int (256 * uint j - 65536) :: i16) = 256 * uint j - 65536"
      by (rule sint_of_int_16; use False j in linarith)
    moreover have "sint (word_of_int (65536 - 256 * uint j) :: i16) = fst (key_limits j)"
    proof (cases "uint j = 128")
      case True
      then show ?thesis by (simp add: key_limits_def)
    next
      case other: False
      have "sint (word_of_int (65536 - 256 * uint j) :: i16) = 65536 - 256 * uint j"
        by (rule sint_of_int_16; use False other j in linarith)
      with False other show ?thesis by (simp add: key_limits_def Let_def)
    qed
    ultimately show ?thesis using False by simp
  qed
  then show "v <s - push_bit 8 (ucast j) \<longleftrightarrow> sint v < fst (key_limits j)"
    "push_bit 8 (ucast j) <s v \<longleftrightarrow> snd (key_limits j) < sint v"
    by (auto simp: t_def word_sless_alt key_limits_def Let_def)
qed

lemma stick_two_sides:
  "fst (stick_asks j a v) \<noteq> [] \<Longrightarrow> snd (stick_asks j a v) \<noteq> [] \<Longrightarrow> 128 < uint j"
  by (simp add: stick_asks_def key_limits_def Let_def split: if_splits) (use uint_ge_0 [of j] in linarith)

lemma checkJoyKey_writes:
  assumes "used < 6" "length ks = 6"
  shows "checkJoyKey beyond neg pos v thresh used ks =
    (let asks = asked (neg, pos, v, thresh)
     in if fst asks \<noteq> [] \<and> snd asks \<noteq> [] \<and> 6 \<le> unat beyond then None
        else Some (put_keys (key_writes used beyond asks) ks))"
  using assms by (auto simp: checkJoyKey_def put_key_def SIMULTANEOUS_KEYS_def key_writes_def Let_def)

lemma sint_byte: "sint (ucast (v :: u8) :: i16) = uint v"
proof -
  have "(ucast v :: i16) = word_of_int (uint v)" by simp
  then show ?thesis
    using u8_bound [of v] uint_ge_0 [of v] by (simp only:) (rule sint_of_int_16; linarith)
qed

lemma asked_checks:
  "map asked (axis_checks (initKeyboard config) c) =
    (let K = cfg_keys config; j = joyThreshold (cfg_axis config); t = triggerThreshold (cfg_axis config)
     in [stick_asks j (key_l_x K) (l_x c), stick_asks j (key_l_y K) (l_y c),
         stick_asks j (key_r_x K) (r_x c), stick_asks j (key_r_y K) (r_y c),
         trigger_asks t (key_lt K) (lt c), trigger_asks t (key_rt K) (rt c)])"
  by (simp add: axis_checks_def initKeyboard_def Let_def stick_asks_def trigger_asks_def
      threshold_limits sint_byte)

lemma put_keys_length [simp]: "length (put_keys W ks) = length ks"
  by (induction W arbitrary: ks) simp_all

lemma axis_keys_writes:
  assumes "used < 6" "length ks = 6"
  shows "axis_keys beyond used cs ks =
    (if (\<exists>asks\<in>set (map asked cs). fst asks \<noteq> [] \<and> snd asks \<noteq> []) \<and> 6 \<le> unat beyond then None
     else Some (put_keys (concat (map (key_writes used beyond) (map asked cs))) ks))"
  using assms(2)
proof (induction cs arbitrary: ks)
  case (Cons a cs)
  obtain neg pos v thresh where a: "a = (neg, pos, v, thresh)" by (cases a) auto
  show ?case
    unfolding a axis_keys.simps checkJoyKey_writes [OF assms(1) Cons.prems]
    using Cons.IH Cons.prems by (auto simp: Let_def simp del: asked.simps)
qed simp

lemma axis_keys_full: "6 \<le> used \<Longrightarrow> axis_keys beyond used cs ks = Some ks"
  by (induction cs) (auto simp: checkJoyKey_def SIMULTANEOUS_KEYS_def)

text \<open>When no input asks on both sides, every write goes to the same slot and the last one stays.\<close>

lemma put_keys_one_slot:
  assumes "\<forall>asks\<in>set A. fst asks = [] \<or> snd asks = []"
  shows "put_keys (concat (map (key_writes n beyond) A)) ks =
    (if concat (map (\<lambda>asks. fst asks @ snd asks) A) = [] then ks
     else ks[n := last (concat (map (\<lambda>asks. fst asks @ snd asks) A))])"
proof -
  have slot: "put_keys (map (Pair n) K) ks = (if K = [] then ks else ks[n := last K])" for K ks
    by (induction K arbitrary: ks) auto
  have "concat (map (key_writes n beyond) A) = map (Pair n) (concat (map (\<lambda>asks. fst asks @ snd asks) A))"
    using assms by (induction A) (auto simp: key_writes_def)
  then show ?thesis by (simp only: slot)
qed

lemma ps3_button_bits:
  assumes "i < 16"
  shows "bit (ps3_buttons (ps3_button t s c i r)) j =
    (if j = i \<and> ps3_btns s ! i \<noteq> no_btn then bit (buttons c) (unat (ps3_btns s ! i))
     else bit (ps3_buttons r) j)"
  using assms by (auto simp: ps3_button_def Let_def bit_bit_write bit_check_nonzero)

lemma ps3_fold_bits:
  assumes "distinct is" "set is \<subseteq> {..<16}"
  shows "bit (ps3_buttons (fold (ps3_button t s c) is r)) j =
    (if j \<in> set is \<and> ps3_btns s ! j \<noteq> no_btn then bit (buttons c) (unat (ps3_btns s ! j))
     else bit (ps3_buttons r) j)"
  using assms
proof (induction "is" arbitrary: r)
  case (Cons i "is")
  then show ?case using ps3_button_bits [of i t s c r j] by auto
qed simp

lemma ps3_fold_axis:
  assumes "currentAxisBindingsLen s = 0"
  shows "ps3_axis (fold (ps3_button t s c) is r) = ps3_axis r"
proof (induction "is" arbitrary: r)
  case (Cons i "is")
  have "ps3_axis (ps3_button t s c i r) = ps3_axis r"
    using assms by (simp add: ps3_button_def Let_def)
  with Cons show ?case by simp
qed simp

text \<open>The eight directions and the centre, clockwise from the top.\<close>

definition compass :: "bool \<Rightarrow> bool \<Rightarrow> bool \<Rightarrow> bool \<Rightarrow> u8" where
  "compass up down left right =
     (if up then if left then 7 else if right then 1 else 0
      else if down then if left then 5 else if right then 3 else 4
      else if left then 6 else if right then 2 else 8)"

lemma low_nibble:
  "(b :: u16) AND 0xF = of_bool (bit b 0) + 2 * of_bool (bit b 1) + 4 * of_bool (bit b 2) +
     8 * of_bool (bit b 3)"
proof -
  have "b AND 0xF = take_bit 4 b" by (simp add: take_bit_eq_mask mask_eq_exp_minus_1)
  also have "\<dots> = of_bool (bit b 0) + 2 * of_bool (bit b 1) + 4 * of_bool (bit b 2) +
     8 * of_bool (bit b 3)"
    by (simp add: numeral_eq_Suc take_bit_Suc bit_Suc odd_iff_mod_2_eq_one bit_0)
  finally show ?thesis .
qed

lemma hat_compass:
  assumes "\<not> (bit b 0 \<and> bit b 1)" "\<not> (bit b 2 \<and> bit b 3)"
  shows "hat_of b = compass (bit b 0) (bit b 1) (bit b 2) (bit b 3)"
  using assms
  by (cases "bit b 0"; cases "bit b 1"; cases "bit b 2"; cases "bit b 3")
     (simp_all add: hat_of_def low_nibble compass_def hat_bindings_def Let_def)

lemma hat_neutral:
  assumes "bit b 0 \<and> bit b 1 \<or> bit b 2 \<and> bit b 3"
  shows "hat_of b = 8"
  using assms
  by (cases "bit b 0"; cases "bit b 1"; cases "bit b 2"; cases "bit b 3")
     (simp_all add: hat_of_def low_nibble hat_bindings_def Let_def)

lemma ps3_tail_bits:
  "j \<noteq> 4 \<Longrightarrow> j \<noteq> 5 \<Longrightarrow>
   bit (ps3_buttons (switch_flip t (ps3_pad t c (ps3_guitar t c r)))) j = bit (ps3_buttons r) j"
  by (simp add: switch_flip_def ps3_pad_def ps3_guitar_def Let_def bit_bit_write)

lemma ps3_tail_bits_45:
  assumes "t \<noteq> subtype_val PS3_GAMEPAD" "t \<noteq> subtype_val SWITCH_GAMEPAD"
    and "j = 5 \<Longrightarrow> t \<noteq> subtype_val PS3_ROCK_BAND_GUITAR \<and> t \<noteq> subtype_val WII_ROCK_BAND_GUITAR"
  shows "bit (ps3_buttons (switch_flip t (ps3_pad t c (ps3_guitar t c r)))) j = bit (ps3_buttons r) j"
  using assms by (auto simp: switch_flip_def ps3_pad_def ps3_guitar_def Let_def bit_bit_write)

lemma ps3_tail_axis:
  "i < 4 \<Longrightarrow> ps3_axis (switch_flip t (ps3_pad t c (ps3_guitar t c r))) ! i = ps3_axis r ! i"
  by (simp add: switch_flip_def ps3_pad_def ps3_guitar_def Let_def nth_list_update)

lemma ps3_tail_hat: "ps3_hat (switch_flip t (ps3_pad t c (ps3_guitar t c r))) = ps3_hat r"
  by (simp add: switch_flip_def ps3_pad_def ps3_guitar_def Let_def)

lemma ps3_free_slots:
  "t = subtype_val PS3_GAMEPAD \<or> t = subtype_val SWITCH_GAMEPAD \<Longrightarrow>
     ps3_btns (initPS3 t ps3_static) ! 4 = no_btn \<and> ps3_btns (initPS3 t ps3_static) ! 5 = no_btn"
  "t = subtype_val PS3_ROCK_BAND_GUITAR \<or> t = subtype_val WII_ROCK_BAND_GUITAR \<Longrightarrow>
     ps3_btns (initPS3 t ps3_static) ! 5 = no_btn"
  by (auto simp: initPS3_def Let_def ps3_static_def ps3ButtonBindings_def psRBButonBindings_def btn_codes_def)

lemma ps3_axes_off: "t \<le> subtype_val PS3_GAMEPAD \<Longrightarrow> currentAxisBindingsLen (initPS3 t ps3_static) = 0"
  by (auto simp: initPS3_def Let_def ps3_static_def)

definition midi_changed :: "(nat \<Rightarrow> u8) \<Rightarrow> MidiConfig_t \<Rightarrow> u8 list \<Rightarrow> nat list \<Rightarrow> nat list" where
  "midi_changed vel m prev is =
     filter (\<lambda>i. midi_type m ! i \<noteq> midi_val DISABLED \<and> prev ! i \<noteq> drop_bit 1 (vel i)) is"

definition midi_latest :: "(nat \<Rightarrow> u8) \<Rightarrow> MidiConfig_t \<Rightarrow> nat list \<Rightarrow> MIDI_EventPacket_t list" where
  "midi_latest vel m = map (\<lambda>i. midi_event m i (drop_bit 1 (vel i)))"

lemma midi_changed_skip: "i \<notin> set is \<Longrightarrow> midi_changed vel m (prev[i := v]) is = midi_changed vel m prev is"
  by (auto simp: midi_changed_def intro!: filter_cong) (metis nth_list_update_neq)+

lemma midi_loop_events:
  assumes "distinct is" "\<forall>i\<in>set is. i < length prev" "idx + length is \<le> length evs"
  shows "\<exists>prev' evs'. midi_loop vel m is (idx, prev, evs) =
      Some (idx + length (midi_changed vel m prev is), prev', evs') \<and> length evs' = length evs \<and>
    take (idx + length (midi_changed vel m prev is)) evs' =
      take idx evs @ midi_latest vel m (midi_changed vel m prev is) \<and> length prev' = length prev \<and>
    (\<forall>i<length prev. prev' ! i =
       (if i \<in> set (midi_changed vel m prev is) then drop_bit 1 (vel i) else prev ! i))"
  using assms
proof (induction "is" arbitrary: idx prev evs)
  case Nil
  then show ?case by (simp add: midi_changed_def midi_latest_def)
next
  case (Cons i "is")
  show ?case
  proof (cases "midi_type m ! i \<noteq> midi_val DISABLED \<and> prev ! i \<noteq> drop_bit 1 (vel i)")
    case False
    then have "midi_loop vel m (i # is) (idx, prev, evs) = midi_loop vel m is (idx, prev, evs)"
      "midi_changed vel m prev (i # is) = midi_changed vel m prev is"
      by (auto simp: midi_changed_def)
    with Cons.IH [of prev idx evs] Cons.prems show ?thesis by simp
  next
    case True
    let ?v = "drop_bit 1 (vel i)"
    define prev1 where "prev1 = prev[i := ?v]"
    define evs1 where "evs1 = evs[idx := midi_event m i ?v]"
    have idx: "idx < length evs" using Cons.prems(3) by simp
    have step: "midi_loop vel m (i # is) (idx, prev, evs) = midi_loop vel m is (Suc idx, prev1, evs1)"
      using True idx by (simp add: prev1_def evs1_def Let_def)
    have ch: "midi_changed vel m prev (i # is) = i # midi_changed vel m prev1 is"
      using True Cons.prems(1) midi_changed_skip [of i "is" vel m prev ?v]
      by (simp add: prev1_def) (simp add: midi_changed_def)
    have "take (Suc idx) evs1 = take idx evs @ [midi_event m i ?v]"
      using idx by (simp add: evs1_def take_Suc_conv_app_nth)
    moreover have "i \<notin> set (midi_changed vel m prev1 is)"
      using Cons.prems(1) by (simp add: midi_changed_def)
    ultimately show ?thesis
      using Cons.IH [of prev1 "Suc idx" evs1] Cons.prems step ch
      by (force simp: prev1_def evs1_def midi_latest_def nth_list_update)
  qed
qed

section \<open>Properties\<close>

text \<open>
  C30: what a keyboard report holds: the keys of the pressed buttons, at most six; and, when they
  leave slots free, the keys the sticks and triggers ask for, all written to the next slot, so that
  only the last of them stays; the other slots keep what the last report had there, so a released
  key stays reported. With a threshold of 128 or more the shifted threshold is negative and a stick
  can ask for both its keys at once; the second is then written at an index that is read from
  the byte after the count, which fails when it lies outside the six slots. The triggers
  never ask on two sides.
\<close>

theorem keyboard_report_keys:
  fixes c r config
  defines "P \<equiv> take 6 (pressed_keys (keys_buttons (cfg_keys config)) (buttons c) [0..<16])"
  defines "K \<equiv> cfg_keys config"
    and "j \<equiv> joyThreshold (cfg_axis config)" and "t \<equiv> triggerThreshold (cfg_axis config)"
  defines "A \<equiv> [stick_asks j (key_l_x K) (l_x c), stick_asks j (key_l_y K) (l_y c),
                stick_asks j (key_r_x K) (r_x c), stick_asks j (key_r_y K) (r_y c),
                trigger_asks t (key_lt K) (lt c), trigger_asks t (key_rt K) (rt c)]"
  defines "F \<equiv> concat (map (\<lambda>asks. fst asks @ snd asks) A)"
  defines "both \<equiv> \<exists>asks\<in>set A. fst asks \<noteq> [] \<and> snd asks \<noteq> []"
  assumes "length (kbd_keys r) = SIMULTANEOUS_KEYS"
  shows "fillKeyboardReport beyond (initKeyboard config) c r =
      (if length P < 6 \<and> both \<and> 6 \<le> unat beyond then None
       else Some (9, r\<lparr>kbd_rid := report_id REPORT_ID_KBD,
         kbd_keys :=
           (if length P = 6 then P
            else if \<not> both then P @ (if F = [] then drop (length P) (kbd_keys r)
                                     else last F # drop (length P + 1) (kbd_keys r))
            else put_keys (concat (map (key_writes (length P) beyond) A))
                   (P @ drop (length P) (kbd_keys r)))\<rparr>)) \<and>
    (both \<longrightarrow> 128 < uint j)"
proof -
  define k where "k = initKeyboard config"
  define ks where "ks = list_blit 0 P (kbd_keys r)"
  have P: "length P \<le> 6" by (simp add: P_def)
  have ks: "ks = P @ drop (length P) (kbd_keys r)" "length ks = 6"
    using P assms(8) by (auto simp: ks_def list_blit_def SIMULTANEOUS_KEYS_def)
  have keys: "keysConfig k = K" by (simp add: k_def initKeyboard_def K_def)
  have "[0..<btn XBOX_Y + 1] = [0..<16]" by simp
  then have loop: "button_keys (keys_buttons (keysConfig k)) (buttons c) [0..<btn XBOX_Y + 1] (0, kbd_keys r) =
      (length P, ks)"
    using button_keys_fills [of 0 "kbd_keys r" P "keys_buttons (cfg_keys config)" "buttons c" "[0..<16]"]
      assms(8)
    by (simp add: P_def K_def ks_def SIMULTANEOUS_KEYS_def keys del: upt.simps)
  have A: "map asked (axis_checks k c) = A"
    by (simp add: asked_checks A_def k_def K_def j_def t_def Let_def)
  have one: "length P < 6 \<Longrightarrow> \<not> both \<Longrightarrow> put_keys (concat (map (key_writes (length P) beyond) A)) ks =
      P @ (if F = [] then drop (length P) (kbd_keys r) else last F # drop (length P + 1) (kbd_keys r))"
  proof -
    assume *: "length P < 6" "\<not> both"
    then have "drop (length P) (kbd_keys r) \<noteq> []" using assms(8) by (simp add: SIMULTANEOUS_KEYS_def)
    then obtain x xs where "drop (length P) (kbd_keys r) = x # xs" by (cases "drop (length P) (kbd_keys r)") auto
    moreover from this have "drop (length P + 1) (kbd_keys r) = xs" by (metis Suc_eq_plus1 drop_Suc list.sel(3) tl_drop)
    moreover have "\<forall>asks\<in>set A. fst asks = [] \<or> snd asks = []" using *(2) by (auto simp: both_def)
    ultimately show ?thesis
      unfolding put_keys_one_slot [OF \<open>\<forall>asks\<in>set A. _ asks\<close>] F_def [symmetric] ks(1) by (simp add: list_update_append)
  qed
  have "axis_keys beyond (length P) (axis_checks k c) ks =
      (if length P < 6 \<and> both \<and> 6 \<le> unat beyond then None
       else Some (if length P = 6 then ks else put_keys (concat (map (key_writes (length P) beyond) A)) ks))"
    using axis_keys_writes [of "length P" ks beyond "axis_checks k c"] axis_keys_full [of "length P" beyond "axis_checks k c" ks] P ks(2)
    unfolding A both_def by (cases "length P = 6") auto
  moreover have "length P = 6 \<Longrightarrow> ks = P" using ks(1,2) by simp
  moreover have "both \<longrightarrow> 128 < uint j"
    unfolding both_def A_def using stick_two_sides by (auto simp: trigger_asks_def)
  moreover have "fillKeyboardReport beyond k c r =
      map_option (\<lambda>ks'. (9, r\<lparr>kbd_rid := report_id REPORT_ID_KBD, kbd_keys := ks'\<rparr>))
        (axis_keys beyond (length P) (axis_checks k c) ks)"
    by (simp only: fillKeyboardReport_def loop prod.case)
  ultimately show ?thesis
    using one unfolding k_def [symmetric] ks(1) [symmetric]
    by (cases "length P = 6"; cases both; cases "6 \<le> unat beyond"; cases "F = []") (use P in simp_all)
qed

text \<open>
  Nothing is pressed any more, but the key of the last report is still there. With a threshold of
  200 a stick at rest asks for both its keys.
\<close>

theorem keyboard_report_witness:
  "fillKeyboardReport 0 (initKeyboard DEFAULT_CONFIG) blank_controller
      \<lparr>kbd_rid = 6, kbd_modifier = 0, kbd_reserved = 0, kbd_keys = [4, 0, 0, 0, 0, 0]\<rparr> =
    Some (9, \<lparr>kbd_rid = 6, kbd_modifier = 0, kbd_reserved = 0, kbd_keys = [4, 0, 0, 0, 0, 0]\<rparr>)"
proof -
  have none: "pressed_keys (keys_buttons (cfg_keys DEFAULT_CONFIG)) (buttons blank_controller) [0..<16] = []"
    by code_simp
  have rest: "l_x blank_controller = 0" "l_y blank_controller = 0" "r_x blank_controller = 0"
    "r_y blank_controller = 0" "lt blank_controller = 0" "rt blank_controller = 0"
    by (simp_all add: blank_controller_def)
  have quiet: "stick_asks (joyThreshold (cfg_axis DEFAULT_CONFIG)) k 0 = ([], [])"
    "trigger_asks (triggerThreshold (cfg_axis DEFAULT_CONFIG)) t 0 = ([], [])" for k t
    by (simp_all add: stick_asks_def trigger_asks_def key_limits_def DEFAULT_CONFIG_def DEFAULT_THRESHOLDS_def)
  show ?thesis
    using keyboard_report_keys [where config = DEFAULT_CONFIG and beyond = 0 and c = blank_controller and
        r = "\<lparr>kbd_rid = 6, kbd_modifier = 0, kbd_reserved = 0, kbd_keys = [4, 0, 0, 0, 0, 0]\<rparr>"]
    unfolding none rest quiet by (simp add: SIMULTANEOUS_KEYS_def)
qed

text \<open>
  C31: the report for a PS3, Switch or Wii console: every bound button bit is the button's state,
  and the hat is the direction pad's direction, centred when two opposite directions are held.
  The pressure bytes of the first four axes are never written for the PS3 devices: the
  condition that enables them excludes all of them.
\<close>

theorem ps3_report_faithful:
  assumes "s = initPS3 t ps3_static" "fillPS3Report t s c r = (n, r')" "b = buttons c"
  shows "n = 28 \<and>
    (\<forall>i<14. ps3_btns s ! i \<noteq> no_btn \<longrightarrow> bit (ps3_buttons r') i = bit b (unat (ps3_btns s ! i))) \<and>
    ps3_hat r' = (if bit b 0 \<and> bit b 1 \<or> bit b 2 \<and> bit b 3 then 8
                  else compass (bit b 0) (bit b 1) (bit b 2) (bit b 3)) \<and>
    (t \<le> subtype_val PS3_GAMEPAD \<longrightarrow> (\<forall>i<4. ps3_axis r' ! i = ps3_axis r ! i))"
proof -
  define r1 where "r1 = fold (ps3_button t s c) [0..<14] (r\<lparr>ps3_rid := report_id REPORT_ID_GAMEPAD\<rparr>)"
  have r': "n = 28" "r' = switch_flip t (ps3_pad t c (ps3_guitar t c (r1\<lparr>ps3_hat := hat_of b\<rparr>)))"
    using assms(2,3) by (simp_all only: fillPS3Report_def Let_def r1_def prod.inject)
  have bits: "bit (ps3_buttons r1) j = bit b (unat (ps3_btns s ! j))"
    if "j < 14" "ps3_btns s ! j \<noteq> no_btn" for j
  proof -
    have "set [0..<14] \<subseteq> {..<16 :: nat}" by auto
    from ps3_fold_bits [OF distinct_upt this, of t s c "r\<lparr>ps3_rid := report_id REPORT_ID_GAMEPAD\<rparr>" j]
    show ?thesis using that by (simp add: r1_def assms(3) del: upt.simps)
  qed
  have "bit (ps3_buttons r') i = bit b (unat (ps3_btns s ! i))"
    if i: "i < 14" "ps3_btns s ! i \<noteq> no_btn" for i
  proof (cases "i = 4 \<or> i = 5")
    case True
    then have "bit (ps3_buttons r') i = bit (ps3_buttons (r1\<lparr>ps3_hat := hat_of b\<rparr>)) i"
      unfolding r'(2) using i ps3_free_slots [of t] assms(1) by (intro ps3_tail_bits_45) auto
    with bits [OF i] show ?thesis by simp
  next
    case False
    with bits [OF i] show ?thesis by (simp add: r'(2) ps3_tail_bits)
  qed
  moreover have "ps3_hat r' = (if bit b 0 \<and> bit b 1 \<or> bit b 2 \<and> bit b 3 then 8
                  else compass (bit b 0) (bit b 1) (bit b 2) (bit b 3))"
    using hat_neutral [of b] hat_compass [of b] by (auto simp: r'(2) ps3_tail_hat)
  moreover have "ps3_axis r' ! i = ps3_axis r ! i" if "t \<le> subtype_val PS3_GAMEPAD" "i < 4" for i
    using ps3_axes_off [OF that(1)] ps3_fold_axis [of s t c] that(2)
    by (simp add: r'(2) ps3_tail_axis r1_def assms(1) del: upt.simps)
  ultimately show ?thesis using r'(1) by blast
qed

definition ps3_blank :: USB_PS3Report_Data_t where
  "ps3_blank = \<lparr>ps3_rid = 0, ps3_buttons = 0, ps3_hat = 0, ps3_l_x = 0, ps3_l_y = 0, ps3_r_x = 0,
     ps3_r_y = 0, ps3_axis = replicate 12 0, ps3_accel = replicate 4 0\<rparr>"

text \<open>Left and up on a Guitar Hero guitar, with the green fret (A).\<close>

theorem ps3_report_witness:
  "\<exists>r'. fillPS3Report 27 (initPS3 27 ps3_static)
      (blank_controller\<lparr>buttons := 0x1005\<rparr>) ps3_blank = (28, r') \<and>
    ps3_hat r' = 7 \<and> bit (ps3_buttons r') 1 \<and> \<not> bit (ps3_buttons r') 2 \<and> ps3_axis r' ! 0 = 0"
proof -
  obtain n r' where f: "fillPS3Report 27 (initPS3 27 ps3_static)
      (blank_controller\<lparr>buttons := 0x1005\<rparr>) ps3_blank = (n, r')" by force
  have btns: "ps3_btns (initPS3 27 ps3_static) = psGHButtonBindings"
    by (simp add: initPS3_def ps3_static_def)
  note facts = ps3_report_faithful [OF refl f refl, unfolded btns]
  have "bit (ps3_buttons r') 1 = bit (0x1005 :: u16) (unat (psGHButtonBindings ! 1))"
    "bit (ps3_buttons r') 2 = bit (0x1005 :: u16) (unat (psGHButtonBindings ! 2))"
    using facts by (auto simp: psGHButtonBindings_def btn_codes_def)
  moreover have "ps3_hat r' = 7" "ps3_axis r' ! 0 = 0" "n = 28"
    using facts by (simp_all add: compass_def ps3_blank_def)
  ultimately show ?thesis using f by (simp add: psGHButtonBindings_def btn_codes_def)
qed

text \<open>
  C32: a MIDI report holds exactly the inputs that changed: one event for every enabled input whose
  velocity differs from the one last sent, in the order of the inputs; the velocities sent are
  remembered, and the size is that of the report id and those events, never more than the buffer.
\<close>

theorem midi_report_changes:
  fixes d s c m
  defines "vel \<equiv> getVelocity d s c"
  assumes "length prev = 22" "length (midi_events r) = 22"
  shows "\<exists>prev' r'. let ch = midi_changed vel m prev [0..<22] in
    fillMIDIReport d s m c (prev, r) = Some (1 + 4 * length ch, prev', r') \<and>
    take (1 + 4 * length ch) (midi_bytes r') =
      report_id REPORT_ID_MIDI # concat (map midi_event_bytes (midi_latest vel m ch)) \<and>
    1 + 4 * length ch \<le> length (midi_bytes r') \<and>
    (\<forall>i<22. prev' ! i = (if i \<in> set ch then drop_bit 1 (vel i) else prev ! i))"
proof -
  define ch where "ch = midi_changed vel m prev [0..<22]"
  obtain prev' evs' where loop: "midi_loop vel m [0..<22] (0, prev, midi_events r) =
      Some (length ch, prev', evs')" and evs': "length evs' = 22"
    "take (length ch) evs' = midi_latest vel m ch"
    and prev': "\<forall>i<22. prev' ! i = (if i \<in> set ch then drop_bit 1 (vel i) else prev ! i)"
    using midi_loop_events [of "[0..<22]" prev 0 "midi_events r" vel m] assms(2,3)
    by (auto simp: ch_def simp del: upt.simps)
  have len: "length (concat (map midi_event_bytes es)) = 4 * length es" for es
    by (induction es) (simp_all add: midi_event_bytes_def)
  have "length ch \<le> 22"
    using length_filter_le [of _ "[0..<22]"] by (simp only: ch_def midi_changed_def length_upt) simp
  moreover have "take (4 * k) (concat (map midi_event_bytes es)) = concat (map midi_event_bytes (take k es))"
    for k es
    by (induction es arbitrary: k) (auto simp: midi_event_bytes_def take_Cons' split: nat_diff_split)
  ultimately show ?thesis
    using loop evs' prev'
    by (auto simp: fillMIDIReport_def vel_def [symmetric] XBOX_BTN_COUNT_def XBOX_AXIS_COUNT_def
        midi_bytes_def ch_def [symmetric] Let_def len simp del: upt.simps)
qed

text \<open>Up and left pressed, on channel 10.\<close>

definition drum_channel :: MidiConfig_t where
  "drum_channel = \<lparr>midi_type = replicate 22 1, midi_note = map of_nat [0..<22],
     midi_channel = replicate 22 9\<rparr>"

definition midi_blank :: USB_MIDI_Data_t where
  "midi_blank = \<lparr>midi_rid = 0,
     midi_events = replicate 22 \<lparr>ev_event = 0, ev_data1 = 0, ev_data2 = 0, ev_data3 = 0\<rparr>\<rparr>"

theorem midi_report_witness:
  "\<exists>prev' r'. fillMIDIReport False blank_input drum_channel (blank_controller\<lparr>buttons := 5\<rparr>)
      (replicate 22 0, midi_blank) = Some (9, prev', r') \<and>
    take 9 (midi_bytes r') = [7, 9, 0x99, 0, 32, 9, 0x99, 2, 32]"
proof -
  have ch: "midi_changed (getVelocity False blank_input (blank_controller\<lparr>buttons := 5\<rparr>)) drum_channel
      (replicate 22 0) [0..<22] = [0, 2]"
    by code_simp
  have vel: "getVelocity False blank_input (blank_controller\<lparr>buttons := 5\<rparr>) 0 = 64"
    "getVelocity False blank_input (blank_controller\<lparr>buttons := 5\<rparr>) 2 = 64"
    by code_simp+
  have ev: "midi_event drum_channel 0 32 = \<lparr>ev_event = 9, ev_data1 = 0x99, ev_data2 = 0, ev_data3 = 32\<rparr>"
    "midi_event drum_channel 2 32 = \<lparr>ev_event = 9, ev_data1 = 0x99, ev_data2 = 2, ev_data3 = 32\<rparr>"
    by code_simp+
  have half: "drop_bit (Suc 0) (64 :: u8) = 32" by simp
  obtain prev' r' where "fillMIDIReport False blank_input drum_channel (blank_controller\<lparr>buttons := 5\<rparr>)
      (replicate 22 0, midi_blank) = Some (9, prev', r')"
    "take 9 (midi_bytes r') = report_id REPORT_ID_MIDI # concat (map midi_event_bytes
      (midi_latest (getVelocity False blank_input (blank_controller\<lparr>buttons := 5\<rparr>)) drum_channel [0, 2]))"
    using midi_report_changes [of "replicate 22 0" midi_blank False blank_input
        "blank_controller\<lparr>buttons := 5\<rparr>" drum_channel]
    unfolding ch by (auto simp: midi_blank_def)
  then show ?thesis by (simp add: midi_latest_def vel half ev midi_event_bytes_def)
qed

end
