(* ===== verification/Nrf24.thy ===== *)
theory Nrf24
  imports Spi "HOL-Library.State_Monad"
begin

text \<open>
  The driver of the nRF24L01 radio (\<open>src/lib/avr-nrf24l01/src/nrf24l01.c\<close> and
  \<open>nrf24l01-mnemonics.h\<close>). Every operation is a state monad over the driver's globals with the
  chip's pins (\<open>radio\<close>) and the device on the SPI bus. The device is a parameter: what it answers to
  a byte, and what the two lines CSN and CE do to it. \<open>sd_junk\<close> is the byte an uninitialised local
  of the driver holds, which is what is clocked out while a register is read.
\<close>

text \<open>Bytes are compared bit by bit.\<close>

lemma lt8: "(\<forall>n<8. P n) \<longleftrightarrow> P 0 \<and> P 1 \<and> P 2 \<and> P 3 \<and> P 4 \<and> P 5 \<and> P 6 \<and> P (7::nat)"
  by (simp add: numeral_eq_Suc All_less_Suc conj_ac)

lemma u8_eqI: "(\<forall>n<8. bit v n = bit w n) \<Longrightarrow> v = (w :: u8)"
  by (rule bit_word_eqI) simp

section \<open>nrf24l01-mnemonics.h\<close>

datatype register =
    CONFIG | EN_AA | EN_RXADDR | SETUP_AW | SETUP_RETR | RF_CH | RF_SETUP | STATUS | OBSERVE_TX | CD
  | RX_ADDR_P0 | RX_ADDR_P1 | RX_ADDR_P2 | RX_ADDR_P3 | RX_ADDR_P4 | RX_ADDR_P5 | TX_ADDR
  | RX_PW_P0 | RX_PW_P1 | RX_PW_P2 | RX_PW_P3 | RX_PW_P4 | RX_PW_P5 | FIFO_STATUS | DYNPD | FEATURE

fun reg_addr :: "register \<Rightarrow> u8" where
  "reg_addr CONFIG = 0x00" | "reg_addr EN_AA = 0x01" | "reg_addr EN_RXADDR = 0x02"
| "reg_addr SETUP_AW = 0x03" | "reg_addr SETUP_RETR = 0x04" | "reg_addr RF_CH = 0x05"
| "reg_addr RF_SETUP = 0x06" | "reg_addr STATUS = 0x07" | "reg_addr OBSERVE_TX = 0x08"
| "reg_addr CD = 0x09" | "reg_addr RX_ADDR_P0 = 0x0A" | "reg_addr RX_ADDR_P1 = 0x0B"
| "reg_addr RX_ADDR_P2 = 0x0C" | "reg_addr RX_ADDR_P3 = 0x0D" | "reg_addr RX_ADDR_P4 = 0x0E"
| "reg_addr RX_ADDR_P5 = 0x0F" | "reg_addr TX_ADDR = 0x10" | "reg_addr RX_PW_P0 = 0x11"
| "reg_addr RX_PW_P1 = 0x12" | "reg_addr RX_PW_P2 = 0x13" | "reg_addr RX_PW_P3 = 0x14"
| "reg_addr RX_PW_P4 = 0x15" | "reg_addr RX_PW_P5 = 0x16" | "reg_addr FIFO_STATUS = 0x17"
| "reg_addr DYNPD = 0x1C" | "reg_addr FEATURE = 0x1D"

text \<open>Bit positions.\<close>

abbreviation (input) MASK_RX_DR :: nat where "MASK_RX_DR \<equiv> 6"
abbreviation (input) MASK_TX_DS :: nat where "MASK_TX_DS \<equiv> 5"
abbreviation (input) MASK_MAX_RT :: nat where "MASK_MAX_RT \<equiv> 4"
abbreviation (input) EN_CRC :: nat where "EN_CRC \<equiv> 3"
abbreviation (input) CRCO :: nat where "CRCO \<equiv> 2"
abbreviation (input) PWR_UP :: nat where "PWR_UP \<equiv> 1"
abbreviation (input) PRIM_RX :: nat where "PRIM_RX \<equiv> 0"
abbreviation (input) ARD :: nat where "ARD \<equiv> 4"
abbreviation (input) RX_DR :: nat where "RX_DR \<equiv> 6"
abbreviation (input) TX_DS :: nat where "TX_DS \<equiv> 5"
abbreviation (input) MAX_RT :: nat where "MAX_RT \<equiv> 4"
abbreviation (input) TX_FULL :: nat where "TX_FULL \<equiv> 0"
abbreviation (input) TX_EMPTY :: nat where "TX_EMPTY \<equiv> 4"
abbreviation (input) RX_EMPTY :: nat where "RX_EMPTY \<equiv> 0"
abbreviation (input) EN_DPL :: nat where "EN_DPL \<equiv> 2"
abbreviation (input) EN_ACK_PAY :: nat where "EN_ACK_PAY \<equiv> 1"
abbreviation (input) RF_DR_LOW :: nat where "RF_DR_LOW \<equiv> 5"
abbreviation (input) RF_DR_HIGH :: nat where "RF_DR_HIGH \<equiv> 3"
abbreviation (input) RF_PWR_LOW :: nat where "RF_PWR_LOW \<equiv> 1"
abbreviation (input) RF_PWR_HIGH :: nat where "RF_PWR_HIGH \<equiv> 2"

datatype spi_command =
    R_REGISTER | W_REGISTER | R_RX_PAYLOAD | W_TX_PAYLOAD | W_ACK_PAYLOAD | FLUSH_TX | FLUSH_RX
  | REUSE_TX_PL | ACTIVATE | R_RX_PL_WID | NOP

fun cmd_byte :: "spi_command \<Rightarrow> u8" where
  "cmd_byte R_REGISTER = 0x00" | "cmd_byte W_REGISTER = 0x20" | "cmd_byte R_RX_PAYLOAD = 0x61"
| "cmd_byte W_TX_PAYLOAD = 0xA0" | "cmd_byte W_ACK_PAYLOAD = 0xA8" | "cmd_byte FLUSH_TX = 0xE1"
| "cmd_byte FLUSH_RX = 0xE2" | "cmd_byte REUSE_TX_PL = 0xE3" | "cmd_byte ACTIVATE = 0x50"
| "cmd_byte R_RX_PL_WID = 0x60" | "cmd_byte NOP = 0xFF"

definition REGISTER_MASK :: u8 where "REGISTER_MASK = 0x1F"

datatype dataRate_t = RF_1MBPS | RF_2MBPS | RF_250KBPS
datatype crclen_t = RF_CRC_DISABLED | RF_CRC_8 | RF_CRC_16
datatype pa_t = RF_PA_MAX | RF_PA_HIGH | RF_PA_LOW | RF_PA_MIN | RF_PA_ERROR

definition nrf24_ADDR_LEN :: nat where "nrf24_ADDR_LEN = 4"
definition NRF24_TRANSMISSON_OK :: u8 where "NRF24_TRANSMISSON_OK = 0"
definition NRF24_MESSAGE_LOST :: u8 where "NRF24_MESSAGE_LOST = 1"
abbreviation (input) LOW :: u8 where "LOW \<equiv> 0"
abbreviation (input) HIGH :: u8 where "HIGH \<equiv> 1"

section \<open>The driver's state and the bus\<close>

record radio =
  rf_avr :: avr
  rf_spi :: spi_regs
  is_tx :: bool
  p_type :: bool
  wide_band :: bool
  rf_interrupt :: bool
  EICRA :: u8
  EIMSK :: u8

record 'd spi_dev =
  sd_transfer :: "u8 \<Rightarrow> 'd \<Rightarrow> u8 \<times> 'd"
  sd_csn :: "bool \<Rightarrow> 'd \<Rightarrow> 'd"
  sd_ce :: "bool \<Rightarrow> 'd \<Rightarrow> 'd"
  sd_junk :: "'d \<Rightarrow> u8"

type_synonym ('d, 'a) nrf = "(radio \<times> 'd, 'a) state"

definition RF_CE :: u8 where "RF_CE = 8"
definition RF_CSN :: u8 where "RF_CSN = PIN_SPI_SS"

definition modify_radio :: "(radio \<Rightarrow> radio) \<Rightarrow> ('d, unit) nrf" where
  "modify_radio f = State (\<lambda>(r, d). ((), (f r, d)))"

definition read_radio :: "(radio \<Rightarrow> 'a) \<Rightarrow> ('d, 'a) nrf" where
  "read_radio f = State (\<lambda>(r, d). (f r, (r, d)))"

definition uninitialised :: "'d spi_dev \<Rightarrow> ('d, u8) nrf" where
  "uninitialised dev = State (\<lambda>(r, d). (sd_junk dev d, (r, d)))"

text \<open>A transfer ends when the unit reports it; the byte it received is the device's answer.\<close>

definition spi_transfer :: "'d spi_dev \<Rightarrow> u8 \<Rightarrow> ('d, u8) nrf" where
  "spi_transfer dev b = State (\<lambda>(r, d). case sd_transfer dev b d of (v, d') \<Rightarrow> (v, (r, d')))"

definition nrf24_ce_digitalWrite :: "'d spi_dev \<Rightarrow> u8 \<Rightarrow> ('d, unit) nrf" where
  "nrf24_ce_digitalWrite dev st = State (\<lambda>(r, d).
     ((), (r\<lparr>rf_avr := digitalWrite RF_CE st (rf_avr r)\<rparr>, sd_ce dev (st \<noteq> LOW) d)))"

definition nrf24_csn_digitalWrite :: "'d spi_dev \<Rightarrow> u8 \<Rightarrow> ('d, unit) nrf" where
  "nrf24_csn_digitalWrite dev st = State (\<lambda>(r, d).
     ((), (r\<lparr>rf_avr := digitalWrite RF_CSN st (rf_avr r)\<rparr>, sd_csn dev (st \<noteq> LOW) d)))"

section \<open>Register access\<close>

fun nrf24_transferSync :: "'d spi_dev \<Rightarrow> u8 list \<Rightarrow> ('d, u8 list) nrf" where
  "nrf24_transferSync dev [] = State_Monad.return []"
| "nrf24_transferSync dev (b # bs) =
     do { v \<leftarrow> spi_transfer dev b;
          vs \<leftarrow> nrf24_transferSync dev bs;
          State_Monad.return (v # vs) }"

fun nrf24_transmitSync :: "'d spi_dev \<Rightarrow> u8 list \<Rightarrow> ('d, unit) nrf" where
  "nrf24_transmitSync dev [] = State_Monad.return ()"
| "nrf24_transmitSync dev (b # bs) =
     do { _ \<leftarrow> spi_transfer dev b;
          nrf24_transmitSync dev bs }"

definition nrf24_configRegister :: "'d spi_dev \<Rightarrow> register \<Rightarrow> u8 \<Rightarrow> ('d, unit) nrf" where
  "nrf24_configRegister dev reg v =
     do { nrf24_csn_digitalWrite dev LOW;
          _ \<leftarrow> spi_transfer dev (cmd_byte W_REGISTER OR (REGISTER_MASK AND reg_addr reg));
          _ \<leftarrow> spi_transfer dev v;
          nrf24_csn_digitalWrite dev HIGH }"

definition nrf24_readRegister :: "'d spi_dev \<Rightarrow> register \<Rightarrow> u8 list \<Rightarrow> ('d, u8 list) nrf" where
  "nrf24_readRegister dev reg bs =
     do { nrf24_csn_digitalWrite dev LOW;
          _ \<leftarrow> spi_transfer dev (cmd_byte R_REGISTER OR (REGISTER_MASK AND reg_addr reg));
          vs \<leftarrow> nrf24_transferSync dev bs;
          nrf24_csn_digitalWrite dev HIGH;
          State_Monad.return vs }"

definition nrf24_readRegister1 :: "'d spi_dev \<Rightarrow> register \<Rightarrow> ('d, u8) nrf" where
  "nrf24_readRegister1 dev reg =
     do { j \<leftarrow> uninitialised dev;
          vs \<leftarrow> nrf24_readRegister dev reg [j];
          State_Monad.return (vs ! 0) }"

definition nrf24_writeRegister :: "'d spi_dev \<Rightarrow> register \<Rightarrow> u8 list \<Rightarrow> ('d, unit) nrf" where
  "nrf24_writeRegister dev reg bs =
     do { nrf24_csn_digitalWrite dev LOW;
          _ \<leftarrow> spi_transfer dev (cmd_byte W_REGISTER OR (REGISTER_MASK AND reg_addr reg));
          nrf24_transmitSync dev bs;
          nrf24_csn_digitalWrite dev HIGH }"

definition nrf24_writeAckPayload :: "'d spi_dev \<Rightarrow> u8 list \<Rightarrow> ('d, unit) nrf" where
  "nrf24_writeAckPayload dev bs =
     do { nrf24_csn_digitalWrite dev LOW;
          _ \<leftarrow> spi_transfer dev (cmd_byte W_ACK_PAYLOAD OR 1);
          nrf24_transmitSync dev bs;
          nrf24_csn_digitalWrite dev HIGH }"

definition nrf24_getStatus :: "'d spi_dev \<Rightarrow> ('d, u8) nrf" where
  "nrf24_getStatus dev =
     do { nrf24_csn_digitalWrite dev LOW;
          rv \<leftarrow> spi_transfer dev (cmd_byte NOP);
          nrf24_csn_digitalWrite dev HIGH;
          State_Monad.return rv }"

definition nrf24_flush_tx :: "'d spi_dev \<Rightarrow> ('d, unit) nrf" where
  "nrf24_flush_tx dev =
     do { nrf24_csn_digitalWrite dev LOW;
          _ \<leftarrow> spi_transfer dev (cmd_byte FLUSH_TX);
          nrf24_csn_digitalWrite dev HIGH }"

definition nrf24_flush_rx :: "'d spi_dev \<Rightarrow> ('d, unit) nrf" where
  "nrf24_flush_rx dev =
     do { nrf24_csn_digitalWrite dev LOW;
          _ \<leftarrow> spi_transfer dev (cmd_byte FLUSH_RX);
          nrf24_csn_digitalWrite dev HIGH }"

definition nrf24_toggle_features :: "'d spi_dev \<Rightarrow> ('d, unit) nrf" where
  "nrf24_toggle_features dev =
     do { nrf24_csn_digitalWrite dev LOW;
          _ \<leftarrow> spi_transfer dev (cmd_byte ACTIVATE);
          _ \<leftarrow> spi_transfer dev 0x73;
          nrf24_csn_digitalWrite dev HIGH }"

section \<open>Set-up\<close>

definition nrf24_init :: "'d spi_dev \<Rightarrow> ('d, unit) nrf" where
  "nrf24_init dev =
     do { j \<leftarrow> uninitialised dev;
          modify_radio (\<lambda>r. case spi_begin j F_CPU False False False (rf_avr r) of
                              (a, regs) \<Rightarrow> r\<lparr>rf_avr := a, rf_spi := regs\<rparr>);
          nrf24_ce_digitalWrite dev LOW;
          nrf24_csn_digitalWrite dev HIGH }"

definition nrf24_set_pa :: "'d spi_dev \<Rightarrow> pa_t \<Rightarrow> ('d, unit) nrf" where
  "nrf24_set_pa dev pa =
     do { v \<leftarrow> nrf24_readRegister1 dev RF_SETUP;
          let v1 = v AND NOT (bv RF_PWR_LOW OR bv RF_PWR_HIGH);
              v2 = (if pa = RF_PA_MAX then v1 OR (bv RF_PWR_LOW OR bv RF_PWR_HIGH)
                    else if pa = RF_PA_HIGH then v1 OR bv RF_PWR_HIGH
                    else if pa = RF_PA_LOW then v1 OR bv RF_PWR_LOW else v1)
          in nrf24_configRegister dev RF_SETUP v2 }"

text \<open>The code or-s the bit numbers RF_DR_LOW and RF_DR_HIGH in, not the bits.\<close>

definition nrf24_setDataRate :: "'d spi_dev \<Rightarrow> dataRate_t \<Rightarrow> ('d, bool) nrf" where
  "nrf24_setDataRate dev rate =
     do { v \<leftarrow> nrf24_readRegister1 dev RF_SETUP;
          let v1 = v AND NOT (bv RF_DR_LOW OR bv RF_DR_HIGH);
              v2 = (if rate = RF_250KBPS then v1 OR of_nat RF_DR_LOW
                    else if rate = RF_2MBPS then v1 OR of_nat RF_DR_HIGH else v1)
          in do { modify_radio (\<lambda>r. r\<lparr>wide_band := (rate = RF_2MBPS)\<rparr>);
                  nrf24_configRegister dev RF_SETUP v2;
                  v3 \<leftarrow> nrf24_readRegister1 dev RF_SETUP;
                  if v3 = v2 then State_Monad.return True
                  else do { modify_radio (\<lambda>r. r\<lparr>wide_band := False\<rparr>);
                            State_Monad.return False } } }"

definition nrf24_setCRCLen :: "'d spi_dev \<Rightarrow> crclen_t \<Rightarrow> ('d, unit) nrf" where
  "nrf24_setCRCLen dev len =
     do { c \<leftarrow> nrf24_readRegister1 dev CONFIG;
          let c1 = c AND NOT (bv CRCO OR bv EN_CRC);
              c2 = (if len = RF_CRC_DISABLED then c1
                    else if len = RF_CRC_8 then c1 OR bv EN_CRC else c1 OR bv EN_CRC OR bv CRCO)
          in nrf24_configRegister dev CONFIG c2 }"

definition nrf24_enable_ack_payload :: "'d spi_dev \<Rightarrow> ('d, unit) nrf" where
  "nrf24_enable_ack_payload dev =
     do { f \<leftarrow> nrf24_readRegister1 dev FEATURE;
          nrf24_configRegister dev FEATURE (f OR bv EN_DPL);
          p \<leftarrow> nrf24_readRegister1 dev DYNPD;
          nrf24_configRegister dev DYNPD (p OR 0x3F);
          f2 \<leftarrow> nrf24_readRegister1 dev FEATURE;
          nrf24_configRegister dev FEATURE (f2 OR bv EN_ACK_PAY OR bv EN_DPL);
          p2 \<leftarrow> nrf24_readRegister1 dev DYNPD;
          nrf24_configRegister dev DYNPD (p2 OR 0x03) }"

text \<open>\<open>config_reg\<close> is initialised to 0 before CONFIG is read into it.\<close>

definition config_masked :: "'d spi_dev \<Rightarrow> ('d, u8) nrf" where
  "config_masked dev =
     do { vs \<leftarrow> nrf24_readRegister dev CONFIG [0];
          State_Monad.return (vs ! 0 AND NOT (bv PRIM_RX OR bv PWR_UP OR bv MASK_RX_DR OR
                                              bv MASK_TX_DS OR bv MASK_MAX_RT)) }"

definition nrf24_powerUpRx :: "'d spi_dev \<Rightarrow> ('d, unit) nrf" where
  "nrf24_powerUpRx dev =
     do { nrf24_configRegister dev STATUS (bv RX_DR OR bv TX_DS OR bv MAX_RT);
          c \<leftarrow> config_masked dev;
          nrf24_ce_digitalWrite dev LOW;
          nrf24_configRegister dev CONFIG (c OR (bv PWR_UP OR bv PRIM_RX));
          nrf24_ce_digitalWrite dev HIGH }"

definition nrf24_powerUpTx :: "'d spi_dev \<Rightarrow> ('d, unit) nrf" where
  "nrf24_powerUpTx dev =
     do { c \<leftarrow> config_masked dev;
          nrf24_ce_digitalWrite dev LOW;
          nrf24_configRegister dev CONFIG (c OR bv PWR_UP);
          nrf24_ce_digitalWrite dev HIGH }"

definition nrf24_powerDown :: "'d spi_dev \<Rightarrow> ('d, unit) nrf" where
  "nrf24_powerDown dev =
     do { nrf24_ce_digitalWrite dev LOW;
          vs \<leftarrow> nrf24_readRegister dev CONFIG [0];
          nrf24_configRegister dev CONFIG (bit_clear_m (vs ! 0) PWR_UP) }"

definition nrf24_config :: "'d spi_dev \<Rightarrow> u8 \<Rightarrow> bool \<Rightarrow> ('d, unit) nrf" where
  "nrf24_config dev channel tx =
     do { modify_radio (\<lambda>r. r\<lparr>is_tx := tx\<rparr>);
          nrf24_configRegister dev SETUP_RETR (push_bit ARD 0x0F OR 0x01);
          nrf24_configRegister dev SETUP_AW 0b10;
          nrf24_set_pa dev RF_PA_MIN;
          before \<leftarrow> nrf24_readRegister1 dev FEATURE;
          nrf24_toggle_features dev;
          after \<leftarrow> nrf24_readRegister1 dev FEATURE;
          modify_radio (\<lambda>r. r\<lparr>p_type := (before = after)\<rparr>);
          (if after \<noteq> 0
           then do { (if before = after then nrf24_toggle_features dev else State_Monad.return ());
                     nrf24_configRegister dev FEATURE 0 }
           else State_Monad.return ());
          _ \<leftarrow> nrf24_setDataRate dev RF_2MBPS;
          nrf24_setCRCLen dev RF_CRC_16;
          nrf24_configRegister dev RF_CH channel;
          nrf24_enable_ack_payload dev;
          nrf24_configRegister dev EN_AA 0x3F;
          nrf24_configRegister dev STATUS (bv RX_DR OR bv TX_DS OR bv MAX_RT);
          nrf24_flush_rx dev;
          nrf24_flush_tx dev;
          (if tx then nrf24_powerUpTx dev else nrf24_powerUpRx dev) }"

definition nrf24_rx_address :: "'d spi_dev \<Rightarrow> u8 list \<Rightarrow> ('d, unit) nrf" where
  "nrf24_rx_address dev adr =
     do { nrf24_ce_digitalWrite dev LOW;
          nrf24_writeRegister dev RX_ADDR_P1 (take nrf24_ADDR_LEN adr);
          nrf24_configRegister dev EN_RXADDR (bv 0 OR bv 1);
          nrf24_ce_digitalWrite dev HIGH }"

definition nrf24_tx_address :: "'d spi_dev \<Rightarrow> u8 list \<Rightarrow> ('d, unit) nrf" where
  "nrf24_tx_address dev adr =
     do { nrf24_writeRegister dev RX_ADDR_P0 (take nrf24_ADDR_LEN adr);
          nrf24_writeRegister dev TX_ADDR (take nrf24_ADDR_LEN adr) }"

section \<open>Data\<close>

definition nrf24_rxFifoEmpty :: "'d spi_dev \<Rightarrow> ('d, u8) nrf" where
  "nrf24_rxFifoEmpty dev =
     do { f \<leftarrow> nrf24_readRegister1 dev FIFO_STATUS; State_Monad.return (f AND bv RX_EMPTY) }"

definition nrf24_txFifoEmpty :: "'d spi_dev \<Rightarrow> ('d, u8) nrf" where
  "nrf24_txFifoEmpty dev =
     do { f \<leftarrow> nrf24_readRegister1 dev FIFO_STATUS; State_Monad.return (f AND bv TX_EMPTY) }"

definition nrf24_txFifoFull :: "'d spi_dev \<Rightarrow> ('d, u8) nrf" where
  "nrf24_txFifoFull dev =
     do { st \<leftarrow> nrf24_getStatus dev; State_Monad.return (st AND bv TX_FULL) }"

definition nrf24_dataReady :: "'d spi_dev \<Rightarrow> ('d, u8) nrf" where
  "nrf24_dataReady dev =
     do { st \<leftarrow> nrf24_getStatus dev;
          if truthy (st AND bv RX_DR) then State_Monad.return 1
          else do { e \<leftarrow> nrf24_rxFifoEmpty dev; State_Monad.return (of_bool (e = 0)) } }"

definition nrf24_payloadLength :: "'d spi_dev \<Rightarrow> ('d, u8) nrf" where
  "nrf24_payloadLength dev =
     do { nrf24_csn_digitalWrite dev LOW;
          _ \<leftarrow> spi_transfer dev (cmd_byte R_RX_PL_WID);
          st \<leftarrow> spi_transfer dev 0x00;
          nrf24_csn_digitalWrite dev HIGH;
          State_Monad.return st }"

text \<open>
  \<open>buf\<close> is the array the caller passes. The chip's answer gives the number of bytes when the caller
  asks for 0, and nothing compares it with the array: the result None is a write past its end.
\<close>

definition nrf24_getData :: "'d spi_dev \<Rightarrow> u8 list \<Rightarrow> u8 \<Rightarrow> ('d, (u8 \<times> u8 list) option) nrf" where
  "nrf24_getData dev buf len =
     do { nrf24_configRegister dev STATUS (bv RX_DR);
          n \<leftarrow> (if len = 0 then nrf24_payloadLength dev else State_Monad.return len);
          nrf24_csn_digitalWrite dev LOW;
          _ \<leftarrow> spi_transfer dev (cmd_byte R_RX_PAYLOAD);
          vs \<leftarrow> nrf24_transferSync dev (take (unat n) buf);
          nrf24_csn_digitalWrite dev HIGH;
          State_Monad.return
            (if unat n \<le> length buf then Some (n, vs @ drop (unat n) buf) else None) }"

definition nrf24_retransmissionCount :: "'d spi_dev \<Rightarrow> ('d, u8) nrf" where
  "nrf24_retransmissionCount dev =
     do { rv \<leftarrow> nrf24_readRegister1 dev OBSERVE_TX; State_Monad.return (rv AND 0x0F) }"

definition nrf24_send :: "'d spi_dev \<Rightarrow> u8 list \<Rightarrow> ('d, unit) nrf" where
  "nrf24_send dev bs =
     do { nrf24_configRegister dev STATUS (bv TX_DS OR bv MAX_RT);
          nrf24_csn_digitalWrite dev LOW;
          _ \<leftarrow> spi_transfer dev (cmd_byte W_TX_PAYLOAD);
          nrf24_transmitSync dev bs;
          nrf24_csn_digitalWrite dev HIGH }"

definition nrf24_isSending :: "'d spi_dev \<Rightarrow> ('d, u8) nrf" where
  "nrf24_isSending dev =
     do { st \<leftarrow> nrf24_getStatus dev;
          State_Monad.return (if truthy (st AND (bv TX_DS OR bv MAX_RT)) then 0 else 1) }"

definition nrf24_lastMessageStatus :: "'d spi_dev \<Rightarrow> ('d, u8) nrf" where
  "nrf24_lastMessageStatus dev =
     do { rv \<leftarrow> nrf24_getStatus dev;
          State_Monad.return
            (if truthy (rv AND bv TX_DS) then NRF24_TRANSMISSON_OK
             else if truthy (rv AND bv MAX_RT) then NRF24_MESSAGE_LOST else 0xFF) }"

section \<open>What the data sheet promises of the registers\<close>

text \<open>
  A frame is what happens between CSN falling and rising. \<open>regs\<close> is the abstraction of the device
  into the registers that hold what is written to them: a write frame stores its bytes, the answer
  to a read frame is the stored byte, and no other command changes them.
\<close>

fun exchange_bytes :: "'d spi_dev \<Rightarrow> u8 list \<Rightarrow> 'd \<Rightarrow> u8 list \<times> 'd" where
  "exchange_bytes dev [] d = ([], d)"
| "exchange_bytes dev (b # bs) d =
     (case sd_transfer dev b d of (v, d1) \<Rightarrow>
        case exchange_bytes dev bs d1 of (vs, d2) \<Rightarrow> (v # vs, d2))"

definition spi_frame :: "'d spi_dev \<Rightarrow> u8 list \<Rightarrow> 'd \<Rightarrow> u8 list \<times> 'd" where
  "spi_frame dev bs d =
     (case exchange_bytes dev bs (sd_csn dev False d) of (vs, d1) \<Rightarrow> (vs, sd_csn dev True d1))"

fun stored :: "register \<Rightarrow> bool" where
  "stored STATUS = False" | "stored OBSERVE_TX = False" | "stored CD = False"
| "stored FIFO_STATUS = False" | "stored DYNPD = False" | "stored FEATURE = False"
| "stored r = True"

definition reg_width :: "register \<Rightarrow> nat" where
  "reg_width r = (if r \<in> {RX_ADDR_P0, RX_ADDR_P1, TX_ADDR} then nrf24_ADDR_LEN else 1)"

definition obeys_datasheet :: "'d spi_dev \<Rightarrow> ('d \<Rightarrow> register \<Rightarrow> u8 list) \<Rightarrow> bool" where
  "obeys_datasheet dev regs \<longleftrightarrow>
     (\<forall>st d. regs (sd_ce dev st d) = regs d) \<and>
     (\<forall>r bs d. length bs = reg_width r \<longrightarrow>
        regs (snd (spi_frame dev ((0x20 OR reg_addr r) # bs) d)) =
          (if stored r then (regs d)(r := bs) else regs d)) \<and>
     (\<forall>r j d. stored r \<longrightarrow> fst (spi_frame dev [reg_addr r, j] d) ! 1 = regs d r ! 0) \<and>
     (\<forall>c bs d. c AND 0xE0 \<noteq> 0x20 \<longrightarrow> regs (snd (spi_frame dev (c # bs) d)) = regs d)"

named_theorems chip \<open>the effect of the driver's operations on the registers\<close>

lemma masked_addr [simp]:
  "cmd_byte R_REGISTER OR (REGISTER_MASK AND reg_addr r) = reg_addr r"
  "cmd_byte W_REGISTER OR (REGISTER_MASK AND reg_addr r) = 0x20 OR reg_addr r"
  by (cases r; simp add: REGISTER_MASK_def)+

lemma read_command: "reg_addr r AND 0xE0 \<noteq> 0x20"
  by (cases r) simp_all

lemma run_bind:
  "run_state (State_Monad.bind m f) x = run_state (f (fst (run_state m x))) (snd (run_state m x))"
  by (simp add: case_prod_beta)

lemma transferSync_exchange:
  "run_state (nrf24_transferSync dev bs) (s, d) =
     (fst (exchange_bytes dev bs d), (s, snd (exchange_bytes dev bs d)))"
  by (induction bs arbitrary: d) (auto simp: spi_transfer_def split: prod.splits)

lemma transmitSync_exchange:
  "run_state (nrf24_transmitSync dev bs) (s, d) = ((), (s, snd (exchange_bytes dev bs d)))"
  by (induction bs arbitrary: d) (auto simp: spi_transfer_def split: prod.splits)

definition pulsed :: "radio \<Rightarrow> radio" where
  "pulsed s = s\<lparr>rf_avr := digitalWrite RF_CSN HIGH (digitalWrite RF_CSN LOW (rf_avr s))\<rparr>"

text \<open>Every access to the device is one frame.\<close>

lemma pulsed_flags [simp]:
  "wide_band (pulsed s) = wide_band s" "p_type (pulsed s) = p_type s" "is_tx (pulsed s) = is_tx s"
  "rf_interrupt (pulsed s) = rf_interrupt s"
  by (simp_all add: pulsed_def)

lemmas frame_defs =
  spi_frame_def pulsed_def spi_transfer_def nrf24_csn_digitalWrite_def case_prod_beta

lemma configRegister_frame:
  "run_state (nrf24_configRegister dev r v) (s, d) =
     ((), (pulsed s, snd (spi_frame dev [0x20 OR reg_addr r, v] d)))"
  by (simp add: nrf24_configRegister_def frame_defs del: cmd_byte.simps)

lemma writeRegister_frame:
  "run_state (nrf24_writeRegister dev r bs) (s, d) =
     ((), (pulsed s, snd (spi_frame dev ((0x20 OR reg_addr r) # bs) d)))"
  by (simp add: nrf24_writeRegister_def frame_defs transmitSync_exchange del: cmd_byte.simps)

lemma readRegister_frame:
  "run_state (nrf24_readRegister dev r bs) (s, d) =
     (tl (fst (spi_frame dev (reg_addr r # bs) d)),
      (pulsed s, snd (spi_frame dev (reg_addr r # bs) d)))"
  by (simp add: nrf24_readRegister_def frame_defs transferSync_exchange del: cmd_byte.simps)

lemma readRegister1_frame:
  "run_state (nrf24_readRegister1 dev r) (s, d) =
     (tl (fst (spi_frame dev [reg_addr r, sd_junk dev d] d)) ! 0,
      (pulsed s, snd (spi_frame dev [reg_addr r, sd_junk dev d] d)))"
  by (simp add: nrf24_readRegister1_def uninitialised_def readRegister_frame)

lemma command_frames:
  "run_state (nrf24_flush_tx dev) (s, d) = ((), (pulsed s, snd (spi_frame dev [0xE1] d)))"
  "run_state (nrf24_flush_rx dev) (s, d) = ((), (pulsed s, snd (spi_frame dev [0xE2] d)))"
  "run_state (nrf24_toggle_features dev) (s, d) =
     ((), (pulsed s, snd (spi_frame dev [0x50, 0x73] d)))"
  by (simp_all add: nrf24_flush_tx_def nrf24_flush_rx_def nrf24_toggle_features_def frame_defs)

lemma second_answer: "tl (fst (spi_frame dev [a, b] d)) ! 0 = fst (spi_frame dev [a, b] d) ! 1"
  by (simp add: spi_frame_def case_prod_beta)

section \<open>The effect of the operations on the registers\<close>

abbreviation after :: "('d, 'a) nrf \<Rightarrow> radio \<times> 'd \<Rightarrow> radio \<times> 'd" where
  "after m x \<equiv> snd (run_state m x)"

lemma datasheet_write:
  "obeys_datasheet dev regs \<Longrightarrow> length bs = reg_width r \<Longrightarrow>
   regs (snd (spi_frame dev ((0x20 OR reg_addr r) # bs) d)) =
     (if stored r then (regs d)(r := bs) else regs d)"
  by (simp add: obeys_datasheet_def)

lemma datasheet_read:
  "obeys_datasheet dev regs \<Longrightarrow> stored r \<Longrightarrow> fst (spi_frame dev [reg_addr r, j] d) ! 1 = regs d r ! 0"
  by (simp add: obeys_datasheet_def)

lemma datasheet_other:
  "obeys_datasheet dev regs \<Longrightarrow> c AND 0xE0 \<noteq> 0x20 \<Longrightarrow>
   regs (snd (spi_frame dev (c # bs) d)) = regs d"
  by (simp add: obeys_datasheet_def)

lemma chip_access [chip]:
  assumes "obeys_datasheet dev regs"
  shows "reg_width r = 1 \<Longrightarrow> regs (snd (after (nrf24_configRegister dev r v) x)) =
           (if stored r then (regs (snd x))(r := [v]) else regs (snd x))"
    and "length bs = reg_width r \<Longrightarrow> regs (snd (after (nrf24_writeRegister dev r bs) x)) =
           (if stored r then (regs (snd x))(r := bs) else regs (snd x))"
    and "regs (snd (after (nrf24_readRegister dev r bs) x)) = regs (snd x)"
    and "regs (snd (after (nrf24_readRegister1 dev r) x)) = regs (snd x)"
    and "stored r \<Longrightarrow> fst (run_state (nrf24_readRegister1 dev r) x) = regs (snd x) r ! 0"
    and "stored r \<Longrightarrow> fst (run_state (nrf24_readRegister dev r [j]) x) ! 0 = regs (snd x) r ! 0"
    and "regs (snd (after (nrf24_flush_tx dev) x)) = regs (snd x)"
    and "regs (snd (after (nrf24_flush_rx dev) x)) = regs (snd x)"
    and "regs (snd (after (nrf24_toggle_features dev) x)) = regs (snd x)"
    and "regs (snd (after (nrf24_ce_digitalWrite dev st) x)) = regs (snd x)"
  using assms
  by (cases x; simp add: configRegister_frame writeRegister_frame readRegister_frame
      readRegister1_frame command_frames datasheet_write datasheet_other read_command second_answer
      datasheet_read nrf24_ce_digitalWrite_def;
      simp add: obeys_datasheet_def)+

lemma chip_free [chip]:
  "snd (after (modify_radio f) x) = snd x" "snd (after (uninitialised dev) x) = snd x"
  "snd (after (State_Monad.return v) x) = snd x"
  by (cases x; simp add: modify_radio_def uninitialised_def)+

lemma flags_access [chip]:
  "wide_band (fst (after (nrf24_configRegister dev r v) x)) = wide_band (fst x)"
  "wide_band (fst (after (nrf24_writeRegister dev r bs) x)) = wide_band (fst x)"
  "wide_band (fst (after (nrf24_readRegister dev r bs) x)) = wide_band (fst x)"
  "wide_band (fst (after (nrf24_readRegister1 dev r) x)) = wide_band (fst x)"
  "wide_band (fst (after (nrf24_flush_tx dev) x)) = wide_band (fst x)"
  "wide_band (fst (after (nrf24_flush_rx dev) x)) = wide_band (fst x)"
  "wide_band (fst (after (nrf24_toggle_features dev) x)) = wide_band (fst x)"
  "wide_band (fst (after (nrf24_ce_digitalWrite dev st) x)) = wide_band (fst x)"
  "fst (after (modify_radio f) x) = f (fst x)" "fst (after (State_Monad.return v) x) = fst x"
  by (cases x; simp add: configRegister_frame writeRegister_frame readRegister_frame
      readRegister1_frame command_frames nrf24_ce_digitalWrite_def modify_radio_def)+

lemma reg_width_one [simp]:
  "r \<notin> {RX_ADDR_P0, RX_ADDR_P1, TX_ADDR} \<Longrightarrow> reg_width r = 1"
  by (simp add: reg_width_def)

lemma chip_set_pa [chip]:
  "obeys_datasheet dev regs \<Longrightarrow> regs (snd (after (nrf24_set_pa dev RF_PA_MIN) x)) =
   (regs (snd x))(RF_SETUP := [regs (snd x) RF_SETUP ! 0 AND NOT 0x06])"
  by (simp add: nrf24_set_pa_def run_bind chip bv_def Let_def fun_eq_iff del: run_state_bind)

lemma chip_setDataRate [chip]:
  "obeys_datasheet dev regs \<Longrightarrow> regs (snd (after (nrf24_setDataRate dev RF_2MBPS) x)) =
   (regs (snd x))(RF_SETUP := [regs (snd x) RF_SETUP ! 0 AND NOT 0x28 OR 3])"
  "obeys_datasheet dev regs \<Longrightarrow> wide_band (fst (after (nrf24_setDataRate dev RF_2MBPS) x))"
  by (simp_all add: nrf24_setDataRate_def run_bind chip bv_def Let_def fun_eq_iff del: run_state_bind)

lemma chip_setCRCLen [chip]:
  "obeys_datasheet dev regs \<Longrightarrow> regs (snd (after (nrf24_setCRCLen dev RF_CRC_16) x)) =
   (regs (snd x))(CONFIG := [regs (snd x) CONFIG ! 0 AND NOT 0x0C OR 0x0C])"
  "wide_band (fst (after (nrf24_setCRCLen dev RF_CRC_16) x)) = wide_band (fst x)"
  by (simp_all add: nrf24_setCRCLen_def run_bind chip bv_def Let_def fun_eq_iff or.assoc
      del: run_state_bind)

lemma chip_enable_ack [chip]:
  "obeys_datasheet dev regs \<Longrightarrow> regs (snd (after (nrf24_enable_ack_payload dev) x)) = regs (snd x)"
  "wide_band (fst (after (nrf24_enable_ack_payload dev) x)) = wide_band (fst x)"
  by (simp_all add: nrf24_enable_ack_payload_def run_bind chip del: run_state_bind)

lemma chip_power [chip]:
  "obeys_datasheet dev regs \<Longrightarrow> regs (snd (after (nrf24_powerUpRx dev) x)) =
   (regs (snd x))(CONFIG := [regs (snd x) CONFIG ! 0 AND NOT 0x73 OR 0x03])"
  "obeys_datasheet dev regs \<Longrightarrow> regs (snd (after (nrf24_powerUpTx dev) x)) =
   (regs (snd x))(CONFIG := [regs (snd x) CONFIG ! 0 AND NOT 0x73 OR 0x02])"
  "wide_band (fst (after (nrf24_powerUpRx dev) x)) = wide_band (fst x)"
  "wide_band (fst (after (nrf24_powerUpTx dev) x)) = wide_band (fst x)"
  by (simp_all add: nrf24_powerUpRx_def nrf24_powerUpTx_def config_masked_def run_bind chip bv_def
      fun_eq_iff del: run_state_bind)

end
