(* ===== verification/Rf.thy ===== *)
theory Rf
  imports Nrf24
begin

text \<open>
  The radio link (\<open>src/src/shared/rf/rf.c\<close>) of the Arduino Uno: the board's identity as a CRC of
  its signature bytes, the set-up of the radio, and one exchange as transmitter and as receiver.
\<close>

section \<open>The board's identity\<close>

definition BOOT_ID_LEN :: nat where "BOOT_ID_LEN = 32"

definition crc_bit :: "u32 \<Rightarrow> u32" where
  "crc_bit crc = (if truthy (crc AND 1) then drop_bit 1 crc XOR 0xEDB88320 else drop_bit 1 crc)"

fun crc_loop :: "u8 list \<Rightarrow> u32 \<Rightarrow> u32" where
  "crc_loop [] crc = crc"
| "crc_loop (b # bs) crc = crc_loop bs ((crc_bit ^^ 8) (crc XOR ucast b))"

definition generate_crc32 :: "(nat \<Rightarrow> u8) \<Rightarrow> u32" where
  "generate_crc32 boot_sig = crc_loop (map boot_sig [0..<BOOT_ID_LEN]) 0x01234567"

section \<open>Set-up\<close>

definition initRF :: "'d spi_dev \<Rightarrow> bool \<Rightarrow> u32 \<Rightarrow> u32 \<Rightarrow> ('d, unit) nrf" where
  "initRF dev tx txid rxid =
     do { modify_radio (\<lambda>r. r\<lparr>rf_interrupt := tx\<rparr>);
          modify_radio (\<lambda>r. if RF_CE \<noteq> PIN_SPI_SS
                            then r\<lparr>rf_avr := pinMode RF_CE OUTPUT (rf_avr r)\<rparr> else r);
          modify_radio (\<lambda>r. r\<lparr>rf_avr := pinMode RF_CSN OUTPUT (rf_avr r)\<rparr>);
          nrf24_init dev;
          nrf24_config dev 76 tx;
          nrf24_tx_address dev (le32 txid);
          nrf24_rx_address dev (le32 rxid);
          modify_radio (\<lambda>r. r\<lparr>EICRA := EICRA r OR bv 1, EIMSK := EIMSK r OR bv 0\<rparr>) }"

definition INT0_vect :: "('d, unit) nrf" where
  "INT0_vect = modify_radio (\<lambda>r. r\<lparr>rf_interrupt := True\<rparr>)"

section \<open>Exchanges\<close>

text \<open>The result None is a payload longer than the array it is read into.\<close>

definition rx_pipe :: "u8 \<Rightarrow> u8" where
  "rx_pipe status = drop_bit 1 (status AND 0b1110)"

definition tickRFTX ::
  "'d spi_dev \<Rightarrow> u8 list \<Rightarrow> u8 list \<Rightarrow> ('d, (bool \<times> u8 list) option) nrf" where
  "tickRFTX dev data arr =
     do { modify_radio (\<lambda>r. r\<lparr>rf_interrupt := False\<rparr>);
          status \<leftarrow> nrf24_getStatus dev;
          res \<leftarrow> (if rx_pipe status = 0
                 then do { g \<leftarrow> nrf24_getData dev arr 0;
                           nrf24_configRegister dev STATUS (bv RX_DR);
                           State_Monad.return (map_option (\<lambda>(n, a). (True, a)) g) }
                 else State_Monad.return (Some (False, arr)));
          nrf24_send dev data;
          State_Monad.return res }"

definition tickRFInput ::
  "'d spi_dev \<Rightarrow> u8 list \<Rightarrow> u8 \<Rightarrow> ('d, (u8 \<times> u8 list) option) nrf" where
  "tickRFInput dev buf len =
     do { pending \<leftarrow> read_radio rf_interrupt;
          if pending
          then do { modify_radio (\<lambda>r. r\<lparr>rf_interrupt := False\<rparr>);
                    status \<leftarrow> nrf24_getStatus dev;
                    if rx_pipe status \<noteq> 7 then nrf24_getData dev buf len
                    else State_Monad.return (Some (0, buf)) }
          else State_Monad.return (Some (0, buf)) }"

section \<open>A radio that follows its data sheet\<close>

lemma chip_config:
  assumes "obeys_datasheet dev regs"
  defines "r0 \<equiv> \<lambda>x. regs (snd x)"
  shows "r0 (after (nrf24_config dev ch tx) x) = (r0 x)
     (SETUP_RETR := [0xF1], SETUP_AW := [2],
      RF_SETUP := [(r0 x RF_SETUP ! 0 AND NOT 0x06) AND NOT 0x28 OR 3],
      CONFIG := [(r0 x CONFIG ! 0 AND NOT 0x0C OR 0x0C) AND NOT 0x73 OR (if tx then 0x02 else 0x03)],
      RF_CH := [ch], EN_AA := [0x3F])"
    and "wide_band (fst (after (nrf24_config dev ch tx) x))"
  using assms(1)
  by (simp_all add: nrf24_config_def r0_def run_bind chip Let_def bv_def fun_eq_iff del: run_state_bind)

text \<open>CSN is raised first; on a radio that is not selected this changes nothing.\<close>

definition deselected :: "'d spi_dev \<Rightarrow> 'd \<Rightarrow> bool" where
  "deselected dev d \<longleftrightarrow> sd_csn dev True (sd_ce dev False d) = sd_ce dev False d"

lemma chip_init:
  assumes "obeys_datasheet dev regs" "deselected dev (snd x)"
  shows "regs (snd (after (nrf24_init dev) x)) = regs (snd x)"
  using assms
  by (cases x; simp add: nrf24_init_def uninitialised_def modify_radio_def nrf24_ce_digitalWrite_def
      nrf24_csn_digitalWrite_def case_prod_beta deselected_def; simp add: obeys_datasheet_def)

lemma chip_addresses [chip]:
  assumes "obeys_datasheet dev regs"
  shows "length a = 4 \<Longrightarrow> regs (snd (after (nrf24_tx_address dev a) x)) =
           (regs (snd x))(RX_ADDR_P0 := a, TX_ADDR := a)"
    and "length a = 4 \<Longrightarrow> regs (snd (after (nrf24_rx_address dev a) x)) =
           (regs (snd x))(RX_ADDR_P1 := a, EN_RXADDR := [0x03])"
    and "wide_band (fst (after (nrf24_tx_address dev a) x)) = wide_band (fst x)"
    and "wide_band (fst (after (nrf24_rx_address dev a) x)) = wide_band (fst x)"
  using assms
  by (simp_all add: nrf24_tx_address_def nrf24_rx_address_def nrf24_ADDR_LEN_def reg_width_def
      run_bind chip bv_def fun_eq_iff del: run_state_bind)

lemma config_byte:
  "(v AND NOT 0x0C OR 0x0C) AND NOT 0x73 OR 0x02 = (v AND 0x80) OR (0x0E :: u8)"
  "(v AND NOT 0x0C OR 0x0C) AND NOT 0x73 OR 0x03 = (v AND 0x80) OR (0x0F :: u8)"
  "(v AND NOT 0x06) AND NOT 0x28 OR 3 = (v AND 0xD1) OR (0x03 :: u8)"
  by (rule u8_eqI, simp add: lt8 bit_simps)+

section \<open>Properties\<close>


text \<open>A device that keeps its registers in a function and decodes a frame when CSN rises.\<close>

type_synonym shelf = "(u8 \<Rightarrow> u8 list) \<times> u8 list"

definition shelf_answer :: "shelf \<Rightarrow> u8" where
  "shelf_answer st = (case snd st of [] \<Rightarrow> 0x0E | [c] \<Rightarrow> fst st c ! 0 | _ \<Rightarrow> 0)"

definition shelf_commit :: "shelf \<Rightarrow> shelf" where
  "shelf_commit st =
     (case snd st of [] \<Rightarrow> st
      | c # bs \<Rightarrow> (if c AND 0xE0 = 0x20 then (fst st)(c AND 0x1F := bs) else fst st, []))"

definition shelf_dev :: "shelf spi_dev" where
  "shelf_dev = \<lparr>sd_transfer = (\<lambda>b st. (shelf_answer st, (fst st, snd st @ [b]))),
     sd_csn = (\<lambda>high st. if high then shelf_commit st else (fst st, [])),
     sd_ce = (\<lambda>_ st. st), sd_junk = (\<lambda>_. 0)\<rparr>"

definition shelf_regs :: "shelf \<Rightarrow> register \<Rightarrow> u8 list" where
  "shelf_regs st r = (if stored r then fst st (reg_addr r) else [])"

lemma shelf_bytes:
  "snd (exchange_bytes shelf_dev bs st) = (fst st, snd st @ bs)"
  by (induction bs arbitrary: st) (auto simp: shelf_dev_def case_prod_beta)

lemma reg_addr_eq: "reg_addr r = reg_addr q \<longleftrightarrow> r = q"
  by (cases r; cases q; simp)

lemma shelf_write_addr: "(0x20 OR reg_addr r) AND 0xE0 = 0x20" "(0x20 OR reg_addr r) AND 0x1F = reg_addr r"
  by (cases r; simp)+

lemma shelf_obeys: "obeys_datasheet shelf_dev shelf_regs"
  unfolding obeys_datasheet_def
proof (intro conjI allI impI)
  show "shelf_regs (sd_ce shelf_dev st d) = shelf_regs d" for st d
    by (simp add: shelf_dev_def)
  show "shelf_regs (snd (spi_frame shelf_dev ((0x20 OR reg_addr r) # bs) d)) =
      (if stored r then (shelf_regs d)(r := bs) else shelf_regs d)" for r bs d
    by (auto simp: spi_frame_def case_prod_beta shelf_bytes shelf_regs_def fun_eq_iff reg_addr_eq
        shelf_write_addr) (auto simp: shelf_dev_def shelf_commit_def shelf_write_addr reg_addr_eq)
  show "fst (spi_frame shelf_dev [reg_addr r, j] d) ! 1 = shelf_regs d r ! 0" if "stored r" for r j d
    using that by (simp add: spi_frame_def shelf_dev_def shelf_answer_def shelf_regs_def)
  show "shelf_regs (snd (spi_frame shelf_dev (c # bs) d)) = shelf_regs d"
    if "c AND 0xE0 \<noteq> 0x20" for c bs d
    using that
    by (simp add: spi_frame_def case_prod_beta shelf_bytes shelf_regs_def fun_eq_iff)
       (simp add: shelf_dev_def shelf_commit_def)
qed

definition blank_radio :: radio where
  "blank_radio = \<lparr>rf_avr = blank_avr, rf_spi = \<lparr>SPCR = 0, SPSR = 0\<rparr>, is_tx = False, p_type = False,
     wide_band = False, rf_interrupt = False, EICRA = 0, EIMSK = 0\<rparr>"


end
