(* ===== verification/Leds.thy ===== *)
theory Leds
  imports Input
begin

text \<open>
  The addressable LEDs of the frets (\<open>src/src/shared/leds/leds.c\<close>): the bytes a poll sends to a
  strip of APA102 LEDs over SPI. \<open>ledConfig\<close> is the configuration's table, \<open>leds\<close> the table the
  host can write. The result None is a read past the end of an array.
\<close>

definition NUM_LEDS :: nat where "NUM_LEDS = XBOX_BTN_COUNT + XBOX_AXIS_COUNT"

record led_state =
  ledsEnabled :: bool
  ledConfig :: "Led_t list"
  leds :: "Led_t list"

definition initLEDs :: "Configuration_t \<Rightarrow> led_state \<Rightarrow> led_state" where
  "initLEDs config s =
     s\<lparr>ledsEnabled := (fretLEDMode (cfg_main config) \<noteq> fret_val APA102),
       ledConfig := take (length (leds s)) (cfg_leds config)\<rparr>"

definition is_dark :: "Led_t \<Rightarrow> bool" where
  "is_dark l \<longleftrightarrow> led_blue l = 0 \<and> led_red l = 0 \<and> led_green l = 0"

text \<open>
  The colour of one LED. A pin above 22 reads past the end of the controller's sticks.
\<close>

definition shown :: "(nat \<Rightarrow> u8) \<Rightarrow> Led_t \<Rightarrow> Led_t \<Rightarrow> Led_t option" where
  "shown vel configLED contLED =
     (if is_dark contLED \<and> led_pin configLED \<noteq> 0
      then if unat (led_pin configLED) \<le> NUM_LEDS
           then Some (if vel (unat (led_pin configLED) - 1) \<noteq> 0 then configLED else contLED)
           else None
      else Some contLED)"

definition led_frame :: "Led_t \<Rightarrow> u8 list" where
  "led_frame l = [0xff, led_blue l, led_green l, led_red l]"

text \<open>The loop over the LEDs: the number of LEDs and the bytes sent.\<close>

fun led_loop :: "(nat \<Rightarrow> u8) \<Rightarrow> Led_t list \<Rightarrow> Led_t list \<Rightarrow> (nat \<times> u8 list) option" where
  "led_loop vel (k # ks) (c # cs) =
     (if led_pin k = 0 \<and> led_pin c = 0 then Some (0, [])
      else case shown vel k c of
             None \<Rightarrow> None
           | Some l \<Rightarrow> map_option (\<lambda>(n, bs). (n + 1, led_frame l @ bs)) (led_loop vel ks cs))"
| "led_loop vel _ _ = None"

text \<open>\<open>i\<close> is a byte in the code; there are at most 22 LEDs, so that it does not wrap.\<close>

function stop_loop :: "nat \<Rightarrow> nat \<Rightarrow> u8 list" where
  "stop_loop i led = (if i < led then 0xff # stop_loop (i + 16) led else [])"
  by pat_completeness auto
termination by (relation "measure (\<lambda>(i, led). led - i)") auto

declare stop_loop.simps [simp del]

definition tickLEDs :: "bool \<Rightarrow> input_state \<Rightarrow> Controller_t \<Rightarrow> led_state \<Rightarrow> u8 list option" where
  "tickLEDs d s controller ls =
     (if ledsEnabled ls then Some []
      else map_option (\<lambda>(led, bs). replicate 4 0 @ bs @ stop_loop 0 led)
             (led_loop (getVelocity d s controller) (ledConfig ls) (leds ls)))"

section \<open>What a strip receives\<close>

text \<open>The colour of an LED as the user sees it: the host's if it set one, else the lit fret's.\<close>

definition led_colour :: "(nat \<Rightarrow> u8) \<Rightarrow> Led_t \<Rightarrow> Led_t \<Rightarrow> Led_t" where
  "led_colour vel k c =
     (if is_dark c \<and> led_pin k \<noteq> 0 \<and> vel (unat (led_pin k) - 1) \<noteq> 0 then k else c)"

definition led_used :: "Led_t \<times> Led_t \<Rightarrow> bool" where
  "led_used kc \<longleftrightarrow> led_pin (fst kc) \<noteq> 0 \<or> led_pin (snd kc) \<noteq> 0"

lemma stop_loop_length: "stop_loop i led = replicate ((led - i + 15) div 16) 0xff"
proof (induction i led rule: stop_loop.induct)
  case (1 i led)
  show ?case
  proof (cases "i < led")
    case True
    have "(led - i + 15) div 16 = Suc ((led - (i + 16) + 15) div 16)"
    proof (cases "led - i \<le> 16")
      case True
      with \<open>i < led\<close> have "(led - i + 15) div 16 = 1" by (intro div_nat_eqI) auto
      with True show ?thesis by simp
    next
      case False
      then have "led - i + 15 = led - (i + 16) + 15 + 16" by simp
      then show ?thesis by (metis Suc_eq_plus1 div_add_self2 zero_neq_numeral)
    qed
    with True 1 show ?thesis by (simp add: stop_loop.simps)
  qed (simp add: stop_loop.simps)
qed

text \<open>The LED takes its colour from an input the controller does not have.\<close>

definition pin_past :: "Led_t \<times> Led_t \<Rightarrow> bool" where
  "pin_past kc \<longleftrightarrow> is_dark (snd kc) \<and> NUM_LEDS < unat (led_pin (fst kc))"

lemma shown_colour: "shown vel k c = (if pin_past (k, c) then None else Some (led_colour vel k c))"
  by (auto simp: shown_def led_colour_def pin_past_def)

abbreviation led_frames :: "(nat \<Rightarrow> u8) \<Rightarrow> Led_t list \<Rightarrow> Led_t list \<Rightarrow> u8 list" where
  "led_frames vel ks cs \<equiv> concat (map (\<lambda>(k, c). led_frame (led_colour vel k c)) (zip ks cs))"

lemma led_loop_run:
  assumes "length ks = length cs" "\<forall>kc\<in>set (zip ks cs). led_used kc"
  shows "led_loop vel (ks @ ks') (cs @ cs') =
    (if \<exists>kc\<in>set (zip ks cs). pin_past kc then None
     else map_option (\<lambda>(n, bs). (length ks + n, led_frames vel ks cs @ bs)) (led_loop vel ks' cs'))"
  using assms
proof (induction ks cs rule: list_induct2)
  case Nil
  then show ?case by (simp add: option.map_id flip: id_def)
next
  case (Cons x xs y ys)
  have "\<not> (led_pin x = 0 \<and> led_pin y = 0)" using Cons.prems by (simp add: led_used_def)
  then show ?case
    using Cons by (auto simp: option.map_comp comp_def split_def shown_colour)
qed

section \<open>Properties\<close>


definition lit_strip :: led_state where
  "lit_strip = \<lparr>ledsEnabled = False,
     ledConfig = \<lparr>led_pin = 13, led_red = 0, led_green = 255, led_blue = 0\<rparr> #
                 replicate 21 \<lparr>led_pin = 0, led_red = 0, led_green = 0, led_blue = 0\<rparr>,
     leds = replicate 22 \<lparr>led_pin = 0, led_red = 0, led_green = 0, led_blue = 0\<rparr>\<rparr>"


end
