(* ===== verification/Serial.thy ===== *)
theory Serial
  imports Eeprom Rf Reports Leds
begin

text \<open>
  The configuration commands of the host (\<open>src/src/shared/output/serial_handler.c\<close> and
  \<open>serial_commands.h\<close>) on an Arduino Uno. \<open>cp\<close> is the address of the configuration in the EEPROM.
  A result \<open>Inl\<close> ends the run: the chip resets into the sketch or the boot loader, an array is left,
  or the wait for the radio does not end within the fuel.
\<close>

section \<open>serial_commands.h\<close>

datatype SerialCommands =
    COMMAND_REBOOT | COMMAND_JUMP_BOOTLOADER | COMMAND_GET_CPU_INFO | COMMAND_FIND_DIGITAL
  | COMMAND_FIND_ANALOG | COMMAND_GET_EXTENSION | COMMAND_GET_FOUND | COMMAND_GET_RF_CPU_INFO
  | COMMAND_WRITE_SUBTYPE | COMMAND_SET_LEDS | COMMAND_RESET | COMMAND_SET_SP | COMMAND_GET_VALUES
  | COMMAND_WRITE_CONFIG | COMMAND_READ_CONFIG

fun cmd_val :: "SerialCommands \<Rightarrow> u8" where
  "cmd_val COMMAND_REBOOT = 0x30" | "cmd_val COMMAND_JUMP_BOOTLOADER = 0x31"
| "cmd_val COMMAND_GET_CPU_INFO = 0x32" | "cmd_val COMMAND_FIND_DIGITAL = 0x33"
| "cmd_val COMMAND_FIND_ANALOG = 0x34" | "cmd_val COMMAND_GET_EXTENSION = 0x35"
| "cmd_val COMMAND_GET_FOUND = 0x36" | "cmd_val COMMAND_GET_RF_CPU_INFO = 0x37"
| "cmd_val COMMAND_WRITE_SUBTYPE = 0x38" | "cmd_val COMMAND_SET_LEDS = 0x39"
| "cmd_val COMMAND_RESET = 0x3a" | "cmd_val COMMAND_SET_SP = 0x3b"
| "cmd_val COMMAND_GET_VALUES = 0x3c" | "cmd_val COMMAND_WRITE_CONFIG = 0x3d"
| "cmd_val COMMAND_READ_CONFIG = 0x3e"

definition PACKET_SIZE :: nat where "PACKET_SIZE = 28"

record cpu_info_t =
  cpu_freq :: u32
  cpu_multi :: bool
  cpu_board :: "u8 list"
  cpu_rfID :: u32

definition cpu_info_bytes :: "cpu_info_t \<Rightarrow> u8 list" where
  "cpu_info_bytes i = le32 (cpu_freq i) @ [byte_of_bool (cpu_multi i)] @ cpu_board i @ le32 (cpu_rfID i)"

section \<open>The state the commands act on\<close>

datatype halt = Rebooting | Bootloader | OutOfArray | NoAnswer

record board =
  bd_ee :: eeprom
  bd_input :: input_state
  bd_leds :: led_state
  bd_isRF :: bool
  bd_fullDeviceType :: u8
  bd_inputType :: u8
  bd_dbuf :: "u8 list"

abbreviation on_direct :: "(direct_state \<Rightarrow> direct_state) \<Rightarrow> board \<Rightarrow> board" where
  "on_direct f b \<equiv> b\<lparr>bd_input := (bd_input b)\<lparr>direct := f (direct (bd_input b))\<rparr>\<rparr>"

definition handleCommand :: "nat \<Rightarrow> (u8 \<Rightarrow> u16) \<Rightarrow> u8 \<Rightarrow> board \<Rightarrow> halt + (bool \<times> board)" where
  "handleCommand cp adc cmd b =
     (if cmd = cmd_val COMMAND_REBOOT then Inl Rebooting
      else if cmd = cmd_val COMMAND_JUMP_BOOTLOADER then Inl Bootloader
      else if cmd = cmd_val COMMAND_FIND_ANALOG
      then Inr (True, if \<not> bd_isRF b then on_direct (findAnalogPin adc) b else b)
      else if cmd = cmd_val COMMAND_FIND_DIGITAL
      then Inr (True, if \<not> bd_isRF b then on_direct findDigitalPin b else b)
      else if cmd = cmd_val COMMAND_WRITE_CONFIG then Inr (False, b)
      else if cmd = cmd_val COMMAND_RESET then Inr (False, b\<lparr>bd_ee := resetConfig cp (bd_ee b)\<rparr>)
      else Inr (True, b))"

text \<open>The LED table as the bytes the host writes into it.\<close>

definition led_bytes :: "led_state \<Rightarrow> u8 list" where
  "led_bytes ls = concat (map enc_led (leds ls))"

definition write_leds :: "nat \<Rightarrow> u8 list \<Rightarrow> led_state \<Rightarrow> led_state option" where
  "write_leds off bs ls =
     (if off + length bs \<le> 4 * length (leds ls)
      then Some (ls\<lparr>leds := dec_leds (length (leds ls)) (list_blit off bs (led_bytes ls))\<rparr>)
      else None)"

definition packet_offset :: "u8 \<Rightarrow> u16" where
  "packet_offset b = ucast b * of_nat PACKET_SIZE"

text \<open>
  \<open>data\<close> is the array the caller passes, \<open>len\<close> the length it claims; \<open>len\<close> is decremented as a byte,
  so that a claimed length of 0 copies 255 bytes.
\<close>

definition processHIDWriteFeatureReport ::
  "nat \<Rightarrow> (u8 \<Rightarrow> u16) \<Rightarrow> u8 \<Rightarrow> u8 \<Rightarrow> u8 list \<Rightarrow> board \<Rightarrow> halt + board" where
  "processHIDWriteFeatureReport cp adc cmd len data b =
     (if cmd = cmd_val COMMAND_WRITE_CONFIG \<or> cmd = cmd_val COMMAND_SET_LEDS
      then let off = packet_offset (data ! 0); n = unat (len - 1); bs = take n (drop 1 data)
           in if length data < n + 1 then Inl OutOfArray
              else if cmd = cmd_val COMMAND_WRITE_CONFIG
              then Inr (b\<lparr>bd_ee := writeConfigBlock cp off bs (bd_ee b)\<rparr>)
              else (case write_leds (unat off) bs (bd_leds b) of
                      None \<Rightarrow> Inl OutOfArray | Some ls \<Rightarrow> Inr (b\<lparr>bd_leds := ls\<rparr>))
      else and_then
             (if cmd = cmd_val COMMAND_SET_SP
              then if length data < 2 then Inl OutOfArray
                   else Inr (on_direct (setSP (truthy (data ! 1))) b)
              else Inr b)
             (\<lambda>b. and_then (handleCommand cp adc cmd b) (\<lambda>(_, b). Inr b)))"

section \<open>Reading\<close>

definition id_bytes :: "u8 list" where
  "id_bytes = [0x21, 0x26, 0x01, 0x07, 0x00, 0x00, 0x00, 0x00]"

definition err_bytes :: "u8 list" where
  "err_bytes = map (of_nat \<circ> of_char) ''ERROR'' @ [0]"

text \<open>A store of \<open>bs\<close> at \<open>dbuf + 1\<close>, with the report's length.\<close>

definition reply :: "u8 list \<Rightarrow> u8 list \<Rightarrow> halt + (u8 list \<times> u8)" where
  "reply bs dbuf =
     (if length bs + 1 \<le> length dbuf
      then Inr (list_blit 0 (report_id REPORT_ID_CONTROL # bs) dbuf, of_nat (length bs) + 1) else Inl OutOfArray)"

text \<open>\<open>size2\<close> is a signed 16-bit number that is cut to a byte when it is below 50.\<close>

definition read_config_size :: "u16 \<Rightarrow> u8" where
  "read_config_size index =
     (let size2 = of_nat config_size - index in if size2 <s 50 then ucast size2 else 50)"

definition get_extension :: "board \<Rightarrow> u8 list \<Rightarrow> u8 list" where
  "get_extension b dbuf =
     (if bd_inputType b = input_val WII
      then [ucast (wiiExtensionID (wii (bd_input b)) AND 0xff),
            ucast (push_bit 8 (wiiExtensionID (wii (bd_input b))))]
      else if bd_inputType b = input_val PS2 then [ps2CtrlType (ps2 (bd_input b)), dbuf ! 2]
      else [dbuf ! 1, dbuf ! 2])"

definition get_id :: "u8 \<Rightarrow> u8 list" where
  "get_id t =
     (if t \<le> subtype_val PS3_ROCK_BAND_DRUMS then id_bytes[3 := 0x00]
      else if t \<le> subtype_val PS3_GUITAR_HERO_DRUMS then id_bytes[3 := 0x06] else id_bytes)"

text \<open>
  The reply to a command that is not forwarded over the radio: the reply buffer, its length, and
  the board. \<open>name\<close> is the board's name with its final 0.
\<close>

definition local_reply ::
  "nat \<Rightarrow> u8 list \<Rightarrow> (nat \<Rightarrow> u8) \<Rightarrow> u8 \<Rightarrow> board \<Rightarrow> halt + (u8 \<times> board)" where
  "local_reply cp name boot_sig cmd b =
     (let dbuf = bd_dbuf b;
          send = (\<lambda>bs b. and_then (reply bs dbuf) (\<lambda>(d, n). Inr (n, b\<lparr>bd_dbuf := d\<rparr>)))
      in if cmd_val COMMAND_READ_CONFIG \<le> cmd
         then let index = 50 * ucast (cmd - cmd_val COMMAND_READ_CONFIG)
              in send (readConfigBlock cp index (unat (read_config_size index)) (bd_ee b)) b
         else if cmd = cmd_val COMMAND_GET_CPU_INFO \<or> cmd = cmd_val COMMAND_GET_RF_CPU_INFO
         then send (cpu_info_bytes \<lparr>cpu_freq = F_CPU, cpu_multi = False,
                      cpu_board = name @ drop (length name) (take 15 (drop 6 dbuf)),
                      cpu_rfID = generate_crc32 boot_sig\<rparr>) b
         else if cmd = cmd_val COMMAND_GET_VALUES
         then send (concat (map le16 (analogueData (direct (bd_input b))))) b
         else if cmd = cmd_val COMMAND_GET_EXTENSION then send (get_extension b dbuf) b
         else if cmd = cmd_val COMMAND_GET_FOUND
         then send [detectedPin (direct (bd_input b))] (on_direct stopSearching b)
         else send (get_id (bd_fullDeviceType b)) b)"

text \<open>
  Over the radio the command is queued as the payload of an acknowledgement until a packet arrives
  that is not a controller state, or until half a second has passed. \<open>clk k\<close> is the time of the
  k-th look at the clock.
\<close>

fun rf_read_loop ::
  "'d spi_dev \<Rightarrow> (nat \<Rightarrow> u32) \<Rightarrow> u32 \<Rightarrow> u8 \<Rightarrow> nat \<Rightarrow> nat \<Rightarrow> u8 list \<Rightarrow>
   ('d, halt + (u8 list \<times> u8)) nrf" where
  "rf_read_loop dev clk ms cmd 0 k dbuf = State_Monad.return (Inl NoAnswer)"
| "rf_read_loop dev clk ms cmd (Suc fuel) k dbuf =
     do { full \<leftarrow> nrf24_txFifoFull dev;
          (if full = 0 then nrf24_writeAckPayload dev [cmd, 1] else State_Monad.return ());
          modify_radio (\<lambda>r. r\<lparr>rf_interrupt := True\<rparr>);
          got \<leftarrow> tickRFInput dev dbuf 0;
          case got of
            None \<Rightarrow> State_Monad.return (Inl OutOfArray)
          | Some (len, dbuf) \<Rightarrow>
              if len \<noteq> 0 \<and> len \<noteq> 12 then State_Monad.return (Inr (dbuf, len))
              else do { nrf24_configRegister dev STATUS (bv TX_DS OR bv MAX_RT);
                        if 500 < clk k - ms
                        then State_Monad.return (reply err_bytes dbuf)
                        else rf_read_loop dev clk ms cmd fuel (k + 1) dbuf } }"

definition processHIDReadFeatureReport ::
  "'d spi_dev \<Rightarrow> (nat \<Rightarrow> u32) \<Rightarrow> nat \<Rightarrow> nat \<Rightarrow> u8 list \<Rightarrow> (nat \<Rightarrow> u8) \<Rightarrow> u8 \<Rightarrow> board \<Rightarrow>
   ('d, halt + (u8 \<times> board)) nrf" where
  "processHIDReadFeatureReport dev clk fuel cp name boot_sig cmd b =
     (if bd_isRF b \<and> cmd < cmd_val COMMAND_READ_CONFIG \<and> cmd \<noteq> cmd_val COMMAND_GET_CPU_INFO
      then do { nrf24_flush_tx dev;
                nrf24_flush_rx dev;
                r \<leftarrow> rf_read_loop dev clk (clk 0) cmd fuel 1 (bd_dbuf b);
                State_Monad.return (and_then r (\<lambda>(d, n). Inr (n, b\<lparr>bd_dbuf := d\<rparr>))) }
      else State_Monad.return (local_reply cp name boot_sig cmd b))"

section \<open>Writing and reading the configuration in blocks\<close>

text \<open>A host that writes an image in consecutive blocks of PACKET_SIZE bytes, from block k on.\<close>

fun write_image ::
  "nat \<Rightarrow> (u8 \<Rightarrow> u16) \<Rightarrow> nat \<Rightarrow> u8 list list \<Rightarrow> board \<Rightarrow> halt + board" where
  "write_image cp adc k [] b = Inr b"
| "write_image cp adc k (bs # bss) b =
     and_then (processHIDWriteFeatureReport cp adc (cmd_val COMMAND_WRITE_CONFIG)
                 (of_nat (length bs) + 1) (of_nat k # bs) b)
       (write_image cp adc (k + 1) bss)"

lemma packet_offset_small: "k \<le> 9 \<Longrightarrow> unat (packet_offset (of_nat k)) = PACKET_SIZE * k"
proof -
  assume "k \<le> 9"
  then have "k \<in> set [0..<10]" by simp
  moreover have "\<forall>k\<in>set [0..<10]. unat (packet_offset (of_nat k)) = PACKET_SIZE * k" by code_simp
  ultimately show ?thesis by blast
qed

lemma write_one_block:
  assumes "length bs \<le> PACKET_SIZE" "k \<le> 9"
  shows "processHIDWriteFeatureReport cp adc (cmd_val COMMAND_WRITE_CONFIG)
      (of_nat (length bs) + 1) (of_nat k # bs) b =
    Inr (b\<lparr>bd_ee := eeprom_update_block bs (cp + PACKET_SIZE * k) (bd_ee b)\<rparr>)"
proof -
  have "unat (of_nat (length bs) :: u8) = length bs"
    using assms(1) by (simp add: unat_of_nat PACKET_SIZE_def)
  then show ?thesis
    using packet_offset_small [OF assms(2)]
    by (simp add: processHIDWriteFeatureReport_def writeConfigBlock_def Let_def)
qed

lemma write_image_blocks:
  assumes "\<forall>bs\<in>set (butlast bss). length bs = PACKET_SIZE" "\<forall>bs\<in>set bss. length bs \<le> PACKET_SIZE"
    and "k + length bss \<le> 10"
  shows "write_image cp adc k bss b =
    Inr (b\<lparr>bd_ee := eeprom_update_block (concat bss) (cp + PACKET_SIZE * k) (bd_ee b)\<rparr>)"
  using assms
proof (induction bss arbitrary: k b)
  case Nil
  have "eeprom_update_block [] a ee = ee" for a ee by (rule ext) (auto simp: eeprom_update_block_def)
  then show ?case by simp
next
  case (Cons bs bss)
  show ?case
  proof (cases "bss = []")
    case True
    with Cons.prems write_one_block show ?thesis by simp
  next
    case False
    with Cons.prems have len: "length bs = PACKET_SIZE" by simp
    have "length bs \<le> PACKET_SIZE" "k \<le> 9" using Cons.prems by simp_all
    then have "write_image cp adc k (bs # bss) b =
        write_image cp adc (k + 1) bss
          (b\<lparr>bd_ee := eeprom_update_block bs (cp + PACKET_SIZE * k) (bd_ee b)\<rparr>)"
      by (simp only: write_image.simps write_one_block and_then_simps)
    also have "\<dots> = Inr (b\<lparr>bd_ee := eeprom_update_block (concat bss) (cp + PACKET_SIZE * (k + 1))
        (eeprom_update_block bs (cp + PACKET_SIZE * k) (bd_ee b))\<rparr>)"
      using Cons.prems False by (subst Cons.IH) (auto split: if_splits)
    finally show ?thesis
      using len update_update_append [of "concat bss" "cp + PACKET_SIZE * k" bs]
      by (simp add: add.assoc [symmetric] add.commute)
  qed
qed

text \<open>What a read command returns.\<close>

lemma read_block_part:
  "off + n \<le> m \<Longrightarrow> eeprom_read_block ee (a + off) n = take n (drop off (eeprom_read_block ee a m))"
  by (simp add: eeprom_read_block_def take_map drop_map add.assoc)

lemma reply_fits:
  assumes "length bs < 64" "length dbuf = 64"
  shows "\<exists>d. reply bs dbuf = Inr (d, of_nat (length bs) + 1) \<and> length d = 64 \<and>
    take (unat (of_nat (length bs) + 1 :: u8)) d = report_id REPORT_ID_CONTROL # bs"
proof -
  have "unat (of_nat (length bs) + 1 :: u8) = length bs + 1"
    using assms(1) unat_of_nat [of "length bs + 1", where 'a = 8] by (simp add: add.commute)
  then show ?thesis using assms by (simp add: reply_def list_blit_def)
qed

lemma read_sizes:
  "i \<le> 5 \<Longrightarrow> unat (50 * ucast (of_nat i :: u8) :: u16) = 50 * i \<and>
     unat (read_config_size (50 * ucast (of_nat i :: u8))) = min 50 (config_size - 50 * i)"
  "read_config_size (50 * ucast (6 :: u8)) = 231"
proof -
  assume "i \<le> 5"
  then have "i \<in> set [0..<6]" by simp
  moreover have "\<forall>i\<in>set [0..<6]. unat (50 * ucast (of_nat i :: u8) :: u16) = 50 * i \<and>
     unat (read_config_size (50 * ucast (of_nat i :: u8))) = min 50 (config_size - 50 * i)" by code_simp
  ultimately show "unat (50 * ucast (of_nat i :: u8) :: u16) = 50 * i \<and>
     unat (read_config_size (50 * ucast (of_nat i :: u8))) = min 50 (config_size - 50 * i)" by blast
qed code_simp

lemma read_commands:
  "i \<le> 6 \<Longrightarrow> cmd_val COMMAND_READ_CONFIG \<le> cmd_val COMMAND_READ_CONFIG + of_nat i"
proof -
  assume "i \<le> 6"
  then have "i \<in> set [0..<7]" by simp
  moreover have "\<forall>i\<in>set [0..<7]. cmd_val COMMAND_READ_CONFIG \<le> cmd_val COMMAND_READ_CONFIG + of_nat i"
    by code_simp
  ultimately show ?thesis by blast
qed

lemma read_block_reply:
  assumes "i \<le> 5" "length (bd_dbuf b) = 64"
    and "eeprom_read_block (bd_ee b) cp config_size = img"
  shows "\<exists>d n. local_reply cp name boot_sig (cmd_val COMMAND_READ_CONFIG + of_nat i) b =
      Inr (n, b\<lparr>bd_dbuf := d\<rparr>) \<and> take (unat n) d = report_id REPORT_ID_CONTROL # take 50 (drop (50 * i) img) \<and>
      length d = 64"
proof -
  let ?n = "min 50 (config_size - 50 * i)"
  have "50 * i + ?n \<le> config_size" using assms(1) by (simp add: config_size_def)
  from read_block_part [OF this, of "bd_ee b" cp] assms(3)
  have block: "eeprom_read_block (bd_ee b) (cp + 50 * i) ?n = take 50 (drop (50 * i) img)"
    by (auto simp: config_size_def min_def)
  have "length (take 50 (drop (50 * i) img)) < 64" by simp
  from reply_fits [OF this assms(2)] read_sizes(1) [OF assms(1)] read_commands [of i] assms(1) block
  show ?thesis
    by (auto simp: local_reply_def Let_def readConfigBlock_def)
qed

lemma read_past_end:
  assumes "length (bd_dbuf b) = 64"
  shows "local_reply cp name boot_sig (cmd_val COMMAND_READ_CONFIG + 6) b = Inl OutOfArray"
  using assms read_commands [of 6] read_sizes(2)
  by (simp add: local_reply_def Let_def readConfigBlock_def reply_def)

section \<open>Properties\<close>

text \<open>
  C36: an image written in ten blocks of at most 28 bytes is the configuration the next start
  decodes, and the six read commands return it in order, 50 bytes at a time and 25 at the end. The
  seventh read command, which nothing excludes, computes a length of 231 from a negative remainder
  and would overrun the 64-byte reply buffer.
\<close>

theorem config_over_serial:
  assumes "concat bss = img" "length img = config_size" "length bss = 10"
    and "\<forall>bs\<in>set (butlast bss). length bs = PACKET_SIZE" "\<forall>bs\<in>set bss. length bs \<le> PACKET_SIZE"
    and "length (bd_dbuf b) = 64"
  shows "\<exists>b'. write_image cp adc 0 bss b = Inr b' \<and>
    read_config (bd_ee b') cp = config_of_bytes img \<and>
    (\<forall>i\<le>5. \<exists>d n. local_reply cp name boot_sig (cmd_val COMMAND_READ_CONFIG + of_nat i) b' =
       Inr (n, b'\<lparr>bd_dbuf := d\<rparr>) \<and>
       take (unat n) d = report_id REPORT_ID_CONTROL # take 50 (drop (50 * i) img)) \<and>
    local_reply cp name boot_sig (cmd_val COMMAND_READ_CONFIG + 6) b' = Inl OutOfArray"
proof -
  define b' where "b' = b\<lparr>bd_ee := eeprom_update_block img cp (bd_ee b)\<rparr>"
  have "write_image cp adc 0 bss b = Inr b'"
    using write_image_blocks [OF assms(4,5), of 0 cp adc b] assms(1,3) by (simp add: b'_def)
  moreover have stored: "eeprom_read_block (bd_ee b') cp config_size = img" "length (bd_dbuf b') = 64"
    using assms(2,6) by (simp_all add: b'_def)
  moreover have "read_config (bd_ee b') cp = config_of_bytes img"
    using stored by (simp add: read_config_def)
  moreover note read_block_reply [OF _ stored(2,1), of _ name boot_sig]
    read_past_end [OF stored(2), of cp name boot_sig]
  ultimately show ?thesis by meson
qed

definition blank_board :: board where
  "blank_board = \<lparr>bd_ee = (\<lambda>_. 0xFF), bd_input = blank_input,
     bd_leds = \<lparr>ledsEnabled = True, ledConfig = [], leds = replicate 22 \<lparr>led_pin = 0, led_red = 0,
       led_green = 0, led_blue = 0\<rparr>\<rparr>,
     bd_isRF = False, bd_fullDeviceType = 0, bd_inputType = 1, bd_dbuf = replicate 64 0\<rparr>"

theorem config_over_serial_witness:
  "\<exists>b'. write_image 1 (\<lambda>_. 0) 0 (replicate 9 (replicate 28 5) @ [replicate 23 5]) blank_board = Inr b' \<and>
     (\<exists>d n. local_reply 1 [] (\<lambda>_. 0) (cmd_val COMMAND_READ_CONFIG + of_nat 5) b' =
        Inr (n, b'\<lparr>bd_dbuf := d\<rparr>) \<and> take (unat n) d = report_id REPORT_ID_CONTROL # replicate 25 5)"
proof -
  let ?bss = "replicate 9 (replicate 28 5) @ [replicate 23 (5 :: u8)]"
  have "concat ?bss = replicate config_size 5" by code_simp
  moreover have "length ?bss = 10" "\<forall>bs\<in>set (butlast ?bss). length bs = PACKET_SIZE"
    "\<forall>bs\<in>set ?bss. length bs \<le> PACKET_SIZE" "length (bd_dbuf blank_board) = 64"
    by (simp_all add: PACKET_SIZE_def blank_board_def)
  ultimately obtain b' where b': "write_image 1 (\<lambda>_. 0) 0 ?bss blank_board = Inr b'"
    and rd: "\<forall>i\<le>5. \<exists>d n. local_reply 1 [] (\<lambda>_. 0) (cmd_val COMMAND_READ_CONFIG + of_nat i) b' =
       Inr (n, b'\<lparr>bd_dbuf := d\<rparr>) \<and>
       take (unat n) d = report_id REPORT_ID_CONTROL # take 50 (drop (50 * i) (replicate config_size 5))"
    using config_over_serial [of ?bss "replicate config_size 5" blank_board 1 "\<lambda>_. 0" "[]" "\<lambda>_. 0"]
    by auto
  have "take 50 (drop (50 * 5) (replicate config_size 5)) = replicate 25 (5 :: u8)" by code_simp
  with rd [rule_format, of 5] b' show ?thesis by auto
qed

end
