(* ===== verification/LufaRing.thy ===== *)
theory LufaRing
  imports RingBuffer
begin

text \<open>
  LUFA's ring buffer (\<open>src/lib/lufa/LUFA/Drivers/Misc/RingBuffer.h\<close>), through which the Uno's main
  chip exchanges bytes with its USB chip: an array of the caller's size, with 16-bit counts. The
  code's pointers are indices into the array. It provides the interface \<open>byte_queue\<close> of the
  lightweight ring buffer, for every size.
\<close>

record lufa_ring =
  lr_Data :: "u8 list"
  lr_In :: nat
  lr_Out :: nat
  lr_Size :: u16
  lr_Count :: u16

definition lufa_InitBuffer :: "u8 list \<Rightarrow> u16 \<Rightarrow> lufa_ring" where
  "lufa_InitBuffer data n = \<lparr>lr_Data = data, lr_In = 0, lr_Out = 0, lr_Size = n, lr_Count = 0\<rparr>"

definition lufa_GetCount :: "lufa_ring \<Rightarrow> u16" where
  "lufa_GetCount s = lr_Count s"

definition lufa_IsEmpty :: "lufa_ring \<Rightarrow> bool" where
  "lufa_IsEmpty s \<longleftrightarrow> lufa_GetCount s = 0"

definition lufa_IsFull :: "lufa_ring \<Rightarrow> bool" where
  "lufa_IsFull s \<longleftrightarrow> lufa_GetCount s = lr_Size s"

definition lufa_step :: "lufa_ring \<Rightarrow> nat \<Rightarrow> nat" where
  "lufa_step s i = (if i + 1 = unat (lr_Size s) then 0 else i + 1)"

definition lufa_Insert :: "u8 \<Rightarrow> lufa_ring \<Rightarrow> lufa_ring" where
  "lufa_Insert x s =
     s\<lparr>lr_Data := (lr_Data s)[lr_In s := x], lr_In := lufa_step s (lr_In s), lr_Count := lr_Count s + 1\<rparr>"

definition lufa_Remove :: "lufa_ring \<Rightarrow> u8 \<times> lufa_ring" where
  "lufa_Remove s =
     (lr_Data s ! lr_Out s, s\<lparr>lr_Out := lufa_step s (lr_Out s), lr_Count := lr_Count s - 1\<rparr>)"

section \<open>Insertions in a row\<close>

context byte_queue
begin

lemma ins_all:
  "inv s \<Longrightarrow> length (contents s) + length xs \<le> cap \<Longrightarrow>
   inv (fold ins xs s) \<and> contents (fold ins xs s) = contents s @ xs"
proof (induction xs arbitrary: s)
  case (Cons x xs)
  then have room: "length (contents s) < cap" by simp
  with Cons.IH [OF ins_inv [OF Cons.prems(1) room, of x]] Cons.prems show ?case
    by (simp add: ins_contents)
qed simp

end

section \<open>Refinement: the array is a queue\<close>

abbreviation lr_cap :: "lufa_ring \<Rightarrow> nat" where "lr_cap s \<equiv> unat (lr_Size s)"

definition lufa_inv :: "nat \<Rightarrow> lufa_ring \<Rightarrow> bool" where
  "lufa_inv n s \<longleftrightarrow> lr_cap s = n \<and> length (lr_Data s) = n \<and> lr_In s < n \<and> lr_Out s < n \<and>
     unat (lr_Count s) \<le> n \<and> (lr_Out s + unat (lr_Count s)) mod n = lr_In s"

definition lufa_contents :: "lufa_ring \<Rightarrow> u8 list" where
  "lufa_contents s = map (\<lambda>k. lr_Data s ! ((lr_Out s + k) mod lr_cap s)) [0..<unat (lr_Count s)]"

lemma length_lufa_contents [simp]: "length (lufa_contents s) = unat (lr_Count s)"
  by (simp add: lufa_contents_def)

lemma lufa_step_mod: "i < lr_cap s \<Longrightarrow> lufa_step s i = (i + 1) mod lr_cap s"
  by (simp add: lufa_step_def)

lemma lufa_step_update [simp]:
  "lufa_step (s\<lparr>lr_Data := d\<rparr>) i = lufa_step s i" by (simp add: lufa_step_def)

lemma lufa_insert_refines:
  assumes "lufa_inv n s" "unat (lr_Count s) < n"
  shows "lufa_inv n (lufa_Insert x s)" "lufa_contents (lufa_Insert x s) = lufa_contents s @ [x]"
proof -
  let ?c = "unat (lr_Count s)"
  have "?c < unat (lr_Size s)" using assms by (simp add: lufa_inv_def)
  moreover have "unat (lr_Size s) < 2 ^ 16" using unsigned_less [of "lr_Size s"] by simp
  ultimately have "?c + 1 < 2 ^ 16" by linarith
  then have c: "unat (lr_Count s + 1) = ?c + 1" by (simp add: unat_word_ariths)
  have s: "lr_cap s = n" "length (lr_Data s) = n" "lr_In s < n" "lr_Out s < n"
    and inn: "lr_In s = (lr_Out s + ?c) mod n"
    using assms(1) by (simp_all add: lufa_inv_def)
  have "(lr_Out s + (?c + 1)) mod n = (lr_In s + 1) mod n"
    by (simp add: inn mod_simps)
  then show "lufa_inv n (lufa_Insert x s)"
    using s assms(2) by (simp add: lufa_inv_def lufa_Insert_def c lufa_step_mod)
  have "map (\<lambda>k. (lr_Data s)[lr_In s := x] ! ((lr_Out s + k) mod n)) [0..<?c] = lufa_contents s"
    unfolding lufa_contents_def inn s(1)
    using free_slot [OF s(4) _ assms(2), THEN not_sym]
    by (intro map_cong) (simp_all add: nth_list_update_neq)
  then show "lufa_contents (lufa_Insert x s) = lufa_contents s @ [x]"
    using s inn by (simp add: lufa_contents_def lufa_Insert_def c)
qed

lemma lufa_remove_refines:
  assumes "lufa_inv n s" "lufa_contents s \<noteq> []"
  shows "lufa_inv n (snd (lufa_Remove s))"
    "lufa_contents s = fst (lufa_Remove s) # lufa_contents (snd (lufa_Remove s))"
proof -
  let ?c = "unat (lr_Count s)"
  have "0 < length (lufa_contents s)" using assms(2) by blast
  then have "0 < ?c" by simp
  then have "lr_Count s \<noteq> 0" by auto
  then have c: "unat (lr_Count s - 1) = ?c - 1" by (simp add: unat_minus_one)
  obtain k where k: "?c = Suc k" using \<open>0 < ?c\<close> gr0_implies_Suc by blast
  have s: "lr_cap s = n" "length (lr_Data s) = n" "lr_In s < n" "lr_Out s < n" "k < n"
    "(lr_Out s + Suc k) mod n = lr_In s"
    using assms(1) k by (auto simp: lufa_inv_def)
  have c': "unat (lr_Count s - 1) = k" using c k by simp
  show "lufa_inv n (snd (lufa_Remove s))"
    using s c' by (simp add: lufa_inv_def lufa_Remove_def lufa_step_mod mod_simps)
  have "[0..<Suc k] = 0 # map Suc [0..<k]"
    by (simp add: map_Suc_upt upt_conv_Cons del: upt_Suc)
  then show "lufa_contents s = fst (lufa_Remove s) # lufa_contents (snd (lufa_Remove s))"
    using s c' k by (simp add: lufa_contents_def lufa_Remove_def lufa_step_mod mod_simps
        del: upt_Suc)
qed

interpretation lufa: byte_queue lufa_Insert lufa_Remove lufa_IsFull lufa_IsEmpty lufa_contents
  "lufa_inv n" n for n
proof unfold_locales
  fix s assume inv: "lufa_inv n s"
  show "lufa_IsFull s \<longleftrightarrow> length (lufa_contents s) = n"
    using inv by (auto simp: lufa_IsFull_def lufa_GetCount_def lufa_inv_def word_unat_eq_iff)
  show "lufa_IsEmpty s \<longleftrightarrow> lufa_contents s = []"
    unfolding length_0_conv [symmetric]
    by (simp add: lufa_IsEmpty_def lufa_GetCount_def unsigned_eq_0_iff)
  show "length (lufa_contents s) \<le> n" using inv by (simp add: lufa_inv_def)
next
  fix s x assume "lufa_inv n s" "length (lufa_contents s) < n"
  then show "lufa_inv n (lufa_Insert x s)" "lufa_contents (lufa_Insert x s) = lufa_contents s @ [x]"
    by (simp_all add: lufa_insert_refines)
qed (use lufa_remove_refines in blast)+

end
