(* ===== verification/UnoMain.thy ===== *)
theory UnoMain
  imports Serial LufaRing Timer
begin

text \<open>
  The main program of the Arduino Uno's 328P (\<open>src/src/avr/uno/main/main.c\<close>): the initialisation,
  the interrupt handlers of the UART, and one iteration of the main loop, which parses the frames
  of the USB chip (\<open>uno/shared/device_consts.h\<close>) or polls the controller and sends a report frame.
  A result \<open>Inl\<close> ends the run.
\<close>

definition FRAME_START_FEATURE_READ :: u8 where "FRAME_START_FEATURE_READ = 0x7d"
definition FRAME_START_FEATURE_WRITE :: u8 where "FRAME_START_FEATURE_WRITE = 0x7e"
definition FRAME_START_WRITE :: u8 where "FRAME_START_WRITE = 0x78"
definition FRAME_DONE :: u8 where "FRAME_DONE = 0x77"
definition USART2USB_BUFLEN :: nat where "USART2USB_BUFLEN = 128"
definition USB2USART_BUFLEN :: nat where "USB2USART_BUFLEN = 128"
definition BAUD :: u32 where "BAUD = 1000000"

definition SERIAL_UBBRVAL :: "u32 \<Rightarrow> u16" where
  "SERIAL_UBBRVAL b = ucast ((F_CPU div 16 + b div 2) div b - 1)"

definition SERIAL_2X_UBBRVAL :: "u32 \<Rightarrow> u16" where
  "SERIAL_2X_UBBRVAL b = ucast ((F_CPU div 8 + b div 2) div b - 1)"

record uart_regs =
  UBRR0 :: u16
  UCSR0A :: u8
  UCSR0C :: u8

abbreviation (input) U2X0 :: nat where "U2X0 \<equiv> 1"
abbreviation (input) UCSZ00 :: nat where "UCSZ00 \<equiv> 1"
abbreviation (input) UCSZ01 :: nat where "UCSZ01 \<equiv> 2"
abbreviation (input) UDRIE0 :: nat where "UDRIE0 \<equiv> 5"
abbreviation (input) RXCIE0 :: nat where "RXCIE0 \<equiv> 7"
abbreviation (input) RXEN0 :: nat where "RXEN0 \<equiv> 4"
abbreviation (input) TXEN0 :: nat where "TXEN0 \<equiv> 3"

section \<open>The report of the configured device\<close>

record report_state =
  rp_filler :: filler
  rp_keyboard :: keyboard_state
  rp_kbd :: USB_ID_KeyboardReport_Data_t
  rp_midiConfig :: MidiConfig_t
  rp_lastmidi :: "u8 list"
  rp_midi :: USB_MIDI_Data_t
  rp_mouse :: USB_ID_MouseReport_Data_t
  rp_xinput :: USB_XInputReport_Data_t
  rp_ps3state :: ps3_state
  rp_ps3 :: USB_PS3Report_Data_t

definition init_reports :: "u8 \<Rightarrow> Configuration_t \<Rightarrow> report_state \<Rightarrow> report_state" where
  "init_reports t config r =
     (case initReports t of
        MIDIFiller \<Rightarrow> r\<lparr>rp_filler := MIDIFiller, rp_midiConfig := cfg_midi config\<rparr>
      | KeyboardFiller \<Rightarrow> r\<lparr>rp_filler := KeyboardFiller, rp_keyboard := initKeyboard config\<rparr>
      | PS3Filler \<Rightarrow> r\<lparr>rp_filler := PS3Filler, rp_ps3state := initPS3 t (rp_ps3state r)\<rparr>
      | f \<Rightarrow> r\<lparr>rp_filler := f\<rparr>)"

text \<open>
  \<open>fillReport\<close> is a function pointer; the reports share the storage of a union, of which only the
  chosen filler's member is ever used.
\<close>

definition fillReport ::
  "bool \<Rightarrow> u8 \<Rightarrow> u8 \<Rightarrow> input_state \<Rightarrow> Controller_t \<Rightarrow> report_state \<Rightarrow> (u8 \<times> u8 list \<times> report_state) option" where
  "fillReport d beyond t s c r =
     (case rp_filler r of
        XInputFiller \<Rightarrow>
          (case fillXInputReport c (rp_xinput r) of (n, x) \<Rightarrow>
             Some (of_nat n, xinput_bytes x, r\<lparr>rp_xinput := x\<rparr>))
      | MouseFiller \<Rightarrow>
          (case fillMouseReport c (rp_mouse r) of (n, x) \<Rightarrow>
             Some (of_nat n, mouse_bytes x, r\<lparr>rp_mouse := x\<rparr>))
      | PS3Filler \<Rightarrow>
          (case fillPS3Report t (rp_ps3state r) c (rp_ps3 r) of (n, x) \<Rightarrow>
             Some (of_nat n, ps3_bytes x, r\<lparr>rp_ps3 := x\<rparr>))
      | KeyboardFiller \<Rightarrow>
          map_option (\<lambda>(n, x). (of_nat n, kbd_bytes x, r\<lparr>rp_kbd := x\<rparr>))
            (fillKeyboardReport beyond (rp_keyboard r) c (rp_kbd r))
      | MIDIFiller \<Rightarrow>
          map_option (\<lambda>(n, prev, x). (of_nat n, midi_bytes x, r\<lparr>rp_lastmidi := prev, rp_midi := x\<rparr>))
            (fillMIDIReport d s (rp_midiConfig r) c (rp_lastmidi r, rp_midi r)))"

section \<open>The state of the program\<close>

text \<open>
  \<open>buf\<close> is a pointer: NULL, a position in the LED table, or anything else (it is not initialised,
  and the code adds offsets to NULL).
\<close>

datatype buf_ptr = NoBuf | LedBuf nat | Stray

record ('i, 'p, 'd) uno =
  un_board :: board
  un_reports :: report_state
  un_controller :: Controller_t
  un_prev :: Controller_t
  un_in :: lufa_ring
  un_out :: lufa_ring
  UCSR0B :: u8
  readyForPacket :: bool
  lastPoll :: u32
  un_pollRate :: u8
  un_drum :: bool
  un_guitar :: bool
  un_uart :: uart_regs
  un_timer :: timer0
  un_deviceType :: u8
  un_strip :: "u8 list"
  rx_state :: nat
  rx_packetCount :: u8
  rx_cmd :: u8
  rx_isConfig :: bool
  rx_buf :: buf_ptr
  rx_offset :: u16
  rx_origOffset :: u8
  un_i2c :: 'i
  un_ps2 :: 'p
  un_radio :: "radio \<times> 'd"

definition Serial_InitInterrupt :: "u32 \<Rightarrow> bool \<Rightarrow> ('i, 'p, 'd) uno \<Rightarrow> ('i, 'p, 'd) uno" where
  "Serial_InitInterrupt BaudRate DoubleSpeed u =
     u\<lparr>un_uart := \<lparr>UBRR0 = (if DoubleSpeed then SERIAL_2X_UBBRVAL BaudRate else SERIAL_UBBRVAL BaudRate),
                    UCSR0A = (if DoubleSpeed then bv U2X0 else 0), UCSR0C = bv UCSZ01 OR bv UCSZ00\<rparr>,
       UCSR0B := bv TXEN0 OR bv RXCIE0 OR bv RXEN0,
       un_board := on_direct (on_hw (\<lambda>a. a\<lparr>ddr := (ddr a)(PD := ddr a PD OR bv 3),
                                            port_out := (port_out a)(PD := port_out a PD OR bv 2)\<rparr>))
                     (un_board u)\<rparr>"

text \<open>What an iteration takes from outside.\<close>

record ('i, 'p, 'd) uno_env =
  ue_input :: "('i, 'p) input_env"
  ue_dev :: "'d spi_dev"
  ue_clk :: "nat \<Rightarrow> u32"
  ue_now :: u32
  ue_sent :: u32
  ue_fuel :: nat
  ue_cp :: nat
  ue_name :: "u8 list"
  ue_boot_sig :: "nat \<Rightarrow> u8"
  ue_beyond :: u8

definition writeData :: "u8 list \<Rightarrow> ('i, 'p, 'd) uno \<Rightarrow> ('i, 'p, 'd) uno" where
  "writeData bs u = u\<lparr>un_out := fold lufa_Insert bs (un_out u),
                      UCSR0B := bv RXCIE0 OR bv TXEN0 OR bv RXEN0 OR bv UDRIE0\<rparr>"

definition writeToUSB :: "u8 list \<Rightarrow> u8 \<Rightarrow> ('i, 'p, 'd) uno \<Rightarrow> ('i, 'p, 'd) uno" where
  "writeToUSB buffer len u =
     writeData (take (unat len) buffer) (writeData [len] (writeData [FRAME_START_WRITE] u))"

definition USART_RX_vect :: "u8 \<Rightarrow> ('i, 'p, 'd) uno \<Rightarrow> ('i, 'p, 'd) uno" where
  "USART_RX_vect b u = u\<lparr>un_in := lufa_Insert b (un_in u)\<rparr>"

text \<open>The byte handed to the transmitter, if any.\<close>

definition USART_UDRE_vect :: "('i, 'p, 'd) uno \<Rightarrow> u8 option \<times> ('i, 'p, 'd) uno" where
  "USART_UDRE_vect u =
     (if lufa_GetCount (un_out u) \<noteq> 0
      then case lufa_Remove (un_out u) of (b, q) \<Rightarrow> (Some b, u\<lparr>un_out := q\<rparr>)
      else (None, u\<lparr>UCSR0B := bv RXCIE0 OR bv RXEN0 OR bv TXEN0\<rparr>))"

text \<open>The globals \<open>fullDeviceType\<close> and \<open>typeIsGuitar\<close> are the program's.\<close>

definition own_globals ::
  "('i, 'p, 'd) uno \<Rightarrow> ('i, 'p, 'd) uno_env \<Rightarrow> ('i, 'p) input_env" where
  "own_globals u env =
     (ue_input env)\<lparr>env_fullDeviceType := bd_fullDeviceType (un_board u), env_guitar := un_guitar u\<rparr>"

text \<open>A radio operation works on the registers of the one chip there is.\<close>

definition on_radio :: "('d, 'a) nrf \<Rightarrow> ('i, 'p, 'd) uno \<Rightarrow> 'a \<times> ('i, 'p, 'd) uno" where
  "on_radio m u =
     (case un_radio u of (r, d) \<Rightarrow>
        case run_state m (r\<lparr>rf_avr := hw (an (direct (bd_input (un_board u))))\<rparr>, d) of (v, (r', d')) \<Rightarrow>
          (v, u\<lparr>un_radio := (r', d'), un_board := on_direct (on_hw (\<lambda>_. rf_avr r')) (un_board u)\<rparr>))"

section \<open>Parsing the USB chip's frames\<close>

definition ptr_add :: "buf_ptr \<Rightarrow> u16 \<Rightarrow> buf_ptr" where
  "ptr_add p off =
     (case p of NoBuf \<Rightarrow> (if off = 0 then NoBuf else Stray) | LedBuf k \<Rightarrow> LedBuf (k + unat off)
      | Stray \<Rightarrow> Stray)"

definition poke :: "u8 \<Rightarrow> ('i, 'p, 'd) uno \<Rightarrow> halt + ('i, 'p, 'd) uno" where
  "poke b u =
     (case rx_buf u of
        LedBuf k \<Rightarrow> (case write_leds k [b] (bd_leds (un_board u)) of
            None \<Rightarrow> Inl OutOfArray
          | Some ls \<Rightarrow> Inr (u\<lparr>un_board := (un_board u)\<lparr>bd_leds := ls\<rparr>, rx_buf := LedBuf (k + 1)\<rparr>))
      | _ \<Rightarrow> Inl OutOfArray)"

definition rx_payload :: "nat \<Rightarrow> u8 \<Rightarrow> ('i, 'p, 'd) uno \<Rightarrow> halt + ('i, 'p, 'd) uno" where
  "rx_payload cp b u =
     (if rx_isConfig u
      then Inr (u\<lparr>un_board := (un_board u)\<lparr>bd_ee := writeConfigByte cp (rx_offset u) b (bd_ee (un_board u))\<rparr>,
                 rx_offset := rx_offset u + 1\<rparr>)
      else if rx_buf u \<noteq> NoBuf then poke b u
      else if rx_cmd u = cmd_val COMMAND_SET_SP
      then Inr (u\<lparr>un_board := on_direct (setSP (truthy b)) (un_board u)\<rparr>)
      else Inr u)"

definition feature_read ::
  "('i, 'p, 'd) uno_env \<Rightarrow> u8 \<Rightarrow> ('i, 'p, 'd) uno \<Rightarrow> halt + ('i, 'p, 'd) uno" where
  "feature_read env b u =
     (case on_radio (processHIDReadFeatureReport (ue_dev env) (ue_clk env) (ue_fuel env) (ue_cp env)
                       (ue_name env) (ue_boot_sig env) b (un_board u)) u of (r, u1) \<Rightarrow>
        and_then r (\<lambda>(n, bd). Inr (writeToUSB (bd_dbuf bd) n
          (u1\<lparr>un_board := (if bd_isRF bd then on_direct (on_hw (\<lambda>_. rf_avr (fst (un_radio u1)))) bd
                           else bd)\<rparr>))))"

text \<open>One byte; the flag says that the loop is left.\<close>

definition rx_byte ::
  "('i, 'p, 'd) uno_env \<Rightarrow> u8 \<Rightarrow> ('i, 'p, 'd) uno \<Rightarrow> halt + (bool \<times> ('i, 'p, 'd) uno)" where
  "rx_byte env b u =
     (if rx_state u = 0
      then Inr (False, if b = FRAME_START_FEATURE_WRITE then u\<lparr>rx_state := 1\<rparr>
                       else if b = FRAME_START_FEATURE_READ then u\<lparr>rx_state := 2\<rparr>
                       else if b = FRAME_DONE then u\<lparr>readyForPacket := True\<rparr> else u)
      else if rx_state u = 1 then Inr (False, u\<lparr>rx_packetCount := b, rx_state := 3\<rparr>)
      else if rx_state u = 2
      then and_then (feature_read env b u) (\<lambda>u. Inr (True, u\<lparr>rx_state := 0\<rparr>))
      else if rx_state u = 3
      then let u = u\<lparr>rx_cmd := b\<rparr>
           in if b = cmd_val COMMAND_WRITE_CONFIG
              then Inr (False, u\<lparr>rx_isConfig := True, rx_state := 4, rx_packetCount := rx_packetCount u - 1\<rparr>)
              else if b = cmd_val COMMAND_SET_LEDS
              then Inr (False, u\<lparr>rx_buf := LedBuf 0, rx_state := 4, rx_packetCount := rx_packetCount u - 1\<rparr>)
              else Inr (False, u\<lparr>rx_buf := NoBuf, rx_state := 5\<rparr>)
      else if rx_state u = 4
      then Inr (False, u\<lparr>rx_origOffset := b, rx_offset := packet_offset b,
                         rx_buf := ptr_add (rx_buf u) (packet_offset b), rx_state := 5\<rparr>)
      else if rx_state u = 5
      then and_then (rx_payload (ue_cp env) b (u\<lparr>rx_packetCount := rx_packetCount u - 1\<rparr>))
             (\<lambda>u. Inr (if rx_packetCount u = 0 then (True, u\<lparr>rx_state := 7\<rparr>) else (False, u)))
      else Inr (False, u))"

text \<open>The loop over the bytes that were in the buffer when the iteration began.\<close>

fun rx_loop ::
  "('i, 'p, 'd) uno_env \<Rightarrow> nat \<Rightarrow> ('i, 'p, 'd) uno \<Rightarrow> halt + ('i, 'p, 'd) uno" where
  "rx_loop env 0 u = Inr u"
| "rx_loop env (Suc n) u =
     (case lufa_Remove (un_in u) of (b, q) \<Rightarrow>
        and_then (rx_byte env b (u\<lparr>un_in := q\<rparr>))
          (\<lambda>(leave, u). if leave then Inr u else rx_loop env n u))"

section \<open>Forwarding a command over the radio\<close>

text \<open>The rest of the LED table from \<open>buf\<close> on, into which a payload is read.\<close>

definition buf_room :: "('i, 'p, 'd) uno \<Rightarrow> u8 list" where
  "buf_room u = (case rx_buf u of LedBuf k \<Rightarrow> drop k (led_bytes (bd_leds (un_board u))) | _ \<Rightarrow> [])"

fun drain_tx :: "('i, 'p, 'd) uno_env \<Rightarrow> nat \<Rightarrow> ('i, 'p, 'd) uno \<Rightarrow> halt + ('i, 'p, 'd) uno" where
  "drain_tx env 0 u = Inl NoAnswer"
| "drain_tx env (Suc fuel) u =
     (case on_radio (nrf24_txFifoEmpty (ue_dev env)) u of (e, u) \<Rightarrow>
        if e \<noteq> 0 then Inr u
        else case on_radio (do { modify_radio (\<lambda>r. r\<lparr>rf_interrupt := True\<rparr>);
                                 got \<leftarrow> tickRFInput (ue_dev env) (buf_room u) 0;
                                 nrf24_configRegister (ue_dev env) STATUS (bv TX_DS OR bv MAX_RT);
                                 State_Monad.return got }) u of (got, u) \<Rightarrow>
             (case got of
                None \<Rightarrow> Inl OutOfArray
              | Some (n, bs) \<Rightarrow>
                  (case rx_buf u of
                     LedBuf k \<Rightarrow>
                       (case write_leds k bs (bd_leds (un_board u)) of
                          None \<Rightarrow> Inl OutOfArray
                        | Some ls \<Rightarrow>
                            drain_tx env fuel (u\<lparr>un_board := (un_board u)\<lparr>bd_leds := ls\<rparr>\<rparr>))
                   | _ \<Rightarrow> drain_tx env fuel u)))"

text \<open>
  What follows the offset: the block of the configuration at \<open>offset\<close>, which the payload has moved
  past the bytes just stored, or PACKET_SIZE bytes of the LED table.
\<close>

definition forwarded :: "('i, 'p, 'd) uno_env \<Rightarrow> ('i, 'p, 'd) uno \<Rightarrow> u8 list option" where
  "forwarded env u =
     (if rx_cmd u = cmd_val COMMAND_SET_LEDS \<or> rx_cmd u = cmd_val COMMAND_WRITE_CONFIG
      then if rx_isConfig u
           then Some (rx_origOffset u #
                  readConfigBlock (ue_cp env) (rx_offset u) PACKET_SIZE (bd_ee (un_board u)))
           else if unat (rx_offset u) + PACKET_SIZE \<le> length (led_bytes (bd_leds (un_board u)))
           then Some (rx_origOffset u #
                  take PACKET_SIZE (drop (unat (rx_offset u)) (led_bytes (bd_leds (un_board u)))))
           else None
      else Some [])"

definition forward_rf ::
  "('i, 'p, 'd) uno_env \<Rightarrow> ('i, 'p, 'd) uno \<Rightarrow> halt + ('i, 'p, 'd) uno" where
  "forward_rf env u =
     and_then (drain_tx env (ue_fuel env) u) (\<lambda>u.
       case forwarded env u of
         None \<Rightarrow> Inl OutOfArray
       | Some bs \<Rightarrow>
           (case on_radio (do { nrf24_configRegister (ue_dev env) STATUS (bv TX_DS OR bv MAX_RT);
                                nrf24_csn_digitalWrite (ue_dev env) LOW;
                                nrf24_transmitSync (ue_dev env)
                                  ((cmd_byte W_ACK_PAYLOAD OR 1) # rx_cmd u # 0 # bs);
                                nrf24_csn_digitalWrite (ue_dev env) HIGH;
                                modify_radio (\<lambda>r. r\<lparr>rf_interrupt := True\<rparr>) }) u of (_, u) \<Rightarrow>
              drain_tx env (ue_fuel env) (u\<lparr>rx_isConfig := False\<rparr>)))"

definition rx_finish ::
  "('i, 'p, 'd) uno_env \<Rightarrow> ('i, 'p, 'd) uno \<Rightarrow> halt + ('i, 'p, 'd) uno" where
  "rx_finish env u =
     (if rx_state u = 7
      then and_then (let u = u\<lparr>rx_state := 0\<rparr>
                     in if bd_isRF (un_board u) then forward_rf env u else Inr u)
             (\<lambda>u. and_then (handleCommand (ue_cp env) (env_adc (ue_input env)) (rx_cmd u) (un_board u))
                    (\<lambda>(_, bd). Inr (u\<lparr>un_board := bd\<rparr>)))
      else Inr u)"

section \<open>Polling the controller\<close>

definition controller_of_bytes :: "u8 list \<Rightarrow> Controller_t" where
  "controller_of_bytes bs =
     \<lparr>buttons = un_le16 bs, lt = bs ! 2, rt = bs ! 3, l_x = un_le16 (drop 4 bs),
      l_y = un_le16 (drop 6 bs), r_x = un_le16 (drop 8 bs), r_y = un_le16 (drop 10 bs)\<rparr>"

fun halt_of :: "input_error \<Rightarrow> halt" where
  "halt_of Diverges = NoAnswer" | "halt_of _ = OutOfArray"

definition poll_controller ::
  "('i, 'p, 'd) uno_env \<Rightarrow> ('i, 'p, 'd) uno \<Rightarrow> halt + ('i, 'p, 'd) uno" where
  "poll_controller env u =
     (if bd_isRF (un_board u)
      then case on_radio (tickRFInput (ue_dev env) (controller_bytes (un_controller u)) 12) u of
             (None, u) \<Rightarrow> Inl OutOfArray
           | (Some (_, bs), u) \<Rightarrow> Inr (u\<lparr>un_controller := controller_of_bytes bs\<rparr>)
      else case tickInputs (own_globals u env) (un_controller u, bd_input (un_board u)) (un_i2c u, un_ps2 u) of
             Inl e \<Rightarrow> Inl (halt_of e)
           | Inr ((c, s), i, p) \<Rightarrow>
               (case tickLEDs (un_drum u) s c (bd_leds (un_board u)) of
                  None \<Rightarrow> Inl OutOfArray
                | Some bs \<Rightarrow> Inr (u\<lparr>un_controller := c, un_board := (un_board u)\<lparr>bd_input := s\<rparr>,
                                   un_i2c := i, un_ps2 := p, un_strip := bs\<rparr>)))"

definition send_report ::
  "('i, 'p, 'd) uno_env \<Rightarrow> ('i, 'p, 'd) uno \<Rightarrow> halt + ('i, 'p, 'd) uno" where
  "send_report env u =
     (if un_prev u \<noteq> un_controller u \<and> readyForPacket u
      then case fillReport (un_drum u) (ue_beyond env) (bd_fullDeviceType (un_board u))
                  (bd_input (un_board u)) (un_controller u) (un_reports u) of
             None \<Rightarrow> Inl OutOfArray
           | Some (n, bs, r) \<Rightarrow>
               Inr ((writeData (take (unat n) bs) (writeData [n] (writeData [FRAME_START_WRITE]
                      (u\<lparr>un_reports := r, lastPoll := ue_sent env, readyForPacket := False\<rparr>))))
                    \<lparr>un_prev := un_controller u\<rparr>)
      else Inr u)"

section \<open>The main loop\<close>

definition main_step ::
  "('i, 'p, 'd) uno_env \<Rightarrow> ('i, 'p, 'd) uno \<Rightarrow> halt + ('i, 'p, 'd) uno" where
  "main_step env u =
     (let count = ucast (lufa_GetCount (un_in u)) :: u8
      in if count \<noteq> 0
         then and_then (rx_loop env (unat count) u) (rx_finish env)
         else if ucast (un_pollRate u) < ue_now env - lastPoll u \<or> bd_isRF (un_board u)
         then and_then (poll_controller env u) (send_report env)
         else Inr u)"

definition initialise ::
  "(u8 \<Rightarrow> u8) \<Rightarrow> nat \<Rightarrow> u8 \<Rightarrow> ('i, 'p, 'd) uno_env \<Rightarrow> ('i, 'p, 'd) uno \<Rightarrow> halt + ('i, 'p, 'd) uno" where
  "initialise past tp junk env u =
     (case loadConfig past (ue_cp env) tp (bd_ee (un_board u)) of (config, ee) \<Rightarrow>
        let t = subType (cfg_main config); d = isDrum past t;
            u1 = u\<lparr>un_board := (un_board u)\<lparr>bd_ee := ee, bd_fullDeviceType := t,
                                            bd_inputType := inputType (cfg_main config)\<rparr>,
                   un_pollRate := pollRate (cfg_main config), un_drum := d,
                   un_guitar := isGuitar past t, un_timer := setupMicrosTimer (un_timer u),
                   un_deviceType := t\<rparr>
        in and_then
             (if rfInEnabled (cfg_rf config)
              then case on_radio (initRF (ue_dev env) False (rf_id (cfg_rf config))
                                    (generate_crc32 (ue_boot_sig env))) u1 of (_, u2) \<Rightarrow>
                     Inr (u2\<lparr>un_board := (un_board u2)\<lparr>bd_isRF := True\<rparr>\<rparr>)
              else (case initInputs (own_globals u1 env) junk d config (bd_input (un_board u1))
                           (un_i2c u1, un_ps2 u1) of
                      Inl e \<Rightarrow> Inl (halt_of e)
                    | Inr (s, i, p) \<Rightarrow> Inr (u1\<lparr>un_board := (un_board u1)\<lparr>bd_input := s\<rparr>,
                                              un_i2c := i, un_ps2 := p\<rparr>)))
             (\<lambda>u2. Inr (u2\<lparr>un_reports := init_reports t config (un_reports u2),
                           un_board := (un_board u2)\<lparr>bd_leds := initLEDs config (bd_leds (un_board u2))\<rparr>\<rparr>)))"

definition main_start ::
  "(u8 \<Rightarrow> u8) \<Rightarrow> nat \<Rightarrow> u8 \<Rightarrow> ('i, 'p, 'd) uno_env \<Rightarrow> ('i, 'p, 'd) uno \<Rightarrow> halt + ('i, 'p, 'd) uno" where
  "main_start past tp junk env u =
     and_then (initialise past tp junk env u) (\<lambda>u.
       let u = Serial_InitInterrupt BAUD True u
       in Inr (u\<lparr>un_in := lufa_InitBuffer (lr_Data (un_in u)) (of_nat USB2USART_BUFLEN),
                 un_out := lufa_InitBuffer (lr_Data (un_out u)) (of_nat USART2USB_BUFLEN),
                 un_board := on_direct (on_hw sei) (un_board u),
                 rx_packetCount := 0, rx_state := 0, rx_isConfig := False\<rparr>))"

section \<open>The parser on a list of bytes\<close>

text \<open>The loop without the ring buffer: whether it was left, and the bytes not looked at.\<close>

fun rx_fold ::
  "('i, 'p, 'd) uno_env \<Rightarrow> u8 list \<Rightarrow> ('i, 'p, 'd) uno \<Rightarrow> halt + (bool \<times> u8 list \<times> ('i, 'p, 'd) uno)" where
  "rx_fold env [] u = Inr (False, [], u)"
| "rx_fold env (b # bs) u =
     and_then (rx_byte env b u) (\<lambda>(leave, u). if leave then Inr (True, bs, u) else rx_fold env bs u)"

lemma and_then_map_sum:
  "and_then (map_sum id g r) f = and_then r (f \<circ> g)"
  by (cases r) simp_all

lemma map_sum_and_then:
  "map_sum id g (and_then r f) = and_then r (map_sum id g \<circ> f)"
  by (cases r) simp_all

lemma on_radio_in [simp]:
  "on_radio m (u\<lparr>un_in := q\<rparr>) = (fst (on_radio m u), (snd (on_radio m u))\<lparr>un_in := q\<rparr>)"
  by (simp add: on_radio_def case_prod_beta)

lemma feature_read_in:
  "feature_read env b (u\<lparr>un_in := q\<rparr>) = map_sum id (un_in_update (\<lambda>_. q)) (feature_read env b u)"
  by (auto simp: feature_read_def case_prod_beta map_sum_and_then comp_def writeToUSB_def writeData_def
      intro!: arg_cong [where f = "and_then _"])

lemma rx_payload_in:
  "rx_payload cp b (u\<lparr>un_in := q\<rparr>) = map_sum id (un_in_update (\<lambda>_. q)) (rx_payload cp b u)"
  by (auto simp: rx_payload_def poke_def split: buf_ptr.splits option.splits)

lemma rx_payload_in_count:
  "rx_payload cp b (u\<lparr>un_in := q, rx_packetCount := n\<rparr>) =
   map_sum id (un_in_update (\<lambda>_. q)) (rx_payload cp b (u\<lparr>rx_packetCount := n\<rparr>))"
proof -
  have "u\<lparr>un_in := q, rx_packetCount := n\<rparr> = (u\<lparr>rx_packetCount := n\<rparr>)\<lparr>un_in := q\<rparr>" by simp
  then show ?thesis by (simp only: rx_payload_in)
qed

lemma rx_byte_in:
  "rx_byte env b (u\<lparr>un_in := q\<rparr>) =
   map_sum id (map_prod id (un_in_update (\<lambda>_. q))) (rx_byte env b u)"
  by (auto simp: rx_byte_def Let_def feature_read_in rx_payload_in_count and_then_map_sum
      map_sum_and_then comp_def intro!: arg_cong [where f = "and_then _"])

lemma rx_fold_in:
  "rx_fold env bs (u\<lparr>un_in := q\<rparr>) =
   map_sum id (map_prod id (map_prod id (un_in_update (\<lambda>_. q)))) (rx_fold env bs u)"
proof (induction bs arbitrary: u)
  case (Cons b bs)
  show ?case
    by (cases "rx_byte env b u") (auto simp: rx_byte_in Cons.IH)
qed simp

text \<open>The loop on a ring buffer that holds the bytes does the same and leaves the others in it.\<close>

lemma rx_loop_fold:
  assumes "lufa_inv n (un_in u)" "lufa_contents (un_in u) = xs @ ys"
    and "rx_fold env xs u = Inr (leave, rest, u')"
  shows "\<exists>q. rx_loop env (length xs) u = Inr (u'\<lparr>un_in := q\<rparr>) \<and> lufa_inv n q \<and> lufa_contents q = rest @ ys"
  using assms
proof (induction xs arbitrary: u u')
  case Nil
  then have "u'\<lparr>un_in := un_in u\<rparr> = u" by simp
  with Nil show ?case by (intro exI [of _ "un_in u"]) simp
next
  case (Cons b xs)
  then have "lufa_contents (un_in u) \<noteq> []" by simp
  from lufa.rem_inv [OF Cons.prems(1) this] lufa.rem_contents [OF Cons.prems(1) this] Cons.prems(2)
  obtain q where q: "lufa_Remove (un_in u) = (b, q)" "lufa_inv n q" "lufa_contents q = xs @ ys"
    by (cases "lufa_Remove (un_in u)") auto
  from Cons.prems(3) obtain l u1 where step: "rx_byte env b u = Inr (l, u1)"
    by (cases "rx_byte env b u") auto
  show ?case
  proof (cases l)
    case True
    with Cons.prems(3) step q show ?thesis
      by (intro exI [of _ q]) (auto simp: rx_byte_in)
  next
    case False
    with Cons.prems(3) step have "rx_fold env xs (u1\<lparr>un_in := q\<rparr>) = Inr (leave, rest, u'\<lparr>un_in := q\<rparr>)"
      by (simp add: rx_fold_in)
    from Cons.IH [OF _ _ this] q obtain q' where
      "rx_loop env (length xs) (u1\<lparr>un_in := q\<rparr>) = Inr (u'\<lparr>un_in := q'\<rparr>)" "lufa_inv n q'"
      "lufa_contents q' = rest @ ys" by auto
    with False step q show ?thesis by (auto simp: rx_byte_in)
  qed
qed

section \<open>Frames that arrive in pieces\<close>

text \<open>The UART's interrupts store a piece, then the main loop runs once.\<close>

fun deliver ::
  "('i, 'p, 'd) uno_env \<Rightarrow> u8 list list \<Rightarrow> ('i, 'p, 'd) uno \<Rightarrow> halt + ('i, 'p, 'd) uno" where
  "deliver env [] u = Inr u"
| "deliver env (c # cs) u = and_then (main_step env (fold USART_RX_vect c u)) (deliver env cs)"

lemma fold_rx: "fold USART_RX_vect c u = u\<lparr>un_in := fold lufa_Insert c (un_in u)\<rparr>"
  by (induction c arbitrary: u) (simp_all add: USART_RX_vect_def)

lemma rx_fold_append:
  "rx_fold env (xs @ ys) u =
   and_then (rx_fold env xs u) (\<lambda>(leave, rest, u).
     if leave then Inr (True, rest @ ys, u) else rx_fold env ys u)"
proof (induction xs arbitrary: u)
  case (Cons b xs)
  show ?case by (cases "rx_byte env b u") (auto simp: Cons.IH)
qed simp

lemma rx_fold_rest: "rx_fold env xs u = Inr (leave, rest, u') \<Longrightarrow> \<not> leave \<Longrightarrow> rest = []"
  by (induction xs arbitrary: u) (auto simp: and_then_Inr split: if_splits)

lemma rx_payload_state: "rx_payload cp b u = Inr u' \<Longrightarrow> rx_state u' = rx_state u"
  by (auto simp: rx_payload_def poke_def split: if_splits buf_ptr.splits option.splits)

lemma rx_byte_running:
  "rx_byte env b u = Inr (False, u') \<Longrightarrow> rx_state u \<noteq> 7 \<Longrightarrow> rx_state u' \<noteq> 7"
  by (auto simp: rx_byte_def Let_def and_then_Inr dest!: rx_payload_state split: if_splits)

lemma rx_fold_running:
  "rx_fold env bs u = Inr (False, rest, u') \<Longrightarrow> rx_state u \<noteq> 7 \<Longrightarrow> rx_state u' \<noteq> 7"
proof (induction bs arbitrary: u)
  case (Cons b bs)
  then obtain u1 where "rx_byte env b u = Inr (False, u1)" "rx_fold env bs u1 = Inr (False, rest, u')"
    by (auto simp: and_then_Inr split: if_splits)
  with Cons show ?case using rx_byte_running by blast
qed simp

text \<open>One iteration on the bytes of a piece.\<close>

lemma main_step_piece:
  assumes "lufa_inv n (un_in u)" "lufa_contents (un_in u) = []" "c \<noteq> []" "length c \<le> n" "length c < 256"
    and "rx_fold env c u = Inr (leave, [], u')"
  shows "\<exists>q. main_step env (fold USART_RX_vect c u) = rx_finish env (u'\<lparr>un_in := q\<rparr>) \<and>
    lufa_inv n q \<and> lufa_contents q = []"
proof -
  let ?u = "u\<lparr>un_in := fold lufa_Insert c (un_in u)\<rparr>"
  have q: "lufa_inv n (un_in ?u)" "lufa_contents (un_in ?u) = c @ []"
    using lufa.ins_all [of n "un_in u" c] assms(1,2,4) by simp_all
  have "rx_fold env c ?u = Inr (leave, [], u'\<lparr>un_in := un_in ?u\<rparr>)"
    using assms(6) by (simp add: rx_fold_in)
  from rx_loop_fold [OF q this] obtain q' where
    loop: "rx_loop env (length c) ?u = Inr (u'\<lparr>un_in := q'\<rparr>)" "lufa_inv n q'" "lufa_contents q' = []"
    by auto
  have "unat (lufa_GetCount (un_in ?u)) = length c"
    using q(2) length_lufa_contents [of "un_in ?u"] by (simp add: lufa_GetCount_def)
  then have count: "unat (ucast (lufa_GetCount (un_in ?u)) :: u8) = length c"
    using assms(5) by (simp add: unsigned_ucast_eq take_bit_nat_eq_self)
  then have "(ucast (lufa_GetCount (un_in ?u)) :: u8) \<noteq> 0"
    using assms(3) by auto
  with loop count show ?thesis
    by (auto simp: main_step_def fold_rx)
qed

text \<open>
  A run that leaves the loop with its last byte, in whatever pieces it arrives, ends as if it had
  arrived at once.
\<close>

lemma rx_finish_running: "rx_state u \<noteq> 7 \<Longrightarrow> rx_finish env u = Inr u"
  by (simp add: rx_finish_def)

lemma deliver_pieces:
  assumes "lufa_inv n (un_in u)" "lufa_contents (un_in u) = []" "n < 256" "rx_state u \<noteq> 7"
    and "\<forall>c\<in>set cs. c \<noteq> [] \<and> length c \<le> n" "cs \<noteq> []"
    and "rx_fold env (concat cs) u = Inr (True, [], u')"
    and "\<And>q. lufa_inv n q \<Longrightarrow> lufa_contents q = [] \<Longrightarrow>
           \<exists>v. rx_finish env (u'\<lparr>un_in := q\<rparr>) = Inr (v\<lparr>un_in := q\<rparr>) \<and> P v"
  shows "\<exists>v q. deliver env cs u = Inr (v\<lparr>un_in := q\<rparr>) \<and> P v \<and> lufa_inv n q \<and> lufa_contents q = []"
  using assms
proof (induction cs arbitrary: u u')
  case (Cons c cs)
  note piece = main_step_piece [OF Cons.prems(1,2), of c env]
  have c: "c \<noteq> []" "length c \<le> n" "length c < 256" using Cons.prems(3,5) by auto
  show ?case
  proof (cases "cs = []")
    case True
    with Cons.prems(7) have "rx_fold env c u = Inr (True, [], u')" by simp
    from piece [OF c this] obtain q where
      "main_step env (fold USART_RX_vect c u) = rx_finish env (u'\<lparr>un_in := q\<rparr>)"
      "lufa_inv n q" "lufa_contents q = []" by blast
    moreover obtain v where "rx_finish env (u'\<lparr>un_in := q\<rparr>) = Inr (v\<lparr>un_in := q\<rparr>)" "P v"
      using Cons.prems(8) [of q] calculation by blast
    ultimately show ?thesis
      using True by (intro exI [of _ v] exI [of _ q]) simp
  next
    case False
    then have more: "concat cs \<noteq> []" using Cons.prems(5) by (cases cs) auto
    have "rx_fold env (c @ concat cs) u = Inr (True, [], u')" using Cons.prems(7) by simp
    then obtain leave rest u1 where first: "rx_fold env c u = Inr (leave, rest, u1)"
      and "if leave then rest @ concat cs = [] else rx_fold env (concat cs) u1 = Inr (True, [], u')"
      by (auto simp: rx_fold_append and_then_Inr split: if_splits)
    with more have run: "\<not> leave" "rx_fold env (concat cs) u1 = Inr (True, [], u')"
      by (auto split: if_splits)
    have first': "rx_fold env c u = Inr (False, [], u1)"
      using first run(1) rx_fold_rest [OF first run(1)] by simp
    then have st: "rx_state u1 \<noteq> 7" using Cons.prems(4) rx_fold_running by blast
    from piece [OF c first'] st obtain q where
      step: "main_step env (fold USART_RX_vect c u) = Inr (u1\<lparr>un_in := q\<rparr>)"
      and q: "lufa_inv n q" "lufa_contents q = []"
      by (auto simp: rx_finish_running)
    have "rx_fold env (concat cs) (u1\<lparr>un_in := q\<rparr>) = Inr (True, [], u'\<lparr>un_in := q\<rparr>)"
      using run by (simp add: rx_fold_in)
    from Cons.IH [OF _ _ Cons.prems(3) _ _ False this] q st Cons.prems(5,8)
    obtain v q' where "deliver env cs (u1\<lparr>un_in := q\<rparr>) = Inr (v\<lparr>un_in := q'\<rparr>)" "P v"
      "lufa_inv n q'" "lufa_contents q' = []"
      by auto
    with step show ?thesis by auto
  qed
qed simp

section \<open>The frame of a configuration block\<close>

definition write_frame :: "u8 \<Rightarrow> u8 \<Rightarrow> u8 list \<Rightarrow> u8 list" where
  "write_frame cmd blk data =
     [FRAME_START_FEATURE_WRITE, of_nat (length data) + 1, cmd, blk] @ data"

text \<open>The payload of a block while \<open>isConfig\<close> holds: its bytes go to the EEPROM one by one.\<close>

lemma rx_fold_config_data:
  assumes "rx_state u = 5" "rx_isConfig u" "rx_packetCount u = of_nat (length data)" "data \<noteq> []"
    and "length data < 256" "unat (rx_offset u) + length data < 2 ^ 16"
  shows "rx_fold env data u = Inr (True, [],
    u\<lparr>un_board := (un_board u)\<lparr>bd_ee := eeprom_update_block data (ue_cp env + unat (rx_offset u))
        (bd_ee (un_board u))\<rparr>,
      rx_packetCount := 0, rx_offset := rx_offset u + of_nat (length data), rx_state := 7\<rparr>)"
  using assms
proof (induction data arbitrary: u)
  case (Cons b bs)
  let ?u = "u\<lparr>un_board := (un_board u)\<lparr>bd_ee := writeConfigByte (ue_cp env) (rx_offset u) b (bd_ee (un_board u))\<rparr>,
      rx_packetCount := of_nat (length bs), rx_offset := rx_offset u + 1\<rparr>"
  have byte: "rx_byte env b u = Inr (if (of_nat (length bs) :: u8) = 0 then (True, ?u\<lparr>rx_state := 7\<rparr>) else (False, ?u))"
    using Cons.prems by (simp add: rx_byte_def rx_payload_def)
  have upd: "eeprom_update_block (b # bs) a ee = eeprom_update_block bs (a + 1) (ee(a := b))" for a ee
    using update_update_append [of bs a "[b]" ee] by (simp add: update_singleton)
  show ?case
  proof (cases "bs = []")
    case True
    with byte show ?thesis
      by (simp add: writeConfigByte_def update_singleton fun_upd_def)
  next
    case False
    then have nz: "(of_nat (length bs) :: u8) \<noteq> 0"
      using Cons.prems(5) unat_of_nat [of "length bs", where 'a = 8] by (auto simp: unsigned_eq_0_iff)
    have off: "unat (rx_offset u + 1) = unat (rx_offset u) + 1"
      using Cons.prems(6) by (simp add: unat_word_ariths)
    from Cons.IH [of ?u] Cons.prems False off nz byte show ?thesis
      by (simp add: upd writeConfigByte_def add.assoc fun_upd_def)
  qed
qed simp

lemma piece_length: "c \<in> set cs \<Longrightarrow> length c \<le> length (concat cs)"
  by (induction cs) auto

text \<open>The four bytes before the payload.\<close>

lemma rx_fold_header:
  assumes "rx_state u = 0" "cmd = cmd_val COMMAND_WRITE_CONFIG \<or> cmd = cmd_val COMMAND_SET_LEDS \<and> rx_isConfig u"
  shows "\<exists>u1. rx_fold env (write_frame cmd blk data) u = rx_fold env data u1 \<and>
    rx_state u1 = 5 \<and> rx_isConfig u1 \<and> rx_packetCount u1 = of_nat (length data) \<and>
    rx_offset u1 = packet_offset blk \<and> rx_cmd u1 = cmd \<and> un_board u1 = un_board u \<and>
    un_out u1 = un_out u \<and> readyForPacket u1 = readyForPacket u"
proof -
  have "cmd_val COMMAND_WRITE_CONFIG \<noteq> cmd_val COMMAND_SET_LEDS" by simp
  with assms show ?thesis
    by - (elim disjE conjE; simp add: write_frame_def rx_byte_def Let_def FRAME_START_FEATURE_WRITE_def
        del: cmd_val.simps; (rule exI, rule conjI [OF refl], simp))
qed

text \<open>
  C37: a frame that writes block blk of the configuration, in whatever pieces the UART delivers it,
  stores its data in the EEPROM at 28 blk and leaves the parser idle and everything else as it was.
  Since nothing resets isConfig on a board without radio, from then on every block the host means
  for the LED table is stored over the configuration as well, and the LEDs do not change.
\<close>

theorem uno_stores_block:
  assumes "rx_state u = 0" "\<not> bd_isRF (un_board u)"
    and "lufa_inv USB2USART_BUFLEN (un_in u)" "lufa_contents (un_in u) = []"
    and "concat pieces = write_frame cmd blk data" "\<forall>c\<in>set pieces. c \<noteq> []"
    and "data \<noteq> []" "length data \<le> PACKET_SIZE"
    and "cmd = cmd_val COMMAND_WRITE_CONFIG \<or> cmd = cmd_val COMMAND_SET_LEDS \<and> rx_isConfig u"
  shows "\<exists>u'. deliver env pieces u = Inr u' \<and>
    un_board u' = (un_board u)\<lparr>bd_ee :=
      eeprom_update_block data (ue_cp env + PACKET_SIZE * unat blk) (bd_ee (un_board u))\<rparr> \<and>
    rx_state u' = 0 \<and> rx_isConfig u' \<and> readyForPacket u' = readyForPacket u \<and> un_out u' = un_out u \<and>
    lufa_inv USB2USART_BUFLEN (un_in u') \<and> lufa_contents (un_in u') = []"
proof -
  let ?bd = "(un_board u)\<lparr>bd_ee :=
      eeprom_update_block data (ue_cp env + PACKET_SIZE * unat blk) (bd_ee (un_board u))\<rparr>"
  have blk: "unat blk < 256"
    using unsigned_less [of blk] by simp
  then have "unat (ucast blk :: u16) = unat blk"
    by (simp add: unsigned_ucast_eq take_bit_nat_eq_self)
  with blk have off: "unat (packet_offset blk) = PACKET_SIZE * unat blk"
    by (simp add: packet_offset_def PACKET_SIZE_def unat_word_ariths)
  obtain u1 where head: "rx_fold env (write_frame cmd blk data) u = rx_fold env data u1"
    and u1: "rx_state u1 = 5" "rx_isConfig u1" "rx_packetCount u1 = of_nat (length data)"
      "rx_offset u1 = packet_offset blk" "rx_cmd u1 = cmd" "un_board u1 = un_board u"
      "un_out u1 = un_out u" "readyForPacket u1 = readyForPacket u"
    using rx_fold_header [OF assms(1,9)] by blast
  have "unat (rx_offset u1) + length data < 2 ^ 16"
    using off u1(4) assms(8) blk by (simp add: PACKET_SIZE_def)
  from rx_fold_config_data [OF u1(1-3) assms(7) _ this] assms(8) off u1 head
  obtain u2 where run: "rx_fold env (concat pieces) u = Inr (True, [], u2)"
    and u2: "rx_state u2 = 7" "un_board u2 = ?bd" "rx_isConfig u2" "rx_cmd u2 = cmd"
      "un_out u2 = un_out u" "readyForPacket u2 = readyForPacket u"
    by (auto simp: assms(5) PACKET_SIZE_def)
  let ?P = "\<lambda>v. un_board v = ?bd \<and> rx_state v = 0 \<and> rx_isConfig v \<and> un_out v = un_out u \<and>
    readyForPacket v = readyForPacket u"
  have fin: "\<exists>v. rx_finish env (u2\<lparr>un_in := q\<rparr>) = Inr (v\<lparr>un_in := q\<rparr>) \<and> ?P v" for q
    using u2 assms(2,9)
    by (intro exI [of _ "u2\<lparr>rx_state := 0\<rparr>"]) (auto simp: rx_finish_def handleCommand_def)
  have "length (concat pieces) \<le> USB2USART_BUFLEN"
    using assms(5,8) by (simp add: write_frame_def PACKET_SIZE_def USB2USART_BUFLEN_def)
  then have short: "\<forall>c\<in>set pieces. c \<noteq> [] \<and> length c \<le> USB2USART_BUFLEN"
    using assms(6) piece_length order_trans by blast
  have "pieces \<noteq> []" using assms(5) by (auto simp: write_frame_def)
  from deliver_pieces [OF assms(3,4) _ _ short this run, of ?P] fin assms(1)
  show ?thesis by (auto simp: USB2USART_BUFLEN_def)
qed

text \<open>A block of three bytes in two pieces, on an idle board with an empty ring buffer.\<close>

definition idle_uno :: "(unit, nat, unit) uno \<Rightarrow> (unit, nat, unit) uno" where
  "idle_uno u = u\<lparr>un_in := lufa_InitBuffer (replicate 128 0) 128, un_board := blank_board, rx_state := 0\<rparr>"

theorem uno_stores_block_witness:
  "\<forall>env u. \<exists>u'. deliver env [[0x7e, 4, 0x3d], [2, 10, 20, 30]] (idle_uno u) = Inr u' \<and>
     map (bd_ee (un_board u')) [ue_cp env + 56..<ue_cp env + 60] = [10, 20, 30, 0xFF]"
proof (intro allI)
  fix env :: "(unit, nat, unit) uno_env" and u :: "(unit, nat, unit) uno"
  have "concat [[0x7e, 4, 0x3d], [2, 10, 20, 30]] = write_frame 0x3d 2 [10, 20, 30]"
    by (simp add: write_frame_def FRAME_START_FEATURE_WRITE_def)
  moreover have "rx_state (idle_uno u) = 0" "\<not> bd_isRF (un_board (idle_uno u))"
    "lufa_inv USB2USART_BUFLEN (un_in (idle_uno u))" "lufa_contents (un_in (idle_uno u)) = []"
    "un_board (idle_uno u) = blank_board"
    by (simp_all add: idle_uno_def blank_board_def lufa_inv_def lufa_InitBuffer_def
        USB2USART_BUFLEN_def lufa_contents_def)
  ultimately obtain u' where u': "deliver env [[0x7e, 4, 0x3d], [2, 10, 20, 30]] (idle_uno u) = Inr u'"
    "bd_ee (un_board u') = eeprom_update_block [10, 20, 30] (ue_cp env + 56) (\<lambda>_. 0xFF)"
    using uno_stores_block [of "idle_uno u" "[[0x7e, 4, 0x3d], [2, 10, 20, 30]]" "0x3d" 2 "[10, 20, 30]" env]
    by (auto simp: PACKET_SIZE_def blank_board_def)
  have "[a..<a + 4] = [a, a + 1, a + 2, a + 3]" for a :: nat
    by (simp add: upt_rec)
  from this [of "ue_cp env + 56"] u'
  show "\<exists>u'. deliver env [[0x7e, 4, 0x3d], [2, 10, 20, 30]] (idle_uno u) = Inr u' \<and>
     map (bd_ee (un_board u')) [ue_cp env + 56..<ue_cp env + 60] = [10, 20, 30, 0xFF]"
    by (simp add: eeprom_update_block_def add.assoc)
qed

end
