(* ===== verification/RfTx.thy ===== *)
theory RfTx
  imports UnoMain
begin

text \<open>
  The radio transmitter on an Arduino Uno (\<open>src/src/avr/uno/rf/main.c\<close>): a board without USB that
  polls the controller, sends its state over the air, obeys the commands that come back with the
  acknowledgements, and sleeps after ten minutes without a pressed button. Then the air between the
  transmitter and a receiving board, and what the receiver shows of the states that were sent.

  The ids in the section \<open>.rfrecv\<close> are patched into the program's image by the tool that flashes it.
\<close>

section \<open>The state of the program\<close>

definition rftxID :: u32 where "rftxID = 0xDEADBEEF"
definition rfrxID :: u32 where "rfrxID = 0xDEADBEEF"

text \<open>The registers of sleep and power: mode and enable, the modules switched off, the flags.\<close>

record sleep_regs =
  SMCR :: u8
  PRR :: u8
  EIFR :: u8

abbreviation (input) INT1 :: nat where "INT1 \<equiv> 1"
abbreviation (input) INTF1 :: nat where "INTF1 \<equiv> 1"
abbreviation (input) ISC11 :: nat where "ISC11 \<equiv> 3"
abbreviation (input) SE :: nat where "SE \<equiv> 0"

definition SLEEP_MODE_PWR_DOWN :: u8 where "SLEEP_MODE_PWR_DOWN = bv 2"

definition set_sleep_mode :: "u8 \<Rightarrow> sleep_regs \<Rightarrow> sleep_regs" where
  "set_sleep_mode m r = r\<lparr>SMCR := (SMCR r AND NOT (bv 1 OR bv 2 OR bv 3)) OR m\<rparr>"

definition sleep_enable :: "sleep_regs \<Rightarrow> sleep_regs" where
  "sleep_enable r = r\<lparr>SMCR := bit_set_m (SMCR r) SE\<rparr>"

definition sleep_disable :: "sleep_regs \<Rightarrow> sleep_regs" where
  "sleep_disable r = r\<lparr>SMCR := bit_clear_m (SMCR r) SE\<rparr>"

text \<open>The seven modules of the 328P: ADC, UART, SPI, the three timers and the two-wire unit.\<close>

definition power_all_disable :: "sleep_regs \<Rightarrow> sleep_regs" where
  "power_all_disable r = r\<lparr>PRR := PRR r OR 0xEF\<rparr>"

definition power_all_enable :: "sleep_regs \<Rightarrow> sleep_regs" where
  "power_all_enable r = r\<lparr>PRR := PRR r AND NOT 0xEF\<rparr>"

record ('i, 'p, 'd) rftx =
  tx_board :: board
  tx_reports :: report_state
  tx_controller :: Controller_t
  tx_prevCtrl :: Controller_t
  tx_lastPoll :: u32
  tx_lastChange :: u32
  tx_lastButtons :: u32
  tx_pollRate :: u8
  tx_drum :: bool
  tx_guitar :: bool
  tx_deviceType :: u8
  tx_timer :: timer0
  tx_sleep :: sleep_regs
  tx_i2c :: 'i
  tx_ps2 :: 'p
  tx_radio :: "radio \<times> 'd"

text \<open>
  What an iteration takes from outside. \<open>te_time\<close> is the clock at each of its readings in turn, \<open>te_junk\<close>
  the 32 bytes of the array that is not initialised, by the call that declares it, and \<open>te_wake\<close> the
  interrupts served before the processor goes on after it was put to sleep.
\<close>

datatype wake = Wake_INT0 | Wake_INT1

record ('i, 'p, 'd) rftx_env =
  te_input :: "('i, 'p) input_env"
  te_dev :: "'d spi_dev"
  te_time :: "nat \<Rightarrow> u32"
  te_cp :: nat
  te_name :: "u8 list"
  te_boot_sig :: "nat \<Rightarrow> u8"
  te_junk :: "nat \<Rightarrow> u8 list"
  te_wake :: "wake list"
  te_txid :: u32
  te_rxid :: u32

definition tx_globals ::
  "('i, 'p, 'd) rftx \<Rightarrow> ('i, 'p, 'd) rftx_env \<Rightarrow> ('i, 'p) input_env" where
  "tx_globals u env =
     (te_input env)\<lparr>env_fullDeviceType := bd_fullDeviceType (tx_board u), env_guitar := tx_guitar u\<rparr>"

abbreviation tx_hw :: "('i, 'p, 'd) rftx \<Rightarrow> avr" where
  "tx_hw u \<equiv> hw (an (direct (bd_input (tx_board u))))"

definition on_hw_tx :: "(avr \<Rightarrow> avr) \<Rightarrow> ('i, 'p, 'd) rftx \<Rightarrow> ('i, 'p, 'd) rftx" where
  "on_hw_tx f u = u\<lparr>tx_board := on_direct (on_hw f) (tx_board u)\<rparr>"

text \<open>A radio operation works on the pins of the one chip there is.\<close>

definition on_radio_tx :: "('d, 'a) nrf \<Rightarrow> ('i, 'p, 'd) rftx \<Rightarrow> 'a \<times> ('i, 'p, 'd) rftx" where
  "on_radio_tx m u =
     (case tx_radio u of (r, d) \<Rightarrow>
        case run_state m (r\<lparr>rf_avr := tx_hw u\<rparr>, d) of (v, (r', d')) \<Rightarrow>
          (v, on_hw_tx (\<lambda>_. rf_avr r') (u\<lparr>tx_radio := (r', d')\<rparr>)))"

definition on_radio_regs :: "(radio \<Rightarrow> radio) \<Rightarrow> ('i, 'p, 'd) rftx \<Rightarrow> ('i, 'p, 'd) rftx" where
  "on_radio_regs f u = u\<lparr>tx_radio := map_prod f id (tx_radio u)\<rparr>"

section \<open>Start\<close>

text \<open>The type the host sees: guitars and drums of the XInput kind get their real subtype.\<close>

definition real_subtype :: "bool \<Rightarrow> bool \<Rightarrow> u8 \<Rightarrow> u8" where
  "real_subtype g d t =
     (let t1 = (if g \<and> t \<le> subtype_val XINPUT_ARCADE_PAD then REAL_GUITAR_SUBTYPE else t)
      in if d \<and> t1 \<le> subtype_val XINPUT_ARCADE_PAD then REAL_DRUM_SUBTYPE else t1)"

definition initialise_tx ::
  "(u8 \<Rightarrow> u8) \<Rightarrow> nat \<Rightarrow> u8 \<Rightarrow> ('i, 'p, 'd) rftx_env \<Rightarrow> ('i, 'p, 'd) rftx \<Rightarrow> halt + ('i, 'p, 'd) rftx" where
  "initialise_tx past tp junk env u =
     (case loadConfig past (te_cp env) tp (bd_ee (tx_board u)) of (config0, ee) \<Rightarrow>
        let config = config0\<lparr>cfg_rf := (cfg_rf config0)\<lparr>rfInEnabled := False\<rparr>\<rparr>;
            t = subType (cfg_main config); d = isDrum past t; g = isGuitar past t;
            u1 = u\<lparr>tx_board := (tx_board u)\<lparr>bd_ee := ee, bd_fullDeviceType := t,
                                            bd_inputType := inputType (cfg_main config)\<rparr>,
                   tx_pollRate := pollRate (cfg_main config), tx_drum := d, tx_guitar := g,
                   tx_deviceType := real_subtype g d t, tx_timer := setupMicrosTimer (tx_timer u)\<rparr>
        in and_then
             (case initInputs (tx_globals u1 env) junk d config (bd_input (tx_board u1))
                     (tx_i2c u1, tx_ps2 u1) of
                Inl e \<Rightarrow> Inl (halt_of e)
              | Inr (s, i, p) \<Rightarrow> Inr (u1\<lparr>tx_board := (tx_board u1)\<lparr>bd_input := s\<rparr>, tx_i2c := i, tx_ps2 := p\<rparr>))
             (\<lambda>u2. Inr (on_hw_tx sei
                (u2\<lparr>tx_reports := init_reports t config (tx_reports u2),
                    tx_board := (tx_board u2)\<lparr>bd_leds := initLEDs config (bd_leds (tx_board u2))\<rparr>\<rparr>))))"

definition radio_start :: "('i, 'p, 'd) rftx_env \<Rightarrow> ('i, 'p, 'd) rftx \<Rightarrow> ('i, 'p, 'd) rftx" where
  "radio_start env u = snd (on_radio_tx (initRF (te_dev env) True (te_txid env) (te_rxid env)) u)"

definition tx_start ::
  "(u8 \<Rightarrow> u8) \<Rightarrow> nat \<Rightarrow> u8 \<Rightarrow> ('i, 'p, 'd) rftx_env \<Rightarrow> ('i, 'p, 'd) rftx \<Rightarrow> halt + ('i, 'p, 'd) rftx" where
  "tx_start past tp junk env u =
     and_then (initialise_tx past tp junk env u) (\<lambda>u.
       Inr ((radio_start env u)\<lparr>tx_lastChange := te_time env 0, tx_lastButtons := 0\<rparr>))"

section \<open>Sleep\<close>

text \<open>Everything up to the sleep instruction.\<close>

definition fall_asleep :: "('i, 'p, 'd) rftx_env \<Rightarrow> ('i, 'p, 'd) rftx \<Rightarrow> ('i, 'p, 'd) rftx" where
  "fall_asleep env u =
     (let u1 = on_hw_tx (\<lambda>a. a\<lparr>ADCSRA := 0\<rparr>) (u\<lparr>tx_lastChange := te_time env 1\<rparr>);
          u2 = snd (on_radio_tx (nrf24_powerDown (te_dev env)) u1);
          u3 = u2\<lparr>tx_sleep := set_sleep_mode SLEEP_MODE_PWR_DOWN (power_all_disable (tx_sleep u2))\<rparr>;
          u4 = on_hw_tx cli u3;
          u5 = u4\<lparr>tx_sleep := (tx_sleep u4)\<lparr>EIFR := EIFR (tx_sleep u4) AND NOT (bv INTF1)\<rparr>\<rparr>;
          u6 = on_radio_regs (\<lambda>r. r\<lparr>EICRA := EICRA r OR bv ISC11, EIMSK := EIMSK r OR bv INT1\<rparr>) u5
      in on_hw_tx sei (u6\<lparr>tx_sleep := sleep_enable (tx_sleep u6)\<rparr>))"

definition INT1_vect :: "('i, 'p, 'd) rftx_env \<Rightarrow> ('i, 'p, 'd) rftx \<Rightarrow> ('i, 'p, 'd) rftx" where
  "INT1_vect env u =
     (let u1 = u\<lparr>tx_sleep := power_all_enable (sleep_disable (tx_sleep u))\<rparr>;
          u2 = radio_start env (on_hw_tx setupADC u1)
      in on_radio_regs (\<lambda>r. r\<lparr>EICRA := EICRA r AND NOT (bv ISC11), EIMSK := EIMSK r AND NOT (bv INT1)\<rparr>) u2)"

definition serve :: "('i, 'p, 'd) rftx_env \<Rightarrow> wake \<Rightarrow> ('i, 'p, 'd) rftx \<Rightarrow> ('i, 'p, 'd) rftx" where
  "serve env w u =
     (case w of Wake_INT0 \<Rightarrow> snd (on_radio_tx INT0_vect u) | Wake_INT1 \<Rightarrow> INT1_vect env u)"

section \<open>Commands that come back with an acknowledgement\<close>

text \<open>A reply goes out as a packet; what comes back with its acknowledgement is dropped.\<close>

definition writeToUSB_tx ::
  "('i, 'p, 'd) rftx_env \<Rightarrow> u8 list \<Rightarrow> ('i, 'p, 'd) rftx \<Rightarrow> halt + ('i, 'p, 'd) rftx" where
  "writeToUSB_tx env bs u =
     (case on_radio_tx (tickRFTX (te_dev env) bs (te_junk env 1)) u of
        (None, _) \<Rightarrow> Inl OutOfArray | (Some _, u1) \<Rightarrow> Inr u1)"

definition obey ::
  "('i, 'p, 'd) rftx_env \<Rightarrow> u8 list \<Rightarrow> ('i, 'p, 'd) rftx \<Rightarrow> halt + ('i, 'p, 'd) rftx" where
  "obey env data u =
     (let cmd = data ! 0
      in if truthy (data ! 1)
         then and_then (local_reply (te_cp env) (te_name env) (te_boot_sig env) cmd (tx_board u))
                (\<lambda>(n, bd). writeToUSB_tx env (take (unat n) (bd_dbuf bd)) (u\<lparr>tx_board := bd\<rparr>))
         else if cmd = cmd_val COMMAND_WRITE_CONFIG
         then and_then (processHIDWriteFeatureReport (te_cp env) (env_adc (te_input env)) cmd 30
                          (drop 2 data) (tx_board u))
                (\<lambda>bd. Inr (u\<lparr>tx_board := bd\<rparr>))
         else and_then (handleCommand (te_cp env) (env_adc (te_input env)) cmd (tx_board u))
                (\<lambda>(_, bd). Inr (u\<lparr>tx_board := bd\<rparr>)))"

section \<open>The main loop\<close>

definition exchange_packet ::
  "('i, 'p, 'd) rftx_env \<Rightarrow> ('i, 'p, 'd) rftx \<Rightarrow> halt + ('i, 'p, 'd) rftx" where
  "exchange_packet env u =
     (case on_radio_tx (tickRFTX (te_dev env) (controller_bytes (tx_controller u)) (te_junk env 0)) u of
        (None, _) \<Rightarrow> Inl OutOfArray
      | (Some (got, data), u1) \<Rightarrow> if got then obey env data u1 else Inr u1)"

definition note_buttons ::
  "('i, 'p, 'd) rftx_env \<Rightarrow> ('i, 'p, 'd) rftx \<Rightarrow> ('i, 'p, 'd) rftx" where
  "note_buttons env u =
     (if tx_lastButtons u \<noteq> ucast (buttons (tx_controller u))
      then u\<lparr>tx_lastButtons := ucast (buttons (tx_controller u)), tx_lastChange := te_time env 5\<rparr>
      else u)"

definition send_state ::
  "('i, 'p, 'd) rftx_env \<Rightarrow> ('i, 'p, 'd) rftx \<Rightarrow> halt + ('i, 'p, 'd) rftx" where
  "send_state env u =
     (if tx_controller u \<noteq> tx_prevCtrl u \<or> 100 < te_time env 3 - tx_lastPoll u
      then and_then (exchange_packet env (u\<lparr>tx_lastPoll := te_time env 4\<rparr>))
             (\<lambda>u. Inr (note_buttons env (u\<lparr>tx_prevCtrl := tx_controller u\<rparr>)))
      else Inr u)"

definition poll_and_send ::
  "('i, 'p, 'd) rftx_env \<Rightarrow> ('i, 'p, 'd) rftx \<Rightarrow> halt + ('i, 'p, 'd) rftx" where
  "poll_and_send env u =
     (if ucast (tx_pollRate u) < te_time env 2 - tx_lastPoll u
      then case tickInputs (tx_globals u env) (tx_controller u, bd_input (tx_board u)) (tx_i2c u, tx_ps2 u) of
             Inl e \<Rightarrow> Inl (halt_of e)
           | Inr ((c, s), i, p) \<Rightarrow>
               send_state env (u\<lparr>tx_controller := c, tx_board := (tx_board u)\<lparr>bd_input := s\<rparr>,
                                 tx_i2c := i, tx_ps2 := p\<rparr>)
      else Inr u)"

definition tx_step ::
  "('i, 'p, 'd) rftx_env \<Rightarrow> ('i, 'p, 'd) rftx \<Rightarrow> halt + ('i, 'p, 'd) rftx" where
  "tx_step env u =
     poll_and_send env
       (if 600000 < te_time env 0 - tx_lastChange u
        then fold (serve env) (te_wake env) (fall_asleep env u) else u)"

section \<open>Facts\<close>

text \<open>The handler that wakes the board undoes what put it to sleep.\<close>

lemma wake_restores:
  "PRR (tx_sleep (INT1_vect env (fall_asleep env u))) AND 0xEF = 0"
  "\<not> bit (SMCR (tx_sleep (INT1_vect env (fall_asleep env u)))) SE"
  by (simp_all add: INT1_vect_def fall_asleep_def Let_def on_hw_tx_def on_radio_regs_def radio_start_def
      on_radio_tx_def case_prod_beta power_all_enable_def sleep_disable_def sleep_enable_def
      set_sleep_mode_def power_all_disable_def bit_bit_clear)
   (rule u8_eqI, simp add: lt8 bit_simps)

text \<open>The subtype of a gamepad, a guitar and a drum kit.\<close>

lemma real_subtype_cases:
  "\<not> g \<Longrightarrow> \<not> d \<Longrightarrow> real_subtype g d t = t"
  "g \<Longrightarrow> t \<le> subtype_val XINPUT_ARCADE_PAD \<Longrightarrow> \<not> d \<Longrightarrow> real_subtype g d t = REAL_GUITAR_SUBTYPE"
  "\<not> g \<Longrightarrow> d \<Longrightarrow> t \<le> subtype_val XINPUT_ARCADE_PAD \<Longrightarrow> real_subtype g d t = REAL_DRUM_SUBTYPE"
  by (simp_all add: real_subtype_def)

end
