(* ===== verification/RfLink.thy ===== *)
theory RfLink
  imports RfTx
begin

text \<open>
  The radio link as a whole: the transmitter (\<open>src/src/avr/uno/rf/main.c\<close>), the queues of the two
  chips, and the receiving board (\<open>src/src/avr/uno/main/main.c\<close> with \<open>rf.c\<close>). The chips and the air are
  parameters that do what the data sheet says of a payload written, received and read.
\<close>

section \<open>The queues of a radio\<close>

text \<open>
  What the data sheet says of the two queues of a chip. \<open>txq\<close> holds the packets to be sent, \<open>rxq\<close> the
  packets received with the pipe each came in on; both hold three packets of at most 32 bytes. The
  status shows the pipe of the first packet received, or 7.
\<close>

definition obeys_queues ::
  "'d spi_dev \<Rightarrow> ('d \<Rightarrow> u8 list list) \<Rightarrow> ('d \<Rightarrow> (u8 \<times> u8 list) list) \<Rightarrow> bool" where
  "obeys_queues dev txq rxq \<longleftrightarrow>
     (\<forall>c bs d. c AND 0xE0 = 0x20 \<longrightarrow>
        txq (snd (spi_frame dev (c # bs) d)) = txq d \<and> rxq (snd (spi_frame dev (c # bs) d)) = rxq d) \<and>
     (\<forall>d. case spi_frame dev [0xFF] d of (vs, d') \<Rightarrow> txq d' = txq d \<and> rxq d' = rxq d \<and>
        (rxq d = [] \<longrightarrow> rx_pipe (vs ! 0) = 7) \<and>
        (rxq d \<noteq> [] \<and> fst (hd (rxq d)) < 6 \<longrightarrow> rx_pipe (vs ! 0) = fst (hd (rxq d)))) \<and>
     (\<forall>d x. case spi_frame dev [0x60, x] d of (vs, d') \<Rightarrow> txq d' = txq d \<and> rxq d' = rxq d \<and>
        (rxq d \<noteq> [] \<longrightarrow> vs ! 1 = of_nat (length (snd (hd (rxq d)))))) \<and>
     (\<forall>d bs. length bs \<le> 32 \<and> length (txq d) < 3 \<longrightarrow>
        (case spi_frame dev (0xA0 # bs) d of (vs, d') \<Rightarrow> txq d' = txq d @ [bs] \<and> rxq d' = rxq d)) \<and>
     (\<forall>d js. rxq d \<noteq> [] \<and> length js = length (snd (hd (rxq d))) \<longrightarrow>
        (case spi_frame dev (0x61 # js) d of (vs, d') \<Rightarrow> txq d' = txq d \<and> rxq d' = tl (rxq d) \<and>
           tl vs = snd (hd (rxq d))))"

text \<open>The driver's operations as frames.\<close>

lemma getStatus_frame:
  "run_state (nrf24_getStatus dev) (s, d) =
     (fst (spi_frame dev [0xFF] d) ! 0, (pulsed s, snd (spi_frame dev [0xFF] d)))"
  by (simp add: nrf24_getStatus_def frame_defs)

lemma payloadLength_frame:
  "run_state (nrf24_payloadLength dev) (s, d) =
     (fst (spi_frame dev [0x60, 0] d) ! 1, (pulsed s, snd (spi_frame dev [0x60, 0] d)))"
  by (simp add: nrf24_payloadLength_def frame_defs)

lemma send_frame:
  "run_state (nrf24_send dev bs) (s, d) =
     (case spi_frame dev [0x27, 0x30] d of (_, d1) \<Rightarrow>
        ((), (pulsed (pulsed s), snd (spi_frame dev (0xA0 # bs) d1))))"
proof -
  have reg: "(0x20 OR reg_addr STATUS) = 0x27" "bv TX_DS OR bv MAX_RT = (0x30 :: u8)"
    by (simp_all add: bv_def)
  have "run_state (nrf24_send dev bs) (s, d) =
      (case run_state (nrf24_configRegister dev STATUS (bv TX_DS OR bv MAX_RT)) (s, d) of
         (_, (s1, d1)) \<Rightarrow> ((), (pulsed s1, snd (spi_frame dev (0xA0 # bs) d1))))"
    by (simp add: nrf24_send_def case_prod_beta frame_defs transmitSync_exchange)
  then show ?thesis
    by (simp only: configRegister_frame reg prod.case case_prod_beta fst_conv snd_conv)
qed

text \<open>Reading a packet whose length the caller gives, or the chip when it asks for 0.\<close>

lemma getData_frame:
  "n \<noteq> 0 \<Longrightarrow> unat n \<le> length buf \<Longrightarrow>
   run_state (nrf24_getData dev buf n) (s, d) =
     (case spi_frame dev [0x27, 0x40] d of (_, d1) \<Rightarrow>
        case spi_frame dev (0x61 # take (unat n) buf) d1 of (vs, d2) \<Rightarrow>
          (Some (n, tl vs @ drop (unat n) buf), (pulsed (pulsed s), d2)))"
proof -
  assume n: "n \<noteq> 0" "unat n \<le> length buf"
  have reg: "(0x20 OR reg_addr STATUS) = 0x27" "bv RX_DR = (0x40 :: u8)"
    by (simp_all add: bv_def)
  have "run_state (nrf24_getData dev buf n) (s, d) =
      (case run_state (nrf24_configRegister dev STATUS (bv RX_DR)) (s, d) of (_, (s1, d1)) \<Rightarrow>
        case spi_frame dev (0x61 # take (unat n) buf) d1 of (vs, d2) \<Rightarrow>
          (Some (n, tl vs @ drop (unat n) buf), (pulsed s1, d2)))"
    using n by (simp add: nrf24_getData_def case_prod_beta frame_defs transferSync_exchange)
  then show ?thesis
    by (simp only: configRegister_frame reg prod.case case_prod_beta fst_conv snd_conv)
qed

lemma queue_write:
  "obeys_queues dev txq rxq \<Longrightarrow> txq (snd (spi_frame dev [0x27, v] d)) = txq d"
  "obeys_queues dev txq rxq \<Longrightarrow> rxq (snd (spi_frame dev [0x27, v] d)) = rxq d"
  by (simp_all add: obeys_queues_def)

lemma queue_status:
  assumes "obeys_queues dev txq rxq"
  shows "txq (snd (spi_frame dev [0xFF] d)) = txq d" "rxq (snd (spi_frame dev [0xFF] d)) = rxq d"
    "rxq d = [] \<Longrightarrow> rx_pipe (fst (spi_frame dev [0xFF] d) ! 0) = 7"
    "rxq d = (p, bs) # q \<Longrightarrow> p < 6 \<Longrightarrow> rx_pipe (fst (spi_frame dev [0xFF] d) ! 0) = p"
  using assms by (simp_all add: obeys_queues_def case_prod_beta)

lemma queue_send:
  assumes "obeys_queues dev txq rxq" "length bs \<le> 32" "length (txq d) < 3"
  shows "txq (snd (spi_frame dev (0xA0 # bs) d)) = txq d @ [bs]"
    "rxq (snd (spi_frame dev (0xA0 # bs) d)) = rxq d"
  using assms by (simp_all add: obeys_queues_def case_prod_beta)

lemma queue_read:
  assumes "obeys_queues dev txq rxq" "rxq d = (p, bs) # q" "length js = length bs"
  shows "txq (snd (spi_frame dev (0x61 # js) d)) = txq d" "rxq (snd (spi_frame dev (0x61 # js) d)) = q"
    "tl (fst (spi_frame dev (0x61 # js) d)) = bs"
  using assms by (simp_all add: obeys_queues_def case_prod_beta)

lemma queue_width:
  assumes "obeys_queues dev txq rxq"
  shows "txq (snd (spi_frame dev [0x60, x] d)) = txq d" "rxq (snd (spi_frame dev [0x60, x] d)) = rxq d"
    "rxq d = (p, bs) # q \<Longrightarrow> fst (spi_frame dev [0x60, x] d) ! 1 = of_nat (length bs)"
  using assms by (simp_all add: obeys_queues_def case_prod_beta)

text \<open>The transmitter with nothing to collect: the packet is queued.\<close>

lemma tickRFTX_sends:
  assumes "obeys_queues dev txq rxq" "rxq d = []" "length bs \<le> 32" "length (txq d) < 3"
  shows "\<exists>s' d'. run_state (tickRFTX dev bs arr) (s, d) = (Some (False, arr), (s', d')) \<and>
    txq d' = txq d @ [bs] \<and> rxq d' = []"
  using assms
  by (simp add: tickRFTX_def modify_radio_def getStatus_frame queue_status send_frame case_prod_beta
      queue_send queue_write)

text \<open>The length is the chip's when the caller asks for 0.\<close>

lemma getData_width_frame:
  assumes "\<And>x. fst (spi_frame dev [0x60, x] (snd (spi_frame dev [0x27, 0x40] d))) ! 1 = n"
    and "unat n \<le> length buf"
  shows "run_state (nrf24_getData dev buf 0) (s, d) =
     (case spi_frame dev [0x60, 0] (snd (spi_frame dev [0x27, 0x40] d)) of (_, d1) \<Rightarrow>
        case spi_frame dev (0x61 # take (unat n) buf) d1 of (vs, d2) \<Rightarrow>
          (Some (n, tl vs @ drop (unat n) buf), (pulsed (pulsed (pulsed s)), d2)))"
proof -
  have reg: "(0x20 OR reg_addr STATUS) = 0x27" "bv RX_DR = (0x40 :: u8)"
    by (simp_all add: bv_def)
  have "run_state (nrf24_getData dev buf 0) (s, d) =
      (case run_state (nrf24_configRegister dev STATUS (bv RX_DR)) (s, d) of (_, y) \<Rightarrow>
        case run_state (nrf24_payloadLength dev) y of (m, (s1, d1)) \<Rightarrow>
        case spi_frame dev (0x61 # take (unat m) buf) d1 of (vs, d2) \<Rightarrow>
          (if unat m \<le> length buf then Some (m, tl vs @ drop (unat m) buf) else None, (pulsed s1, d2)))"
    by (simp add: nrf24_getData_def case_prod_beta frame_defs transferSync_exchange)
  then show ?thesis
    using assms
    by (simp only: configRegister_frame payloadLength_frame reg prod.case case_prod_beta fst_conv snd_conv if_True)
qed

text \<open>The transmitter with a payload that came back on pipe 0.\<close>

lemma tickRFTX_collects:
  assumes "obeys_queues dev txq rxq" "rxq d = (0, p) # q" "length p \<le> length arr" "length arr < 256"
    and "length bs \<le> 32" "length (txq d) < 3"
  shows "\<exists>s' d'. run_state (tickRFTX dev bs arr) (s, d) =
      (Some (True, p @ drop (length p) arr), (s', d')) \<and> txq d' = txq d @ [bs] \<and> rxq d' = q"
proof -
  let ?d1 = "snd (spi_frame dev [0xFF] d)" let ?d2 = "snd (spi_frame dev [0x27, 0x40] ?d1)"
  have rx: "rxq ?d2 = (0, p) # q" "txq ?d2 = txq d"
    using assms(1,2) by (simp_all add: queue_status queue_write)
  have n: "unat (of_nat (length p) :: u8) = length p"
    using assms(3,4) by (simp add: unat_of_nat)
  have "fst (spi_frame dev [0x60, x] ?d2) ! 1 = of_nat (length p)" for x
    using queue_width(3) [OF assms(1) rx(1)] .
  note read = getData_width_frame [OF this, of arr]
  show ?thesis
    using assms rx n
    by (simp add: tickRFTX_def modify_radio_def getStatus_frame queue_status read configRegister_frame
        send_frame case_prod_beta queue_send queue_write queue_width
        queue_read [where bs = p and q = q] bv_def)
qed

text \<open>The receiver with a packet of the length it asks for.\<close>

lemma tickRFInput_reads:
  assumes "obeys_queues dev txq rxq" "rxq d = (p, bs) # q" "p < 6" "rf_interrupt s"
    and "n \<noteq> 0" "length bs = unat n" "length buf = unat n"
  shows "\<exists>s' d'. run_state (tickRFInput dev buf n) (s, d) = (Some (n, bs), (s', d')) \<and>
    rxq d' = q \<and> txq d' = txq d \<and> \<not> rf_interrupt s'"
proof -
  have "p \<noteq> 7" using assms(3) by auto
  with assms show ?thesis
    by (simp add: tickRFInput_def read_radio_def modify_radio_def getStatus_frame queue_status
        getData_frame case_prod_beta queue_read [where bs = bs and q = q] queue_write)
qed

section \<open>Packets arrive at a receiving board\<close>

text \<open>A packet comes in on pipe 1, the chip pulls its line down, and the interrupt is served.\<close>

definition arrive ::
  "(u8 list \<Rightarrow> 'd \<Rightarrow> 'd) \<Rightarrow> u8 list \<Rightarrow> ('i, 'p, 'd) uno \<Rightarrow> ('i, 'p, 'd) uno" where
  "arrive air bs u = snd (on_radio INT0_vect (u\<lparr>un_radio := map_prod id (air bs) (un_radio u)\<rparr>))"

definition fills :: "('d \<Rightarrow> (u8 \<times> u8 list) list) \<Rightarrow> (u8 list \<Rightarrow> 'd \<Rightarrow> 'd) \<Rightarrow> bool" where
  "fills rxq air \<longleftrightarrow> (\<forall>bs d. length (rxq d) < 3 \<longrightarrow> rxq (air bs d) = rxq d @ [(1, bs)])"

text \<open>After each packet the main loop polls once.\<close>

fun receive_all ::
  "('i, 'p, 'd) uno_env \<Rightarrow> (u8 list \<Rightarrow> 'd \<Rightarrow> 'd) \<Rightarrow> u8 list list \<Rightarrow>
   ('i, 'p, 'd) uno \<Rightarrow> halt + ('i, 'p, 'd) uno" where
  "receive_all env air [] u = Inr u"
| "receive_all env air (bs # bss) u =
     and_then (poll_controller env (arrive air bs u)) (receive_all env air bss)"

definition held :: "('d \<Rightarrow> (u8 \<times> u8 list) list) \<Rightarrow> ('i, 'p, 'd) uno \<Rightarrow> (u8 \<times> u8 list) list" where
  "held rxq u = rxq (snd (un_radio u))"

lemma controller_round: "controller_of_bytes (controller_bytes c) = c"
  by (simp add: controller_of_bytes_def controller_bytes_def nth_append)

abbreviation packet :: "Controller_t \<Rightarrow> u8 \<times> u8 list" where
  "packet c \<equiv> (1, controller_bytes c)"

lemma arrive_facts:
  assumes "fills rxq air" "length (held rxq u) < 3"
  shows "held rxq (arrive air bs u) = held rxq u @ [(1, bs)]"
    and "rf_interrupt (fst (un_radio (arrive air bs u)))"
    and "bd_isRF (un_board (arrive air bs u)) = bd_isRF (un_board u)"
    and "un_controller (arrive air bs u) = un_controller u"
  using assms
  by (simp_all add: arrive_def on_radio_def INT0_vect_def modify_radio_def held_def fills_def
      case_prod_beta)

lemma poll_reads:
  assumes "obeys_queues (ue_dev env) txq rxq" "bd_isRF (un_board u)" "rf_interrupt (fst (un_radio u))"
    and "held rxq u = packet c # q"
  shows "\<exists>u'. poll_controller env u = Inr u' \<and> un_controller u' = c \<and> held rxq u' = q \<and>
    bd_isRF (un_board u')"
proof -
  obtain r d where rd: "un_radio u = (r, d)" by (cases "un_radio u")
  let ?r = "r\<lparr>rf_avr := hw (an (direct (bd_input (un_board u))))\<rparr>"
  have "rxq d = (1, controller_bytes c) # q" "rf_interrupt ?r"
    using assms(3,4) rd by (simp_all add: held_def)
  from tickRFInput_reads [OF assms(1) this(1) _ this(2), of 12 "controller_bytes (un_controller u)"]
  obtain s' d' where
    "run_state (tickRFInput (ue_dev env) (controller_bytes (un_controller u)) 12) (?r, d) =
       (Some (12, controller_bytes c), (s', d'))" "rxq d' = q"
    by auto
  with assms(2) rd show ?thesis
    by (simp add: poll_controller_def on_radio_def held_def controller_round)
qed

lemma receive_one:
  assumes "obeys_queues (ue_dev env) txq rxq" "fills rxq air" "bd_isRF (un_board u)"
    and "held rxq u = map packet q" "length q \<le> 2"
  shows "\<exists>u'. poll_controller env (arrive air (controller_bytes c) u) = Inr u' \<and>
    un_controller u' = hd (q @ [c]) \<and> held rxq u' = map packet (tl (q @ [c])) \<and> bd_isRF (un_board u')"
proof -
  have "length (held rxq u) < 3" using assms(4,5) by simp
  note arr = arrive_facts [OF assms(2) this, of "controller_bytes c"]
  have "held rxq (arrive air (controller_bytes c) u) = packet (hd (q @ [c])) # map packet (tl (q @ [c]))"
    using arr(1) assms(4) by (cases q) simp_all
  from poll_reads [OF assms(1) _ _ this] arr assms(3) show ?thesis by auto
qed

text \<open>
  A receiving board shows the states in the order in which they were sent, but a poll reads one
  packet however many are waiting: packets that have once piled up, up to two of them, stay in
  front of every later one, so that the board is that many states behind for good.
\<close>

theorem receiver_stays_behind:
  assumes "obeys_queues (ue_dev env) txq rxq" "fills rxq air" "bd_isRF (un_board u)"
    and "held rxq u = map packet q" "length q \<le> 2"
  shows "\<exists>u'. receive_all env air (map controller_bytes cs) u = Inr u' \<and>
    un_controller u' = last (un_controller u # take (length cs) (q @ cs)) \<and>
    held rxq u' = map packet (drop (length cs) (q @ cs))"
  using assms(3-5)
proof (induction cs arbitrary: u q)
  case Nil
  then show ?case by simp
next
  case (Cons c cs)
  from receive_one [OF assms(1,2) Cons.prems, of c] obtain u1 where
    u1: "poll_controller env (arrive air (controller_bytes c) u) = Inr u1" "un_controller u1 = hd (q @ [c])"
      "held rxq u1 = map packet (tl (q @ [c]))" "bd_isRF (un_board u1)" by blast
  have "length (tl (q @ [c])) \<le> 2" using Cons.prems(3) by simp
  from Cons.IH [OF u1(4,3) this] obtain u' where
    u': "receive_all env air (map controller_bytes cs) u1 = Inr u'"
      "un_controller u' = last (un_controller u1 # take (length cs) (tl (q @ [c]) @ cs))"
      "held rxq u' = map packet (drop (length cs) (tl (q @ [c]) @ cs))" by blast
  have "q @ c # cs = hd (q @ [c]) # tl (q @ [c]) @ cs" by (cases q) simp_all
  then have split: "take (length (c # cs)) (q @ c # cs) =
      hd (q @ [c]) # take (length cs) (tl (q @ [c]) @ cs)"
    "drop (length (c # cs)) (q @ c # cs) = drop (length cs) (tl (q @ [c]) @ cs)"
    by (simp_all only: length_Cons take_Suc_Cons drop_Suc_Cons)
  have "receive_all env air (map controller_bytes (c # cs)) u = Inr u'"
    using u1(1) u'(1) by simp
  moreover have "un_controller u' = last (un_controller u # take (length (c # cs)) (q @ c # cs))"
    unfolding split u'(2) u1(2) by simp
  moreover note u'(3) [folded split(2)]
  ultimately show ?case by blast
qed

section \<open>The two boards together\<close>

text \<open>
  A round: the transmitter's loop runs once, the packets it queued leave its chip one after the
  other, and the receiver polls after each.
\<close>

fun link_rounds ::
  "('d \<Rightarrow> u8 list list) \<Rightarrow> ('d \<Rightarrow> 'd) \<Rightarrow> (u8 list \<Rightarrow> 'e \<Rightarrow> 'e) \<Rightarrow>
   (('i, 'p, 'd) rftx_env \<times> ('j, 'q, 'e) uno_env) list \<Rightarrow> ('i, 'p, 'd) rftx \<times> ('j, 'q, 'e) uno \<Rightarrow>
   halt + (('i, 'p, 'd) rftx \<times> ('j, 'q, 'e) uno)" where
  "link_rounds txq gone air [] (t, u) = Inr (t, u)"
| "link_rounds txq gone air ((et, eu) # es) (t, u) =
     and_then (poll_and_send et t) (\<lambda>t1.
       and_then (receive_all eu air (txq (snd (tx_radio t1))) u) (\<lambda>u1.
         link_rounds txq gone air es (t1\<lparr>tx_radio := map_prod id gone (tx_radio t1)\<rparr>, u1)))"

text \<open>The poll of the pins or buses, which is all that can go wrong on the transmitter.\<close>

abbreviation poll_tx :: "('i, 'p, 'd) rftx_env \<Rightarrow> ('i, 'p, 'd) rftx \<Rightarrow>
    input_error + ((Controller_t \<times> input_state) \<times> 'i \<times> 'p)" where
  "poll_tx et t \<equiv> tickInputs (tx_globals t et) (tx_controller t, bd_input (tx_board t)) (tx_i2c t, tx_ps2 t)"

text \<open>
  With nothing to collect, a state that differs from the last one sent, or the same state after a
  tenth of a second, is queued once. Only the buttons count as a change that keeps the board awake.
\<close>

lemma send_state_sends:
  assumes "obeys_queues (te_dev et) txq rxq" "rxq (snd (tx_radio t)) = []" "txq (snd (tx_radio t)) = []"
  shows "\<exists>t'. send_state et t = Inr t' \<and> tx_controller t' = tx_controller t \<and>
    tx_prevCtrl t' = tx_controller t \<and> rxq (snd (tx_radio t')) = [] \<and>
    txq (snd (tx_radio t')) =
      (if tx_controller t \<noteq> tx_prevCtrl t \<or> 100 < te_time et 3 - tx_lastPoll t
       then [controller_bytes (tx_controller t)] else []) \<and>
    tx_lastPoll t' =
      (if tx_controller t \<noteq> tx_prevCtrl t \<or> 100 < te_time et 3 - tx_lastPoll t
       then te_time et 4 else tx_lastPoll t) \<and>
    (tx_lastChange t' \<noteq> tx_lastChange t \<longrightarrow> tx_lastButtons t \<noteq> ucast (buttons (tx_controller t)))"
proof (cases "tx_controller t \<noteq> tx_prevCtrl t \<or> 100 < te_time et 3 - tx_lastPoll t")
  case True
  obtain r d where rd: "tx_radio t = (r, d)" by (cases "tx_radio t")
  let ?bs = "controller_bytes (tx_controller t)" and ?arr = "te_junk et 0"
  from tickRFTX_sends [OF assms(1), of d ?bs ?arr "r\<lparr>rf_avr := tx_hw t\<rparr>"] assms(2,3) rd
  obtain s' d' where "run_state (tickRFTX (te_dev et) ?bs ?arr) (r\<lparr>rf_avr := tx_hw t\<rparr>, d) =
      (Some (False, ?arr), (s', d'))" "txq d' = [?bs]" "rxq d' = []"
    by auto
  with True rd show ?thesis
    by (simp add: send_state_def exchange_packet_def on_radio_tx_def on_hw_tx_def note_buttons_def)
next
  case False
  then show ?thesis using assms(2,3) by (simp add: send_state_def)
qed

definition in_step ::
  "('d \<Rightarrow> u8 list list) \<Rightarrow> ('d \<Rightarrow> (u8 \<times> u8 list) list) \<Rightarrow> ('e \<Rightarrow> (u8 \<times> u8 list) list) \<Rightarrow>
   ('i, 'p, 'd) rftx \<times> ('j, 'q, 'e) uno \<Rightarrow> bool" where
  "in_step txq rxq rxq' s \<longleftrightarrow>
     (case s of (t, u) \<Rightarrow>
        txq (snd (tx_radio t)) = [] \<and> rxq (snd (tx_radio t)) = [] \<and> held rxq' u = [] \<and>
        bd_isRF (un_board u) \<and> tx_prevCtrl t = tx_controller t \<and> un_controller u = tx_controller t)"

definition empties :: "('d \<Rightarrow> u8 list list) \<Rightarrow> ('d \<Rightarrow> (u8 \<times> u8 list) list) \<Rightarrow> ('d \<Rightarrow> 'd) \<Rightarrow> bool" where
  "empties txq rxq gone \<longleftrightarrow> (\<forall>d. txq (gone d) = [] \<and> rxq (gone d) = rxq d)"

lemma one_round:
  fixes t :: "('i, 'p, 'd) rftx" and u :: "('j, 'q, 'e) uno"
  assumes "obeys_queues (te_dev et) txq rxq" "obeys_queues (ue_dev eu) txq' rxq'"
    and "fills rxq' air" "empties txq rxq gone" "in_step txq rxq rxq' (t, u)"
  shows "(\<exists>e. poll_tx et t = Inl e \<and> poll_and_send et t = Inl (halt_of e)) \<or>
    (\<exists>s. link_rounds txq gone air [(et, eu)] (t, u) = Inr s \<and> in_step txq rxq rxq' s)"
proof -
  have inv: "txq (snd (tx_radio t)) = []" "rxq (snd (tx_radio t)) = []" "held rxq' u = []"
    "bd_isRF (un_board u)" "tx_prevCtrl t = tx_controller t" "un_controller u = tx_controller t"
    using assms(5) by (simp_all add: in_step_def)
  have gone: "txq (gone d) = []" "rxq (gone d) = rxq d" for d
    using assms(4) by (simp_all add: empties_def)
  consider (idle) "\<not> ucast (tx_pollRate t) < te_time et 2 - tx_lastPoll t"
    | (failed) e where "ucast (tx_pollRate t) < te_time et 2 - tx_lastPoll t" "poll_tx et t = Inl e"
    | (polled) c s i p where "ucast (tx_pollRate t) < te_time et 2 - tx_lastPoll t"
        "poll_tx et t = Inr ((c, s), i, p)"
    by (cases "poll_tx et t") auto
  then show ?thesis
  proof cases
    case idle
    then show ?thesis
      using inv gone by (simp add: poll_and_send_def in_step_def)
  next
    case failed
    then show ?thesis by (simp add: poll_and_send_def)
  next
    case polled
    let ?t = "t\<lparr>tx_controller := c, tx_board := (tx_board t)\<lparr>bd_input := s\<rparr>, tx_i2c := i, tx_ps2 := p\<rparr>"
    have "rxq (snd (tx_radio ?t)) = []" "txq (snd (tx_radio ?t)) = []" using inv(1,2) by simp_all
    from send_state_sends [OF assms(1) this] obtain t1 where
      "send_state et ?t = Inr t1 \<and> tx_controller t1 = tx_controller ?t \<and>
       tx_prevCtrl t1 = tx_controller ?t \<and> rxq (snd (tx_radio t1)) = [] \<and>
       txq (snd (tx_radio t1)) =
         (if tx_controller ?t \<noteq> tx_prevCtrl ?t \<or> 100 < te_time et 3 - tx_lastPoll ?t
          then [controller_bytes (tx_controller ?t)] else [])" by blast
    then have t1: "send_state et ?t = Inr t1" "tx_controller t1 = c" "tx_prevCtrl t1 = c"
      "rxq (snd (tx_radio t1)) = []"
      "txq (snd (tx_radio t1)) = (if c \<noteq> tx_prevCtrl t \<or> 100 < te_time et 3 - tx_lastPoll t
         then [controller_bytes c] else [])"
      by simp_all
    from receive_one [OF assms(2,3) inv(4), of "[]" c] inv(3) obtain u1 where
      u1: "poll_controller eu (arrive air (controller_bytes c) u) = Inr u1" "un_controller u1 = c"
        "held rxq' u1 = []" "bd_isRF (un_board u1)"
      by auto
    show ?thesis
      using polled t1 u1 inv gone by (auto simp: poll_and_send_def in_step_def)
  qed
qed

lemma link_rounds_Cons:
  "link_rounds txq gone air (e # es) s =
   and_then (link_rounds txq gone air [e] s) (link_rounds txq gone air es)"
proof (cases s, cases e)
  fix t u et eu assume "s = (t, u)" "e = (et, eu)"
  then show ?thesis
    by (cases "poll_and_send et t") (auto simp: and_then_def split: sum.splits)
qed


section \<open>Blocks that come back over the air\<close>

text \<open>
  The transmitter takes a block of the configuration from the packet that the receiver sent with an
  acknowledgement: it passes 30 bytes on, the block's number and 29 more, while a block has 28. The
  byte of the array after the packet, which nothing has written, lands behind the block.
\<close>

lemma radio_block_spills:
  assumes "length bs = PACKET_SIZE"
  shows "obey env ([cmd_val COMMAND_WRITE_CONFIG, 0, blk] @ bs @ [stray]) t =
    Inr (t\<lparr>tx_board := (tx_board t)\<lparr>bd_ee := eeprom_update_block (bs @ [stray])
      (te_cp env + unat (packet_offset blk)) (bd_ee (tx_board t))\<rparr>\<rparr>)"
  using assms
  by (simp add: obey_def Let_def processHIDWriteFeatureReport_def writeConfigBlock_def PACKET_SIZE_def)

text \<open>A block for the LED table, which the receiver sends on as well, has no effect.\<close>

lemma radio_leds_dropped:
  "obey env ([cmd_val COMMAND_SET_LEDS, 0, blk] @ bs) t = Inr t"
  by (simp add: obey_def handleCommand_def)

section \<open>A chip made of two queues\<close>

type_synonym two_queues = "u8 list list \<times> (u8 \<times> u8 list) list \<times> u8 list"

definition queue_answer :: "two_queues \<Rightarrow> u8" where
  "queue_answer st =
     (case st of (tx, rx, f) \<Rightarrow>
        case f of [] \<Rightarrow> push_bit 1 (case rx of [] \<Rightarrow> 7 | (p, _) # _ \<Rightarrow> p)
        | c # js \<Rightarrow> (case rx of [] \<Rightarrow> 0
            | (_, bs) # _ \<Rightarrow> if c = 0x60 then of_nat (length bs)
                            else if length js < length bs then bs ! length js else 0))"

definition queue_commit :: "two_queues \<Rightarrow> two_queues" where
  "queue_commit st =
     (case st of (tx, rx, f) \<Rightarrow>
        case f of [] \<Rightarrow> (tx, rx, [])
        | c # bs \<Rightarrow> (if c = 0xA0 then tx @ [bs] else tx, if c = 0x61 then tl rx else rx, []))"

definition queue_dev :: "two_queues spi_dev" where
  "queue_dev = \<lparr>sd_transfer = (\<lambda>b st. (queue_answer st, (fst st, fst (snd st), snd (snd st) @ [b]))),
     sd_csn = (\<lambda>high st. if high then queue_commit st else (fst st, fst (snd st), [])),
     sd_ce = (\<lambda>_ st. st), sd_junk = (\<lambda>_. 0)\<rparr>"

lemma queue_bytes: "snd (exchange_bytes queue_dev bs (tx, rx, f)) = (tx, rx, f @ bs)"
  by (induction bs arbitrary: f) (auto simp: queue_dev_def case_prod_beta)

lemma queue_payload:
  "length done + length js = length bs \<Longrightarrow>
   fst (exchange_bytes queue_dev js (tx, (p, bs) # q, 0x61 # done)) = drop (length done) bs"
proof (induction js arbitrary: "done")
  case (Cons j js)
  then have "length done < length bs" by simp
  then have "drop (length done) bs = bs ! length done # drop (Suc (length done)) bs"
    by (rule Cons_nth_drop_Suc [symmetric])
  with Cons.IH [of "done @ [j]"] Cons.prems show ?case
    by (simp add: queue_dev_def queue_answer_def case_prod_beta)
qed simp

lemma queue_frame:
  "snd (spi_frame queue_dev (c # bs) (tx, rx, f)) =
   (if c = 0xA0 then tx @ [bs] else tx, if c = 0x61 then tl rx else rx, [])"
proof -
  have "sd_csn queue_dev False (tx, rx, f) = (tx, rx, [])"
    and "sd_csn queue_dev True (tx, rx, c # bs) =
      (if c = 0xA0 then tx @ [bs] else tx, if c = 0x61 then tl rx else rx, [])"
    by (simp_all add: queue_dev_def queue_commit_def)
  then show ?thesis
    by (simp add: spi_frame_def case_prod_beta queue_bytes del: exchange_bytes.simps)
qed

lemma queue_obeys: "obeys_queues queue_dev fst (fst \<circ> snd)"
proof -
  have not_read: "c \<noteq> 0xA0" "c \<noteq> 0x61" if "c AND 0xE0 = (0x20 :: u8)" for c
    using that by auto
  have csn: "sd_csn queue_dev False d = (fst d, fst (snd d), [])" for d
    by (simp add: queue_dev_def)
  have pipe: "drop_bit (Suc 0) (p * 2) AND 7 = p" if "p < 6" for p :: u8
  proof -
    have "p \<in> set [0, 1, 2, 3, 4, 5]"
    proof -
      have "unat p < 6" using that by (simp add: word_less_nat_alt)
      then have "unat p \<in> set [0..<6]" by simp
      then have "of_nat (unat p) \<in> (of_nat :: nat \<Rightarrow> u8) ` set [0..<6]" by blast
      then show ?thesis by (simp add: upt_rec)
    qed
    then show ?thesis by auto
  qed
  have status: "fst (spi_frame queue_dev [0xFF] d) ! 0 = queue_answer (fst d, fst (snd d), [])" for d
    by (simp add: spi_frame_def case_prod_beta csn) (simp add: queue_dev_def)
  have width: "fst (spi_frame queue_dev [0x60, x] d) ! Suc 0 = queue_answer (fst d, fst (snd d), [0x60])" for d x
    by (simp add: spi_frame_def case_prod_beta csn) (simp add: queue_dev_def)
  have payload: "tl (fst (spi_frame queue_dev (0x61 # js) d)) = snd (hd (fst (snd d)))"
    if "fst (snd d) \<noteq> []" "length js = length (snd (hd (fst (snd d))))" for d js
  proof -
    note some = that
    obtain p bs q where rx: "fst (snd d) = (p, bs) # q"
      using some(1) by (cases "fst (snd d)") auto
    with some(2) queue_payload [of "[]" js bs "fst d" p q] show ?thesis
      by (simp add: spi_frame_def case_prod_beta csn) (simp add: queue_dev_def)
  qed
  show ?thesis
    unfolding obeys_queues_def case_prod_beta comp_def
    by (intro conjI allI impI; (elim conjE)?)
      (auto simp: queue_frame not_read status width payload queue_answer_def pipe rx_pipe_def
        split: prod.splits list.splits)
qed

lemma queue_fills: "fills (fst \<circ> snd) (\<lambda>bs st. (fst st, fst (snd st) @ [(1, bs)], []))"
  by (simp add: fills_def)

text \<open>Two packets have piled up when a third arrives: after two more the first of the three is gone.\<close>

definition rf_uno :: "(u8 \<times> u8 list) list \<Rightarrow> ('i, 'p, two_queues) uno \<Rightarrow> ('i, 'p, two_queues) uno" where
  "rf_uno q u = u\<lparr>un_board := blank_board\<lparr>bd_isRF := True\<rparr>, un_controller := blank_controller,
     un_radio := (fst (un_radio u), ([], q, []))\<rparr>"

abbreviation pressed :: "u16 \<Rightarrow> Controller_t" where
  "pressed b \<equiv> blank_controller\<lparr>buttons := b\<rparr>"

theorem receiver_stays_behind_witness:
  "\<forall>env u. \<exists>u'. receive_all (env\<lparr>ue_dev := queue_dev\<rparr>) (\<lambda>bs st. (fst st, fst (snd st) @ [(1, bs)], []))
      (map controller_bytes [pressed 3, pressed 4, pressed 5]) (rf_uno (map packet [pressed 1, pressed 2]) u) = Inr u' \<and>
     un_controller u' = pressed 3"
proof (intro allI)
  fix env :: "('i, 'p, two_queues) uno_env" and u :: "('i, 'p, two_queues) uno"
  have "obeys_queues (ue_dev (env\<lparr>ue_dev := queue_dev\<rparr>)) fst (fst \<circ> snd)" by (simp add: queue_obeys)
  from receiver_stays_behind [OF this queue_fills, of "rf_uno (map packet [pressed 1, pressed 2]) u"
      "[pressed 1, pressed 2]" "[pressed 3, pressed 4, pressed 5]"]
  show "\<exists>u'. receive_all (env\<lparr>ue_dev := queue_dev\<rparr>) (\<lambda>bs st. (fst st, fst (snd st) @ [(1, bs)], []))
      (map controller_bytes [pressed 3, pressed 4, pressed 5]) (rf_uno (map packet [pressed 1, pressed 2]) u) = Inr u' \<and>
     un_controller u' = pressed 3"
    by (auto simp: rf_uno_def held_def simp del: receive_all.simps)
qed

text \<open>A round in which the stick has moved to the right and stands for the direction pad.\<close>

definition stick_tx :: "(unit, nat, two_queues) rftx \<Rightarrow> (unit, nat, two_queues) rftx" where
  "stick_tx t = t\<lparr>tx_board := blank_board\<lparr>bd_input := blank_input\<lparr>mapJoyLeftDpad := True\<rparr>\<rparr>,
     tx_controller := blank_controller\<lparr>l_x := 0x7000\<rparr>, tx_prevCtrl := blank_controller\<lparr>l_x := 0x7000\<rparr>,
     tx_pollRate := 5, tx_lastPoll := 0, tx_guitar := False, tx_radio := (fst (tx_radio t), ([], [], []))\<rparr>"

definition quiet_rf_env :: "(unit, nat, two_queues) rftx_env \<Rightarrow> (unit, nat, two_queues) rftx_env" where
  "quiet_rf_env e = e\<lparr>te_input := quiet_env, te_dev := queue_dev, te_time := (\<lambda>_. 10)\<rparr>"

lemma stick_poll:
  "\<exists>s i p. poll_tx (quiet_rf_env e) (stick_tx t) = Inr ((blank_controller\<lparr>l_x := 0x7000, buttons := 8\<rparr>, s), i, p)"
  by (simp add: tickInputs_def tick_source_def quiet_rf_env_def stick_tx_def tx_globals_def quiet_env_def
      blank_board_def blank_input_def blank_direct_def tickDirectInput_def tickAnalog_def blank_analog_def
      tickGuitar_def Let_def map_joystick_def CHECK_JOY_def map_home_def blank_controller_def
      word_sless_alt bit_set_m_def bv_def)


end
