(* ===== verification/UnoUsb.thy ===== *)
theory UnoUsb
  imports UnoMain
begin

text \<open>
  The Arduino Uno's USB chip (\<open>src/src/avr/uno/usb/main.c\<close> and \<open>device_comms.h\<close>): the two
  buffers of the UART with their byte-wide pointers, the frames of the main chip, the endpoints
  they are written to, and the forwarding of the host's feature requests.

  The endpoints are LUFA's and the controller's: a byte goes to the bank of the selected endpoint,
  and \<open>Endpoint_ClearIN\<close> hands the bank to the host. \<open>us_sent\<close> lists the packets handed over. A
  bank has the size the endpoint was configured with; a byte written to a full one is lost, and
  \<open>us_overrun\<close> keeps that it happened.
\<close>

section \<open>Endpoints\<close>

definition ENDPOINT_CONTROLEP :: u8 where "ENDPOINT_CONTROLEP = 0"
definition ENDPOINT_DIR_IN :: u8 where "ENDPOINT_DIR_IN = 0x80"
definition XINPUT_EPADDR_IN :: u8 where "XINPUT_EPADDR_IN = ENDPOINT_DIR_IN OR 2"
definition HID_EPADDR_IN :: u8 where "HID_EPADDR_IN = ENDPOINT_DIR_IN OR 1"
definition MIDI_EPADDR_IN :: u8 where "MIDI_EPADDR_IN = ENDPOINT_DIR_IN OR 3"
definition XINPUT_2_EPADDR_IN :: u8 where "XINPUT_2_EPADDR_IN = ENDPOINT_DIR_IN OR 2"
definition XINPUT_3_EPADDR_IN :: u8 where "XINPUT_3_EPADDR_IN = ENDPOINT_DIR_IN OR 3"
definition XINPUT_4_EPADDR_IN :: u8 where "XINPUT_4_EPADDR_IN = ENDPOINT_DIR_IN OR 4"
definition HID_EPSIZE :: nat where "HID_EPSIZE = 32"
definition FIXED_CONTROL_ENDPOINT_SIZE :: nat where "FIXED_CONTROL_ENDPOINT_SIZE = 64"

definition endpoints :: "u8 list" where
  "endpoints = [XINPUT_EPADDR_IN, XINPUT_2_EPADDR_IN, XINPUT_3_EPADDR_IN, XINPUT_4_EPADDR_IN,
     HID_EPADDR_IN, HID_EPADDR_IN, HID_EPADDR_IN, MIDI_EPADDR_IN, ENDPOINT_CONTROLEP]"

section \<open>The state\<close>

definition JUMP :: u32 where "JUMP = 0xDEAD8001"

abbreviation (input) UDRIE1 :: nat where "UDRIE1 \<equiv> 5"
abbreviation (input) RXCIE1 :: nat where "RXCIE1 \<equiv> 7"
abbreviation (input) RXEN1 :: nat where "RXEN1 \<equiv> 4"
abbreviation (input) TXEN1 :: nat where "TXEN1 \<equiv> 3"

record usb_chip =
  us_rxbuf :: "u8 list"
  USARTtoUSB_WritePtr :: u8
  USARTtoUSB_ReadPtr :: u8
  us_txbuf :: "u8 list"
  USBtoUSART_WritePtr :: u8
  USBtoUSART_ReadPtr :: u8
  UCSR1B :: u8
  us_state :: nat
  us_packetCount :: u8
  currentEndpoint :: u8
  checkEndpoint :: bool
  us_selected :: u8
  us_bank :: "u8 \<Rightarrow> u8 list"
  us_sent :: "(u8 \<times> u8 list) list"
  us_overrun :: bool
  us_deviceType :: u8
  us_ee_id :: u32
  us_ee_type :: u8
  jmpToBootloader :: u32

definition Endpoint_SelectEndpoint :: "u8 \<Rightarrow> usb_chip \<Rightarrow> usb_chip" where
  "Endpoint_SelectEndpoint ep u = u\<lparr>us_selected := ep\<rparr>"

text \<open>The endpoints the host's configuration of the device sets up: address and size.\<close>

definition EVENT_USB_Device_ConfigurationChanged :: "(u8 \<times> nat) list" where
  "EVENT_USB_Device_ConfigurationChanged =
     [(XINPUT_EPADDR_IN, HID_EPSIZE), (HID_EPADDR_IN, HID_EPSIZE), (MIDI_EPADDR_IN, HID_EPSIZE)]"

text \<open>An endpoint that is not set up has no bank.\<close>

definition bank_size :: "u8 \<Rightarrow> nat" where
  "bank_size ep =
     (if ep = ENDPOINT_CONTROLEP then FIXED_CONTROL_ENDPOINT_SIZE
      else case map_of EVENT_USB_Device_ConfigurationChanged ep of None \<Rightarrow> 0 | Some n \<Rightarrow> n)"

definition Endpoint_Write_8 :: "u8 \<Rightarrow> usb_chip \<Rightarrow> usb_chip" where
  "Endpoint_Write_8 b u =
     (let ep = us_selected u; bank = us_bank u ep
      in if length bank < bank_size ep then u\<lparr>us_bank := (us_bank u)(ep := bank @ [b])\<rparr>
         else u\<lparr>us_overrun := True\<rparr>)"

definition Endpoint_ClearIN :: "usb_chip \<Rightarrow> usb_chip" where
  "Endpoint_ClearIN u =
     u\<lparr>us_sent := us_sent u @ [(us_selected u, us_bank u (us_selected u))],
       us_bank := (us_bank u)(us_selected u := [])\<rparr>"

section \<open>The UART (device_comms.h)\<close>

definition usb_Serial_InitInterrupt :: "usb_chip \<Rightarrow> usb_chip" where
  "usb_Serial_InitInterrupt u =
     u\<lparr>UCSR1B := bv TXEN1 OR bv RXCIE1 OR bv RXEN1, USBtoUSART_ReadPtr := 0, USBtoUSART_WritePtr := 0,
       USARTtoUSB_ReadPtr := 0, USARTtoUSB_WritePtr := 0\<rparr>"

definition tx_free :: "usb_chip \<Rightarrow> u8" where
  "tx_free u = (of_nat USB2USART_BUFLEN - 1) -
     ((USBtoUSART_WritePtr u - USBtoUSART_ReadPtr u) AND (of_nat USB2USART_BUFLEN - 1))"

definition tx_store :: "u8 \<Rightarrow> usb_chip \<Rightarrow> usb_chip" where
  "tx_store b u = u\<lparr>us_txbuf := (us_txbuf u)[unat (USBtoUSART_WritePtr u) := b],
                    USBtoUSART_WritePtr := (USBtoUSART_WritePtr u + 1) AND 0x7F\<rparr>"

text \<open>The result None is the wait for room: the free space was computed before it, so that nothing ends it.\<close>

definition usb_writeData :: "u8 list \<Rightarrow> usb_chip \<Rightarrow> usb_chip option" where
  "usb_writeData bs u =
     (if length bs \<le> unat (tx_free u)
      then Some ((fold tx_store bs u)\<lparr>UCSR1B := bv RXCIE1 OR bv TXEN1 OR bv RXEN1 OR bv UDRIE1\<rparr>)
      else None)"

definition USART1_RX_vect :: "u8 \<Rightarrow> usb_chip \<Rightarrow> usb_chip" where
  "USART1_RX_vect b u = u\<lparr>us_rxbuf := (us_rxbuf u)[unat (USARTtoUSB_WritePtr u) := b],
                          USARTtoUSB_WritePtr := USARTtoUSB_WritePtr u + 1\<rparr>"

definition USART1_UDRE_vect :: "usb_chip \<Rightarrow> u8 \<times> usb_chip" where
  "USART1_UDRE_vect u =
     (let b = us_txbuf u ! unat (USBtoUSART_ReadPtr u);
          u1 = u\<lparr>USBtoUSART_ReadPtr := bit_clear_m (USBtoUSART_ReadPtr u + 1) 7\<rparr>
      in (b, if USBtoUSART_ReadPtr u1 = USBtoUSART_WritePtr u1 then u1\<lparr>UCSR1B := 0x98\<rparr> else u1))"

section \<open>The main chip's frames\<close>

text \<open>\<open>past\<close> is the byte that flash holds past the end of the table of endpoints.\<close>

definition endpoint_of :: "(u8 \<Rightarrow> u8) \<Rightarrow> u8 \<Rightarrow> u8" where
  "endpoint_of past rid = (if unat rid < length endpoints then endpoints ! unat rid else past rid)"

definition id_stripped :: "u8 \<Rightarrow> bool" where
  "id_stripped rid \<longleftrightarrow> rid = report_id REPORT_ID_MIDI \<or> rid = report_id REPORT_ID_GAMEPAD \<or>
     rid = report_id REPORT_ID_CONTROL"

definition usb_byte :: "(u8 \<Rightarrow> u8) \<Rightarrow> u8 \<Rightarrow> usb_chip \<Rightarrow> bool \<times> usb_chip" where
  "usb_byte past b u =
     (if us_state u = 0 \<and> b = FRAME_START_WRITE then (False, u\<lparr>us_state := 1\<rparr>)
      else if us_state u = 1 then (False, u\<lparr>us_packetCount := b, us_state := 2\<rparr>)
      else if us_state u = 2
      then let ep = endpoint_of past b;
               u1 = Endpoint_SelectEndpoint ep (u\<lparr>us_state := 3, us_packetCount := us_packetCount u - 1,
                      currentEndpoint := ep\<rparr>)
           in (False, if id_stripped b then u1 else Endpoint_Write_8 b u1)
      else if us_state u = 3
      then let u1 = Endpoint_Write_8 b (u\<lparr>us_packetCount := us_packetCount u - 1\<rparr>)
           in if us_packetCount u1 = 0
              then let u2 = (Endpoint_ClearIN u1)\<lparr>us_state := 0\<rparr>
                   in (True, if currentEndpoint u2 \<noteq> 0 then u2\<lparr>checkEndpoint := True\<rparr> else u2)
              else (False, u1)
      else (False, u))"

text \<open>The loop over the bytes that were in the buffer; the read pointer is kept in \<open>tmp\<close>.\<close>

fun usb_loop :: "(u8 \<Rightarrow> u8) \<Rightarrow> nat \<Rightarrow> u8 \<Rightarrow> usb_chip \<Rightarrow> u8 \<times> usb_chip" where
  "usb_loop past 0 tmp u = (tmp, u)"
| "usb_loop past (Suc n) tmp u =
     (case usb_byte past (us_rxbuf u ! unat tmp) u of (leave, u1) \<Rightarrow>
        if leave then (tmp + 1, u1) else usb_loop past n (tmp + 1) u1)"

text \<open>
  One iteration. \<open>task\<close> is what USB_USBTask does to the chip, \<open>ready\<close> whether the endpoint looked at
  can take a packet. None is a wait for room in the transmit buffer.
\<close>

definition usb_step ::
  "(u8 \<Rightarrow> u8) \<Rightarrow> (usb_chip \<Rightarrow> usb_chip) \<Rightarrow> (u8 \<Rightarrow> bool) \<Rightarrow> usb_chip \<Rightarrow> usb_chip option" where
  "usb_step past task ready u =
     (let count = USARTtoUSB_WritePtr u - USARTtoUSB_ReadPtr u
      in if count \<noteq> 0
         then case usb_loop past (unat count) (USARTtoUSB_ReadPtr u) u of
                (tmp, u1) \<Rightarrow> Some (u1\<lparr>USARTtoUSB_ReadPtr := tmp\<rparr>)
         else let u1 = task u
              in if checkEndpoint u1
                 then let prev = us_selected u1; u2 = Endpoint_SelectEndpoint (currentEndpoint u1) u1
                      in if ready (us_selected u2)
                         then map_option (\<lambda>u3. Endpoint_SelectEndpoint prev (u3\<lparr>checkEndpoint := False\<rparr>))
                                (usb_writeData [FRAME_DONE] u2)
                         else Some (Endpoint_SelectEndpoint prev u2)
                 else Some u1)"

section \<open>Start and feature requests\<close>

definition first_endpoint :: "u8 \<Rightarrow> u8" where
  "first_endpoint t =
     (if subtype_val MIDI_GAMEPAD \<le> t then MIDI_EPADDR_IN
      else if subtype_val KEYBOARD_GAMEPAD \<le> t then HID_EPADDR_IN else XINPUT_EPADDR_IN)"

text \<open>
  The start: into the boot loader if the last run asked for it (then the result is Inl), else with
  the device type of the EEPROM when its signature is there.
\<close>

definition usb_main_start :: "usb_chip \<Rightarrow> usb_chip + usb_chip" where
  "usb_main_start u =
     (if jmpToBootloader u = JUMP then Inl (u\<lparr>jmpToBootloader := 0\<rparr>)
      else let u1 = usb_Serial_InitInterrupt u;
               u2 = (if us_ee_id u1 \<noteq> firmware_val ARDWIINO_DEVICE_TYPE
                     then u1\<lparr>us_ee_id := firmware_val ARDWIINO_DEVICE_TYPE, us_ee_type := us_deviceType u1\<rparr>
                     else u1\<lparr>us_deviceType := us_ee_type u1\<rparr>)
           in Inr (u2\<lparr>us_packetCount := 0, us_state := 0,
                      currentEndpoint := first_endpoint (us_deviceType u2), checkEndpoint := True\<rparr>))"

text \<open>Bytes in a row, each with its own call of writeData.\<close>

fun forward_bytes :: "u8 list \<Rightarrow> usb_chip \<Rightarrow> usb_chip option" where
  "forward_bytes [] u = Some u"
| "forward_bytes (b # bs) u = Option.bind (usb_writeData [b] u) (forward_bytes bs)"

text \<open>
  \<open>host\<close> are the bytes of the packets the host sends on the control endpoint, \<open>d0\<close> what the local d
  holds before any is read. The result None is a wait that nothing here ends; the flag of Inr says
  that the chip resets.
\<close>

definition usb_processHIDWriteFeatureReportControl ::
  "u8 list \<Rightarrow> u8 \<Rightarrow> u8 \<Rightarrow> u8 \<Rightarrow> usb_chip \<Rightarrow> (bool \<times> usb_chip) option" where
  "usb_processHIDWriteFeatureReportControl host d0 cmd len u =
     (if length host < unat len then None
      else Option.bind (forward_bytes ([FRAME_START_FEATURE_WRITE, len, cmd] @ take (unat len) host) u)
        (\<lambda>u. let d = last (d0 # take (unat len) host);
                 u1 = (if cmd = cmd_val COMMAND_WRITE_SUBTYPE then u\<lparr>us_ee_type := d\<rparr> else u)
             in if cmd = cmd_val COMMAND_REBOOT \<or> cmd = cmd_val COMMAND_JUMP_BOOTLOADER
                then Some (True, u1\<lparr>jmpToBootloader := (if cmd = cmd_val COMMAND_REBOOT then 0 else JUMP)\<rparr>)
                else Some (False, u1)))"

definition usb_processHIDReadFeatureReport :: "u8 \<Rightarrow> usb_chip \<Rightarrow> usb_chip option" where
  "usb_processHIDReadFeatureReport cmd u = forward_bytes [FRAME_START_FEATURE_READ, cmd] u"

section \<open>The receive buffer is a queue\<close>

text \<open>The buffer has 256 bytes, so that the byte-wide pointers wrap at its end by themselves.\<close>

definition rx_contents :: "usb_chip \<Rightarrow> u8 list" where
  "rx_contents u = map (\<lambda>k. us_rxbuf u ! unat (USARTtoUSB_ReadPtr u + of_nat k))
     [0..<unat (USARTtoUSB_WritePtr u - USARTtoUSB_ReadPtr u)]"

definition rx_take :: "usb_chip \<Rightarrow> u8 \<times> usb_chip" where
  "rx_take u = (us_rxbuf u ! unat (USARTtoUSB_ReadPtr u),
                u\<lparr>USARTtoUSB_ReadPtr := USARTtoUSB_ReadPtr u + 1\<rparr>)"

definition rx_inv :: "usb_chip \<Rightarrow> bool" where
  "rx_inv u \<longleftrightarrow> length (us_rxbuf u) = 256"

lemma length_rx_contents [simp]:
  "length (rx_contents u) = unat (USARTtoUSB_WritePtr u - USARTtoUSB_ReadPtr u)"
  by (simp add: rx_contents_def)

lemma byte_count_le: "unat (x :: u8) \<le> 255"
proof -
  have "unat x < 256" using unsigned_less [of x] by simp
  then show ?thesis by simp
qed

lemma rx_insert_refines:
  assumes "rx_inv u" "length (rx_contents u) < 255"
  shows "rx_inv (USART1_RX_vect b u)" "rx_contents (USART1_RX_vect b u) = rx_contents u @ [b]"
proof -
  let ?w = "USARTtoUSB_WritePtr u" and ?r = "USARTtoUSB_ReadPtr u"
  let ?c = "unat (?w - ?r)"
  have "unat (?w - ?r + 1) = ?c + 1" using assms(2) by (simp add: unat_word_ariths)
  then have c: "unat (?w + 1 - ?r) = ?c + 1" by (simp add: algebra_simps)
  have old: "unat (?r + of_nat k) \<noteq> unat ?w" if "k < ?c" for k
  proof
    assume "unat (?r + of_nat k) = unat ?w"
    then have "?w - ?r = of_nat k" by (metis add_diff_cancel_left' word_unat_eq_iff)
    with that assms(2) show False by (simp add: unat_of_nat)
  qed
  have new: "?r + of_nat ?c = ?w" by simp
  have "unat ?w < 256" using byte_count_le [of ?w] by simp
  then show "rx_contents (USART1_RX_vect b u) = rx_contents u @ [b]"
    using assms(1) old [THEN not_sym] new c
    by (simp add: rx_contents_def USART1_RX_vect_def rx_inv_def)
  show "rx_inv (USART1_RX_vect b u)"
    using assms(1) by (simp add: rx_inv_def USART1_RX_vect_def)
qed

lemma rx_take_refines:
  assumes "rx_inv u" "rx_contents u \<noteq> []"
  shows "rx_inv (snd (rx_take u))" "rx_contents u = fst (rx_take u) # rx_contents (snd (rx_take u))"
proof -
  let ?w = "USARTtoUSB_WritePtr u" and ?r = "USARTtoUSB_ReadPtr u"
  have "0 < length (rx_contents u)" using assms(2) by blast
  then have "0 < unat (?w - ?r)" by simp
  then have "?w - ?r \<noteq> 0" by auto
  then have c: "unat (?w - (?r + 1)) = unat (?w - ?r) - 1"
    using unat_minus_one [of "?w - ?r"] by (simp add: diff_diff_eq2 diff_diff_eq [symmetric])
  obtain k where k: "unat (?w - ?r) = Suc k" using \<open>0 < unat _\<close> gr0_implies_Suc by blast
  have "[0..<Suc k] = 0 # map Suc [0..<k]"
    by (simp add: map_Suc_upt upt_conv_Cons del: upt_Suc)
  then show "rx_contents u = fst (rx_take u) # rx_contents (snd (rx_take u))"
    using c k by (simp add: rx_contents_def rx_take_def add.assoc del: upt_Suc)
  show "rx_inv (snd (rx_take u))"
    using assms(1) by (simp add: rx_inv_def rx_take_def)
qed

interpretation usart: byte_queue USART1_RX_vect rx_take
  "\<lambda>u. USARTtoUSB_WritePtr u - USARTtoUSB_ReadPtr u = 255"
  "\<lambda>u. USARTtoUSB_WritePtr u - USARTtoUSB_ReadPtr u = 0" rx_contents rx_inv 255
proof unfold_locales
  fix u assume "rx_inv u"
  show "USARTtoUSB_WritePtr u - USARTtoUSB_ReadPtr u = 255 \<longleftrightarrow> length (rx_contents u) = 255"
    unfolding length_rx_contents word_unat_eq_iff by simp
  show "USARTtoUSB_WritePtr u - USARTtoUSB_ReadPtr u = 0 \<longleftrightarrow> rx_contents u = []"
    unfolding length_0_conv [symmetric] length_rx_contents unsigned_eq_0_iff ..
  show "length (rx_contents u) \<le> 255" by (simp add: byte_count_le)
next
  fix u x assume "rx_inv u" "length (rx_contents u) < 255"
  then show "rx_inv (USART1_RX_vect x u)" "rx_contents (USART1_RX_vect x u) = rx_contents u @ [x]"
    by (simp_all add: rx_insert_refines)
qed (use rx_take_refines in blast)+

section \<open>The parser on a list of bytes\<close>

fun usb_fold :: "(u8 \<Rightarrow> u8) \<Rightarrow> u8 list \<Rightarrow> usb_chip \<Rightarrow> bool \<times> u8 list \<times> usb_chip" where
  "usb_fold past [] u = (False, [], u)"
| "usb_fold past (b # bs) u =
     (case usb_byte past b u of (leave, u1) \<Rightarrow>
        if leave then (True, bs, u1) else usb_fold past bs u1)"

text \<open>The parser does not touch the buffer it reads from.\<close>

definition same_rx :: "usb_chip \<Rightarrow> usb_chip \<Rightarrow> bool" where
  "same_rx u v \<longleftrightarrow> us_rxbuf v = us_rxbuf u \<and> USARTtoUSB_WritePtr v = USARTtoUSB_WritePtr u \<and>
     USARTtoUSB_ReadPtr v = USARTtoUSB_ReadPtr u"

lemma usb_byte_rx: "usb_byte past b u = (l, v) \<Longrightarrow> same_rx u v"
  by (auto simp: usb_byte_def same_rx_def Let_def Endpoint_Write_8_def Endpoint_SelectEndpoint_def
      Endpoint_ClearIN_def split: if_splits)

definition set_rx :: "u8 list \<Rightarrow> u8 \<Rightarrow> u8 \<Rightarrow> usb_chip \<Rightarrow> usb_chip" where
  "set_rx buf w r u = u\<lparr>us_rxbuf := buf, USARTtoUSB_WritePtr := w, USARTtoUSB_ReadPtr := r\<rparr>"

lemma usb_byte_set_rx:
  "usb_byte past b (set_rx buf w r u) = map_prod id (set_rx buf w r) (usb_byte past b u)"
  by (simp add: usb_byte_def set_rx_def Let_def Endpoint_Write_8_def Endpoint_SelectEndpoint_def
      Endpoint_ClearIN_def)

lemma usb_fold_set_rx:
  "usb_fold past bs (set_rx buf w r u) =
   map_prod id (map_prod id (set_rx buf w r)) (usb_fold past bs u)"
  by (induction bs arbitrary: u) (auto simp: usb_byte_set_rx case_prod_beta)

lemma usb_fold_rest: "usb_fold past xs u = (leave, rest, u') \<Longrightarrow> length rest \<le> length xs"
  by (induction xs arbitrary: u) (fastforce split: prod.splits if_splits)+

lemma usb_loop_fold:
  assumes "\<forall>k<length xs. us_rxbuf u ! unat (tmp + of_nat k) = xs ! k"
    and "usb_fold past xs u = (leave, rest, u')"
  shows "usb_loop past (length xs) tmp u = (tmp + of_nat (length xs - length rest), u')"
  using assms
proof (induction xs arbitrary: tmp u)
  case (Cons b xs)
  have b: "us_rxbuf u ! unat tmp = b" using Cons.prems(1) by auto
  obtain l u1 where step: "usb_byte past b u = (l, u1)" by fastforce
  show ?case
  proof (cases l)
    case True
    with Cons.prems(2) step b show ?thesis by auto
  next
    case False
    with Cons.prems(2) step have "usb_fold past xs u1 = (leave, rest, u')" by simp
    moreover have "us_rxbuf u1 = us_rxbuf u" using usb_byte_rx [OF step] by (simp add: same_rx_def)
    moreover have "us_rxbuf u ! unat (tmp + 1 + of_nat k) = xs ! k" if "k < length xs" for k
      using Cons.prems(1) [rule_format, of "Suc k"] that by (simp add: add.assoc)
    ultimately have *: "usb_loop past (length xs) (tmp + 1) u1 =
        (tmp + 1 + of_nat (length xs - length rest), u')"
      by (intro Cons.IH) simp_all
    have "length rest \<le> length xs"
      using \<open>usb_fold past xs u1 = _\<close>
      by (rule usb_fold_rest)
    with * b step False show ?thesis by (simp add: Suc_diff_le algebra_simps)
  qed
qed simp

end
