(* ===== verification/UnoLink.thy ===== *)
theory UnoLink
  imports UnoUsb
begin

text \<open>
  The Uno's two chips together: the serial line between the transmit interrupt of the 328P
  (\<open>src/src/avr/uno/main/main.c\<close>) and the receive interrupt of the USB chip
  (\<open>src/src/avr/uno/usb/main.c\<close>), a report's way to the host and the handshake that asks for the
  next one, and the frame that stops the exchange.
\<close>

section \<open>The line\<close>

text \<open>Transmit interrupts of the 328P, each followed by the receive interrupt it causes.\<close>

fun shift :: "nat \<Rightarrow> ('i, 'p, 'd) uno \<times> usb_chip \<Rightarrow> ('i, 'p, 'd) uno \<times> usb_chip" where
  "shift 0 s = s"
| "shift (Suc k) (u, c) =
     (case USART_UDRE_vect u of
        (Some b, u1) \<Rightarrow> shift k (u1, USART1_RX_vect b c)
      | (None, u1) \<Rightarrow> (u1, c))"

text \<open>Bytes arrive in groups; after each the USB chip runs one iteration.\<close>

fun link_run ::
  "(u8 \<Rightarrow> u8) \<Rightarrow> (usb_chip \<Rightarrow> usb_chip) \<Rightarrow> (u8 \<Rightarrow> bool) \<Rightarrow> nat list \<Rightarrow>
   ('i, 'p, 'd) uno \<times> usb_chip \<Rightarrow> (('i, 'p, 'd) uno \<times> usb_chip) option" where
  "link_run past task ready [] s = Some s"
| "link_run past task ready (k # ks) s =
     (case shift k s of (u, c) \<Rightarrow>
        Option.bind (usb_step past task ready c) (\<lambda>c. link_run past task ready ks (u, c)))"

lemma UDRE_takes:
  assumes "lufa_inv n (un_out u)" "lufa_contents (un_out u) = b # bs"
  shows "\<exists>q. USART_UDRE_vect u = (Some b, u\<lparr>un_out := q\<rparr>) \<and> lufa_inv n q \<and> lufa_contents q = bs"
proof -
  have ne: "lufa_contents (un_out u) \<noteq> []" using assms(2) by simp
  from lufa.rem_inv [OF assms(1) ne] lufa.rem_contents [OF assms(1) ne] assms(2)
  obtain q where q: "lufa_Remove (un_out u) = (b, q)" "lufa_inv n q" "lufa_contents q = bs"
    by (cases "lufa_Remove (un_out u)") auto
  have "lufa_GetCount (un_out u) \<noteq> 0"
    using ne length_lufa_contents [of "un_out u"] by (auto simp: lufa_GetCount_def simp del: length_0_conv simp flip: length_0_conv)
  with q show ?thesis by (auto simp: USART_UDRE_vect_def)
qed

lemma shift_moves:
  assumes "lufa_inv n (un_out u)" "lufa_contents (un_out u) = xs @ ys" "rx_inv c"
    and "length (rx_contents c) + length xs \<le> 255"
  shows "\<exists>q. shift (length xs) (u, c) = (u\<lparr>un_out := q\<rparr>, fold USART1_RX_vect xs c) \<and>
    lufa_inv n q \<and> lufa_contents q = ys"
  using assms
proof (induction xs arbitrary: u c)
  case Nil
  then show ?case by (intro exI [of _ "un_out u"]) simp
next
  case (Cons b xs)
  then obtain q where q: "USART_UDRE_vect u = (Some b, u\<lparr>un_out := q\<rparr>)" "lufa_inv n q"
    "lufa_contents q = xs @ ys"
    using UDRE_takes [of n u b "xs @ ys"] by auto
  have room: "length (rx_contents c) < 255" using Cons.prems(4) by simp
  have "length (rx_contents (USART1_RX_vect b c)) = length (rx_contents c) + 1"
    using rx_insert_refines(2) [OF Cons.prems(3) room, of b] by simp
  with Cons.IH [of "u\<lparr>un_out := q\<rparr>" "USART1_RX_vect b c"] q Cons.prems
    rx_insert_refines(1) [OF Cons.prems(3) room, of b]
  show ?case by auto
qed

section \<open>An iteration of the USB chip\<close>

lemma fold_RX_keeps:
  "fold USART1_RX_vect xs c = set_rx (us_rxbuf (fold USART1_RX_vect xs c))
     (USARTtoUSB_WritePtr (fold USART1_RX_vect xs c)) (USARTtoUSB_ReadPtr c) c"
proof (induction xs arbitrary: c)
  case Nil
  show ?case by (simp add: set_rx_def)
next
  case (Cons b xs)
  show ?case
    by (simp, subst Cons.IH) (simp add: set_rx_def USART1_RX_vect_def)
qed

text \<open>
  What one iteration does to the parser's part of the state after a group of bytes; the read
  pointer then stands behind the bytes looked at.
\<close>

lemma usb_step_group:
  assumes "rx_inv c" "rx_contents c = []" "xs \<noteq> []" "length xs \<le> 255"
    and "usb_fold past xs c = (leave, [], c')"
  shows "\<exists>buf w r. usb_step past task ready (fold USART1_RX_vect xs c) = Some (set_rx buf w r c') \<and>
    rx_inv (set_rx buf w r c') \<and> rx_contents (set_rx buf w r c') = []"
proof -
  define d where "d = fold USART1_RX_vect xs c"
  have d: "rx_inv d" "rx_contents d = xs"
    using usart.ins_all [OF assms(1), of xs] assms(2,4) by (simp_all add: d_def)
  have keep: "d = set_rx (us_rxbuf d) (USARTtoUSB_WritePtr d) (USARTtoUSB_ReadPtr d) c"
    using fold_RX_keeps [of xs c] by (simp add: d_def set_rx_def)
  define v where "v = set_rx (us_rxbuf d) (USARTtoUSB_WritePtr d) (USARTtoUSB_ReadPtr d) c'"
  have fold: "usb_fold past xs d = (leave, [], v)"
    unfolding v_def using assms(5) by (subst keep) (simp add: usb_fold_set_rx)
  have count: "unat (USARTtoUSB_WritePtr d - USARTtoUSB_ReadPtr d) = length xs"
    using d(2) length_rx_contents [of d] by simp
  with assms(3) have nz: "USARTtoUSB_WritePtr d - USARTtoUSB_ReadPtr d \<noteq> 0" by auto
  have "us_rxbuf d ! unat (USARTtoUSB_ReadPtr d + of_nat k) = xs ! k" if "k < length xs" for k
  proof -
    have "rx_contents d ! k = us_rxbuf d ! unat (USARTtoUSB_ReadPtr d + of_nat k)"
      using that count by (simp add: rx_contents_def)
    then show ?thesis by (simp add: d(2))
  qed
  with fold have "usb_loop past (length xs) (USARTtoUSB_ReadPtr d) d =
      (USARTtoUSB_ReadPtr d + of_nat (length xs), v)"
    using usb_loop_fold [of xs d "USARTtoUSB_ReadPtr d" past leave "[]" v] by simp
  moreover have "USARTtoUSB_ReadPtr d + of_nat (length xs) = USARTtoUSB_WritePtr d"
    unfolding count [symmetric] by simp
  ultimately have "usb_step past task ready d = Some (v\<lparr>USARTtoUSB_ReadPtr := USARTtoUSB_WritePtr d\<rparr>)"
    using nz count by (simp add: usb_step_def)
  then show ?thesis
    using d(1)
    by (intro exI [of _ "us_rxbuf d"] exI [of _ "USARTtoUSB_WritePtr d"] exI)
      (auto simp: d_def v_def set_rx_def rx_inv_def rx_contents_def)
qed

lemma usb_fold_append:
  "usb_fold past (xs @ ys) u =
   (case usb_fold past xs u of (leave, rest, u) \<Rightarrow>
      if leave then (True, rest @ ys, u) else usb_fold past ys u)"
  by (induction xs arbitrary: u) (auto split: prod.splits)

lemma usb_fold_running: "usb_fold past xs u = (False, rest, u') \<Longrightarrow> rest = []"
  by (induction xs arbitrary: u) (auto split: prod.splits if_splits)

text \<open>Bytes that end with the one the parser leaves its loop at, or none of which it leaves at.\<close>

lemma link_run_groups:
  assumes "lufa_inv n (un_out u)" "lufa_contents (un_out u) = xs" "rx_inv c" "rx_contents c = []"
    and "sum_list ks = length xs" "\<forall>k\<in>set ks. 0 < k \<and> k \<le> 255"
    and "usb_fold past xs c = (leave, [], c')"
  shows "\<exists>q buf w r. link_run past task ready ks (u, c) = Some (u\<lparr>un_out := q\<rparr>, set_rx buf w r c') \<and>
    lufa_inv n q \<and> lufa_contents q = [] \<and> rx_inv (set_rx buf w r c') \<and> rx_contents (set_rx buf w r c') = []"
  using assms
proof (induction ks arbitrary: u c xs leave c')
  case Nil
  then have "c' = c" by auto
  moreover have "c = set_rx (us_rxbuf c) (USARTtoUSB_WritePtr c) (USARTtoUSB_ReadPtr c) c"
    by (simp add: set_rx_def)
  ultimately show ?case using Nil
    by (intro exI [of _ "un_out u"] exI [of _ "us_rxbuf c"] exI [of _ "USARTtoUSB_WritePtr c"]
        exI [of _ "USARTtoUSB_ReadPtr c"]) simp
next
  case (Cons k ks)
  define as where "as = take k xs"
  define bs where "bs = drop k xs"
  have xs: "xs = as @ bs" "length as = k" using Cons.prems(5) by (simp_all add: as_def bs_def)
  have k: "0 < k" "k \<le> 255" using Cons.prems(6) by auto
  then have as: "as \<noteq> []" "length as \<le> 255" using xs(2) by auto
  obtain q where q: "shift k (u, c) = (u\<lparr>un_out := q\<rparr>, fold USART1_RX_vect as c)" "lufa_inv n q"
    "lufa_contents q = bs"
    using shift_moves [of n u as bs c] Cons.prems(1-4) xs k by auto
  obtain l rest c1 where first: "usb_fold past as c = (l, rest, c1)" by (metis prod_cases3)
  have whole: "(if l then (True, rest @ bs, c1) else usb_fold past bs c1) = (leave, [], c')"
    using Cons.prems(7) first by (simp add: xs(1) usb_fold_append)
  have l: "rest = []" "usb_fold past bs c1 = (leave \<and> \<not> l, [], c')" "l \<Longrightarrow> bs = []"
    using whole first usb_fold_running by (cases l; fastforce)+
  from usb_step_group [OF Cons.prems(3,4) as, of past l c1] first l(1)
  obtain buf w r where step: "usb_step past task ready (fold USART1_RX_vect as c) = Some (set_rx buf w r c1)"
    "rx_inv (set_rx buf w r c1)" "rx_contents (set_rx buf w r c1) = []"
    by blast
  have "usb_fold past bs (set_rx buf w r c1) = (leave \<and> \<not> l, [], set_rx buf w r c')"
    using l(2) by (simp add: usb_fold_set_rx)
  from Cons.IH [OF _ _ step(2,3) _ _ this, of "u\<lparr>un_out := q\<rparr>"] q Cons.prems(5,6) xs
  show ?case
    using step(1) by (fastforce simp: q(1) set_rx_def)
qed

section \<open>A report on its way\<close>

lemma writeData_contents:
  assumes "lufa_inv n (un_out u)" "length (lufa_contents (un_out u)) + length bs \<le> n"
  shows "lufa_inv n (un_out (writeData bs u)) \<and>
    lufa_contents (un_out (writeData bs u)) = lufa_contents (un_out u) @ bs"
  using lufa.ins_all [OF assms] by (simp add: writeData_def)

lemma send_report_frame:
  assumes "un_prev u \<noteq> un_controller u" "readyForPacket u"
    and "lufa_inv m (un_out u)" "lufa_contents (un_out u) = []"
    and "fillReport (un_drum u) (ue_beyond env) (bd_fullDeviceType (un_board u))
           (bd_input (un_board u)) (un_controller u) (un_reports u) = Some (n, bs, r)"
    and "unat n \<le> length bs" "unat n + 2 \<le> m"
  shows "\<exists>u'. send_report env u = Inr u' \<and> lufa_inv m (un_out u') \<and>
    lufa_contents (un_out u') = FRAME_START_WRITE # n # take (unat n) bs \<and> \<not> readyForPacket u' \<and>
    un_prev u' = un_controller u \<and> un_controller u' = un_controller u \<and> un_in u' = un_in u \<and>
    rx_state u' = rx_state u"
proof -
  define u0 where "u0 = u\<lparr>un_reports := r, lastPoll := ue_sent env, readyForPacket := False\<rparr>"
  define u1 where "u1 = writeData [FRAME_START_WRITE] u0"
  define u2 where "u2 = writeData [n] u1"
  define u3 where "u3 = writeData (take (unat n) bs) u2"
  note defs = u0_def u1_def u2_def u3_def
  have 1: "lufa_inv m (un_out u1) \<and> lufa_contents (un_out u1) = [FRAME_START_WRITE]"
    using writeData_contents [of m u0 "[FRAME_START_WRITE]"] assms(3,4,7) by (simp add: u0_def u1_def)
  then have 2: "lufa_inv m (un_out u2) \<and> lufa_contents (un_out u2) = [FRAME_START_WRITE, n]"
    using writeData_contents [of m u1 "[n]"] assms(7) by (simp add: u2_def del: length_lufa_contents)
  then have 3: "lufa_inv m (un_out u3) \<and>
      lufa_contents (un_out u3) = FRAME_START_WRITE # n # take (unat n) bs"
    using writeData_contents [of m u2 "take (unat n) bs"] assms(6,7)
    by (simp add: u3_def del: length_lufa_contents)
  have "send_report env u = Inr (u3\<lparr>un_prev := un_controller u\<rparr>)"
    using assms(1,2,5) by (simp add: send_report_def defs)
  moreover have "\<not> readyForPacket u3" "un_controller u3 = un_controller u" "un_in u3 = un_in u"
    "rx_state u3 = rx_state u"
    by (simp_all add: defs writeData_def)
  ultimately show ?thesis using 3 by simp
qed

text \<open>The parser on a frame; the packet is what the host's endpoint gets.\<close>

definition packet_of :: "u8 list \<Rightarrow> u8 list" where
  "packet_of report = (if id_stripped (hd report) then tl report else report)"

lemma usb_payload:
  assumes "us_state c = 3" "us_packetCount c = of_nat (length bs)" "bs \<noteq> []" "length bs < 256"
    and "us_selected c = ep" "currentEndpoint c = ep" "length (us_bank c ep) \<le> bank_size ep"
  shows "usb_fold past bs c = (True, [], c\<lparr>us_packetCount := 0, us_state := 0,
    us_sent := us_sent c @ [(ep, take (bank_size ep) (us_bank c ep @ bs))], us_bank := (us_bank c)(ep := []),
    us_overrun := (us_overrun c \<or> bank_size ep < length (us_bank c ep @ bs)),
    checkEndpoint := (ep \<noteq> 0 \<or> checkEndpoint c)\<rparr>)"
  using assms
proof (induction bs arbitrary: c)
  case (Cons b bs)
  define c1 where "c1 = Endpoint_Write_8 b (c\<lparr>us_packetCount := of_nat (length bs)\<rparr>)"
  have c1: "c1 = c\<lparr>us_packetCount := of_nat (length bs),
      us_bank := (us_bank c)(ep := take (bank_size ep) (us_bank c ep @ [b])),
      us_overrun := (us_overrun c \<or> bank_size ep < length (us_bank c ep @ [b]))\<rparr>"
    using Cons.prems(5,7)
    by (cases "length (us_bank c ep) < bank_size ep")
      (simp_all add: c1_def Endpoint_Write_8_def Let_def)
  have len: "length (us_bank c1 ep) \<le> bank_size ep" by (simp add: c1)
  show ?case
  proof (cases "bs = []")
    case True
    have "usb_byte past b c = (True, c\<lparr>us_packetCount := 0, us_state := 0,
      us_sent := us_sent c @ [(ep, take (bank_size ep) (us_bank c ep @ [b]))], us_bank := (us_bank c)(ep := []),
      us_overrun := (us_overrun c \<or> bank_size ep < length (us_bank c ep @ [b])),
      checkEndpoint := (ep \<noteq> 0 \<or> checkEndpoint c)\<rparr>)"
      using Cons.prems True c1 c1_def by (simp add: usb_byte_def Endpoint_ClearIN_def Let_def)
    then show ?thesis using True by (simp add: fun_upd_def)
  next
    case False
    then have nz: "(of_nat (length bs) :: u8) \<noteq> 0"
      using Cons.prems(4) unat_of_nat [of "length bs", where 'a = 8] by (auto simp: unsigned_eq_0_iff)
    then have step: "usb_byte past b c = (False, c1)"
      using Cons.prems c1 c1_def by (simp add: usb_byte_def Let_def)
    have "usb_fold past (b # bs) c = usb_fold past bs c1" by (simp add: step)
    also have "\<dots> = (True, [], c1\<lparr>us_packetCount := 0, us_state := 0,
        us_sent := us_sent c1 @ [(ep, take (bank_size ep) (us_bank c1 ep @ bs))], us_bank := (us_bank c1)(ep := []),
        us_overrun := (us_overrun c1 \<or> bank_size ep < length (us_bank c1 ep @ bs)),
        checkEndpoint := (ep \<noteq> 0 \<or> checkEndpoint c1)\<rparr>)"
      using False Cons.prems len by (intro Cons.IH) (simp_all add: c1)
    also have "take (bank_size ep) (us_bank c1 ep @ bs) = take (bank_size ep) (us_bank c ep @ b # bs)"
      by (cases "length (us_bank c ep) < bank_size ep") (simp_all add: c1 take_Cons' min_def)
    also have "(us_overrun c1 \<or> bank_size ep < length (us_bank c1 ep @ bs)) =
        (us_overrun c \<or> bank_size ep < length (us_bank c ep @ b # bs))"
      using Cons.prems(7) by (auto simp: c1)
    finally show ?thesis by (simp add: c1 fun_upd_def cong: if_cong)
  qed
qed simp

text \<open>A frame on an idle chip: what fits into the bank is handed over.\<close>

lemma usb_frame:
  assumes "us_state c = 0" "us_bank c (endpoint_of past (hd report)) = []"
    and "2 \<le> length report" "length report < 256" "0 < bank_size (endpoint_of past (hd report))"
  shows "\<exists>c'. usb_fold past (FRAME_START_WRITE # of_nat (length report) # report) c = (True, [], c') \<and>
    us_sent c' = us_sent c @ [(endpoint_of past (hd report),
      take (bank_size (endpoint_of past (hd report))) (packet_of report))] \<and>
    us_overrun c' = (us_overrun c \<or> bank_size (endpoint_of past (hd report)) < length (packet_of report)) \<and>
    us_state c' = 0 \<and>
    us_bank c' = us_bank c \<and> currentEndpoint c' = endpoint_of past (hd report) \<and>
    checkEndpoint c' = (endpoint_of past (hd report) \<noteq> 0 \<or> checkEndpoint c) \<and>
    us_txbuf c' = us_txbuf c \<and> USBtoUSART_WritePtr c' = USBtoUSART_WritePtr c \<and>
    USBtoUSART_ReadPtr c' = USBtoUSART_ReadPtr c"
proof -
  obtain rid bs where report: "report = rid # bs" "bs \<noteq> []"
    using assms(3) by (cases report; cases "tl report") auto
  let ?ep = "endpoint_of past rid"
  define c1 where "c1 = c\<lparr>us_state := 3, us_packetCount := of_nat (length bs),
    currentEndpoint := ?ep, us_selected := ?ep, us_bank := (us_bank c)(?ep := if id_stripped rid then [] else [rid])\<rparr>"
  have b: "us_bank c ?ep = []" and room: "0 < bank_size ?ep" using assms(2,5) report by simp_all
  then have same: "(us_bank c)(?ep := []) = us_bank c" by auto
  have "usb_fold past (FRAME_START_WRITE # of_nat (length report) # report) c = usb_fold past bs c1"
    using assms(1) b room
    by (simp add: report c1_def usb_byte_def Let_def Endpoint_SelectEndpoint_def Endpoint_Write_8_def
        same)
  also have "\<dots> = (True, [], c1\<lparr>us_packetCount := 0, us_state := 0,
      us_sent := us_sent c1 @ [(?ep, take (bank_size ?ep) (us_bank c1 ?ep @ bs))], us_bank := (us_bank c1)(?ep := []),
      us_overrun := (us_overrun c1 \<or> bank_size ?ep < length (us_bank c1 ?ep @ bs)),
      checkEndpoint := (?ep \<noteq> 0 \<or> checkEndpoint c1)\<rparr>)"
    using assms(4) report room by (intro usb_payload) (simp_all add: c1_def)
  finally show ?thesis
    using report same room by (cases "bank_size ?ep") (simp_all add: c1_def packet_of_def)
qed

section \<open>Where reports go\<close>

lemma ps3_rid_kept:
  "ps3_rid (ps3_button t s c i r) = ps3_rid r" "ps3_rid (ps3_guitar t c r) = ps3_rid r"
  "ps3_rid (ps3_pad t c r) = ps3_rid r" "ps3_rid (switch_flip t r) = ps3_rid r"
  "ps3_rid (fold (ps3_button t s c) is r) = ps3_rid r"
proof -
  show button: "ps3_rid (ps3_button t s c i r) = ps3_rid r" for i r
    by (auto simp: ps3_button_def Let_def)
  show "ps3_rid (fold (ps3_button t s c) is r) = ps3_rid r"
    by (induction "is" arbitrary: r) (simp_all add: button)
qed (simp_all add: ps3_guitar_def ps3_pad_def switch_flip_def Let_def)

lemma midi_loop_count:
  "midi_loop vel m is (idx, prev, evs) = Some (idx', r) \<Longrightarrow> idx' \<le> idx + length is"
proof (induction "is" arbitrary: idx prev evs)
  case (Cons i "is")
  from Cons.IH Cons.prems show ?case
    by (fastforce simp: Let_def split: if_splits)
qed simp

text \<open>A report starts with one of five ids and is never empty.\<close>

abbreviation sent_ids :: "u8 set" where
  "sent_ids \<equiv> {report_id REPORT_ID_XINPUT, report_id REPORT_ID_MIDI, report_id REPORT_ID_GAMEPAD,
                 report_id REPORT_ID_KBD, report_id REPORT_ID_MOUSE}"

lemma fillReport_starts:
  assumes "fillReport d beyond t s c r = Some (n, bs, r')"
  shows "bs \<noteq> [] \<and> hd bs \<in> sent_ids \<and> n \<noteq> 0"
proof (cases "rp_filler r")
  case MIDIFiller
  obtain idx prev evs where run: "midi_loop (getVelocity d s c) (rp_midiConfig r)
      [0..<XBOX_BTN_COUNT + XBOX_AXIS_COUNT] (0, rp_lastmidi r, midi_events (rp_midi r)) = Some (idx, prev, evs)"
    and out: "n = of_nat (1 + idx * 4)" "bs = midi_bytes ((rp_midi r)\<lparr>midi_rid := report_id REPORT_ID_MIDI, midi_events := evs\<rparr>)"
    using assms MIDIFiller by (auto simp: fillReport_def fillMIDIReport_def)
  have "idx \<le> 22"
    using midi_loop_count [OF run] by (simp add: XBOX_BTN_COUNT_def XBOX_AXIS_COUNT_def)
  then have "unat (of_nat (1 + idx * 4) :: u8) = 1 + idx * 4"
    using unat_of_nat [of "1 + idx * 4", where 'a = 8] by simp
  then have "n \<noteq> 0" unfolding out(1) by (metis add_is_0 one_neq_zero unat_0)
  then show ?thesis using out(2) by (simp add: midi_bytes_def)
qed (use assms in \<open>auto simp: fillReport_def fillXInputReport_def fillMouseReport_def fillPS3Report_def
      fillKeyboardReport_def xinput_bytes_def mouse_bytes_def ps3_bytes_def kbd_bytes_def ps3_rid_kept Let_def
      split: prod.splits\<close>)

lemma sent_endpoint:
  "rid \<in> sent_ids \<Longrightarrow> bank_size (endpoint_of past rid) = 32 \<and> endpoint_of past rid \<noteq> 0"
  by (auto simp: endpoint_of_def endpoints_def bank_size_def EVENT_USB_Device_ConfigurationChanged_def
      XINPUT_EPADDR_IN_def HID_EPADDR_IN_def MIDI_EPADDR_IN_def ENDPOINT_DIR_IN_def ENDPOINT_CONTROLEP_def
      HID_EPSIZE_def)

section \<open>The answer\<close>

definition tx_idle :: "usb_chip \<Rightarrow> bool" where
  "tx_idle c \<longleftrightarrow> length (us_txbuf c) = USB2USART_BUFLEN \<and>
     USBtoUSART_WritePtr c = USBtoUSART_ReadPtr c \<and> unat (USBtoUSART_ReadPtr c) < USB2USART_BUFLEN"

lemma done_frame:
  assumes "rx_contents c = []" "checkEndpoint c" "tx_idle c"
  shows "\<exists>c1 c2. usb_step past id (\<lambda>_. True) c = Some c1 \<and> USART1_UDRE_vect c1 = (FRAME_DONE, c2) \<and>
    us_sent c1 = us_sent c \<and> \<not> checkEndpoint c1"
proof -
  have "unat (USARTtoUSB_WritePtr c - USARTtoUSB_ReadPtr c) = 0"
    using assms(1) length_rx_contents [of c] by simp
  then have "USARTtoUSB_WritePtr c - USARTtoUSB_ReadPtr c = 0" by (simp add: unsigned_eq_0_iff)
  with assms(2,3) show ?thesis
    by (simp add: usb_step_def tx_idle_def usb_writeData_def tx_free_def tx_store_def USART1_UDRE_vect_def
        Endpoint_SelectEndpoint_def Let_def USB2USART_BUFLEN_def)
qed

lemma done_received:
  assumes "lufa_inv n (un_in u)" "lufa_contents (un_in u) = []" "0 < n" "rx_state u = 0"
  shows "\<exists>u'. main_step env (USART_RX_vect FRAME_DONE u) = Inr u' \<and> readyForPacket u' \<and>
    un_prev u' = un_prev u"
proof -
  have "rx_fold env [FRAME_DONE] u = Inr (False, [], u\<lparr>readyForPacket := True\<rparr>)"
    using assms(4) by (simp add: rx_byte_def FRAME_DONE_def FRAME_START_FEATURE_WRITE_def
        FRAME_START_FEATURE_READ_def)
  from main_step_piece [OF assms(1,2) _ _ _ this] assms(3,4) show ?thesis
    by (auto simp: rx_finish_def)
qed

section \<open>Properties\<close>

text \<open>
  C38: a changed controller's report of at least two bytes reaches the host: however the line splits
  the frame, the USB chip hands over exactly one packet, the report on the endpoint of its id (without
  the id where the host's descriptor has none), provided that packet fits into the endpoint's bank of
  32 bytes. A longer one, a MIDI report of more than eight events, is written past the bank's end.
  In both cases the answer, once the endpoint is free again, makes the 328P ready for the next report,
  which it was not in between. The host has configured the device, and both chips are at rest.
\<close>

theorem report_reaches_host:
  assumes "un_prev u \<noteq> un_controller u" "readyForPacket u" "rx_state u = 0"
    and "lufa_inv USART2USB_BUFLEN (un_out u)" "lufa_contents (un_out u) = []"
    and "lufa_inv USB2USART_BUFLEN (un_in u)" "lufa_contents (un_in u) = []"
    and "fillReport (un_drum u) (ue_beyond env) (bd_fullDeviceType (un_board u))
           (bd_input (un_board u)) (un_controller u) (un_reports u) = Some (n, bs, r)"
    and "2 \<le> unat n" "unat n \<le> length bs" "unat n + 2 \<le> USART2USB_BUFLEN"
    and "rx_inv c" "rx_contents c = []" "us_state c = 0" "tx_idle c"
    and "us_bank c (endpoint_of past (hd bs)) = []" "\<not> us_overrun c"
    and "sum_list ks = unat n + 2" "\<forall>k\<in>set ks. 0 < k"
  shows "\<exists>u1 u2 c2 c3 c4 u3.
    send_report env u = Inr u1 \<and> link_run past task ready ks (u1, c) = Some (u2, c2) \<and>
    (if length (packet_of (take (unat n) bs)) \<le> 32
     then us_sent c2 = us_sent c @ [(endpoint_of past (hd bs), packet_of (take (unat n) bs))] \<and> \<not> us_overrun c2
     else us_overrun c2) \<and>
    us_state c2 = 0 \<and> \<not> readyForPacket u2 \<and>
    usb_step past id (\<lambda>_. True) c2 = Some c3 \<and> us_sent c3 = us_sent c2 \<and>
    USART1_UDRE_vect c3 = (FRAME_DONE, c4) \<and>
    main_step env' (USART_RX_vect FRAME_DONE u2) = Inr u3 \<and> readyForPacket u3 \<and>
    un_prev u3 = un_controller u"
proof -
  let ?report = "take (unat n) bs"
  obtain u1 where u1: "send_report env u = Inr u1" "lufa_inv USART2USB_BUFLEN (un_out u1)"
    "lufa_contents (un_out u1) = FRAME_START_WRITE # n # ?report" "\<not> readyForPacket u1"
    "un_prev u1 = un_controller u" "un_in u1 = un_in u" "rx_state u1 = 0"
    using send_report_frame [OF assms(1,2,4,5,8,10,11)] assms(3) by auto
  have report: "hd ?report = hd bs" "length ?report = unat n" "of_nat (length ?report) = n"
    using assms(9,10) by (auto simp: hd_take min_def)
  have short: "unat n < 256" "unat n + 2 < 256" using assms(11) by (simp_all add: USART2USB_BUFLEN_def)
  have ep: "bank_size (endpoint_of past (hd bs)) = 32" "endpoint_of past (hd bs) \<noteq> 0"
    using sent_endpoint fillReport_starts [OF assms(8)] by simp_all
  with usb_frame [of c past ?report, unfolded report(3), unfolded report(1,2)] short assms(9,14,16,17)
  obtain c1 where c1: "usb_fold past (FRAME_START_WRITE # n # ?report) c = (True, [], c1)"
    "us_sent c1 = us_sent c @ [(endpoint_of past (hd bs), take 32 (packet_of ?report))]" "us_state c1 = 0"
    "us_overrun c1 \<longleftrightarrow> 32 < length (packet_of ?report)"
    "checkEndpoint c1" "us_txbuf c1 = us_txbuf c" "USBtoUSART_WritePtr c1 = USBtoUSART_WritePtr c"
    "USBtoUSART_ReadPtr c1 = USBtoUSART_ReadPtr c"
    by (auto simp del: usb_fold.simps)
  have "k \<le> 255" if "k \<in> set ks" for k
    using member_le_sum_list [OF that] assms(18) short by simp
  then have ks: "\<forall>k\<in>set ks. 0 < k \<and> k \<le> 255" using assms(19) by blast
  obtain q buf w rp where run: "link_run past task ready ks (u1, c) = Some (u1\<lparr>un_out := q\<rparr>, set_rx buf w rp c1)"
    and rx: "rx_contents (set_rx buf w rp c1) = []"
    using link_run_groups [where task = task and ready = ready, OF u1(2,3) assms(12,13) _ ks c1(1)] assms(18) report(2) by auto
  have chip: "checkEndpoint (set_rx buf w rp c1)" "tx_idle (set_rx buf w rp c1)"
    using c1 assms(15) by (simp_all add: set_rx_def tx_idle_def)
  from done_frame [OF rx chip] done_received [of USB2USART_BUFLEN "u1\<lparr>un_out := q\<rparr>" env'] run u1 c1 assms(6,7)
  show ?thesis by (fastforce simp: USB2USART_BUFLEN_def set_rx_def)
qed


definition ring_at_rest :: lufa_ring where
  "ring_at_rest = lufa_InitBuffer (replicate 128 0) 128"

lemma ring_at_rest [simp]:
  "lufa_inv USART2USB_BUFLEN ring_at_rest" "lufa_inv USB2USART_BUFLEN ring_at_rest"
  "lufa_inv 128 ring_at_rest" "lufa_contents ring_at_rest = []"
  by (simp_all add: ring_at_rest_def lufa_inv_def lufa_InitBuffer_def lufa_contents_def
      USART2USB_BUFLEN_def USB2USART_BUFLEN_def)

definition chip_at_rest :: usb_chip where
  "chip_at_rest = \<lparr>us_rxbuf = replicate 256 0, USARTtoUSB_WritePtr = 0, USARTtoUSB_ReadPtr = 0,
     us_txbuf = replicate 128 0, USBtoUSART_WritePtr = 0, USBtoUSART_ReadPtr = 0, UCSR1B = 0x98,
     us_state = 0, us_packetCount = 0, currentEndpoint = XINPUT_EPADDR_IN, checkEndpoint = False,
     us_selected = 0, us_bank = (\<lambda>_. []), us_sent = [], us_overrun = False, us_deviceType = 0, us_ee_id = 0,
     us_ee_type = 0, jmpToBootloader = 0\<rparr>"

lemma chip_at_rest [simp]:
  "rx_inv chip_at_rest" "rx_contents chip_at_rest = []" "us_state chip_at_rest = 0" "tx_idle chip_at_rest"
  "us_bank chip_at_rest ep = []" "us_sent chip_at_rest = []" "\<not> us_overrun chip_at_rest" "\<not> checkEndpoint chip_at_rest"
  by (simp_all add: chip_at_rest_def rx_inv_def rx_contents_def tx_idle_def USB2USART_BUFLEN_def)

text \<open>An idle board whose controller has just pressed its first button.\<close>

definition pressed_uno :: "('i, 'p, 'd) uno \<Rightarrow> ('i, 'p, 'd) uno" where
  "pressed_uno u = u\<lparr>un_board := blank_board, un_drum := False, un_prev := blank_controller,
     un_controller := blank_controller\<lparr>buttons := 1\<rparr>, un_in := ring_at_rest, un_out := ring_at_rest,
     readyForPacket := True, rx_state := 0\<rparr>"

lemma pressed_uno [simp]:
  "un_prev (pressed_uno u) \<noteq> blank_controller\<lparr>buttons := 1\<rparr>" "readyForPacket (pressed_uno u)"
  "rx_state (pressed_uno u) = 0" "un_in (pressed_uno u) = ring_at_rest"
  "un_out (pressed_uno u) = ring_at_rest" "un_reports (pressed_uno u) = un_reports u"
  "un_controller (pressed_uno u) = blank_controller\<lparr>buttons := 1\<rparr>" "\<not> un_drum (pressed_uno u)"
  "un_board (pressed_uno u) = blank_board"
  by (simp_all add: pressed_uno_def blank_controller_def)

definition xinput_blank :: USB_XInputReport_Data_t where
  "xinput_blank = \<lparr>xi_rid = 0, xi_rsize = 0, xi_data = blank_controller, xi_reserved = replicate 6 0\<rparr>"

text \<open>The press, in three pieces, as a 20-byte packet on the XInput endpoint.\<close>

theorem report_reaches_host_witness:
  "\<forall>env u. \<exists>u1 u2 c2.
     send_report env (pressed_uno (u\<lparr>un_reports := (un_reports u)\<lparr>rp_filler := XInputFiller,
       rp_xinput := xinput_blank\<rparr>\<rparr>)) = Inr u1 \<and>
     link_run (\<lambda>_. 0) id (\<lambda>_. False) [1, 20, 1] (u1, chip_at_rest) = Some (u2, c2) \<and>
     us_sent c2 = [(0x82, [0, 20, 1, 0] @ replicate 16 0)]"
proof (intro allI)
  fix env :: "('i, 'p, 'd) uno_env" and u :: "('i, 'p, 'd) uno"
  define v where "v = pressed_uno (u\<lparr>un_reports := (un_reports u)\<lparr>rp_filler := XInputFiller,
       rp_xinput := xinput_blank\<rparr>\<rparr>)"
  define bs where "bs = xinput_bytes (snd (fillXInputReport (blank_controller\<lparr>buttons := 1\<rparr>) xinput_blank))"
  have bs: "bs = [0, 20, 1, 0] @ replicate 16 0" unfolding bs_def by code_simp
  have fill: "\<exists>r. fillReport (un_drum v) (ue_beyond env) (bd_fullDeviceType (un_board v))
      (bd_input (un_board v)) (un_controller v) (un_reports v) = Some (20, bs, r)"
    by (simp add: v_def fillReport_def bs_def fillXInputReport_def)
  have ep: "endpoint_of (\<lambda>_. 0) (hd bs) = 0x82" unfolding bs by code_simp
  from fill obtain r where r: "fillReport (un_drum v) (ue_beyond env) (bd_fullDeviceType (un_board v))
      (bd_input (un_board v)) (un_controller v) (un_reports v) = Some (20, bs, r)" ..
  have len: "length bs = 20" by (simp add: bs)
  have rest: "un_prev v \<noteq> un_controller v" "readyForPacket v" "rx_state v = 0"
    "un_out v = ring_at_rest" "un_in v = ring_at_rest"
    by (simp_all add: v_def)
  have packet: "packet_of bs = bs" by (simp add: bs packet_of_def id_stripped_def)
  obtain u1 u2 c2 where "send_report env v = Inr u1"
    "link_run (\<lambda>_. 0) id (\<lambda>_. False) [1, 20, 1] (u1, chip_at_rest) = Some (u2, c2)"
    "us_sent c2 = [(0x82, bs)]"
    using report_reaches_host [OF rest(1-3) _ _ _ _ r, of chip_at_rest "\<lambda>_. 0" "[1, 20, 1]" id "\<lambda>_. False" env]
      ep rest(4,5) len
    by (auto simp: USART2USB_BUFLEN_def packet simp del: link_run.simps)
  then show "\<exists>u1 u2 c2. send_report env (pressed_uno (u\<lparr>un_reports := (un_reports u)\<lparr>
       rp_filler := XInputFiller, rp_xinput := xinput_blank\<rparr>\<rparr>)) = Inr u1 \<and>
     link_run (\<lambda>_. 0) id (\<lambda>_. False) [1, 20, 1] (u1, chip_at_rest) = Some (u2, c2) \<and>
     us_sent c2 = [(0x82, [0, 20, 1, 0] @ replicate 16 0)]"
    unfolding v_def bs by (intro exI conjI) simp_all
qed

text \<open>A MIDI report in which nothing changed is its id alone.\<close>

lemma midi_report_empty:
  assumes "length prev = 22" "length (midi_events r) = 22"
    and "\<forall>i<22. midi_type m ! i \<noteq> midi_val DISABLED \<longrightarrow> drop_bit 1 (getVelocity d s c i) = prev ! i"
  shows "\<exists>prev' r'. fillMIDIReport d s m c (prev, r) = Some (1, prev', r') \<and>
    (\<exists>bs. midi_bytes r' = report_id REPORT_ID_MIDI # bs)"
proof -
  have "midi_changed (getVelocity d s c) m prev [0..<22] = []"
    using assms(3) by (auto simp: midi_changed_def filter_empty_conv)
  with midi_loop_events [of "[0..<22]" prev 0 "midi_events r" "getVelocity d s c" m] assms(1,2)
  show ?thesis
    by (auto simp: fillMIDIReport_def XBOX_BTN_COUNT_def XBOX_AXIS_COUNT_def midi_bytes_def
        simp del: upt.simps)
qed

lemma usb_fold_id_alone:
  assumes "us_state c = 0"
  shows "\<exists>c'. usb_fold past [FRAME_START_WRITE, 1, report_id REPORT_ID_MIDI] c = (False, [], c') \<and>
    us_sent c' = us_sent c \<and> us_state c' = 3 \<and> us_packetCount c' = 0 \<and>
    checkEndpoint c' = checkEndpoint c"
  using assms
  by (simp add: usb_byte_def Let_def id_stripped_def Endpoint_SelectEndpoint_def)

text \<open>
  C16: a controller on MIDI that changed without changing the velocity of any enabled input (a button
  without a note, a stick by less than one of its 128 steps) stops the device: the report is its id alone, the USB chip consumes
  it without handing over a packet and waits for 256 more bytes, the answer the 328P waits for never
  comes, and no later movement of the controller is sent.
\<close>

theorem midi_report_stalls:
  assumes "un_prev u \<noteq> un_controller u" "readyForPacket u"
    and "lufa_inv USART2USB_BUFLEN (un_out u)" "lufa_contents (un_out u) = []"
    and "rp_filler (un_reports u) = MIDIFiller" "length (rp_lastmidi (un_reports u)) = 22"
    and "length (midi_events (rp_midi (un_reports u))) = 22"
    and "\<forall>i<22. midi_type (rp_midiConfig (un_reports u)) ! i \<noteq> midi_val DISABLED \<longrightarrow>
           drop_bit 1 (getVelocity (un_drum u) (bd_input (un_board u)) (un_controller u) i) =
           rp_lastmidi (un_reports u) ! i"
    and "rx_inv c" "rx_contents c = []" "us_state c = 0" "\<not> checkEndpoint c"
    and "sum_list ks = 3" "\<forall>k\<in>set ks. 0 < k"
  shows "\<exists>u1 u2 c2. send_report env u = Inr u1 \<and> link_run past task ready ks (u1, c) = Some (u2, c2) \<and>
    us_sent c2 = us_sent c \<and> us_state c2 = 3 \<and> us_packetCount c2 = 0 \<and>
    (\<forall>ready. usb_step past id ready c2 = Some c2) \<and> \<not> readyForPacket u2 \<and>
    (\<forall>env x. send_report env (u2\<lparr>un_controller := x\<rparr>) = Inr (u2\<lparr>un_controller := x\<rparr>))"
proof -
  obtain r bs where fill: "fillReport (un_drum u) (ue_beyond env) (bd_fullDeviceType (un_board u))
      (bd_input (un_board u)) (un_controller u) (un_reports u) = Some (1, report_id REPORT_ID_MIDI # bs, r)"
    using midi_report_empty [OF assms(6-8)] assms(5)
    by (auto simp: fillReport_def)
  from send_report_frame [OF assms(1-4) fill]
  obtain u1 where u1: "send_report env u = Inr u1" "lufa_inv USART2USB_BUFLEN (un_out u1)"
    "lufa_contents (un_out u1) = [FRAME_START_WRITE, 1, report_id REPORT_ID_MIDI]" "\<not> readyForPacket u1"
    by (auto simp: USART2USB_BUFLEN_def)
  obtain c1 where c1: "usb_fold past [FRAME_START_WRITE, 1, report_id REPORT_ID_MIDI] c = (False, [], c1)"
    "us_sent c1 = us_sent c" "us_state c1 = 3" "us_packetCount c1 = 0" "\<not> checkEndpoint c1"
    using usb_fold_id_alone [OF assms(11), of past] assms(12) by blast
  have "k \<le> 255" if "k \<in> set ks" for k
    using member_le_sum_list [OF that] assms(13) by simp
  then have ks: "\<forall>k\<in>set ks. 0 < k \<and> k \<le> 255" using assms(14) by blast
  obtain q buf w rp where run: "link_run past task ready ks (u1, c) = Some (u1\<lparr>un_out := q\<rparr>, set_rx buf w rp c1)"
    and rx: "rx_contents (set_rx buf w rp c1) = []"
    using link_run_groups [where task = task and ready = ready, OF u1(2,3) assms(9,10) _ ks c1(1)] assms(13)
    by auto
  have "unat (w - rp) = 0"
    using rx length_rx_contents [of "set_rx buf w rp c1"] by (simp add: set_rx_def)
  then have "w - rp = 0" by (simp add: unsigned_eq_0_iff)
  with c1(5) have "usb_step past id ready (set_rx buf w rp c1) = Some (set_rx buf w rp c1)" for ready
    by (simp add: usb_step_def set_rx_def Let_def)
  with run u1 c1 show ?thesis by (auto simp: send_report_def set_rx_def)
qed


text \<open>The press of a button that has no note.\<close>

definition no_notes :: MidiConfig_t where
  "no_notes = \<lparr>midi_type = replicate 22 0, midi_note = replicate 22 0, midi_channel = replicate 22 0\<rparr>"

theorem midi_report_stalls_witness:
  "\<forall>env u. \<exists>u1 u2 c2.
     send_report env (pressed_uno (u\<lparr>un_reports := (un_reports u)\<lparr>rp_filler := MIDIFiller,
       rp_midiConfig := no_notes, rp_lastmidi := replicate 22 0, rp_midi := midi_blank\<rparr>\<rparr>)) = Inr u1 \<and>
     link_run (\<lambda>_. 0) id (\<lambda>_. False) [2, 1] (u1, chip_at_rest) = Some (u2, c2) \<and>
     us_sent c2 = [] \<and> us_state c2 = 3"
proof (intro allI)
  fix env :: "('i, 'p, 'd) uno_env" and u :: "('i, 'p, 'd) uno"
  let ?v = "pressed_uno (u\<lparr>un_reports := (un_reports u)\<lparr>rp_filler := MIDIFiller,
       rp_midiConfig := no_notes, rp_lastmidi := replicate 22 0, rp_midi := midi_blank\<rparr>\<rparr>)"
  have "\<forall>i<22. midi_type no_notes ! i = midi_val DISABLED" by (simp add: no_notes_def)
  then show "\<exists>u1 u2 c2. send_report env ?v = Inr u1 \<and>
     link_run (\<lambda>_. 0) id (\<lambda>_. False) [2, 1] (u1, chip_at_rest) = Some (u2, c2) \<and>
     us_sent c2 = [] \<and> us_state c2 = 3"
    using midi_report_stalls [of ?v chip_at_rest "[2, 1]" env "\<lambda>_. 0" id "\<lambda>_. False"]
    by (fastforce simp: midi_blank_def)
qed

end
