(* ===== verification/Descriptors.thy ===== *)
theory Descriptors
  imports UnoUsb
begin

text \<open>
  What the device tells the host about itself (\<open>src/src/shared/output/descriptors.c\<close> and
  \<open>descriptors.h\<close>): the two HID report descriptors, the device and the configuration descriptor,
  the strings and the tables of vendor and product ids; with an interpreter of HID descriptors and a
  walk through USB descriptors, which are the host's view of the bytes.
\<close>

section \<open>HID items\<close>

text \<open>LUFA's HIDReportData.h: a prefix byte of tag, type and size, then the data, low byte first.\<close>

fun HID_RI_ENCODE :: "nat \<Rightarrow> int \<Rightarrow> u8 list" where
  "HID_RI_ENCODE n d =
     (if n = 8 then [word_of_int d] else if n = 16 then le16 (word_of_int d) else [])"

definition HID_RI_ENTRY :: "u8 \<Rightarrow> u8 \<Rightarrow> nat \<Rightarrow> int \<Rightarrow> u8 list" where
  "HID_RI_ENTRY type tag n d = (type OR tag OR of_nat (n div 8)) # HID_RI_ENCODE n d"

abbreviation HID_RI_INPUT where "HID_RI_INPUT \<equiv> HID_RI_ENTRY 0x00 0x80"
abbreviation HID_RI_OUTPUT where "HID_RI_OUTPUT \<equiv> HID_RI_ENTRY 0x00 0x90"
abbreviation HID_RI_COLLECTION where "HID_RI_COLLECTION \<equiv> HID_RI_ENTRY 0x00 0xA0"
abbreviation HID_RI_FEATURE where "HID_RI_FEATURE \<equiv> HID_RI_ENTRY 0x00 0xB0"
abbreviation HID_RI_END_COLLECTION where "HID_RI_END_COLLECTION \<equiv> HID_RI_ENTRY 0x00 0xC0"
abbreviation HID_RI_USAGE_PAGE where "HID_RI_USAGE_PAGE \<equiv> HID_RI_ENTRY 0x04 0x00"
abbreviation HID_RI_LOGICAL_MINIMUM where "HID_RI_LOGICAL_MINIMUM \<equiv> HID_RI_ENTRY 0x04 0x10"
abbreviation HID_RI_LOGICAL_MAXIMUM where "HID_RI_LOGICAL_MAXIMUM \<equiv> HID_RI_ENTRY 0x04 0x20"
abbreviation HID_RI_PHYSICAL_MINIMUM where "HID_RI_PHYSICAL_MINIMUM \<equiv> HID_RI_ENTRY 0x04 0x30"
abbreviation HID_RI_PHYSICAL_MAXIMUM where "HID_RI_PHYSICAL_MAXIMUM \<equiv> HID_RI_ENTRY 0x04 0x40"
abbreviation HID_RI_UNIT where "HID_RI_UNIT \<equiv> HID_RI_ENTRY 0x04 0x60"
abbreviation HID_RI_REPORT_SIZE where "HID_RI_REPORT_SIZE \<equiv> HID_RI_ENTRY 0x04 0x70"
abbreviation HID_RI_REPORT_ID where "HID_RI_REPORT_ID \<equiv> HID_RI_ENTRY 0x04 0x80"
abbreviation HID_RI_REPORT_COUNT where "HID_RI_REPORT_COUNT \<equiv> HID_RI_ENTRY 0x04 0x90"
abbreviation HID_RI_USAGE where "HID_RI_USAGE \<equiv> HID_RI_ENTRY 0x08 0x00"
abbreviation HID_RI_USAGE_MINIMUM where "HID_RI_USAGE_MINIMUM \<equiv> HID_RI_ENTRY 0x08 0x10"
abbreviation HID_RI_USAGE_MAXIMUM where "HID_RI_USAGE_MAXIMUM \<equiv> HID_RI_ENTRY 0x08 0x20"

text \<open>The flags of a main item; those not named (data, array, absolute, ...) are 0.\<close>

abbreviation (input) HID_IOF_CONSTANT :: int where "HID_IOF_CONSTANT \<equiv> 1"
abbreviation (input) HID_IOF_VARIABLE :: int where "HID_IOF_VARIABLE \<equiv> 2"
abbreviation (input) HID_IOF_RELATIVE :: int where "HID_IOF_RELATIVE \<equiv> 4"
abbreviation (input) HID_IOF_NULLSTATE :: int where "HID_IOF_NULLSTATE \<equiv> 64"

section \<open>The report descriptors\<close>

definition ps3_report_descriptor :: "u8 list" where
  "ps3_report_descriptor = concat [
    HID_RI_USAGE_PAGE 8 0x01, HID_RI_USAGE 8 0x05, HID_RI_COLLECTION 8 1,
    HID_RI_LOGICAL_MINIMUM 8 0, HID_RI_LOGICAL_MAXIMUM 8 1,
    HID_RI_PHYSICAL_MINIMUM 8 0, HID_RI_PHYSICAL_MAXIMUM 8 1,
    HID_RI_REPORT_SIZE 8 1, HID_RI_REPORT_COUNT 8 13,
    HID_RI_USAGE_PAGE 8 0x09, HID_RI_USAGE_MINIMUM 8 0x01, HID_RI_USAGE_MAXIMUM 8 0x0D,
    HID_RI_INPUT 8 HID_IOF_VARIABLE,
    HID_RI_REPORT_COUNT 8 0x03, HID_RI_INPUT 8 HID_IOF_CONSTANT,
    HID_RI_USAGE_PAGE 8 0x01, HID_RI_LOGICAL_MAXIMUM 8 7, HID_RI_PHYSICAL_MAXIMUM 16 315,
    HID_RI_REPORT_SIZE 8 4, HID_RI_REPORT_COUNT 8 0x01, HID_RI_UNIT 8 0x14, HID_RI_USAGE 8 0x39,
    HID_RI_INPUT 8 (HID_IOF_VARIABLE + HID_IOF_NULLSTATE),
    HID_RI_UNIT 8 0, HID_RI_REPORT_COUNT 8 0x01, HID_RI_INPUT 8 HID_IOF_CONSTANT,
    HID_RI_LOGICAL_MAXIMUM 16 255, HID_RI_PHYSICAL_MAXIMUM 16 255,
    HID_RI_USAGE 8 0x30, HID_RI_USAGE 8 0x31, HID_RI_USAGE 8 0x32, HID_RI_USAGE 8 0x35,
    HID_RI_REPORT_SIZE 8 8, HID_RI_REPORT_COUNT 8 4, HID_RI_INPUT 8 HID_IOF_VARIABLE,
    HID_RI_USAGE_PAGE 16 0xFF00,
    HID_RI_USAGE 8 0x20, HID_RI_USAGE 8 0x21, HID_RI_USAGE 8 0x22, HID_RI_USAGE 8 0x23,
    HID_RI_USAGE 8 0x24, HID_RI_USAGE 8 0x25, HID_RI_USAGE 8 0x26, HID_RI_USAGE 8 0x27,
    HID_RI_USAGE 8 0x28, HID_RI_USAGE 8 0x29, HID_RI_USAGE 8 0x2A, HID_RI_USAGE 8 0x2B,
    HID_RI_REPORT_COUNT 8 12, HID_RI_INPUT 8 HID_IOF_VARIABLE,
    HID_RI_USAGE 16 0x2621, HID_RI_REPORT_COUNT 8 32, HID_RI_FEATURE 8 HID_IOF_VARIABLE,
    HID_RI_USAGE 16 0x2621, HID_RI_OUTPUT 8 HID_IOF_VARIABLE,
    HID_RI_LOGICAL_MAXIMUM 16 1023, HID_RI_PHYSICAL_MAXIMUM 16 1023,
    HID_RI_USAGE 8 0x2C, HID_RI_USAGE 8 0x2D, HID_RI_USAGE 8 0x2E, HID_RI_USAGE 8 0x2F,
    HID_RI_REPORT_SIZE 8 16, HID_RI_REPORT_COUNT 8 4, HID_RI_INPUT 8 HID_IOF_VARIABLE,
    HID_RI_END_COLLECTION 0 0]"

definition Buttons :: int where "Buttons = 4"

definition kbd_report_descriptor :: "u8 list" where
  "kbd_report_descriptor = concat [
    HID_RI_USAGE_PAGE 8 0x01, HID_RI_USAGE 8 0x06, HID_RI_COLLECTION 8 1,
    HID_RI_REPORT_ID 8 (uint (report_id REPORT_ID_KBD)),
    HID_RI_USAGE_PAGE 8 0x07, HID_RI_USAGE_MINIMUM 8 0xE0, HID_RI_USAGE_MAXIMUM 8 0xE7,
    HID_RI_LOGICAL_MINIMUM 8 0x00, HID_RI_LOGICAL_MAXIMUM 8 0x01,
    HID_RI_REPORT_SIZE 8 0x01, HID_RI_REPORT_COUNT 8 0x08, HID_RI_INPUT 8 HID_IOF_VARIABLE,
    HID_RI_REPORT_COUNT 8 0x01, HID_RI_REPORT_SIZE 8 0x08, HID_RI_INPUT 8 HID_IOF_CONSTANT,
    HID_RI_USAGE_PAGE 8 0x08, HID_RI_USAGE_MINIMUM 8 0x01, HID_RI_USAGE_MAXIMUM 8 0x05,
    HID_RI_REPORT_COUNT 8 0x05, HID_RI_REPORT_SIZE 8 0x01, HID_RI_OUTPUT 8 HID_IOF_VARIABLE,
    HID_RI_REPORT_COUNT 8 0x01, HID_RI_REPORT_SIZE 8 0x03, HID_RI_OUTPUT 8 HID_IOF_CONSTANT,
    HID_RI_LOGICAL_MINIMUM 8 0x00, HID_RI_LOGICAL_MAXIMUM 16 0xFF,
    HID_RI_USAGE_PAGE 8 0x07, HID_RI_USAGE_MINIMUM 8 0x00, HID_RI_USAGE_MAXIMUM 8 0xFF,
    HID_RI_REPORT_COUNT 8 (int SIMULTANEOUS_KEYS), HID_RI_REPORT_SIZE 8 0x08, HID_RI_INPUT 8 0,
    HID_RI_END_COLLECTION 0 0,
    HID_RI_USAGE_PAGE 8 0x01, HID_RI_USAGE 8 0x02, HID_RI_COLLECTION 8 1,
    HID_RI_REPORT_ID 8 (uint (report_id REPORT_ID_MOUSE)),
    HID_RI_USAGE 8 0x01, HID_RI_COLLECTION 8 0,
    HID_RI_USAGE_PAGE 8 0x09, HID_RI_USAGE_MINIMUM 8 0x01, HID_RI_USAGE_MAXIMUM 8 Buttons,
    HID_RI_LOGICAL_MINIMUM 8 0x00, HID_RI_LOGICAL_MAXIMUM 8 0x01,
    HID_RI_REPORT_COUNT 8 Buttons, HID_RI_REPORT_SIZE 8 0x01, HID_RI_INPUT 8 HID_IOF_VARIABLE,
    HID_RI_REPORT_SIZE 8 (8 - Buttons mod 8), HID_RI_REPORT_COUNT 8 0x01,
    HID_RI_INPUT 8 (HID_IOF_CONSTANT + HID_IOF_VARIABLE),
    HID_RI_USAGE_PAGE 8 0x01, HID_RI_USAGE 8 0x30, HID_RI_USAGE 8 0x31, HID_RI_USAGE 8 0x38,
    HID_RI_LOGICAL_MINIMUM 8 (- 127), HID_RI_LOGICAL_MAXIMUM 8 127,
    HID_RI_REPORT_COUNT 8 0x03, HID_RI_REPORT_SIZE 8 8,
    HID_RI_INPUT 8 (HID_IOF_VARIABLE + HID_IOF_RELATIVE),
    HID_RI_USAGE_PAGE 8 0x0C, HID_RI_USAGE 16 0x0238,
    HID_RI_LOGICAL_MINIMUM 16 (- 127), HID_RI_LOGICAL_MAXIMUM 16 127,
    HID_RI_REPORT_COUNT 8 0x01, HID_RI_REPORT_SIZE 8 8,
    HID_RI_INPUT 8 (HID_IOF_VARIABLE + HID_IOF_RELATIVE),
    HID_RI_END_COLLECTION 0 0, HID_RI_END_COLLECTION 0 0]"

lemma report_descriptor_lengths:
  "length ps3_report_descriptor = 137" "length kbd_report_descriptor = 137"
  by code_simp+

section \<open>A host's reading of a report descriptor\<close>

text \<open>
  The items the two descriptors use, as the HID specification defines them: global items last until
  they are changed, local items (usages, as ranges) until the next main item, which makes a field of
  \<open>REPORT_COUNT\<close> elements of \<open>REPORT_SIZE\<close> bits.
\<close>

record hid_field =
  hf_tag :: u8
  hf_id :: nat
  hf_page :: nat
  hf_usages :: "(nat \<times> nat) list"
  hf_size :: nat
  hf_count :: nat
  hf_flags :: nat

record hid_state =
  hs_id :: nat
  hs_page :: nat
  hs_usages :: "(nat \<times> nat) list"
  hs_size :: nat
  hs_count :: nat
  hs_fields :: "hid_field list"

definition hid_datum :: "u8 list \<Rightarrow> nat" where
  "hid_datum bs = horner_sum unat 256 bs"

text \<open>The main items are those of type 0; a collection only ends the life of the local items.\<close>

definition hid_item :: "u8 \<Rightarrow> nat \<Rightarrow> hid_state \<Rightarrow> hid_state" where
  "hid_item p d s =
     (if p = 0x80 \<or> p = 0x90 \<or> p = 0xB0
      then s\<lparr>hs_fields := hs_fields s @
               [\<lparr>hf_tag = p, hf_id = hs_id s, hf_page = hs_page s, hf_usages = hs_usages s,
                 hf_size = hs_size s, hf_count = hs_count s, hf_flags = d\<rparr>],
             hs_usages := []\<rparr>
      else if p = 0xA0 \<or> p = 0xC0 then s\<lparr>hs_usages := []\<rparr>
      else if p = 0x04 then s\<lparr>hs_page := d\<rparr>
      else if p = 0x74 then s\<lparr>hs_size := d\<rparr>
      else if p = 0x84 then s\<lparr>hs_id := d\<rparr>
      else if p = 0x94 then s\<lparr>hs_count := d\<rparr>
      else if p = 0x08 then s\<lparr>hs_usages := hs_usages s @ [(d, d)]\<rparr>
      else if p = 0x18 then s\<lparr>hs_usages := hs_usages s @ [(d, d)]\<rparr>
      else if p = 0x28 then s\<lparr>hs_usages := butlast (hs_usages s) @ [(fst (last (hs_usages s)), d)]\<rparr>
      else s)"

function hid_parse :: "u8 list \<Rightarrow> hid_state \<Rightarrow> hid_state option" where
  "hid_parse [] s = Some s"
| "hid_parse (p # bs) s =
     (let n = (case unat (p AND 3) of 0 \<Rightarrow> 0 | Suc 0 \<Rightarrow> 1 | Suc (Suc 0) \<Rightarrow> 2 | _ \<Rightarrow> 4)
      in if length bs < n then None
         else hid_parse (drop n bs) (hid_item (p AND 0xFC) (hid_datum (take n bs)) s))"
  by pat_completeness auto
termination by (relation "measure (\<lambda>(bs, s). length bs)") auto

definition hid_fields :: "u8 list \<Rightarrow> hid_field list" where
  "hid_fields desc =
     (case hid_parse desc \<lparr>hs_id = 0, hs_page = 0, hs_usages = [], hs_size = 0, hs_count = 0, hs_fields = []\<rparr> of
        None \<Rightarrow> [] | Some s \<Rightarrow> hs_fields s)"

text \<open>The input fields of a report with the bits they start at, after the report's id.\<close>

fun lay_out :: "nat \<Rightarrow> hid_field list \<Rightarrow> (nat \<times> hid_field) list" where
  "lay_out k [] = []"
| "lay_out k (f # fs) = (k, f) # lay_out (k + hf_size f * hf_count f) fs"

definition input_layout :: "u8 list \<Rightarrow> nat \<Rightarrow> (nat \<times> hid_field) list" where
  "input_layout desc rid = lay_out 0 (filter (\<lambda>f. hf_tag f = 0x80 \<and> hf_id f = rid) (hid_fields desc))"

definition input_bits :: "u8 list \<Rightarrow> nat \<Rightarrow> nat" where
  "input_bits desc rid = sum_list (map (\<lambda>(k, f). hf_size f * hf_count f) (input_layout desc rid))"

text \<open>The bits of each usage of the variable fields, and of the arrays.\<close>

definition usages_of :: "hid_field \<Rightarrow> nat list" where
  "usages_of f = concat (map (\<lambda>(a, b). [a..<b + 1]) (hf_usages f))"

definition host_table :: "u8 list \<Rightarrow> nat \<Rightarrow> ((nat \<times> nat) \<times> nat \<times> nat) list" where
  "host_table desc rid = concat (map (\<lambda>(k, f).
     if hf_flags f mod 4 = 2
     then map (\<lambda>(u, i). ((hf_page f, u), k + i * hf_size f, hf_size f)) (zip (usages_of f) [0..<hf_count f])
     else []) (input_layout desc rid))"

definition host_arrays :: "u8 list \<Rightarrow> nat \<Rightarrow> (nat \<times> nat \<times> nat) list" where
  "host_arrays desc rid = map (\<lambda>(k, f). (k, hf_size f, hf_count f))
     (filter (\<lambda>(k, f). hf_flags f mod 4 = 0) (input_layout desc rid))"

definition bits_at :: "u8 list \<Rightarrow> nat \<Rightarrow> nat \<Rightarrow> nat" where
  "bits_at bs k n = horner_sum of_bool 2 (map (\<lambda>i. bit (bs ! (i div 8)) (i mod 8)) [k..<k + n])"

text \<open>What the host reads for a usage, and in the arrays, from a report of that id.\<close>

definition host_value :: "u8 list \<Rightarrow> nat \<Rightarrow> u8 list \<Rightarrow> nat \<times> nat \<Rightarrow> nat option" where
  "host_value desc rid bs pu = map_option (\<lambda>(k, n). bits_at bs k n) (map_of (host_table desc rid) pu)"

definition host_array_values :: "u8 list \<Rightarrow> nat \<Rightarrow> u8 list \<Rightarrow> nat list list" where
  "host_array_values desc rid bs =
     map (\<lambda>(k, n, c). map (\<lambda>i. bits_at bs (k + i * n) n) [0..<c]) (host_arrays desc rid)"

text \<open>The parser on the descriptors' own items.\<close>

lemma hid_prefix:
  fixes p :: u8
  assumes "p AND 3 = 0" "k = 0 \<or> k = 1 \<or> k = 2"
  shows "(p OR k) AND 3 = k" "(p OR k) AND 0xFC = p"
proof -
  have "bit (p AND 3) 0 = False" "bit (p AND 3) 1 = False" using assms(1) by simp_all
  then have p: "\<not> bit p 0" "\<not> bit p (Suc 0)" by (simp_all add: bit_simps)
  show "(p OR k) AND 3 = k" "(p OR k) AND 0xFC = p"
    using assms(2) p by (elim disjE; intro u8_eqI; simp add: lt8 bit_simps)+
qed

lemma hid_parse_entry:
  assumes "(ty OR tag) AND 3 = 0" "n = 0 \<or> n = 8 \<or> n = 16"
  shows "hid_parse (HID_RI_ENTRY ty tag n d @ bs) s =
    hid_parse bs (hid_item (ty OR tag) (hid_datum (HID_RI_ENCODE n d)) s)"
  using assms hid_prefix [of "ty OR tag" "of_nat (n div 8)"]
  by (auto simp: HID_RI_ENTRY_def or.assoc le16_def)

lemmas hid_run = hid_parse_entry hid_parse_entry [where bs = "[]", simplified] hid_item_def hid_datum_def le16_def

definition field :: "u8 \<Rightarrow> nat \<Rightarrow> nat \<Rightarrow> (nat \<times> nat) list \<Rightarrow> nat \<Rightarrow> nat \<Rightarrow> nat \<Rightarrow> hid_field" where
  "field tag rid page us sz count flags =
     \<lparr>hf_tag = tag, hf_id = rid, hf_page = page, hf_usages = us, hf_size = sz, hf_count = count,
      hf_flags = flags\<rparr>"

lemma ps3_fields: "hid_fields ps3_report_descriptor =
  [field 0x80 0 9 [(1, 13)] 1 13 2, field 0x80 0 9 [] 1 3 1, field 0x80 0 1 [(0x39, 0x39)] 4 1 66,
   field 0x80 0 1 [] 4 1 1, field 0x80 0 1 [(0x30, 0x30), (0x31, 0x31), (0x32, 0x32), (0x35, 0x35)] 8 4 2,
   field 0x80 0 0xFF00 (map (\<lambda>u. (u, u)) [0x20..<0x2C]) 8 12 2,
   field 0xB0 0 0xFF00 [(0x2621, 0x2621)] 8 32 2, field 0x90 0 0xFF00 [(0x2621, 0x2621)] 8 32 2,
   field 0x80 0 0xFF00 (map (\<lambda>u. (u, u)) [0x2C..<0x30]) 16 4 2]"
  unfolding hid_fields_def ps3_report_descriptor_def concat.simps
  by (simp add: hid_run field_def)

lemma kbd_fields: "hid_fields kbd_report_descriptor =
  [field 0x80 6 7 [(0xE0, 0xE7)] 1 8 2, field 0x80 6 7 [] 8 1 1,
   field 0x90 6 8 [(1, 5)] 1 5 2, field 0x90 6 8 [] 3 1 1, field 0x80 6 7 [(0, 0xFF)] 8 6 0,
   field 0x80 5 9 [(1, 4)] 1 4 2, field 0x80 5 9 [] 4 1 3,
   field 0x80 5 1 [(0x30, 0x30), (0x31, 0x31), (0x38, 0x38)] 8 3 6,
   field 0x80 5 0xC [(0x238, 0x238)] 8 1 6]"
  unfolding hid_fields_def kbd_report_descriptor_def concat.simps Buttons_def SIMULTANEOUS_KEYS_def
  by (simp add: hid_run field_def)

lemma ps3_table:
  "input_bits ps3_report_descriptor 0 = 216" "host_arrays ps3_report_descriptor 0 = []"
  "host_table ps3_report_descriptor 0 =
     map (\<lambda>k. ((9, k + 1), k, 1)) [0..<13] @ [((1, 0x39), 16, 4)] @
     [((1, 0x30), 24, 8), ((1, 0x31), 32, 8), ((1, 0x32), 40, 8), ((1, 0x35), 48, 8)] @
     map (\<lambda>k. ((0xFF00, 0x20 + k), 56 + 8 * k, 8)) [0..<12] @
     map (\<lambda>k. ((0xFF00, 0x2C + k), 152 + 16 * k, 16)) [0..<4]"
  by (simp_all add: ps3_fields host_table_def host_arrays_def input_bits_def input_layout_def field_def
      usages_of_def upt_rec del: upt.simps)

lemma kbd_table:
  "input_bits kbd_report_descriptor 6 = 64" "host_arrays kbd_report_descriptor 6 = [(16, 8, 6)]"
  "host_table kbd_report_descriptor 6 = map (\<lambda>k. ((7, 0xE0 + k), k, 1)) [0..<8]"
  by (simp_all add: kbd_fields host_table_def host_arrays_def input_bits_def input_layout_def field_def
      usages_of_def upt_rec del: upt.simps)

lemma mouse_table:
  "input_bits kbd_report_descriptor 5 = 40" "host_arrays kbd_report_descriptor 5 = []"
  "host_table kbd_report_descriptor 5 =
     map (\<lambda>k. ((9, k + 1), k, 1)) [0..<4] @
     [((1, 0x30), 8, 8), ((1, 0x31), 16, 8), ((1, 0x38), 24, 8), ((0xC, 0x238), 32, 8)]"
  by (simp_all add: kbd_fields host_table_def host_arrays_def input_bits_def input_layout_def field_def
      usages_of_def upt_rec del: upt.simps)

section \<open>Reading the bits of a report\<close>

lemma bits_at_byte:
  assumes "k + n \<le> 8"
  shows "bits_at bs (8 * i + k) n = take_bit n (drop_bit k (unat (bs ! i)))"
proof -
  have "[8 * i + k..<8 * i + k + n] = map (\<lambda>j. 8 * i + k + j) [0..<n]"
    by (simp add: map_add_upt [symmetric] add.commute)
  moreover have "bit (bs ! ((8 * i + k + j) div 8)) ((8 * i + k + j) mod 8) =
      bit (drop_bit k (unat (bs ! i))) j" if "j < n" for j
    using that assms by (auto simp: bit_drop_bit_eq bit_unsigned_iff add.assoc)
  ultimately have "map (\<lambda>i. bit (bs ! (i div 8)) (i mod 8)) [8 * i + k..<8 * i + k + n] =
      map (bit (drop_bit k (unat (bs ! i)))) [0..<n]"
    by simp
  then show ?thesis by (simp add: bits_at_def horner_sum_bit_eq_take_bit)
qed

lemma bits_at_whole: "bits_at bs (8 * i) 8 = unat (bs ! i)"
proof -
  have "unat (bs ! i) < 2 ^ 8" using unsigned_less [of "bs ! i"] by simp
  with bits_at_byte [of 0 8 bs i] show ?thesis by (simp add: take_bit_nat_eq_self)
qed

lemma bits_at_add: "bits_at bs k (m + n) = bits_at bs k m + 2 ^ m * bits_at bs (k + m) n"
proof -
  have "[k..<k + (m + n)] = [k..<k + m] @ [k + m..<k + m + n]"
    using upt_add_eq_append [of k "k + m" n] by (simp add: add.assoc)
  then show ?thesis by (simp add: bits_at_def horner_sum_append)
qed

lemma bits_at_pair: "bits_at bs (8 * i) 16 = unat (bs ! i) + 256 * unat (bs ! (i + 1))"
  using bits_at_add [of bs "8 * i" 8 8] bits_at_whole [of bs i] bits_at_whole [of bs "i + 1"]
  by (simp add: add.commute)

lemma bits_at_bit:
  assumes "k < 8"
  shows "bits_at bs (8 * i + k) 1 = of_bool (bit (bs ! i) k)"
proof -
  have "bits_at bs (8 * i + k) 1 = drop_bit k (unat (bs ! i)) mod 2"
    using bits_at_byte [of k 1 bs i] assms by (simp add: take_bit_eq_mod)
  also have "\<dots> = of_bool (bit (unat (bs ! i)) k)"
    by (simp add: bit_iff_odd_drop_bit mod_2_eq_odd)
  finally show ?thesis by (simp add: bit_unsigned_iff)
qed

lemma unat_le16: "unat (le16 w ! 0) + 256 * unat (le16 w ! 1) = unat w"
proof -
  have "unat w < 2 ^ 16" using unsigned_less [of w] by simp
  then have "unat w div 256 < 256" by (simp add: less_mult_imp_div_less)
  then show ?thesis
    by (simp add: le16_def unsigned_ucast_eq drop_bit_eq_div take_bit_eq_mod unat_div)
qed

lemma upt_lists:
  "[0..<4] = [0, 1, 2, 3 :: nat]" "[0..<8] = [0, 1, 2, 3, 4, 5, 6, 7 :: nat]"
  "[0..<12] = [0, 1, 2, 3, 4, 5, 6, 7, 8, 9, 10, 11 :: nat]"
  "[0..<13] = [0, 1, 2, 3, 4, 5, 6, 7, 8, 9, 10, 11, 12 :: nat]"
  by code_simp+

lemma length_four: "length xs = 4 \<Longrightarrow> \<exists>a b c d. xs = [a, b, c, d]"
  by (auto simp: length_Suc_conv eval_nat_numeral)

lemma mouse_reading:
  fixes r
  defines "bs \<equiv> tl (mouse_bytes r)"
  shows "map (host_value kbd_report_descriptor 5 bs) [(9, 1), (9, 2), (9, 3), (9, 4)] =
      map (\<lambda>k. Some (of_bool (bit (mouse_button r) k))) [0, 1, 2, 3]"
    "map (host_value kbd_report_descriptor 5 bs) [(1, 0x30), (1, 0x31), (1, 0x38), (0xC, 0x238)] =
      map (\<lambda>b. Some (unat b)) [mouse_x r, mouse_y r, mouse_scroll_y r, mouse_scroll_x r]"
    "8 * length bs = input_bits kbd_report_descriptor 5"
  using bits_at_bit [of 0 bs 0] bits_at_bit [of 1 bs 0] bits_at_bit [of 2 bs 0] bits_at_bit [of 3 bs 0]
    bits_at_whole [of bs 1] bits_at_whole [of bs 2] bits_at_whole [of bs 3] bits_at_whole [of bs 4]
  by (simp_all add: host_value_def mouse_table bs_def mouse_bytes_def upt_lists numeral_2_eq_2 del: upt.simps split del: split_of_bool)

lemma kbd_reading:
  fixes r
  defines "bs \<equiv> tl (kbd_bytes r)"
  assumes "length (kbd_keys r) = 6"
  shows "map (\<lambda>k. host_value kbd_report_descriptor 6 bs (7, 0xE0 + k)) [0..<8] =
      map (\<lambda>k. Some (of_bool (bit (kbd_modifier r) k))) [0..<8]"
    "host_array_values kbd_report_descriptor 6 bs = [map unat (kbd_keys r)]"
    "8 * length bs = input_bits kbd_report_descriptor 6"
proof -
  have "bits_at bs (0 + k) 1 = of_bool (bit (kbd_modifier r) k)" if "k < 8" for k
    using bits_at_bit [of k bs 0] that by (simp add: bs_def kbd_bytes_def)
  from this [of 0] this [of 1] this [of 2] this [of 3] this [of 4] this [of 5] this [of 6] this [of 7]
  show "map (\<lambda>k. host_value kbd_report_descriptor 6 bs (7, 0xE0 + k)) [0..<8] =
      map (\<lambda>k. Some (of_bool (bit (kbd_modifier r) k))) [0..<8]"
    by (simp add: host_value_def kbd_table upt_lists numeral_2_eq_2 del: upt.simps split del: split_of_bool)
  have "bits_at bs (16 + i * 8) 8 = unat (kbd_keys r ! i)" for i
    using bits_at_whole [of bs "i + 2"] by (simp add: bs_def kbd_bytes_def algebra_simps)
  moreover have "map (\<lambda>i. unat (kbd_keys r ! i)) [0..<6] = map unat (kbd_keys r)"
    by (rule nth_equalityI) (simp_all add: assms(2) del: upt.simps)
  ultimately show "host_array_values kbd_report_descriptor 6 bs = [map unat (kbd_keys r)]"
    by (simp add: host_array_values_def kbd_table)
  show "8 * length bs = input_bits kbd_report_descriptor 6"
    using assms(2) by (simp add: kbd_table bs_def kbd_bytes_def)
qed

lemma ps3_reading:
  fixes r
  defines "bs \<equiv> tl (ps3_bytes r)"
  assumes "length (ps3_axis r) = 12" "length (ps3_accel r) = 4"
  shows "map (\<lambda>k. host_value ps3_report_descriptor 0 bs (9, k + 1)) [0..<13] =
      map (\<lambda>k. Some (of_bool (bit (ps3_buttons r) k))) [0..<13]"
    "host_value ps3_report_descriptor 0 bs (1, 0x39) = Some (unat (ps3_hat r) mod 16)"
    "map (host_value ps3_report_descriptor 0 bs) [(1, 0x30), (1, 0x31), (1, 0x32), (1, 0x35)] =
      map (\<lambda>b. Some (unat b)) [ps3_l_x r, ps3_l_y r, ps3_r_x r, ps3_r_y r]"
    "map (\<lambda>k. host_value ps3_report_descriptor 0 bs (0xFF00, 0x20 + k)) [0..<12] =
      map (\<lambda>k. Some (unat (ps3_axis r ! k))) [0..<12]"
    "map (\<lambda>k. host_value ps3_report_descriptor 0 bs (0xFF00, 0x2C + k)) [0..<4] =
      map (\<lambda>v. Some (unat v)) (ps3_accel r)"
    "8 * length bs = input_bits ps3_report_descriptor 0"
proof -
  have bit0: "bits_at bs (0 + k) 1 = of_bool (bit (ps3_buttons r) k)" if "k < 8" for k
    using bits_at_bit [of k bs 0] that by (simp add: bs_def ps3_bytes_def le16_def bit_simps)
  have bit1: "bits_at bs (8 + k) 1 = of_bool (bit (ps3_buttons r) (8 + k))" if "k < 8" for k
    using bits_at_bit [of k bs 1] that by (simp add: bs_def ps3_bytes_def le16_def bit_simps)
  from bit0 [of 0] bit0 [of 1] bit0 [of 2] bit0 [of 3] bit0 [of 4] bit0 [of 5] bit0 [of 6] bit0 [of 7]
    bit1 [of 0] bit1 [of 1] bit1 [of 2] bit1 [of 3] bit1 [of 4]
  show "map (\<lambda>k. host_value ps3_report_descriptor 0 bs (9, k + 1)) [0..<13] =
      map (\<lambda>k. Some (of_bool (bit (ps3_buttons r) k))) [0..<13]"
    by (simp add: host_value_def ps3_table upt_lists numeral_2_eq_2 del: upt.simps split del: split_of_bool)
  have "bits_at bs 16 4 = take_bit 4 (unat (bs ! 2))"
    using bits_at_byte [of 0 4 bs 2] by simp
  then show "host_value ps3_report_descriptor 0 bs (1, 0x39) = Some (unat (ps3_hat r) mod 16)"
    by (simp add: host_value_def ps3_table upt_lists bs_def ps3_bytes_def le16_def take_bit_eq_mod
        del: upt.simps)
  have "bits_at bs 24 8 = unat (bs ! 3)" "bits_at bs 32 8 = unat (bs ! 4)"
    "bits_at bs 40 8 = unat (bs ! 5)" "bits_at bs 48 8 = unat (bs ! 6)"
    using bits_at_whole [of bs 3] bits_at_whole [of bs 4] bits_at_whole [of bs 5] bits_at_whole [of bs 6]
    by simp_all
  then show "map (host_value ps3_report_descriptor 0 bs) [(1, 0x30), (1, 0x31), (1, 0x32), (1, 0x35)] =
      map (\<lambda>b. Some (unat b)) [ps3_l_x r, ps3_l_y r, ps3_r_x r, ps3_r_y r]"
    by (simp add: host_value_def ps3_table upt_lists bs_def ps3_bytes_def le16_def del: upt.simps)
  have axis: "bits_at bs (56 + 8 * k) 8 = unat (ps3_axis r ! k)" if "k < 12" for k
    using bits_at_whole [of bs "k + 7"] that assms(2)
    by (simp add: bs_def ps3_bytes_def le16_def nth_append algebra_simps)
  from axis [of 0] axis [of 1] axis [of 2] axis [of 3] axis [of 4] axis [of 5] axis [of 6] axis [of 7]
    axis [of 8] axis [of 9] axis [of 10] axis [of 11]
  show "map (\<lambda>k. host_value ps3_report_descriptor 0 bs (0xFF00, 0x20 + k)) [0..<12] =
      map (\<lambda>k. Some (unat (ps3_axis r ! k))) [0..<12]"
    by (simp add: host_value_def ps3_table upt_lists del: upt.simps)
  obtain a b c d where acc: "ps3_accel r = [a, b, c, d]" using length_four [OF assms(3)] by blast
  have "bits_at bs 152 16 = unat a" "bits_at bs 168 16 = unat b" "bits_at bs 184 16 = unat c"
    "bits_at bs 200 16 = unat d"
    using bits_at_pair [of bs 19] bits_at_pair [of bs 21] bits_at_pair [of bs 23] bits_at_pair [of bs 25]
      unat_le16 [of a] unat_le16 [of b] unat_le16 [of c] unat_le16 [of d] assms(2)
    by (simp_all add: bs_def ps3_bytes_def acc le16_def nth_append)
  then show "map (\<lambda>k. host_value ps3_report_descriptor 0 bs (0xFF00, 0x2C + k)) [0..<4] =
      map (\<lambda>v. Some (unat v)) (ps3_accel r)"
    by (simp add: host_value_def ps3_table upt_lists acc del: upt.simps)
  show "8 * length bs = input_bits ps3_report_descriptor 0"
    using assms(2) by (simp add: ps3_table bs_def ps3_bytes_def acc)
qed

section \<open>USB descriptors\<close>

abbreviation (input) NO_DESCRIPTOR :: u8 where "NO_DESCRIPTOR \<equiv> 0"
abbreviation (input) DTYPE_Device :: u8 where "DTYPE_Device \<equiv> 1"
abbreviation (input) DTYPE_Configuration :: u8 where "DTYPE_Configuration \<equiv> 2"
abbreviation (input) DTYPE_String :: u8 where "DTYPE_String \<equiv> 3"
abbreviation (input) DTYPE_Interface :: u8 where "DTYPE_Interface \<equiv> 4"
abbreviation (input) DTYPE_Endpoint :: u8 where "DTYPE_Endpoint \<equiv> 5"
abbreviation (input) HID_DTYPE_HID :: u8 where "HID_DTYPE_HID \<equiv> 0x21"
abbreviation (input) HID_DTYPE_Report :: u8 where "HID_DTYPE_Report \<equiv> 0x22"
abbreviation (input) AUDIO_DTYPE_CSInterface :: u8 where "AUDIO_DTYPE_CSInterface \<equiv> 0x24"
abbreviation (input) AUDIO_DTYPE_CSEndpoint :: u8 where "AUDIO_DTYPE_CSEndpoint \<equiv> 0x25"
abbreviation (input) EP_TYPE_BULK :: u8 where "EP_TYPE_BULK \<equiv> 2"
abbreviation (input) EP_TYPE_INTERRUPT :: u8 where "EP_TYPE_INTERRUPT \<equiv> 3"

datatype InterfaceDescriptors_t =
  INTERFACE_ID_HID | INTERFACE_ID_XInput | INTERFACE_ID_Config | INTERFACE_ID_ControlStream
| INTERFACE_ID_AudioStream

fun interface_id :: "InterfaceDescriptors_t \<Rightarrow> u8" where
  "interface_id INTERFACE_ID_HID = 0" | "interface_id INTERFACE_ID_XInput = 1"
| "interface_id INTERFACE_ID_Config = 2" | "interface_id INTERFACE_ID_ControlStream = 3"
| "interface_id INTERFACE_ID_AudioStream = 4"

definition HID_EPADDR_OUT :: u8 where "HID_EPADDR_OUT = 6"
definition XINPUT_EPADDR_OUT :: u8 where "XINPUT_EPADDR_OUT = 7"
definition MIDI_EPADDR_OUT :: u8 where "MIDI_EPADDR_OUT = 8"

definition VERSION_BCD :: "nat \<Rightarrow> nat \<Rightarrow> nat \<Rightarrow> u16" where
  "VERSION_BCD major minor revision =
     of_nat (256 * (major mod 256)) OR of_nat (16 * (minor mod 16)) OR of_nat (revision mod 16)"

definition ARDWIINO_VID :: u16 where "ARDWIINO_VID = 0x1209"
definition ARDWIINO_PID :: u16 where "ARDWIINO_PID = 0x2882"

text \<open>The version is the build's; 0xDC asks LUFA for the chip's internal serial number.\<close>

definition deviceDescriptor :: "nat \<times> nat \<times> nat \<Rightarrow> u8 list" where
  "deviceDescriptor version =
     [18, DTYPE_Device] @ le16 (VERSION_BCD 2 0 0) @ [0, 0, 0, 64] @ le16 ARDWIINO_VID @
     le16 ARDWIINO_PID @ le16 (case version of (a, b, c) \<Rightarrow> VERSION_BCD a b c) @ [1, 2, 0xDC, 1]"

definition interface_desc :: "u8 \<Rightarrow> u8 \<Rightarrow> u8 \<Rightarrow> u8 \<Rightarrow> u8 \<Rightarrow> u8 list" where
  "interface_desc num eps cls sub proto =
     [9, DTYPE_Interface, num, 0, eps, cls, sub, proto, NO_DESCRIPTOR]"

definition endpoint_desc :: "u8 \<Rightarrow> u8 \<Rightarrow> u8 list" where
  "endpoint_desc addr attr = [7, DTYPE_Endpoint, addr, attr] @ le16 (of_nat HID_EPSIZE) @ [1]"

definition stream_endpoint_desc :: "u8 \<Rightarrow> u8 list" where
  "stream_endpoint_desc addr =
     [9, DTYPE_Endpoint, addr, EP_TYPE_BULK] @ le16 (of_nat HID_EPSIZE) @ [1, 0, 0]"

definition xbox_desc :: "u8 list" where
  "xbox_desc = [17, 0x21, 0x00, 0x01, 0x00, 0x25, XINPUT_EPADDR_IN, of_nat HID_EPSIZE,
     0x00, 0x00, 0x00, 0x00, 0x13, XINPUT_EPADDR_OUT, of_nat HID_EPSIZE, 0x00, 0x00]"

definition hid_desc :: "u8 list" where
  "hid_desc = [9, HID_DTYPE_HID] @ le16 (VERSION_BCD 1 0 1) @ [0, 1, HID_DTYPE_Report] @
     le16 (of_nat (length ps3_report_descriptor))"

definition midi_in_jack :: "u8 \<Rightarrow> u8 \<Rightarrow> u8 list" where
  "midi_in_jack type jid = [6, AUDIO_DTYPE_CSInterface, 2, type, jid, NO_DESCRIPTOR]"

definition midi_out_jack :: "u8 \<Rightarrow> u8 \<Rightarrow> u8 \<Rightarrow> u8 list" where
  "midi_out_jack type jid src = [9, AUDIO_DTYPE_CSInterface, 3, type, jid, 1, src, 1, NO_DESCRIPTOR]"

definition jack_endpoint :: "u8 \<Rightarrow> u8 list" where
  "jack_endpoint jid = [5, AUDIO_DTYPE_CSEndpoint, 1, 1, jid]"

definition midi_parts :: "u8 list" where
  "midi_parts = concat [midi_in_jack 1 1, midi_in_jack 2 2, midi_out_jack 1 3 2, midi_out_jack 2 4 1,
     stream_endpoint_desc MIDI_EPADDR_OUT, jack_endpoint 1,
     stream_endpoint_desc MIDI_EPADDR_IN, jack_endpoint 3]"

text \<open>
  The members in the order of the struct, which is not the order of the initialisers; the sizes of
  the struct and of its tail are those of the bytes.
\<close>

definition config_parts :: "u8 list list" where
  "config_parts =
     [interface_desc (interface_id INTERFACE_ID_HID) 2 3 0 0, hid_desc,
      endpoint_desc HID_EPADDR_IN EP_TYPE_INTERRUPT, endpoint_desc HID_EPADDR_OUT EP_TYPE_INTERRUPT,
      interface_desc (interface_id INTERFACE_ID_XInput) 2 0xFF 0x5D 0x01, xbox_desc,
      endpoint_desc XINPUT_EPADDR_IN EP_TYPE_INTERRUPT, endpoint_desc XINPUT_EPADDR_OUT EP_TYPE_INTERRUPT,
      interface_desc (interface_id INTERFACE_ID_Config) 0 0xff 0xff 0xff,
      interface_desc (interface_id INTERFACE_ID_ControlStream) 0 1 1 0,
      [9, AUDIO_DTYPE_CSInterface, 1] @ le16 (VERSION_BCD 1 0 0) @ le16 9 @
        [1, interface_id INTERFACE_ID_AudioStream],
      interface_desc (interface_id INTERFACE_ID_AudioStream) 2 1 3 0,
      [7, AUDIO_DTYPE_CSInterface, 1] @ le16 (VERSION_BCD 1 0 0) @ le16 (of_nat (7 + length midi_parts)),
      midi_parts]"

definition ConfigurationDescriptor :: "u8 list" where
  "ConfigurationDescriptor =
     [9, DTYPE_Configuration] @ le16 (of_nat (9 + length (concat config_parts))) @
     [5, 1, NO_DESCRIPTOR, 0x80, 50] @ concat config_parts"

definition vid :: "u16 list" where
  "vid = [0x0F0D, 0x12ba, 0x12ba, 0x12ba, 0x12ba, ARDWIINO_VID, 0x1bad, 0x1bad]"

definition pid :: "u16 list" where
  "pid = [0x0092, 0x0100, 0x0120, 0x0200, 0x0210, ARDWIINO_PID, 0x0004, 0x074B]"

definition string_desc :: "string \<Rightarrow> u8 list" where
  "string_desc s = [of_nat (2 + 2 * length s), DTYPE_String] @ concat (map (\<lambda>c. le16 (of_char c)) s)"

definition languageString :: "u8 list" where "languageString = [4, DTYPE_String] @ le16 0x0409"
definition manufacturerString :: "u8 list" where "manufacturerString = string_desc ''sanjay900''"
definition productString :: "u8 list" where "productString = string_desc ''Ardwiino''"

definition descriptorStrings :: "u8 list list" where
  "descriptorStrings = [languageString, manufacturerString, productString]"

definition REQ_GetOSFeatureDescriptor :: u8 where "REQ_GetOSFeatureDescriptor = 0x20"

definition OSDescriptorString :: "u8 list" where
  "OSDescriptorString = [18, DTYPE_String] @ concat (map (\<lambda>c. le16 (of_char c)) ''MSFT100'') @
     [REQ_GetOSFeatureDescriptor, 0]"

section \<open>A walk through USB descriptors\<close>

text \<open>Every descriptor begins with its length; a host that finds one of less than 2 gives up.\<close>

function usb_walk :: "u8 list \<Rightarrow> u8 list list option" where
  "usb_walk [] = Some []"
| "usb_walk (n # bs) =
     (if unat n < 2 \<or> length bs + 1 < unat n then None
      else map_option (Cons (take (unat n) (n # bs))) (usb_walk (drop (unat n - 1) bs)))"
  by pat_completeness auto
termination by (relation "measure length") auto

text \<open>The interfaces, each with the addresses of the endpoints before the next one.\<close>

fun interfaces :: "u8 list list \<Rightarrow> (u8 \<times> u8 \<times> u8 list) list" where
  "interfaces [] = []"
| "interfaces (d # ds) =
     (if d ! 1 = DTYPE_Interface
      then (d ! 2, d ! 4, map (\<lambda>e. e ! 2)
              (filter (\<lambda>e. e ! 1 = DTYPE_Endpoint) (takeWhile (\<lambda>e. e ! 1 \<noteq> DTYPE_Interface) ds))) # interfaces ds
      else interfaces ds)"

definition walk_parts :: "u8 list list" where
  "walk_parts = take 9 ConfigurationDescriptor # butlast config_parts @
     [midi_in_jack 1 1, midi_in_jack 2 2, midi_out_jack 1 3 2, midi_out_jack 2 4 1,
      stream_endpoint_desc MIDI_EPADDR_OUT, jack_endpoint 1,
      stream_endpoint_desc MIDI_EPADDR_IN, jack_endpoint 3]"

lemma walk_append:
  assumes "unat (d ! 0) = length d" "2 \<le> length d"
  shows "usb_walk (d @ bs) = map_option (Cons d) (usb_walk bs)"
  using assms by (cases d) auto

lemma walk_concat:
  assumes "\<forall>d\<in>set ds. unat (d ! 0) = length d \<and> 2 \<le> length d"
  shows "usb_walk (concat ds) = Some ds"
  using assms by (induction ds) (auto simp: walk_append)

lemma config_walk:
  "length ConfigurationDescriptor = 182" "un_le16 (drop 2 ConfigurationDescriptor) = 182"
  "concat walk_parts = ConfigurationDescriptor"
  "usb_walk ConfigurationDescriptor = Some walk_parts"
proof -
  show l: "length ConfigurationDescriptor = 182" by code_simp
  show "un_le16 (drop 2 ConfigurationDescriptor) = 182" by code_simp
  show c: "concat walk_parts = ConfigurationDescriptor" by code_simp
  have "list_all (\<lambda>d. unat (d ! 0) = length d \<and> 2 \<le> length d) walk_parts" by code_simp
  then have "usb_walk (concat walk_parts) = Some walk_parts"
    by (intro walk_concat) (simp add: list_all_iff)
  then show "usb_walk ConfigurationDescriptor = Some walk_parts" by (simp add: c)
qed

lemma config_interfaces:
  "interfaces walk_parts =
     [(0, 2, [HID_EPADDR_IN, HID_EPADDR_OUT]), (1, 2, [XINPUT_EPADDR_IN, XINPUT_EPADDR_OUT]),
      (2, 0, []), (3, 0, []), (4, 2, [MIDI_EPADDR_OUT, MIDI_EPADDR_IN])]"
  by code_simp

end
