(* ===== verification/Usb.thy ===== *)
theory Usb
  imports UnoLink Descriptors
begin

text \<open>
  The control endpoint (\<open>src/src/avr/shared/usb/usb.h\<close> and \<open>shared/output/control_requests.c\<close>):
  which request is answered how, the descriptors with the bytes that depend on the device's type
  patched in, and the loop that writes such a descriptor to the endpoint in packets.

  LUFA and the controller are the environment: what the host does is a list of events, one for each
  round of the loop, and the control endpoint's bank is empty whenever it is ready.
\<close>

section \<open>Data of the control requests\<close>

definition usb_ID :: "u8 list" where "usb_ID = [0x00, 0x82, 0xf8, 0x23]"

definition capabilities1 :: "u8 list" where
  "capabilities1 = [0x00, 0x08, 0x00, 0x00, 0x00, 0x00, 0x00, 0x00]"

definition capabilities2 :: "u8 list" where
  "capabilities2 = [0x00, 0x14, 0x3f, 0xf7, 0xff, 0xff, 0x00, 0x00, 0x00, 0x00, 0xc0, 0xff, 0xc0, 0xff,
     0x00, 0x00, 0x00, 0x00, 0x00, 0x00]"

definition EXTENDED_COMPAT_ID_DESCRIPTOR :: u16 where "EXTENDED_COMPAT_ID_DESCRIPTOR = 0x0004"
definition EXTENDED_PROPERTIES_DESCRIPTOR :: u16 where "EXTENDED_PROPERTIES_DESCRIPTOR = 0x0005"

definition chars16 :: "string \<Rightarrow> u8 list" where
  "chars16 s = concat (map (\<lambda>c. le16 (of_char c)) s) @ [0, 0]"

definition ExtendedIDs :: "u8 list" where
  "ExtendedIDs = le32 142 @ le16 0x0100 @ le16 EXTENDED_PROPERTIES_DESCRIPTOR @ le16 1 @ le32 132 @
     le32 1 @ le16 40 @ chars16 ''DeviceInterfaceGUID'' @ le32 78 @
     chars16 ''{DF59037D-7C92-4155-AC12-7D700A313D78}''"

definition compat_id :: "InterfaceDescriptors_t \<Rightarrow> string \<Rightarrow> u8 list" where
  "compat_id i s = [interface_id i, 0x04] @ map of_char s @ replicate (8 - length s) 0 @ replicate 14 0"

definition DevCompatIDs :: "u8 list" where
  "DevCompatIDs = le32 64 @ le16 0x0100 @ le16 EXTENDED_COMPAT_ID_DESCRIPTOR @ [2] @ replicate 7 0 @
     compat_id INTERFACE_ID_XInput ''XUSB10'' @ compat_id INTERFACE_ID_Config ''WINUSB''"

lemma control_data_lengths:
  "length ExtendedIDs = 142" "length DevCompatIDs = 64"
  by code_simp+

section \<open>Requests\<close>

record USB_Request =
  bmRequestType :: u8
  bRequest :: u8
  wValue :: u16
  wIndex :: u16
  wLength :: u16

abbreviation (input) REQDIR_DEVICETOHOST :: u8 where "REQDIR_DEVICETOHOST \<equiv> 0x80"
abbreviation (input) REQTYPE_CLASS :: u8 where "REQTYPE_CLASS \<equiv> 0x20"
abbreviation (input) REQTYPE_VENDOR :: u8 where "REQTYPE_VENDOR \<equiv> 0x40"
abbreviation (input) REQREC_INTERFACE :: u8 where "REQREC_INTERFACE \<equiv> 1"
abbreviation (input) CONTROL_REQTYPE_RECIPIENT :: u8 where "CONTROL_REQTYPE_RECIPIENT \<equiv> 0x1F"
abbreviation (input) CONTROL_REQTYPE_TYPE :: u8 where "CONTROL_REQTYPE_TYPE \<equiv> 0x60"
abbreviation (input) HID_REQ_GetReport :: u8 where "HID_REQ_GetReport \<equiv> 1"
abbreviation (input) HID_REQ_SetReport :: u8 where "HID_REQ_SetReport \<equiv> 9"
abbreviation (input) HID_REQ_SetIdle :: u8 where "HID_REQ_SetIdle \<equiv> 0xA"

text \<open>
  What a request leads to: a command of the device's own protocol, with the length cut to a byte;
  data for LUFA to send; a mere acknowledgement; or nothing.
\<close>

datatype control_answer =
  NoSetup | ReadFeature u8 | WriteFeature u8 u8 | Send "u8 list" | Acknowledge | Unhandled

definition deviceControlRequest :: "bool \<Rightarrow> USB_Request \<Rightarrow> control_answer" where
  "deviceControlRequest setup_received r =
     (if \<not> setup_received then NoSetup
      else if bRequest r = HID_REQ_GetReport \<and>
              bmRequestType r = REQDIR_DEVICETOHOST OR REQTYPE_CLASS OR REQREC_INTERFACE
      then ReadFeature (ucast (wValue r))
      else if bRequest r = HID_REQ_SetReport \<and> bmRequestType r = REQTYPE_CLASS OR REQREC_INTERFACE
      then WriteFeature (ucast (wValue r)) (ucast (wLength r))
      else if bRequest r = HID_REQ_GetReport \<and>
              bmRequestType r = REQDIR_DEVICETOHOST OR REQTYPE_VENDOR OR REQREC_INTERFACE \<and>
              wIndex r = ucast (interface_id INTERFACE_ID_XInput) \<and> wValue r = 0x0000
      then Send capabilities1
      else if bRequest r = REQ_GetOSFeatureDescriptor \<and>
              bmRequestType r = REQDIR_DEVICETOHOST OR REQTYPE_VENDOR OR REQREC_INTERFACE \<and>
              wIndex r = EXTENDED_PROPERTIES_DESCRIPTOR \<and>
              wValue r = ucast (interface_id INTERFACE_ID_Config)
      then Send ExtendedIDs
      else if bRequest r = REQ_GetOSFeatureDescriptor \<and>
              bmRequestType r = REQDIR_DEVICETOHOST OR REQTYPE_VENDOR \<and>
              wIndex r = EXTENDED_COMPAT_ID_DESCRIPTOR
      then Send DevCompatIDs
      else if bRequest r = HID_REQ_GetReport \<and> bmRequestType r = REQDIR_DEVICETOHOST OR REQTYPE_VENDOR \<and>
              wIndex r = 0x00 \<and> wValue r = 0x0000
      then Send usb_ID
      else if bRequest r = HID_REQ_GetReport \<and>
              bmRequestType r = REQDIR_DEVICETOHOST OR REQTYPE_VENDOR OR REQREC_INTERFACE \<and>
              wIndex r = ucast (interface_id INTERFACE_ID_XInput) \<and> wValue r = 0x0100
      then Send capabilities2
      else if bmRequestType r AND (CONTROL_REQTYPE_RECIPIENT OR CONTROL_REQTYPE_TYPE) =
                REQTYPE_CLASS OR REQREC_INTERFACE \<and> bRequest r \<noteq> HID_REQ_SetIdle
      then Acknowledge
      else Unhandled)"

text \<open>On the Uno's USB chip; the flag says that the chip resets, None that it waits for ever.\<close>

definition EVENT_USB_Device_ControlRequest ::
  "bool \<Rightarrow> USB_Request \<Rightarrow> u8 list \<Rightarrow> u8 \<Rightarrow> usb_chip \<Rightarrow> (bool \<times> usb_chip) option" where
  "EVENT_USB_Device_ControlRequest setup_received r host d0 u =
     (case deviceControlRequest setup_received r of
        ReadFeature cmd \<Rightarrow> map_option (Pair False) (usb_processHIDReadFeatureReport cmd u)
      | WriteFeature cmd len \<Rightarrow> usb_processHIDWriteFeatureReportControl host d0 cmd len u
      | _ \<Rightarrow> Some (False, u))"

section \<open>A descriptor with modifications\<close>

definition USB_Device_ControlEndpointSize :: nat where "USB_Device_ControlEndpointSize = 64"

text \<open>The two bytes of every modification whose offset is the current one.\<close>

fun mod_bytes :: "u8 \<Rightarrow> u8 list \<Rightarrow> u8 list" where
  "mod_bytes cur (off # a # b # mods) = (if cur = off then [a, b] else []) @ mod_bytes cur mods"
| "mod_bytes cur _ = []"

text \<open>
  The inner loop: what goes into the bank, and the new Length, current and BytesInEndpoint.
  \<open>flash\<close> is the memory from the descriptor on, beyond its end too.
\<close>

function fill_bank ::
  "(nat \<Rightarrow> u8) \<Rightarrow> u8 list \<Rightarrow> nat \<Rightarrow> u16 \<Rightarrow> u8 \<Rightarrow> u8 list \<times> u16 \<times> u8 \<times> nat" where
  "fill_bank flash mods n len cur =
     (if len \<noteq> 0 \<and> n < USB_Device_ControlEndpointSize
      then let out = mod_bytes cur mods;
               k = (if out = [] then 1 else 2);
               bs = (if out = [] then [flash (unat cur)] else out)
           in case fill_bank flash mods (n + k) (len - of_nat k) (cur + of_nat k) of
                (cs, r) \<Rightarrow> (bs @ cs, r)
      else ([], len, cur, n))"
  by pat_completeness auto
termination
  by (relation "measure (\<lambda>(flash, mods, n, len, cur). USB_Device_ControlEndpointSize - n)") auto

declare fill_bank.simps [simp del]

datatype host_event = Gone | NewSetup | StatusOut | NotReady | Ready

datatype stream_end = Finished | Aborted | Waiting

record ctl_stream =
  cs_length :: u16
  cs_full :: bool
  cs_current :: u8
  cs_packets :: "u8 list list"

definition write_packet :: "(nat \<Rightarrow> u8) \<Rightarrow> u8 list \<Rightarrow> ctl_stream \<Rightarrow> ctl_stream" where
  "write_packet flash mods s =
     (case fill_bank flash mods 0 (cs_length s) (cs_current s) of
        (bs, len, cur, n) \<Rightarrow>
          s\<lparr>cs_length := len, cs_full := (n = USB_Device_ControlEndpointSize), cs_current := cur,
            cs_packets := cs_packets s @ [bs]\<rparr>)"

fun mods_loop :: "(nat \<Rightarrow> u8) \<Rightarrow> u8 list \<Rightarrow> host_event list \<Rightarrow> ctl_stream \<Rightarrow> stream_end \<times> ctl_stream" where
  "mods_loop flash mods [] s = (Waiting, s)"
| "mods_loop flash mods (e # es) s =
     (case e of
        Gone \<Rightarrow> (Aborted, s)
      | NewSetup \<Rightarrow> (Aborted, s)
      | StatusOut \<Rightarrow> (Finished, s)
      | NotReady \<Rightarrow> mods_loop flash mods es s
      | Ready \<Rightarrow> mods_loop flash mods es
                   (if cs_length s \<noteq> 0 \<or> cs_full s then write_packet flash mods s else s))"

definition write_endpoint_mods ::
  "(nat \<Rightarrow> u8) \<Rightarrow> u16 \<Rightarrow> u8 list \<Rightarrow> u16 \<Rightarrow> host_event list \<Rightarrow> stream_end \<times> ctl_stream" where
  "write_endpoint_mods flash len mods wlen es =
     mods_loop flash mods es
       \<lparr>cs_length = (if wlen < len then wlen else len), cs_full = False, cs_current = 0,
        cs_packets = (if \<not> wlen < len \<and> len = 0 then [[]] else [])\<rparr>"

section \<open>Descriptor requests\<close>

datatype descriptor_answer =
    Written "u8 list" "u8 list"
  | Descriptor "u8 list"
  | ReadPastTable
  | NoDescriptor

definition vid_pid_mods :: "u8 \<Rightarrow> u8 list" where
  "vid_pid_mods t =
     (let offs = unat ((t - subtype_val SWITCH_GAMEPAD) * 2);
          v = concat (map le16 vid); p = concat (map le16 pid)
      in [8, v ! offs, v ! (offs + 1), 10, p ! offs, p ! (offs + 1)])"

definition CALLBACK_USB_GetDescriptor :: "nat \<times> nat \<times> nat \<Rightarrow> u8 \<Rightarrow> u16 \<Rightarrow> descriptor_answer" where
  "CALLBACK_USB_GetDescriptor version t wval =
     (let type = ucast (drop_bit 8 wval) :: u8; num = ucast wval :: u8
      in if type = DTYPE_Device
         then Written (deviceDescriptor version)
                (if subtype_val SWITCH_GAMEPAD \<le> t \<and> t < subtype_val MOUSE then vid_pid_mods t else [])
         else if type = DTYPE_Configuration then Written ConfigurationDescriptor [54, t, 0x25]
         else if type = HID_DTYPE_Report
         then Descriptor (if t \<le> subtype_val KEYBOARD_ROCK_BAND_DRUMS then kbd_report_descriptor
                          else ps3_report_descriptor)
         else if type = DTYPE_String
         then if num \<le> 3
              then if unat num < length descriptorStrings then Descriptor (descriptorStrings ! unat num)
                   else ReadPastTable
              else if num = 0xEE then Descriptor OSDescriptorString else NoDescriptor
         else NoDescriptor)"

section \<open>The packets a host receives\<close>

fun offsets :: "u8 list \<Rightarrow> nat set" where
  "offsets (off # a # b # mods) = insert (unat off) (offsets mods)"
| "offsets _ = {}"

text \<open>The descriptor as the modifications make it.\<close>

fun patched :: "(nat \<Rightarrow> u8) \<Rightarrow> u8 list \<Rightarrow> nat \<Rightarrow> u8" where
  "patched flash (off # a # b # mods) k =
     (if k = unat off then a else if k = unat off + 1 then b else patched flash mods k)"
| "patched flash _ k = flash k"

fun mods_apart :: "u8 list \<Rightarrow> bool" where
  "mods_apart (off # a # b # mods) \<longleftrightarrow>
     (\<forall>o'\<in>offsets mods. o' \<noteq> unat off \<and> o' \<noteq> unat off + 1 \<and> unat off \<noteq> o' + 1) \<and> mods_apart mods"
| "mods_apart _ \<longleftrightarrow> True"

lemma patched_plain: "k \<notin> offsets mods \<Longrightarrow> (\<forall>o'\<in>offsets mods. k \<noteq> o' + 1) \<Longrightarrow> patched flash mods k = flash k"
  by (induction flash mods k rule: patched.induct) auto

lemma mod_bytes_none: "unat cur \<notin> offsets mods \<Longrightarrow> mod_bytes cur mods = []"
  by (induction cur mods rule: mod_bytes.induct) (auto simp: unat_arith_simps)

lemma mod_bytes_pair:
  "mods_apart mods \<Longrightarrow> unat cur \<in> offsets mods \<Longrightarrow>
   mod_bytes cur mods = [patched flash mods (unat cur), patched flash mods (unat cur + 1)]"
proof (induction cur mods rule: mod_bytes.induct)
  case (1 cur off a b mods)
  show ?case
  proof (cases "cur = off")
    case True
    with 1(2) have "unat cur \<notin> offsets mods" by auto
    with True show ?thesis by (simp add: mod_bytes_none)
  next
    case False
    then have "unat cur \<noteq> unat off" by (simp add: unsigned_word_eqI word_unat_eq_iff)
    with 1 False show ?thesis by auto
  qed
qed simp_all

text \<open>Neither the end of the bytes nor the end of the bank falls into a modification.\<close>

lemma fill_bank_patched:
  assumes "mods_apart mods" "c + l < 256" "n \<le> USB_Device_ControlEndpointSize"
    and "\<forall>o'\<in>offsets mods. c \<noteq> o' + 1 \<and> c + l \<noteq> o' + 1 \<and>
           c + (USB_Device_ControlEndpointSize - n) \<noteq> o' + 1"
  shows "\<exists>m. m = min l (USB_Device_ControlEndpointSize - n) \<and>
    fill_bank flash mods n (of_nat l) (of_nat c) =
      (map (patched flash mods) [c..<c + m], of_nat (l - m), of_nat (c + m), n + m)"
  using assms
proof (induction "USB_Device_ControlEndpointSize - n" arbitrary: n c l rule: less_induct)
  case less
  let ?room = "USB_Device_ControlEndpointSize - n"
  have cur: "unat (of_nat c :: u8) = c" using less.prems(2) by (simp add: unat_of_nat)
  have len: "(of_nat l :: u16) = 0 \<longleftrightarrow> l = 0"
    using less.prems(2) unat_of_nat [of l, where 'a = 16] by (auto simp: unsigned_eq_0_iff)
  show ?case
  proof (cases "l = 0 \<or> ?room = 0")
    case True
    with less.prems(3) len show ?thesis by (subst fill_bank.simps) auto
  next
    case False
    then have run: "(of_nat l :: u16) \<noteq> 0 \<and> n < USB_Device_ControlEndpointSize" using len by auto
    define k where "k = (if c \<in> offsets mods then 2 else 1 :: nat)"
    have k: "k \<le> l" "k \<le> ?room" "0 < k"
      using False less.prems(4) by (auto simp: k_def)
    have next_: "\<forall>o'\<in>offsets mods. c + k \<noteq> o' + 1"
    proof
      fix o' assume o': "o' \<in> offsets mods"
      show "c + k \<noteq> o' + 1"
      proof (cases "c \<in> offsets mods")
        case True
        have "o1 + 1 \<notin> offsets ms" if "mods_apart ms" "o1 \<in> offsets ms" for o1 ms
          using that by (induction ms rule: mods_apart.induct) auto
        from this [OF less.prems(1) True] o' True show ?thesis by (auto simp: k_def)
      next
        case False
        with o' show ?thesis by (auto simp: k_def)
      qed
    qed
    have out: "(if mod_bytes (of_nat c) mods = [] then [flash c] else mod_bytes (of_nat c) mods) =
        map (patched flash mods) [c..<c + k]" "(if mod_bytes (of_nat c) mods = [] then 1 else 2) = k"
      using mod_bytes_pair [OF less.prems(1), of "of_nat c" flash] mod_bytes_none [of "of_nat c" mods]
        patched_plain [of c mods flash] less.prems(4) cur
      by (auto simp: k_def)
    let ?m = "min (l - k) (?room - k)"
    have "\<exists>m. m = min (l - k) (USB_Device_ControlEndpointSize - (n + k)) \<and>
      fill_bank flash mods (n + k) (of_nat (l - k)) (of_nat (c + k)) =
        (map (patched flash mods) [c + k..<c + k + m], of_nat (l - k - m), of_nat (c + k + m), n + k + m)"
    proof (rule less.hyps)
      show "USB_Device_ControlEndpointSize - (n + k) < ?room" using k by simp
      show "c + k + (l - k) < 256" using k less.prems(2) by simp
      show "n + k \<le> USB_Device_ControlEndpointSize" using k by simp
      have e: "c + k + (l - k) = c + l" "c + k + (USB_Device_ControlEndpointSize - (n + k)) = c + ?room"
        using k by simp_all
      show "\<forall>o'\<in>offsets mods. c + k \<noteq> o' + 1 \<and> c + k + (l - k) \<noteq> o' + 1 \<and>
          c + k + (USB_Device_ControlEndpointSize - (n + k)) \<noteq> o' + 1"
        unfolding e using next_ less.prems(4) by blast
    qed (rule less.prems(1))
    then have rec: "fill_bank flash mods (n + k) (of_nat l - of_nat k) (of_nat c + of_nat k) =
        (map (patched flash mods) [c + k..<c + k + ?m], of_nat (l - k - ?m), of_nat (c + k + ?m), n + k + ?m)"
      using k by (simp add: of_nat_diff)
    have m: "min l ?room = k + ?m" using k by simp
    have "[c..<c + k] @ [c + k..<c + k + ?m] = [c..<c + (k + ?m)]"
      using upt_add_eq_append [of c "c + k" ?m] by (simp add: add.assoc)
    then have "map (patched flash mods) [c..<c + k] @ map (patched flash mods) [c + k..<c + k + ?m] =
        map (patched flash mods) [c..<c + (k + ?m)]"
      by (metis map_append)
    moreover have "fill_bank flash mods n (of_nat l) (of_nat c) =
        (case fill_bank flash mods (n + k) (of_nat l - of_nat k) (of_nat c + of_nat k) of
           (cs, r) \<Rightarrow> (map (patched flash mods) [c..<c + k] @ cs, r))"
      by (subst fill_bank.simps) (simp only: run out cur Let_def simp_thms if_True)
    ultimately show ?thesis
      unfolding m by (simp add: rec add.assoc)
  qed
qed


lemma fill_bank_done: "fill_bank flash mods n 0 cur = ([], 0, cur, n)"
  by (subst fill_bank.simps) simp

lemma bank_end_apart:
  fixes c k :: nat
  assumes "64 dvd c" "k mod 64 \<noteq> 63"
  shows "c + 64 \<noteq> k + 1" "c \<noteq> k + 1"
proof -
  obtain q where q: "c = 64 * q" using assms(1) by (rule dvdE)
  show "c + 64 \<noteq> k + 1"
  proof
    assume "c + 64 = k + 1"
    then have "k = 63 + 64 * q" using q by simp
    then show False using assms(2) by (simp only: mod_mult_self2) simp
  qed
  show "c \<noteq> k + 1"
  proof
    assume "c = k + 1"
    then have "k = 63 + 64 * (q - 1)" using q by (cases q) simp_all
    then show False using assms(2) by (simp only: mod_mult_self2) simp
  qed
qed

text \<open>Rounds in which the bank is ready, until all bytes are sent, then the host's status packet.\<close>

lemma mods_loop_delivers:
  assumes "mods_apart mods" "\<forall>o'\<in>offsets mods. o' mod 64 \<noteq> 63 \<and> L \<noteq> o' + 1" "L < 256"
    and "c + l = L" "l \<le> 64 * j" "0 < l \<longrightarrow> 64 dvd c"
    and "cs_length s = of_nat l" "cs_current s = of_nat c"
  shows "\<exists>s' ps. mods_loop flash mods (replicate j Ready @ [StatusOut]) s = (Finished, s') \<and>
    cs_packets s' = cs_packets s @ ps \<and> concat ps = map (patched flash mods) [c..<L] \<and>
    (\<forall>p\<in>set ps. length p \<le> 64)"
  using assms(4-)
proof (induction j arbitrary: c l s)
  case 0
  then show ?case by (intro exI [of _ s] exI [of _ "[]"]) simp
next
  case (Suc j)
  have len: "(of_nat l :: u16) = 0 \<longleftrightarrow> l = 0"
    using Suc.prems(1) assms(3) unat_of_nat [of l, where 'a = 16] by (auto simp: unsigned_eq_0_iff)
  show ?case
  proof (cases "l = 0")
    case True
    define s1 where "s1 = (if cs_full s then write_packet flash mods s else s)"
    have s1: "cs_length s1 = of_nat 0" "cs_current s1 = of_nat c"
      "cs_packets s1 = cs_packets s @ (if cs_full s then [[]] else [])"
      using Suc.prems(4,5) True
      by (simp_all add: s1_def write_packet_def fill_bank_done)
    from Suc.IH [of c 0 s1] s1(1,2) Suc.prems(1) True obtain s' ps where
      "mods_loop flash mods (replicate j Ready @ [StatusOut]) s1 = (Finished, s')"
      "cs_packets s' = cs_packets s1 @ ps" "concat ps = map (patched flash mods) [c..<L]"
      "\<forall>p\<in>set ps. length p \<le> 64"
      by auto
    with s1(3) Suc.prems(4) True show ?thesis
      by (intro exI [of _ s'] exI [of _ "(if cs_full s then [[]] else []) @ ps"]) (auto simp: s1_def)
  next
    case False
    then have c: "64 dvd c" using Suc.prems(3) by simp
    let ?m = "min l 64"
    have "c + 64 \<noteq> o' + 1" "c \<noteq> o' + 1" if "o' \<in> offsets mods" for o'
      using bank_end_apart [OF c, of o'] assms(2) that by blast+
    then have "\<forall>o'\<in>offsets mods. c \<noteq> o' + 1 \<and> c + l \<noteq> o' + 1 \<and>
        c + (USB_Device_ControlEndpointSize - 0) \<noteq> o' + 1"
      using assms(2) Suc.prems(1) by (auto simp: USB_Device_ControlEndpointSize_def)
    from fill_bank_patched [OF assms(1) _ _ this, of flash] assms(3) Suc.prems(1)
    have fill: "fill_bank flash mods 0 (of_nat l) (of_nat c) =
        (map (patched flash mods) [c..<c + ?m], of_nat (l - ?m), of_nat (c + ?m), ?m)"
      by (simp add: USB_Device_ControlEndpointSize_def)
    define s1 where "s1 = write_packet flash mods s"
    have s1: "cs_length s1 = of_nat (l - ?m)" "cs_current s1 = of_nat (c + ?m)"
      "cs_packets s1 = cs_packets s @ [map (patched flash mods) [c..<c + ?m]]"
      using Suc.prems(4,5) fill by (simp_all add: s1_def write_packet_def)
    have "c + ?m + (l - ?m) = L" "l - ?m \<le> 64 * j" "0 < l - ?m \<longrightarrow> 64 dvd c + ?m"
      using Suc.prems(1,2) c by auto
    from Suc.IH [OF this s1(1,2)] obtain s' ps where
      "mods_loop flash mods (replicate j Ready @ [StatusOut]) s1 = (Finished, s')"
      "cs_packets s' = cs_packets s1 @ ps" "concat ps = map (patched flash mods) [c + ?m..<L]"
      "\<forall>p\<in>set ps. length p \<le> 64"
      by blast
    moreover have "[c..<c + ?m] @ [c + ?m..<L] = [c..<L]"
      using upt_add_eq_append [of c "c + ?m" "L - (c + ?m)"] Suc.prems(1) by simp
    then have "map (patched flash mods) [c..<c + ?m] @ map (patched flash mods) [c + ?m..<L] =
        map (patched flash mods) [c..<L]"
      by (metis map_append)
    ultimately show ?thesis
      using s1(3) Suc.prems(4) len False
      by (intro exI [of _ s'] exI [of _ "map (patched flash mods) [c..<c + ?m] # ps"]) (auto simp: s1_def)
  qed
qed

text \<open>A length that ends inside a modification wraps around, and the bank is filled to its end.\<close>

lemma mod_bytes_length: "mods_apart mods \<Longrightarrow> mod_bytes cur mods = [] \<or> length (mod_bytes cur mods) = 2"
  using mod_bytes_none [of cur mods] mod_bytes_pair [of mods cur "\<lambda>_. 0"]
  by (cases "unat cur \<in> offsets mods") simp_all

definition mod_step :: "u8 \<Rightarrow> u8 list \<Rightarrow> nat" where
  "mod_step cur mods = (if mod_bytes cur mods = [] then 1 else 2)"

lemma fill_bank_step:
  fixes cur mods
  assumes "len \<noteq> 0" "n < USB_Device_ControlEndpointSize"
  defines "k \<equiv> mod_step cur mods"
  shows "fill_bank flash mods n len cur =
    (case fill_bank flash mods (n + k) (len - of_nat k) (cur + of_nat k) of
       (cs, r) \<Rightarrow> ((if mod_bytes cur mods = [] then [flash (unat cur)] else mod_bytes cur mods) @ cs, r))"
  unfolding k_def mod_step_def using assms(1,2) by (subst fill_bank.simps) (simp only: Let_def simp_thms if_True)

lemma fill_bank_length:
  "mods_apart mods \<Longrightarrow> fill_bank flash mods n len cur = (bs, len', cur', n') \<Longrightarrow> n' = n + length bs"
proof (induction flash mods n len cur arbitrary: bs rule: fill_bank.induct)
  case (1 flash mods n len cur)
  show ?case
  proof (cases "len \<noteq> 0 \<and> n < USB_Device_ControlEndpointSize")
    case True
    define k where "k = mod_step cur mods"
    obtain cs r where rec: "fill_bank flash mods (n + k) (len - of_nat k) (cur + of_nat k) = (cs, r)"
      by (cases "fill_bank flash mods (n + k) (len - of_nat k) (cur + of_nat k)")
    have bs: "bs = (if mod_bytes cur mods = [] then [flash (unat cur)] else mod_bytes cur mods) @ cs"
      "r = (len', cur', n')"
      using 1(3) fill_bank_step [of len n flash mods cur] True rec by (simp_all add: k_def)
    moreover have "n' = n + k + length cs"
      using "1.IH" [OF True refl refl refl 1(2), of cs] rec bs(2) by (simp add: k_def mod_step_def)
    ultimately show ?thesis using mod_bytes_length [OF 1(2), of cur] by (auto simp: k_def mod_step_def)
  next
    case False
    with 1(3) show ?thesis by (simp add: fill_bank.simps [of flash mods n len cur])
  qed
qed

lemma fill_bank_long:
  "66 \<le> unat len + n \<Longrightarrow> 64 \<le> snd (snd (snd (fill_bank flash mods n len cur)))"
proof (induction flash mods n len cur rule: fill_bank.induct)
  case (1 flash mods n len cur)
  show ?case
  proof (cases "len \<noteq> 0 \<and> n < USB_Device_ControlEndpointSize")
    case True
    define k where "k = mod_step cur mods"
    have len: "3 \<le> unat len" using True 1(2) by (simp add: USB_Device_ControlEndpointSize_def)
    have k: "unat (of_nat k :: u16) = k" "k \<le> 2" by (simp_all add: k_def mod_step_def)
    have "of_nat k \<le> len" unfolding word_le_nat_alt k using len k(2) by simp
    then have "unat (len - of_nat k) = unat len - k" by (simp add: unat_sub k)
    then have "66 \<le> unat (len - of_nat k) + (n + k)" using 1(2) len k(2) by simp
    with "1.IH" [OF True refl refl refl] have
      "64 \<le> snd (snd (snd (fill_bank flash mods (n + k) (len - of_nat k) (cur + of_nat k))))"
      by (simp add: k_def mod_step_def)
    with True show ?thesis
      by (simp add: fill_bank_step [of len n] case_prod_beta k_def)
  next
    case False
    with 1(2) have "64 \<le> n"
      by (auto simp: USB_Device_ControlEndpointSize_def)
    moreover have "fill_bank flash mods n len cur = ([], len, cur, n)"
      using False by (subst fill_bank.simps) (simp only: if_False)
    ultimately show ?thesis by simp
  qed
qed

lemma fill_bank_cut:
  assumes "mods_apart mods" "off \<in> offsets mods" "c \<le> off" "off < 62" "\<forall>o'\<in>offsets mods. c \<noteq> o' + 1"
  shows "64 \<le> snd (snd (snd (fill_bank flash mods c (of_nat (off + 1 - c)) (of_nat c))))"
  using assms(3,5)
proof (induction "off - c" arbitrary: c rule: less_induct)
  case less
  have cur: "unat (of_nat c :: u8) = c" and off: "unat (of_nat off :: u8) = off"
    using less.prems(1) assms(4) by (simp_all add: unat_of_nat)
  have "unat (of_nat (off + 1 - c) :: u16) = off + 1 - c"
    using assms(4) by (simp add: unat_of_nat)
  then have run: "(of_nat (off + 1 - c) :: u16) \<noteq> 0 \<and> c < USB_Device_ControlEndpointSize"
    using less.prems(1) assms(4) by (auto simp: USB_Device_ControlEndpointSize_def)
  define k where "k = mod_step (of_nat c) mods"
  have k: "k = (if c \<in> offsets mods then 2 else 1)"
    using mod_bytes_pair [OF assms(1), of "of_nat c"] mod_bytes_none [of "of_nat c" mods] cur
    by (auto simp: k_def mod_step_def)
  have apart: "o1 + 1 \<notin> offsets ms" if "mods_apart ms" "o1 \<in> offsets ms" for o1 ms
    using that by (induction ms rule: mods_apart.induct) auto
  have step: "snd (snd (snd (fill_bank flash mods c (of_nat (off + 1 - c)) (of_nat c)))) =
      snd (snd (snd (fill_bank flash mods (c + k) (of_nat (off + 1 - c) - of_nat k) (of_nat c + of_nat k))))"
    unfolding fill_bank_step [OF conjunct1 [OF run] conjunct2 [OF run]] k_def by (simp only: case_prod_beta snd_conv)
  show ?case
  proof (cases "c = off")
    case True
    with assms(2) k have "k = 2" by simp
    moreover have "unat (- 1 :: u16) = 65535" by (simp add: unsigned_minus_1_eq_mask mask_eq_exp_minus_1)
    ultimately show ?thesis
      using True step fill_bank_long [of "- 1" "c + 2" flash mods "of_nat c + 2"] by simp
  next
    case False
    have "c + 1 \<noteq> off \<or> c \<notin> offsets mods" using apart [OF assms(1), of c] assms(2) by blast
    then have "c + k \<le> off" using False less.prems(1) k by auto
    moreover have "c + k \<noteq> o' + 1" if "o' \<in> offsets mods" for o'
      using apart [OF assms(1), of c] that k by (auto split: if_splits)
    ultimately have "64 \<le> snd (snd (snd (fill_bank flash mods (c + k) (of_nat (off + 1 - (c + k))) (of_nat (c + k)))))"
      using False less.prems(1) k by (intro less.hyps) auto
    moreover have "of_nat (off + 1 - c) - of_nat k = (of_nat (off + 1 - (c + k)) :: u16)"
      using \<open>c + k \<le> off\<close> by (simp add: of_nat_diff)
    ultimately show ?thesis using step by simp
  qed
qed


text \<open>Flash holds the descriptor and then whatever follows it.\<close>

definition flash_of :: "u8 list \<Rightarrow> (nat \<Rightarrow> u8) \<Rightarrow> nat \<Rightarrow> u8" where
  "flash_of desc past k = (if k < length desc then desc ! k else past k)"

text \<open>The descriptors a device of type t means to have.\<close>

definition type_descriptor :: "nat \<times> nat \<times> nat \<Rightarrow> u8 \<Rightarrow> u8 \<Rightarrow> u8 list" where
  "type_descriptor version t kind =
     (if kind = DTYPE_Device
      then if subtype_val SWITCH_GAMEPAD \<le> t \<and> t < subtype_val MOUSE
           then take 8 (deviceDescriptor version) @ le16 (vid ! (unat t - 26)) @ le16 (pid ! (unat t - 26)) @
                drop 12 (deviceDescriptor version)
           else deviceDescriptor version
      else take 54 ConfigurationDescriptor @ [t, 0x25] @ drop 56 ConfigurationDescriptor)"

lemma vid_pid_mods_eq:
  assumes "subtype_val SWITCH_GAMEPAD \<le> t" "t < subtype_val MOUSE"
  shows "vid_pid_mods t = [8] @ le16 (vid ! (unat t - 26)) @ [10] @ le16 (pid ! (unat t - 26))"
proof -
  have "26 \<le> unat t" "unat t < 34" using assms by (simp_all add: word_le_nat_alt word_less_nat_alt)
  then have "unat t \<in> {26, 27, 28, 29, 30, 31, 32, 33}" by auto
  then have "t \<in> {26, 27, 28, 29, 30, 31, 32, 33}" by (auto simp: word_unat_eq_iff)
  then show ?thesis
    by (elim insertE emptyE; simp; code_simp)
qed


lemma config_mods: "mods_apart [54, t, 0x25]" "offsets [54, t, 0x25] = {54}"
  by simp_all

lemma vid_pid_apart:
  assumes "subtype_val SWITCH_GAMEPAD \<le> t" "t < subtype_val MOUSE"
  shows "mods_apart (vid_pid_mods t)" "offsets (vid_pid_mods t) = {8, 10}"
  by (simp_all add: vid_pid_mods_eq [OF assms] le16_def)

lemma descriptor_sizes:
  "length (deviceDescriptor version) = 18" "length ConfigurationDescriptor = 182"
  by (simp_all add: deviceDescriptor_def config_walk)

lemma written_mods:
  assumes "CALLBACK_USB_GetDescriptor version t wval = Written desc mods"
  defines "kind \<equiv> ucast (drop_bit 8 wval) :: u8"
  shows "mods_apart mods \<and> offsets mods \<subseteq> {8, 10, 54} \<and> length desc < 256 \<and> length desc \<le> 64 * 3 \<and>
    (\<forall>off\<in>offsets mods. off + 1 < length desc) \<and>
    map (patched (flash_of desc past) mods) [0..<length desc] = type_descriptor version t kind"
proof -
  consider "kind = DTYPE_Device" "subtype_val SWITCH_GAMEPAD \<le> t \<and> t < subtype_val MOUSE"
      "desc = deviceDescriptor version" "mods = vid_pid_mods t"
    | "kind = DTYPE_Device" "\<not> (subtype_val SWITCH_GAMEPAD \<le> t \<and> t < subtype_val MOUSE)"
      "desc = deviceDescriptor version" "mods = []"
    | "kind = DTYPE_Configuration" "desc = ConfigurationDescriptor" "mods = [54, t, 0x25]"
    using assms by (auto simp: CALLBACK_USB_GetDescriptor_def Let_def split: if_splits)
  then show ?thesis
  proof cases
    case 1
    have "map (patched (flash_of desc past) mods) [0..<length desc] = type_descriptor version t kind"
      using 1(1,2)
      by (auto intro!: nth_equalityI simp: descriptor_sizes type_descriptor_def 1(3,4) vid_pid_mods_eq
          le16_def flash_of_def nth_append nth_Cons' min_def)
    with vid_pid_apart [of t] 1 show ?thesis by (auto simp: descriptor_sizes)
  next
    case 2
    then show ?thesis
      by (auto intro!: nth_equalityI simp: descriptor_sizes type_descriptor_def flash_of_def)
  next
    case 3
    have "map (patched (flash_of desc past) mods) [0..<length desc] = type_descriptor version t kind"
      by (auto intro!: nth_equalityI simp: descriptor_sizes type_descriptor_def 3 flash_of_def
          nth_append nth_Cons' min_def)
    with config_mods 3 show ?thesis by (auto simp: descriptor_sizes)
  qed
qed


section \<open>Properties\<close>

text \<open>
  C39: however short the host asks, the device or configuration descriptor of a device of type t
  reaches it with its type's bytes patched in, as far as asked for, in packets of at most 64 bytes,
  within three rounds, unless the length it asks for ends between the two bytes of a modification:
  then the length wraps below zero and the first packet alone has more bytes than were asked for.
\<close>

theorem descriptor_delivered:
  fixes past wlen
  assumes "CALLBACK_USB_GetDescriptor version t wval = Written desc mods" "3 \<le> j"
  defines "deliver_with \<equiv> write_endpoint_mods (flash_of desc past) (of_nat (length desc)) mods wlen"
  shows "if \<exists>off\<in>offsets mods. unat wlen = off + 1
    then \<exists>s. deliver_with [Ready] = (Waiting, s) \<and> unat wlen < 64 \<and> 64 \<le> length (hd (cs_packets s))
    else \<exists>s. deliver_with (replicate j Ready @ [StatusOut]) = (Finished, s) \<and>
      concat (cs_packets s) = take (unat wlen) (type_descriptor version t (ucast (drop_bit 8 wval))) \<and>
      (\<forall>p\<in>set (cs_packets s). length p \<le> 64)"
proof -
  define F where "F = flash_of desc past"
  note m = written_mods [OF assms(1), of past]
  define L where "L = min (unat wlen) (length desc)"
  have L: "L < 256" "L \<le> 64 * j" using m assms(2) by (auto simp: L_def)
  have len: "unat (of_nat (length desc) :: u16) = length desc" using m by (simp add: unat_of_nat)
  then have cut: "(if wlen < of_nat (length desc) then wlen else of_nat (length desc)) = (of_nat L :: u16)"
    by (auto simp: L_def min_def word_less_nat_alt)
  have "length desc = 18 \<or> length desc = 182"
    using assms(1) by (auto simp: CALLBACK_USB_GetDescriptor_def Let_def descriptor_sizes split: if_splits)
  then have "length desc \<noteq> 0" by linarith
  with len have "(of_nat (length desc) :: u16) \<noteq> 0" by (metis unat_0)
  then have run: "deliver_with es = mods_loop F mods es
      \<lparr>cs_length = of_nat L, cs_full = False, cs_current = 0, cs_packets = []\<rparr>" for es
    by (simp add: deliver_with_def write_endpoint_mods_def cut F_def)
  show ?thesis
  proof (cases "\<exists>off\<in>offsets mods. unat wlen = off + 1")
    case True
    then obtain off where off: "off \<in> offsets mods" "unat wlen = off + 1" by blast
    then have "off + 1 < length desc" "off < 62" using m by auto
    then have "L = off + 1 - 0" using off(2) by (simp add: L_def)
    obtain bs len' cur' n' where fill: "fill_bank F mods 0 (of_nat L) 0 = (bs, len', cur', n')"
      by (metis prod_cases4)
    have "64 \<le> n'"
      using fill_bank_cut [of mods off 0 F] m off \<open>off < 62\<close> fill \<open>L = off + 1 - 0\<close> by simp
    moreover have "n' = 0 + length bs" using fill_bank_length [OF _ fill] m by blast
    moreover have "(of_nat L :: u16) \<noteq> 0"
      using L(1) \<open>L = off + 1 - 0\<close> unat_of_nat [of L, where 'a = 16] by (auto simp: unsigned_eq_0_iff)
    ultimately show ?thesis
      using True off(2) \<open>off < 62\<close> by (simp add: run write_packet_def fill)
  next
    case False
    have "\<forall>o'\<in>offsets mods. o' mod 64 \<noteq> 63 \<and> L \<noteq> o' + 1"
    proof
      fix o' assume o': "o' \<in> offsets mods"
      then have "o' \<in> {8, 10, 54}" "o' + 1 < length desc" "unat wlen \<noteq> o' + 1" using m False by blast+
      then show "o' mod 64 \<noteq> 63 \<and> L \<noteq> o' + 1" by (auto simp: L_def)
    qed
    from mods_loop_delivers [OF _ this L(1) _ L(2),
        of 0 "\<lparr>cs_length = of_nat L, cs_full = False, cs_current = 0, cs_packets = []\<rparr>" F] m
    obtain s where "deliver_with (replicate j Ready @ [StatusOut]) = (Finished, s)"
      "concat (cs_packets s) = map (patched F mods) [0..<L]" "\<forall>p\<in>set (cs_packets s). length p \<le> 64"
      by (auto simp: run)
    moreover have "map (patched F mods) [0..<L] = take (unat wlen) (map (patched F mods) [0..<length desc])"
      by (simp add: L_def take_map min_def)
    ultimately show ?thesis using False m by (auto simp: F_def)
  qed
qed

text \<open>The device descriptor of a PS3 guitar when the host asks for 18 bytes.\<close>

theorem descriptor_delivered_witness:
  "\<forall>past. \<exists>s. write_endpoint_mods (flash_of (deviceDescriptor (1, 2, 3)) past) 18 (vid_pid_mods 27) 18
       [Ready, Ready, Ready, StatusOut] = (Finished, s) \<and>
     take 4 (drop 8 (concat (cs_packets s))) = [0xba, 0x12, 0x00, 0x01]"
proof
  fix past
  have ans: "CALLBACK_USB_GetDescriptor (1, 2, 3) 27 0x100 = Written (deviceDescriptor (1, 2, 3)) (vid_pid_mods 27)"
    by (simp add: CALLBACK_USB_GetDescriptor_def)
  have offs: "offsets (vid_pid_mods 27) = {8, 10}" by (simp add: vid_pid_apart)
  have td: "take 4 (drop 8 (take 18 (type_descriptor (1, 2, 3) 27 1))) = [0xba, 0x12, 0x00, 0x01]"
    by code_simp
  have events: "replicate 3 Ready @ [StatusOut] = [Ready, Ready, Ready, StatusOut]" by code_simp
  have "(of_nat (length (deviceDescriptor (1, 2, 3))) :: u16) = 18" by (simp add: descriptor_sizes)
  then show "\<exists>s. write_endpoint_mods (flash_of (deviceDescriptor (1, 2, 3)) past) 18 (vid_pid_mods 27) 18
       [Ready, Ready, Ready, StatusOut] = (Finished, s) \<and>
     take 4 (drop 8 (concat (cs_packets s))) = [0xba, 0x12, 0x00, 0x01]"
    using descriptor_delivered [OF ans, of 3 18 past, unfolded events] td by (auto simp: offs)
qed


text \<open>A packet as the host takes it: the report's id first, if the descriptor has ids at all.\<close>

definition host_report :: "u8 list \<Rightarrow> u8 list \<Rightarrow> nat \<times> u8 list" where
  "host_report desc p =
     (if \<exists>f\<in>set (hid_fields desc). hf_id f \<noteq> 0 then (unat (hd p), tl p) else (0, p))"

definition host_reads :: "u8 list \<Rightarrow> u8 list \<Rightarrow> nat \<times> nat \<Rightarrow> nat option" where
  "host_reads desc p = (case host_report desc p of (rid, bs) \<Rightarrow> host_value desc rid bs)"

definition host_keys :: "u8 list \<Rightarrow> u8 list \<Rightarrow> nat list list" where
  "host_keys desc p = (case host_report desc p of (rid, bs) \<Rightarrow> host_array_values desc rid bs)"

definition host_accepts :: "u8 list \<Rightarrow> u8 list \<Rightarrow> bool" where
  "host_accepts desc p \<longleftrightarrow> (case host_report desc p of (rid, bs) \<Rightarrow> 8 * length bs = input_bits desc rid)"

lemma host_report_ids:
  "host_report kbd_report_descriptor p = (unat (hd p), tl p)"
  "host_report ps3_report_descriptor p = (0, p)"
  by (simp_all add: host_report_def kbd_fields ps3_fields field_def)

lemma packet_of_reports:
  "kbd_rid k = report_id REPORT_ID_KBD \<Longrightarrow> packet_of (kbd_bytes k) = 6 # tl (kbd_bytes k)"
  "mouse_rid m = report_id REPORT_ID_MOUSE \<Longrightarrow> packet_of (mouse_bytes m) = 5 # tl (mouse_bytes m)"
  "ps3_rid g = report_id REPORT_ID_GAMEPAD \<Longrightarrow> packet_of (ps3_bytes g) = tl (ps3_bytes g)"
  by (simp_all add: packet_of_def id_stripped_def kbd_bytes_def mouse_bytes_def ps3_bytes_def)

text \<open>
  C40: the descriptor a device of type t gives for its reports is the one by which the host reads
  them: the keys and modifiers of a keyboard report, the buttons, the hat, the axes and the
  accelerometer of a gamepad report, each in its place, from packets of just the length described.
  A mouse is the exception: its type is above the keyboards, so that the gamepad descriptor is
  given, which its packets do not fit and which has no mouse in it.
\<close>

theorem host_understands_reports:
  assumes "CALLBACK_USB_GetDescriptor version t 0x2200 = Descriptor d"
  shows "(t \<le> subtype_val KEYBOARD_ROCK_BAND_DRUMS \<longrightarrow>
      (\<forall>k. kbd_rid k = report_id REPORT_ID_KBD \<and> length (kbd_keys k) = SIMULTANEOUS_KEYS \<longrightarrow>
        (let p = packet_of (kbd_bytes k) in host_accepts d p \<and> host_keys d p = [map unat (kbd_keys k)] \<and>
         map (\<lambda>i. host_reads d p (7, 0xE0 + i)) [0..<8] =
           map (\<lambda>i. Some (of_bool (bit (kbd_modifier k) i))) [0..<8]))) \<and>
    (subtype_val SWITCH_GAMEPAD \<le> t \<longrightarrow>
      (\<forall>g. ps3_rid g = report_id REPORT_ID_GAMEPAD \<and> length (ps3_axis g) = 12 \<and> length (ps3_accel g) = 4 \<longrightarrow>
        (let p = packet_of (ps3_bytes g) in host_accepts d p \<and>
         map (\<lambda>i. host_reads d p (9, i + 1)) [0..<13] =
           map (\<lambda>i. Some (of_bool (bit (ps3_buttons g) i))) [0..<13] \<and>
         host_reads d p (1, 0x39) = Some (unat (ps3_hat g) mod 16) \<and>
         map (host_reads d p) [(1, 0x30), (1, 0x31), (1, 0x32), (1, 0x35)] =
           map (\<lambda>b. Some (unat b)) [ps3_l_x g, ps3_l_y g, ps3_r_x g, ps3_r_y g] \<and>
         map (\<lambda>i. host_reads d p (0xFF00, 0x20 + i)) [0..<12] =
           map (\<lambda>i. Some (unat (ps3_axis g ! i))) [0..<12] \<and>
         map (\<lambda>i. host_reads d p (0xFF00, 0x2C + i)) [0..<4] = map (\<lambda>v. Some (unat v)) (ps3_accel g)))) \<and>
    (t = subtype_val MOUSE \<longrightarrow>
      (\<forall>m. mouse_rid m = report_id REPORT_ID_MOUSE \<longrightarrow> \<not> host_accepts d (packet_of (mouse_bytes m)) \<and>
        host_accepts kbd_report_descriptor (packet_of (mouse_bytes m))))"
proof (intro conjI impI allI)
  have d: "d = (if t \<le> 25 then kbd_report_descriptor else ps3_report_descriptor)"
    using assms by (simp add: CALLBACK_USB_GetDescriptor_def)
  {
    fix k :: USB_ID_KeyboardReport_Data_t
    assume t: "t \<le> subtype_val KEYBOARD_ROCK_BAND_DRUMS"
      and k: "kbd_rid k = report_id REPORT_ID_KBD \<and> length (kbd_keys k) = SIMULTANEOUS_KEYS"
    then have "d = kbd_report_descriptor" using d by simp
    with k kbd_reading [of k] show "let p = packet_of (kbd_bytes k) in host_accepts d p \<and>
        host_keys d p = [map unat (kbd_keys k)] \<and>
        map (\<lambda>i. host_reads d p (7, 0xE0 + i)) [0..<8] =
          map (\<lambda>i. Some (of_bool (bit (kbd_modifier k) i))) [0..<8]"
      by (simp add: Let_def packet_of_reports host_accepts_def host_reads_def host_keys_def host_report_ids
          SIMULTANEOUS_KEYS_def del: upt.simps)
  next
    fix g :: USB_PS3Report_Data_t
    assume t: "subtype_val SWITCH_GAMEPAD \<le> t"
      and g: "ps3_rid g = report_id REPORT_ID_GAMEPAD \<and> length (ps3_axis g) = 12 \<and> length (ps3_accel g) = 4"
    from t have "\<not> t \<le> 25" by (auto simp: word_le_nat_alt)
    then have "d = ps3_report_descriptor" using d by simp
    with g ps3_reading [of g] show "let p = packet_of (ps3_bytes g) in host_accepts d p \<and>
         map (\<lambda>i. host_reads d p (9, i + 1)) [0..<13] =
           map (\<lambda>i. Some (of_bool (bit (ps3_buttons g) i))) [0..<13] \<and>
         host_reads d p (1, 0x39) = Some (unat (ps3_hat g) mod 16) \<and>
         map (host_reads d p) [(1, 0x30), (1, 0x31), (1, 0x32), (1, 0x35)] =
           map (\<lambda>b. Some (unat b)) [ps3_l_x g, ps3_l_y g, ps3_r_x g, ps3_r_y g] \<and>
         map (\<lambda>i. host_reads d p (0xFF00, 0x20 + i)) [0..<12] =
           map (\<lambda>i. Some (unat (ps3_axis g ! i))) [0..<12] \<and>
         map (\<lambda>i. host_reads d p (0xFF00, 0x2C + i)) [0..<4] = map (\<lambda>v. Some (unat v)) (ps3_accel g)"
      by (simp add: Let_def packet_of_reports host_accepts_def host_reads_def host_report_ids del: upt.simps)
  next
    fix m :: USB_ID_MouseReport_Data_t
    assume t: "t = subtype_val MOUSE" and m: "mouse_rid m = report_id REPORT_ID_MOUSE"
    have "length (packet_of (mouse_bytes m)) = 6" 
      unfolding packet_of_reports(2) [OF m] by (simp add: mouse_bytes_def)
    with t d show "\<not> host_accepts d (packet_of (mouse_bytes m))"
      by (simp add: host_accepts_def host_report_ids ps3_table)
    from m mouse_reading(3) [of m] show "host_accepts kbd_report_descriptor (packet_of (mouse_bytes m))"
      by (simp add: host_accepts_def host_report_ids packet_of_reports)
  }
qed

text \<open>The first button of a PS3 guitar, and the mouse.\<close>

theorem host_understands_reports_witness:
  "\<exists>d. CALLBACK_USB_GetDescriptor (1, 2, 3) 27 0x2200 = Descriptor d \<and>
     host_reads d (packet_of (ps3_bytes (ps3_blank\<lparr>ps3_rid := 4, ps3_hat := 8\<rparr>))) (1, 0x39) = Some 8"
proof -
  have "CALLBACK_USB_GetDescriptor (1, 2, 3) 27 0x2200 = Descriptor ps3_report_descriptor"
    by (simp add: CALLBACK_USB_GetDescriptor_def)
  with host_understands_reports [OF this] show ?thesis
    by (auto simp: ps3_blank_def Let_def simp del: upt.simps)
qed

end
