(* ===== verification/Micro.thy ===== *)
theory Micro
  imports Usb
begin

text \<open>
  The program of the boards with one chip for everything, the Micro and its relatives with an
  ATmega32U4 (\<open>src/src/avr/micro/main/main.c\<close>): the main loop, the way of a report to its endpoint
  through LUFA's streams (\<open>Template_Endpoint_RW.c\<close>, \<open>Endpoint_AVR8.c\<close>), and the feature requests. It
  does with one chip what the Uno does with two and a serial line between them.

  What depends on the pins of this board, whose tables differ from the Uno's, is a parameter over
  a state \<open>'b\<close>: the poll of the inputs, the LEDs, the radio and the commands.
\<close>

section \<open>Endpoints\<close>

record ep_state =
  ep_selected :: u8
  ep_bank :: "u8 \<Rightarrow> u8 list"
  ep_sent :: "(u8 \<times> u8 list) list"

definition ep_select :: "u8 \<Rightarrow> ep_state \<Rightarrow> ep_state" where
  "ep_select ep e = e\<lparr>ep_selected := ep\<rparr>"

definition ep_write8 :: "u8 \<Rightarrow> ep_state \<Rightarrow> ep_state" where
  "ep_write8 b e = e\<lparr>ep_bank := (ep_bank e)(ep_selected e := ep_bank e (ep_selected e) @ [b])\<rparr>"

definition ep_clear_in :: "ep_state \<Rightarrow> ep_state" where
  "ep_clear_in e =
     e\<lparr>ep_sent := ep_sent e @ [(ep_selected e, ep_bank e (ep_selected e))],
       ep_bank := (ep_bank e)(ep_selected e := [])\<rparr>"

definition Endpoint_IsReadWriteAllowed :: "ep_state \<Rightarrow> bool" where
  "Endpoint_IsReadWriteAllowed e \<longleftrightarrow> length (ep_bank e (ep_selected e)) < HID_EPSIZE"

text \<open>
  What a waiting loop sees in a round: the bank is free, the bus is gone or suspended, the endpoint
  is stalled, a new frame has begun, or none of these. None is a wait that goes on.
\<close>

datatype ep_poll = EpReady | EpUnattached | EpSuspended | EpStalled | EpNewFrame | EpSameFrame

datatype ready_wait =
    READYWAIT_NoError | READYWAIT_EndpointStalled | READYWAIT_DeviceDisconnected
  | READYWAIT_BusSuspended | READYWAIT_Timeout

abbreviation (input) USB_STREAM_TIMEOUT_MS :: nat where "USB_STREAM_TIMEOUT_MS \<equiv> 100"

fun Endpoint_WaitUntilReady :: "nat \<Rightarrow> ep_poll list \<Rightarrow> (ready_wait \<times> ep_poll list) option" where
  "Endpoint_WaitUntilReady rem [] = None"
| "Endpoint_WaitUntilReady rem (p # ps) =
     (case p of
        EpReady \<Rightarrow> Some (READYWAIT_NoError, ps)
      | EpUnattached \<Rightarrow> Some (READYWAIT_DeviceDisconnected, ps)
      | EpSuspended \<Rightarrow> Some (READYWAIT_BusSuspended, ps)
      | EpStalled \<Rightarrow> Some (READYWAIT_EndpointStalled, ps)
      | EpNewFrame \<Rightarrow> if rem = 0 then Some (READYWAIT_Timeout, ps) else Endpoint_WaitUntilReady (rem - 1) ps
      | EpSameFrame \<Rightarrow> Endpoint_WaitUntilReady rem ps)"

text \<open>
  Endpoint\_Write\_Stream\_LE with no count of the bytes done. A full bank is handed over, and once the
  endpoint is ready again its bank is empty, so that the next byte goes in. The task between the two
  serves the control endpoint and leaves this one alone.
\<close>

fun stream_bytes ::
  "u8 list \<Rightarrow> ep_poll list \<Rightarrow> ep_state \<Rightarrow> (ready_wait \<times> ep_poll list \<times> ep_state) option" where
  "stream_bytes [] ps e = Some (READYWAIT_NoError, ps, e)"
| "stream_bytes (b # bs) ps e =
     (if Endpoint_IsReadWriteAllowed e then stream_bytes bs ps (ep_write8 b e)
      else Option.bind (Endpoint_WaitUntilReady USB_STREAM_TIMEOUT_MS ps) (\<lambda>(err, ps).
             if err \<noteq> READYWAIT_NoError then Some (err, ps, ep_clear_in e)
             else stream_bytes bs ps (ep_write8 b (ep_clear_in e))))"

definition Endpoint_Write_Stream_LE ::
  "u8 list \<Rightarrow> ep_poll list \<Rightarrow> ep_state \<Rightarrow> (ready_wait \<times> ep_poll list \<times> ep_state) option" where
  "Endpoint_Write_Stream_LE bs ps e =
     Option.bind (Endpoint_WaitUntilReady USB_STREAM_TIMEOUT_MS ps) (\<lambda>(err, ps).
       if err \<noteq> READYWAIT_NoError then Some (err, ps, e) else stream_bytes bs ps e)"

section \<open>The main loop\<close>

record 'b micro =
  mi_board :: 'b
  mi_controller :: Controller_t
  mi_prev :: Controller_t
  mi_reports :: report_state
  mi_ep :: ep_state
  mi_isRF :: bool
  mi_drum :: bool
  mi_pollRate :: u8
  mi_lastPoll :: u32
  mi_fullDeviceType :: u8

record 'b micro_env =
  me_tickInputs :: "Controller_t \<times> 'b \<Rightarrow> halt + (Controller_t \<times> 'b)"
  me_tickLEDs :: "Controller_t \<times> 'b \<Rightarrow> halt + 'b"
  me_tickRFInput :: "Controller_t \<times> 'b \<Rightarrow> halt + (Controller_t \<times> 'b)"
  me_input :: "'b \<Rightarrow> input_state"
  me_task :: "ep_state \<Rightarrow> ep_state"
  me_ready :: "u8 \<Rightarrow> bool"
  me_polls :: "ep_poll list"
  me_now :: u32
  me_sent :: u32
  me_beyond :: u8

text \<open>The endpoint is chosen by the report's id; for MIDI and for the gamepad the id is not sent.\<close>

definition route_report :: "u8 list \<Rightarrow> ep_state \<Rightarrow> u8 list \<times> ep_state" where
  "route_report data e =
     (let rid = hd data
      in if rid = report_id REPORT_ID_XINPUT then (data, ep_select XINPUT_EPADDR_IN e)
         else if rid = report_id REPORT_ID_MIDI then (tl data, ep_select MIDI_EPADDR_IN e)
         else if rid = report_id REPORT_ID_GAMEPAD then (tl data, ep_select HID_EPADDR_IN e)
         else if rid = report_id REPORT_ID_KBD \<or> rid = report_id REPORT_ID_MOUSE
         then (data, ep_select HID_EPADDR_IN e)
         else (data, e))"

definition write_report :: "u8 list \<Rightarrow> ep_poll list \<Rightarrow> ep_state \<Rightarrow> ep_state option" where
  "write_report data ps e =
     (case route_report data e of (bs, e1) \<Rightarrow>
        map_option (\<lambda>(_, _, e2). ep_clear_in e2) (Endpoint_Write_Stream_LE bs ps e1))"

definition micro_send :: "'b micro_env \<Rightarrow> 'b micro \<Rightarrow> halt + 'b micro" where
  "micro_send env u =
     (if mi_controller u \<noteq> mi_prev u \<and> me_ready env (ep_selected (mi_ep u))
      then case fillReport (mi_drum u) (me_beyond env) (mi_fullDeviceType u) (me_input env (mi_board u))
                  (mi_controller u) (mi_reports u) of
             None \<Rightarrow> Inl OutOfArray
           | Some (n, bs, r) \<Rightarrow>
               if n \<noteq> 0
               then case write_report (take (unat n) bs) (me_polls env) (mi_ep u) of
                      None \<Rightarrow> Inl NoAnswer
                    | Some e \<Rightarrow> Inr (u\<lparr>mi_reports := r, mi_lastPoll := me_sent env,
                                    mi_prev := mi_controller u, mi_ep := e\<rparr>)
               else Inr (u\<lparr>mi_reports := r\<rparr>)
      else Inr u)"

definition micro_step :: "'b micro_env \<Rightarrow> 'b micro \<Rightarrow> halt + 'b micro" where
  "micro_step env u0 =
     (let u = u0\<lparr>mi_ep := me_task env (mi_ep u0)\<rparr>
      in if mi_isRF u
         then and_then (me_tickRFInput env (mi_controller u, mi_board u)) (\<lambda>(c, b).
                micro_send env (u\<lparr>mi_controller := c, mi_board := b\<rparr>))
         else and_then (me_tickInputs env (mi_controller u, mi_board u)) (\<lambda>(c, b).
                and_then (me_tickLEDs env (c, b)) (\<lambda>b.
                  let u = u\<lparr>mi_controller := c, mi_board := b\<rparr>
                  in if me_now env - mi_lastPoll u < ucast (mi_pollRate u) then Inr u
                     else micro_send env u)))"

text \<open>The endpoints the host's configuration of the device sets up: address and size.\<close>

definition micro_ConfigurationChanged :: "(u8 \<times> nat) list" where
  "micro_ConfigurationChanged =
     [(XINPUT_EPADDR_IN, HID_EPSIZE), (HID_EPADDR_IN, HID_EPSIZE), (MIDI_EPADDR_IN, HID_EPSIZE),
      (7, HID_EPSIZE), (8, HID_EPSIZE)]"

section \<open>Feature requests\<close>

text \<open>
  The host's bytes go into an array of 66, behind the two of the radio's header, and the length is
  the host's. \<open>obey\<close> is processHIDWriteFeatureReport, \<open>forward\<close> what the radio does with the array.
\<close>

definition micro_write_feature ::
  "(u8 \<Rightarrow> u8 \<Rightarrow> u8 list \<Rightarrow> 'b \<Rightarrow> halt + 'b) \<Rightarrow> (u8 list \<Rightarrow> 'b \<Rightarrow> halt + 'b) \<Rightarrow> u8 list \<Rightarrow> u8 list \<Rightarrow>
   u8 \<Rightarrow> u8 \<Rightarrow> 'b micro \<Rightarrow> halt + 'b micro" where
  "micro_write_feature obey forward host junk cmd len u =
     (if 64 < unat len then Inl OutOfArray
      else if length host < unat len then Inl NoAnswer
      else let buf = [cmd, 0] @ take (unat len) host @ drop (unat len) junk
           in and_then (obey cmd len (drop 2 buf) (mi_board u)) (\<lambda>b.
                and_then (if mi_isRF u then forward (take 32 buf) b else Inr b)
                  (\<lambda>b. Inr (u\<lparr>mi_board := b\<rparr>))))"

text \<open>
  A reply goes to the control endpoint without the report's id, as far as the host asked for it; it
  has at least the id (\<open>len\<close> is not 0).
\<close>

definition micro_writeToUSB :: "u16 \<Rightarrow> u8 list \<Rightarrow> u8 \<Rightarrow> u8 list" where
  "micro_writeToUSB wlen buffer len = take (min (unat len - 1) (unat wlen)) (tl buffer)"

section \<open>Facts of the streams\<close>

text \<open>A wait ends at the latest with the hundred and first new frame.\<close>

lemma wait_ends:
  "rem < length (filter (\<lambda>p. p \<noteq> EpSameFrame) ps) \<Longrightarrow> Endpoint_WaitUntilReady rem ps \<noteq> None"
  by (induction rem ps rule: Endpoint_WaitUntilReady.induct) (auto split: ep_poll.splits)

lemma clear_in_bank [simp]:
  "ep_selected (ep_clear_in e) = ep_selected e" "ep_bank (ep_clear_in e) (ep_selected e) = []"
  "ep_sent (ep_clear_in e) = ep_sent e @ [(ep_selected e, ep_bank e (ep_selected e))]"
  by (simp_all add: ep_clear_in_def)

lemma write8_bank [simp]:
  "ep_selected (ep_write8 b e) = ep_selected e" "ep_sent (ep_write8 b e) = ep_sent e"
  "ep_bank (ep_write8 b e) (ep_selected e) = ep_bank e (ep_selected e) @ [b]"
  by (simp_all add: ep_write8_def)

lemma write8_fill:
  "ep_bank (fold ep_write8 bs e) (ep_selected e) = ep_bank e (ep_selected e) @ bs"
  "ep_selected (fold ep_write8 bs e) = ep_selected e" "ep_sent (fold ep_write8 bs e) = ep_sent e"
proof -
  have "ep_bank (fold ep_write8 bs e) (ep_selected e) = ep_bank e (ep_selected e) @ bs \<and>
    ep_selected (fold ep_write8 bs e) = ep_selected e \<and> ep_sent (fold ep_write8 bs e) = ep_sent e"
  proof (induction bs arbitrary: e)
    case (Cons b bs)
    from Cons [of "ep_write8 b e"] show ?case by simp
  qed simp
  then show "ep_bank (fold ep_write8 bs e) (ep_selected e) = ep_bank e (ep_selected e) @ bs"
    "ep_selected (fold ep_write8 bs e) = ep_selected e" "ep_sent (fold ep_write8 bs e) = ep_sent e"
    by simp_all
qed

text \<open>
  A wait that ends well: some rounds in which nothing happens or a new frame begins, at most a
  hundred of the latter, and then the bank is free.
\<close>

definition patient :: "ep_poll list \<Rightarrow> bool" where
  "patient w \<longleftrightarrow> (\<exists>rounds. w = rounds @ [EpReady] \<and> set rounds \<subseteq> {EpNewFrame, EpSameFrame} \<and>
     length (filter (\<lambda>p. p = EpNewFrame) rounds) \<le> 100)"

lemma wait_patient:
  assumes "patient w"
  shows "Endpoint_WaitUntilReady USB_STREAM_TIMEOUT_MS (w @ ps) = Some (READYWAIT_NoError, ps)"
proof -
  have "set rounds \<subseteq> {EpNewFrame, EpSameFrame} \<Longrightarrow> length (filter (\<lambda>p. p = EpNewFrame) rounds) \<le> rem \<Longrightarrow>
      Endpoint_WaitUntilReady rem ((rounds @ [EpReady]) @ ps) = Some (READYWAIT_NoError, ps)" for rounds rem
    by (induction rounds arbitrary: rem) (auto split: if_splits)
  with assms show ?thesis unfolding patient_def by blast
qed

text \<open>
  When every wait is of this kind, all bytes are written in order: the packets handed over on the
  way are full, and what is left is in the bank.
\<close>

lemma stream_packets:
  assumes "\<forall>w\<in>set ws. patient w"
    and "length (ep_bank e (ep_selected e)) + length bs \<le> 32 * (length ws + 1)"
    and "length (ep_bank e (ep_selected e)) \<le> 32"
  shows "\<exists>ps' e' out. stream_bytes bs (concat ws) e = Some (READYWAIT_NoError, ps', e') \<and>
    ep_selected e' = ep_selected e \<and> ep_sent e' = ep_sent e @ map (Pair (ep_selected e)) out \<and>
    concat out @ ep_bank e' (ep_selected e) = ep_bank e (ep_selected e) @ bs \<and>
    (\<forall>p\<in>set out. length p = 32) \<and> length (ep_bank e' (ep_selected e)) \<le> 32 \<and>
    (out \<noteq> [] \<longrightarrow> ep_bank e' (ep_selected e) \<noteq> [])"
  using assms
proof (induction bs arbitrary: ws e)
  case Nil
  then show ?case by (intro exI [of _ "concat ws"] exI [of _ e] exI [of _ "[]"]) simp
next
  case (Cons b bs)
  let ?bank = "ep_bank e (ep_selected e)"
  show ?case
  proof (cases "length ?bank < 32")
    case True
    have "stream_bytes (b # bs) (concat ws) e = stream_bytes bs (concat ws) (ep_write8 b e)"
      using True by (simp add: Endpoint_IsReadWriteAllowed_def HID_EPSIZE_def)
    with Cons.IH [of ws "ep_write8 b e"] Cons.prems True show ?thesis by (auto simp: le_Suc_eq)
  next
    case False
    let ?e = "ep_write8 b (ep_clear_in e)"
    from False Cons.prems(2) obtain w ws1 where ws: "ws = w # ws1" "patient w"
      using Cons.prems(1) by (cases ws) auto
    have bank: "ep_selected ?e = ep_selected e" "ep_bank ?e (ep_selected e) = [b]"
      "ep_sent ?e = ep_sent e @ [(ep_selected e, ?bank)]"
      using write8_bank(3) [of b "ep_clear_in e"] by simp_all
    have "stream_bytes (b # bs) (concat ws) e = stream_bytes bs (concat ws1) ?e"
      using False ws(1) wait_patient [OF ws(2), of "concat ws1"]
      by (simp add: Endpoint_IsReadWriteAllowed_def HID_EPSIZE_def)
    moreover obtain ps' e' out where out: "stream_bytes bs (concat ws1) ?e = Some (READYWAIT_NoError, ps', e')"
      "ep_selected e' = ep_selected e" "ep_sent e' = ep_sent ?e @ map (Pair (ep_selected e)) out"
      "concat out @ ep_bank e' (ep_selected e) = b # bs" "\<forall>p\<in>set out. length p = 32"
      "length (ep_bank e' (ep_selected e)) \<le> 32" "out \<noteq> [] \<longrightarrow> ep_bank e' (ep_selected e) \<noteq> []"
      using Cons.IH [of ws1 ?e] Cons.prems ws False bank by auto
    moreover have "ep_bank e' (ep_selected e) \<noteq> []"
      using out(4,7) by (cases "out = []") auto
    ultimately show ?thesis
      using False Cons.prems(3) bank
      by (intro exI [of _ ps'] exI [of _ e'] exI [of _ "?bank # out"]) auto
  qed
qed

lemma write_stream_packets:
  assumes "\<forall>w\<in>set ws. patient w" "length bs \<le> 32 * length ws" "ws \<noteq> []"
    and "ep_bank e (ep_selected e) = []"
  shows "\<exists>ps' e' full rest. Endpoint_Write_Stream_LE bs (concat ws) e = Some (READYWAIT_NoError, ps', e') \<and>
    ep_selected e' = ep_selected e \<and>
    ep_sent (ep_clear_in e') = ep_sent e @ map (Pair (ep_selected e)) (full @ [rest]) \<and>
    concat full @ rest = bs \<and> (\<forall>p\<in>set full. length p = 32) \<and> length rest \<le> 32 \<and> (full \<noteq> [] \<longrightarrow> rest \<noteq> [])"
proof -
  obtain w ws1 where ws: "ws = w # ws1" "patient w" using assms(1,3) by (cases ws) auto
  from stream_packets [of ws1 e bs] assms ws obtain ps' e' out where
    s: "stream_bytes bs (concat ws1) e = Some (READYWAIT_NoError, ps', e')" "ep_selected e' = ep_selected e"
      "ep_sent e' = ep_sent e @ map (Pair (ep_selected e)) out"
      "concat out @ ep_bank e' (ep_selected e) = bs" "\<forall>p\<in>set out. length p = 32"
      "length (ep_bank e' (ep_selected e)) \<le> 32" "out \<noteq> [] \<longrightarrow> ep_bank e' (ep_selected e) \<noteq> []"
    by auto
  have "ep_sent (ep_clear_in e') =
      ep_sent e @ map (Pair (ep_selected e)) (out @ [ep_bank e' (ep_selected e)])"
    using s(2,3) clear_in_bank(3) [of e'] by simp
  moreover have "Endpoint_Write_Stream_LE bs (concat ws) e = Some (READYWAIT_NoError, ps', e')"
    using s(1) ws(1) wait_patient [OF ws(2), of "concat ws1"] by (simp add: Endpoint_Write_Stream_LE_def)
  ultimately show ?thesis using s(2,4-7) by blast
qed

text \<open>Full packets and a last one: when everything fits into one packet, there is no full one.\<close>

lemma one_packet:
  assumes "\<forall>p\<in>set full. length p = (32 :: nat)" "full \<noteq> [] \<longrightarrow> rest \<noteq> []" "length (concat full @ rest) \<le> 32"
  shows "full = []"
  using assms by (cases full) auto

section \<open>The same packets as the Uno\<close>

lemma route_as_uno:
  "hd data \<in> sent_ids \<Longrightarrow>
   route_report data e = (packet_of data, ep_select (endpoint_of past (hd data)) e)"
  by (auto simp: route_report_def packet_of_def endpoint_of_def id_stripped_def endpoints_def Let_def)

text \<open>
  C18: whatever its controller and type, this board gives the host the report's bytes, without the
  report's id where the Uno strips it, on the endpoint the Uno uses: in full packets of 32 bytes and a
  last one with the rest, which is empty only for an empty report. The endpoint is ready when the
  report is begun, and every wait for it ends in time: the bus stays, the endpoint is not stalled, and
  at most a hundred frames pass. For a report of at least two bytes the Uno's two chips, the USB chip
  idle with an empty bank, hand over the same single packet when it fits into 32 bytes, and overrun the
  bank when it does not. A MIDI report without an event, which stops the Uno, is an empty packet here,
  and the board goes on.
\<close>

theorem micro_sends_as_uno:
  assumes "fillReport (mi_drum u) (me_beyond env) (mi_fullDeviceType u) (me_input env (mi_board u))
      (mi_controller u) (mi_reports u) = Some (n, bs, r)"
    and "mi_controller u \<noteq> mi_prev u" "me_ready env (ep_selected (mi_ep u))"
    and "ep_bank (mi_ep u) (endpoint_of past (hd bs)) = []"
    and "me_polls env = concat ws" "\<forall>w\<in>set ws. patient w" "8 \<le> length ws"
    and "us_state c = 0" "us_bank c (endpoint_of past (hd bs)) = []" "\<not> us_overrun c" "unat n \<le> length bs"
  shows "\<exists>u' full rest c' leave left. micro_send env u = Inr u' \<and>
    ep_sent (mi_ep u') = ep_sent (mi_ep u) @ map (Pair (endpoint_of past (hd bs))) (full @ [rest]) \<and>
    concat full @ rest = packet_of (take (unat n) bs) \<and>
    (\<forall>p\<in>set full. length p = 32) \<and> length rest \<le> 32 \<and> (full \<noteq> [] \<longrightarrow> rest \<noteq> []) \<and>
    usb_fold past (FRAME_START_WRITE # n # take (unat n) bs) c = (leave, left, c') \<and>
    (2 \<le> unat n \<longrightarrow>
       (if full = [] then us_sent c' = us_sent c @ map (Pair (endpoint_of past (hd bs))) (full @ [rest]) \<and> \<not> us_overrun c'
        else us_overrun c')) \<and>
    mi_prev u' = mi_controller u \<and> mi_lastPoll u' = me_sent env"
proof -
  let ?bs = "take (unat n) bs" and ?ep = "endpoint_of past (hd bs)"
  note start = fillReport_starts [OF assms(1)]
  have n: "0 < unat n" "unat n < 256"
    using start unsigned_less [of n] by (simp_all add: unat_gt_0)
  then have hd: "hd ?bs = hd bs" by simp
  have route: "route_report ?bs (mi_ep u) = (packet_of ?bs, ep_select ?ep (mi_ep u))"
    using route_as_uno [of ?bs "mi_ep u" past] start hd by simp
  have "length (packet_of xs) \<le> length xs" for xs by (simp add: packet_of_def)
  then have "length (packet_of ?bs) \<le> length ?bs" .
  also have "\<dots> \<le> 32 * 8" using n by simp
  also have "\<dots> \<le> 32 * length ws" using assms(7) by (intro mult_le_mono2)
  finally have "length (packet_of ?bs) \<le> 32 * length ws" .
  moreover have "ws \<noteq> []" using assms(7) by auto
  moreover have sel: "ep_selected (ep_select ?ep (mi_ep u)) = ?ep" "ep_sent (ep_select ?ep (mi_ep u)) = ep_sent (mi_ep u)"
    "ep_bank (ep_select ?ep (mi_ep u)) ?ep = []"
    using assms(4) by (simp_all add: ep_select_def)
  ultimately obtain ps' e' full rest where
    w: "Endpoint_Write_Stream_LE (packet_of ?bs) (concat ws) (ep_select ?ep (mi_ep u)) =
        Some (READYWAIT_NoError, ps', e')"
      "ep_sent (ep_clear_in e') = ep_sent (mi_ep u) @ map (Pair ?ep) (full @ [rest])"
      "concat full @ rest = packet_of ?bs" "\<forall>p\<in>set full. length p = 32" "length rest \<le> 32"
      "full \<noteq> [] \<longrightarrow> rest \<noteq> []"
    using write_stream_packets [OF assms(6), of "packet_of ?bs" "ep_select ?ep (mi_ep u)"]
    unfolding sel by blast
  have "write_report ?bs (me_polls env) (mi_ep u) = Some (ep_clear_in e')"
    by (simp add: write_report_def route assms(5) w(1))
  with assms(1-3) start have send: "micro_send env u = Inr (u\<lparr>mi_reports := r,
      mi_lastPoll := me_sent env, mi_prev := mi_controller u, mi_ep := ep_clear_in e'\<rparr>)"
    by (simp add: micro_send_def)
  have fits: "full = [] \<longleftrightarrow> length (packet_of ?bs) \<le> 32"
    using one_packet [OF w(4,6)] w(3,5) by (cases "full = []") auto
  obtain leave left c' where uno: "usb_fold past (FRAME_START_WRITE # n # ?bs) c = (leave, left, c')"
    by (metis prod_cases3)
  have "if full = [] then us_sent c' = us_sent c @ map (Pair ?ep) (full @ [rest]) \<and> \<not> us_overrun c' else us_overrun c'"
    if "2 \<le> unat n"
  proof -
    have report: "hd ?bs = hd bs" "length ?bs = unat n" "of_nat (length ?bs) = n"
      using hd assms(11) by simp_all
    have "bank_size ?ep = 32" using sent_endpoint start by blast
    with usb_frame [of c past ?bs, unfolded report(3), unfolded report(1,2)] uno assms(8-10) n that
    have c': "us_sent c' = us_sent c @ [(?ep, take 32 (packet_of ?bs))]"
      "us_overrun c' \<longleftrightarrow> 32 < length (packet_of ?bs)"
      by (auto simp del: usb_fold.simps)
    show ?thesis
    proof (cases "full = []")
      case True
      with c' w(3) fits show ?thesis by simp
    qed (use c' fits in simp)
  qed
  with send w(2-6) uno show ?thesis
    by (intro exI [of _ full] exI [of _ rest] exI [of _ c'] exI [of _ leave] exI [of _ left] exI conjI) auto
qed

text \<open>A pressed button of an XInput gamepad: one packet of 20 bytes on the endpoint for XInput.\<close>

definition calm_env :: "unit micro_env" where
  "calm_env = \<lparr>me_tickInputs = Inr, me_tickLEDs = (\<lambda>(_, b). Inr b), me_tickRFInput = Inr,
     me_input = (\<lambda>_. blank_input), me_task = id, me_ready = (\<lambda>_. True), me_polls = concat (replicate 8 [EpNewFrame, EpSameFrame, EpReady]),
     me_now = 100, me_sent = 101, me_beyond = 0\<rparr>"

definition pressed_micro :: "report_state \<Rightarrow> unit micro" where
  "pressed_micro r = \<lparr>mi_board = (), mi_controller = blank_controller\<lparr>buttons := 1\<rparr>, mi_prev = blank_controller,
     mi_reports = r\<lparr>rp_filler := XInputFiller, rp_xinput := xinput_blank\<rparr>,
     mi_ep = \<lparr>ep_selected = 0, ep_bank = (\<lambda>_. []), ep_sent = []\<rparr>, mi_isRF = False, mi_drum = False,
     mi_pollRate = 5, mi_lastPoll = 0, mi_fullDeviceType = 1\<rparr>"

theorem micro_sends_as_uno_witness:
  "\<forall>r. \<exists>u'. micro_send calm_env (pressed_micro r) = Inr u' \<and>
     ep_sent (mi_ep u') = [(0x82, [0, 20, 1] @ replicate 17 0)]"
proof
  fix r :: report_state
  let ?u = "pressed_micro r" and ?c = "blank_controller\<lparr>buttons := 1\<rparr>"
  let ?bs = "xinput_bytes (snd (fillXInputReport ?c xinput_blank))"
  have bs: "?bs = [0, 20, 1] @ replicate 17 0" by code_simp
  have fill: "\<exists>r'. fillReport (mi_drum ?u) (me_beyond calm_env) (mi_fullDeviceType ?u)
      (me_input calm_env (mi_board ?u)) (mi_controller ?u) (mi_reports ?u) = Some (20, ?bs, r')"
    by (simp add: fillReport_def pressed_micro_def fillXInputReport_def)
  then obtain r' where fill: "fillReport (mi_drum ?u) (me_beyond calm_env) (mi_fullDeviceType ?u)
      (me_input calm_env (mi_board ?u)) (mi_controller ?u) (mi_reports ?u) = Some (20, ?bs, r')" by blast
  have changed: "mi_controller ?u \<noteq> mi_prev ?u"
    by (simp add: pressed_micro_def blank_controller_def)
  have ready: "me_ready calm_env (ep_selected (mi_ep ?u))" "ep_bank (mi_ep ?u) ep = []"
    "me_polls calm_env = concat (replicate 8 [EpNewFrame, EpSameFrame, EpReady])" "ep_sent (mi_ep ?u) = []" for ep
    by (simp_all add: calm_env_def pressed_micro_def)
  have "patient [EpNewFrame, EpSameFrame, EpReady]"
    unfolding patient_def by (intro exI [of _ "[EpNewFrame, EpSameFrame]"]) simp
  then have waits: "\<forall>w\<in>set (replicate 8 [EpNewFrame, EpSameFrame, EpReady]). patient w" by simp
  have small: "endpoint_of (\<lambda>_. 0) (hd ?bs) = 0x82" "packet_of (take (unat (20 :: u8)) ?bs) = ?bs" "length ?bs = 20"
    by (simp_all add: bs endpoint_of_def endpoints_def XINPUT_EPADDR_IN_def ENDPOINT_DIR_IN_def packet_of_def id_stripped_def)
  from micro_sends_as_uno [OF fill changed ready(1,2,3) waits _ _ _ _, of chip_at_rest "\<lambda>_. 0"]
  obtain u' full rest where sent: "micro_send calm_env ?u = Inr u'"
    "ep_sent (mi_ep u') = map (Pair 0x82) (full @ [rest])" "concat full @ rest = ?bs"
    "\<forall>p\<in>set full. length p = 32" "full \<noteq> [] \<longrightarrow> rest \<noteq> []"
    unfolding small(1,2) ready(4) using small(3) by auto
  moreover have "full = []" using one_packet [OF sent(4,5)] sent(3) small(3) by simp
  ultimately show "\<exists>u'. micro_send calm_env ?u = Inr u' \<and>
     ep_sent (mi_ep u') = [(0x82, [0, 20, 1] @ replicate 17 0)]"
    using bs by auto
qed

end
