(* ===== verification/UsbDevice.thy ===== *)
theory UsbDevice
  imports Usb "HOL-Library.While_Combinator"
begin

text \<open>
  The control endpoint of the Uno's USB chip as a whole: LUFA's handling of the standard requests
  (\<open>src/lib/lufa/LUFA/Drivers/USB/Core/DeviceStandardReq.c\<close> and the AVR8 headers), which the program
  drives from its main loop and which calls the program's own handlers of \<open>usb.h\<close> back; the states a
  device goes through from attachment to configuration, and the host's enumeration of it.

  The host and the controller are a list of events, one for each round of a waiting loop, as in Usb.
  A result \<open>Inl\<close> ends the run: a wait the host does not end, a reset, or a read past a table.
\<close>

section \<open>The state\<close>

datatype device_state =
    DEVICE_STATE_Unattached | DEVICE_STATE_Powered | DEVICE_STATE_Default | DEVICE_STATE_Addressed
  | DEVICE_STATE_Configured | DEVICE_STATE_Suspended

record usb_dev =
  USB_DeviceState :: device_state
  USB_Device_ConfigurationNumber :: u8
  UDADDR :: u8
  dv_setup :: bool
  dv_rxout :: bool
  dv_selected :: u8
  dv_stallrq :: "u8 \<Rightarrow> bool"
  dv_epen :: "u8 \<Rightarrow> bool"
  UECFG0X :: "u8 \<Rightarrow> u8"
  UECFG1X :: "u8 \<Rightarrow> u8"
  dv_in :: "u8 list list"

abbreviation (input) ADDEN :: nat where "ADDEN \<equiv> 7"
abbreviation (input) ENDPOINT_EPNUM_MASK :: u8 where "ENDPOINT_EPNUM_MASK \<equiv> 0x0F"

definition ENDPOINT_TOTAL_ENDPOINTS :: u8 where "ENDPOINT_TOTAL_ENDPOINTS = 5"

definition dv_select :: "u8 \<Rightarrow> usb_dev \<Rightarrow> usb_dev" where
  "dv_select ep v = v\<lparr>dv_selected := ep AND ENDPOINT_EPNUM_MASK\<rparr>"

definition Endpoint_ClearSETUP :: "usb_dev \<Rightarrow> usb_dev" where
  "Endpoint_ClearSETUP v = v\<lparr>dv_setup := False\<rparr>"

definition Endpoint_ClearOUT :: "usb_dev \<Rightarrow> usb_dev" where
  "Endpoint_ClearOUT v = v\<lparr>dv_rxout := False\<rparr>"

definition Endpoint_StallTransaction :: "usb_dev \<Rightarrow> usb_dev" where
  "Endpoint_StallTransaction v = v\<lparr>dv_stallrq := (dv_stallrq v)(dv_selected v := True)\<rparr>"

definition Endpoint_ClearStall :: "usb_dev \<Rightarrow> usb_dev" where
  "Endpoint_ClearStall v = v\<lparr>dv_stallrq := (dv_stallrq v)(dv_selected v := False)\<rparr>"

text \<open>A packet goes from the control endpoint's bank to the host.\<close>

definition dv_packet :: "u8 list \<Rightarrow> usb_dev \<Rightarrow> usb_dev" where
  "dv_packet bs v = v\<lparr>dv_in := dv_in v @ [bs]\<rparr>"

definition USB_Device_SetDeviceAddress :: "u8 \<Rightarrow> usb_dev \<Rightarrow> usb_dev" where
  "USB_Device_SetDeviceAddress a v = v\<lparr>UDADDR := (UDADDR v AND bv ADDEN) OR (a AND 0x7F)\<rparr>"

definition USB_Device_EnableDeviceAddress :: "usb_dev \<Rightarrow> usb_dev" where
  "USB_Device_EnableDeviceAddress v = v\<lparr>UDADDR := UDADDR v OR bv ADDEN\<rparr>"

definition USB_Device_IsAddressSet :: "usb_dev \<Rightarrow> bool" where
  "USB_Device_IsAddressSet v \<longleftrightarrow> truthy (UDADDR v AND bv ADDEN)"

text \<open>
  The chip has five endpoints; a number beyond them is refused. LUFA's \<open>ORDERED_EP_CONFIG\<close> version:
  the endpoint is enabled and its two registers written, whatever the other endpoints are. Whether
  the controller accepts it is a result that no caller looks at.
\<close>

abbreviation (input) EP_TYPE_CONTROL :: u8 where "EP_TYPE_CONTROL \<equiv> 0"
abbreviation (input) EP_TYPE_INTERRUPT :: u8 where "EP_TYPE_INTERRUPT \<equiv> 3"
abbreviation (input) EPTYPE0 :: nat where "EPTYPE0 \<equiv> 6"
abbreviation (input) EPDIR :: nat where "EPDIR \<equiv> 0"
abbreviation (input) EPSIZE0 :: nat where "EPSIZE0 \<equiv> 4"
abbreviation (input) EPBK0 :: nat where "EPBK0 \<equiv> 2"
abbreviation (input) ALLOC :: nat where "ALLOC \<equiv> 1"

definition Endpoint_BytesToEPSizeMask :: "u16 \<Rightarrow> u8" where
  "Endpoint_BytesToEPSizeMask bytes =
     push_bit EPSIZE0 (fst (while (\<lambda>(_, check). check < bytes) (\<lambda>(m, check). (m + 1, push_bit 1 check)) (0, 8)))"

definition Endpoint_ConfigureEndpoint_Prv :: "u8 \<Rightarrow> u8 \<Rightarrow> u8 \<Rightarrow> usb_dev \<Rightarrow> usb_dev" where
  "Endpoint_ConfigureEndpoint_Prv ep cfg0 cfg1 v =
     (let v1 = dv_select ep v; n = dv_selected v1
      in v1\<lparr>dv_epen := (dv_epen v1)(n := True), UECFG0X := (UECFG0X v1)(n := cfg0),
            UECFG1X := (UECFG1X v1)(n := cfg1)\<rparr>)"

definition Endpoint_ConfigureEndpoint :: "u8 \<Rightarrow> u8 \<Rightarrow> u16 \<Rightarrow> u8 \<Rightarrow> usb_dev \<Rightarrow> usb_dev" where
  "Endpoint_ConfigureEndpoint a typ bytes banks v =
     (let n = a AND ENDPOINT_EPNUM_MASK
      in if ENDPOINT_TOTAL_ENDPOINTS \<le> n then v
         else Endpoint_ConfigureEndpoint_Prv n
                (push_bit EPTYPE0 typ OR (if a AND ENDPOINT_DIR_IN \<noteq> 0 then bv EPDIR else 0))
                (bv ALLOC OR (if 1 < banks then bv EPBK0 else 0) OR Endpoint_BytesToEPSizeMask bytes) v)"

definition configuration_changed :: "usb_dev \<Rightarrow> usb_dev" where
  "configuration_changed v =
     fold (\<lambda>(a, n). Endpoint_ConfigureEndpoint a EP_TYPE_INTERRUPT (of_nat n) 1)
       EVENT_USB_Device_ConfigurationChanged v"

section \<open>Waiting for the host\<close>

fun wait_for :: "(host_event \<Rightarrow> bool) \<Rightarrow> (host_event \<Rightarrow> bool) \<Rightarrow> host_event list \<Rightarrow> (bool \<times> host_event list) option" where
  "wait_for goal quit [] = None"
| "wait_for goal quit (e # es) =
     (if goal e then Some (True, es) else if quit e then Some (False, es) else wait_for goal quit es)"

text \<open>
  The status stage: the host's empty packet after data from the device, or the device's own after
  data from the host; given up only when the device is detached.
\<close>

definition Endpoint_ClearStatusStage ::
  "USB_Request \<Rightarrow> host_event list \<Rightarrow> usb_dev \<Rightarrow> (host_event list \<times> usb_dev) option" where
  "Endpoint_ClearStatusStage r es v =
     (if truthy (bmRequestType r AND REQDIR_DEVICETOHOST)
      then if dv_rxout v then Some (es, Endpoint_ClearOUT v)
           else map_option (\<lambda>(got, es). (es, v)) (wait_for (\<lambda>e. e = StatusOut) (\<lambda>e. e = Gone) es)
      else map_option (\<lambda>(got, es). (es, if got then dv_packet [] v else v))
             (wait_for (\<lambda>e. e = Ready) (\<lambda>e. e = Gone) es))"

text \<open>
  Endpoint\_Write\_Control\_PStream\_LE after the length was cut to the host's: packets while there are
  bytes or the last packet was full, then the wait for the status packet, which stays unread.
\<close>

fun ctl_write :: "u8 list \<Rightarrow> bool \<Rightarrow> host_event list \<Rightarrow> usb_dev \<Rightarrow> (host_event list \<times> usb_dev) option" where
  "ctl_write data full [] v = None"
| "ctl_write data full (e # es) v =
     (if e = Gone \<or> e = NewSetup then Some (es, v)
      else if e = StatusOut then Some (es, v\<lparr>dv_rxout := True\<rparr>)
      else if e = Ready \<and> (data \<noteq> [] \<or> full)
      then ctl_write (drop USB_Device_ControlEndpointSize data)
             (length (take USB_Device_ControlEndpointSize data) = USB_Device_ControlEndpointSize) es
             (dv_packet (take USB_Device_ControlEndpointSize data) v)
      else ctl_write data full es v)"

definition Endpoint_Write_Control_PStream_LE ::
  "u8 list \<Rightarrow> USB_Request \<Rightarrow> host_event list \<Rightarrow> usb_dev \<Rightarrow> (host_event list \<times> usb_dev) option" where
  "Endpoint_Write_Control_PStream_LE data r es v =
     ctl_write (take (unat (wLength r)) data) False es
       (if length data \<le> unat (wLength r) \<and> data = [] then dv_packet [] v else v)"

section \<open>The standard requests\<close>

abbreviation (input) REQ_GetStatus :: u8 where "REQ_GetStatus \<equiv> 0"
abbreviation (input) REQ_ClearFeature :: u8 where "REQ_ClearFeature \<equiv> 1"
abbreviation (input) REQ_SetFeature :: u8 where "REQ_SetFeature \<equiv> 3"
abbreviation (input) REQ_SetAddress :: u8 where "REQ_SetAddress \<equiv> 5"
abbreviation (input) REQ_GetDescriptor :: u8 where "REQ_GetDescriptor \<equiv> 6"
abbreviation (input) REQ_GetConfiguration :: u8 where "REQ_GetConfiguration \<equiv> 8"
abbreviation (input) REQ_SetConfiguration :: u8 where "REQ_SetConfiguration \<equiv> 9"
abbreviation (input) REQREC_ENDPOINT :: u8 where "REQREC_ENDPOINT \<equiv> 2"
abbreviation (input) USE_INTERNAL_SERIAL :: u8 where "USE_INTERNAL_SERIAL \<equiv> 0xDC"
abbreviation (input) INTERNAL_SERIAL_LENGTH_BITS :: nat where "INTERNAL_SERIAL_LENGTH_BITS \<equiv> 80"
abbreviation (input) INTERNAL_SERIAL_START_ADDRESS :: nat where "INTERNAL_SERIAL_START_ADDRESS \<equiv> 0x0E"
abbreviation (input) FEATURE_SEL_EndpointHalt :: u8 where "FEATURE_SEL_EndpointHalt \<equiv> 0"
abbreviation (input) FIXED_NUM_CONFIGURATIONS :: u8 where "FIXED_NUM_CONFIGURATIONS \<equiv> 1"

abbreviation (input) waits :: "'a option \<Rightarrow> halt + 'a" where
  "waits r \<equiv> (case r of None \<Rightarrow> Inl NoAnswer | Some x \<Rightarrow> Inr x)"

type_synonym dev_run = "halt + (host_event list \<times> usb_dev)"

text \<open>After the status stage a loop waits for the bank, whatever becomes of the bus.\<close>

definition USB_Device_SetAddress :: "USB_Request \<Rightarrow> host_event list \<Rightarrow> usb_dev \<Rightarrow> dev_run" where
  "USB_Device_SetAddress r es v =
     (let a = ucast (wValue r AND 0x7F) :: u8;
          v1 = Endpoint_ClearSETUP (USB_Device_SetDeviceAddress a v)
      in and_then (waits (Endpoint_ClearStatusStage r es v1)) (\<lambda>(es, v).
         and_then (waits (wait_for (\<lambda>e. e = Ready) (\<lambda>_. False) es)) (\<lambda>(_, es).
           Inr (es, (USB_Device_EnableDeviceAddress v)
             \<lparr>USB_DeviceState := (if a \<noteq> 0 then DEVICE_STATE_Addressed else DEVICE_STATE_Default)\<rparr>))))"

definition USB_Device_SetConfiguration :: "USB_Request \<Rightarrow> host_event list \<Rightarrow> usb_dev \<Rightarrow> dev_run" where
  "USB_Device_SetConfiguration r es v =
     (if FIXED_NUM_CONFIGURATIONS < ucast (wValue r) then Inr (es, v)
      else let v1 = (Endpoint_ClearSETUP v)\<lparr>USB_Device_ConfigurationNumber := ucast (wValue r)\<rparr>
           in and_then (waits (Endpoint_ClearStatusStage r es v1)) (\<lambda>(es, v).
                Inr (es, configuration_changed (v\<lparr>USB_DeviceState :=
                  (if USB_Device_ConfigurationNumber v \<noteq> 0 then DEVICE_STATE_Configured
                   else if USB_Device_IsAddressSet v then DEVICE_STATE_Configured
                   else DEVICE_STATE_Powered)\<rparr>))))"

definition USB_Device_GetConfiguration :: "USB_Request \<Rightarrow> host_event list \<Rightarrow> usb_dev \<Rightarrow> dev_run" where
  "USB_Device_GetConfiguration r es v =
     waits (Endpoint_ClearStatusStage r es
              (dv_packet [USB_Device_ConfigurationNumber v] (Endpoint_ClearSETUP v)))"

text \<open>The chip's serial number, ten bytes of the signature row as twenty hexadecimal digits.\<close>

definition serial_digit :: "(nat \<Rightarrow> u8) \<Rightarrow> nat \<Rightarrow> u16" where
  "serial_digit boot_sig k =
     (let b = boot_sig (INTERNAL_SERIAL_START_ADDRESS + k div 2);
          d = (if odd k then drop_bit 4 b else b) AND 0x0F
      in if 10 \<le> d then of_char CHR ''A'' - 10 + ucast d else of_char CHR ''0'' + ucast d)"

definition SignatureDescriptor :: "(nat \<Rightarrow> u8) \<Rightarrow> u8 list" where
  "SignatureDescriptor boot_sig =
     [of_nat (2 + 2 * (INTERNAL_SERIAL_LENGTH_BITS div 4)), DTYPE_String] @
     concat (map (le16 \<circ> serial_digit boot_sig) [0..<INTERNAL_SERIAL_LENGTH_BITS div 4])"

definition send_descriptor :: "u8 list \<Rightarrow> USB_Request \<Rightarrow> host_event list \<Rightarrow> usb_dev \<Rightarrow> dev_run" where
  "send_descriptor d r es v =
     and_then (waits (Endpoint_Write_Control_PStream_LE d r es (Endpoint_ClearSETUP v)))
       (\<lambda>(es, v). Inr (es, Endpoint_ClearOUT v))"

text \<open>
  The program's callback writes a descriptor with modifications itself, and then says that it has
  none. \<open>flash\<close> is the memory from such a descriptor on. What is left of the events after its loop is
  taken from where it stopped.
\<close>

fun events_left :: "host_event list \<Rightarrow> host_event list" where
  "events_left [] = []"
| "events_left (e # es) = (if e = Gone \<or> e = NewSetup \<or> e = StatusOut then es else events_left es)"

definition USB_Device_GetDescriptor ::
  "nat \<times> nat \<times> nat \<Rightarrow> (nat \<Rightarrow> u8) \<Rightarrow> (nat \<Rightarrow> u8) \<Rightarrow> u8 \<Rightarrow> USB_Request \<Rightarrow> host_event list \<Rightarrow> usb_dev \<Rightarrow> dev_run" where
  "USB_Device_GetDescriptor version boot_sig past t r es v =
     (if wValue r = push_bit 8 (ucast DTYPE_String) OR ucast USE_INTERNAL_SERIAL
      then send_descriptor (SignatureDescriptor boot_sig) r es v
      else case CALLBACK_USB_GetDescriptor version t (wValue r) of
             Written d mods \<Rightarrow>
               (case write_endpoint_mods (\<lambda>k. if k < length d then d ! k else past k)
                       (of_nat (length d)) mods (wLength r) es of
                  (Waiting, _) \<Rightarrow> Inl NoAnswer
                | (_, s) \<Rightarrow> Inr (events_left es, (Endpoint_ClearSETUP v)\<lparr>dv_in := dv_in v @ cs_packets s\<rparr>))
           | Descriptor d \<Rightarrow> send_descriptor d r es v
           | ReadPastTable \<Rightarrow> Inl OutOfArray
           | NoDescriptor \<Rightarrow> Inr (es, v))"

definition USB_Device_GetStatus :: "USB_Request \<Rightarrow> host_event list \<Rightarrow> usb_dev \<Rightarrow> dev_run" where
  "USB_Device_GetStatus r es v =
     (let ep = ucast (wIndex r) AND ENDPOINT_EPNUM_MASK :: u8;
          answer = (\<lambda>status v. waits (Endpoint_ClearStatusStage r es
            (dv_packet (le16 status) (Endpoint_ClearSETUP v))))
      in if bmRequestType r = REQDIR_DEVICETOHOST then answer 0 v
         else if ENDPOINT_TOTAL_ENDPOINTS \<le> ep then Inr (es, v)
         else answer (of_bool (dv_stallrq v ep)) (dv_select 0 (dv_select ep v)))"

definition USB_Device_ClearSetFeature :: "USB_Request \<Rightarrow> host_event list \<Rightarrow> usb_dev \<Rightarrow> dev_run" where
  "USB_Device_ClearSetFeature r es v =
     (let ep = ucast (wIndex r) AND ENDPOINT_EPNUM_MASK :: u8;
          done = (\<lambda>v. waits (Endpoint_ClearStatusStage r es (Endpoint_ClearSETUP (dv_select 0 v))))
      in if bmRequestType r AND CONTROL_REQTYPE_RECIPIENT \<noteq> REQREC_ENDPOINT then Inr (es, v)
         else if ucast (wValue r) = FEATURE_SEL_EndpointHalt
         then if ep = 0 \<or> ENDPOINT_TOTAL_ENDPOINTS \<le> ep then Inr (es, v)
              else let v1 = dv_select ep v
                   in done (if dv_epen v1 ep
                            then if bRequest r = REQ_SetFeature then Endpoint_StallTransaction v1
                                 else Endpoint_ClearStall v1
                            else v1)
         else done v)"

section \<open>One control request\<close>

text \<open>What the program's own handler does with the control endpoint.\<close>

definition own_request ::
  "u8 list \<Rightarrow> u8 \<Rightarrow> USB_Request \<Rightarrow> host_event list \<Rightarrow> usb_dev \<Rightarrow> usb_chip \<Rightarrow>
   halt + (host_event list \<times> usb_dev \<times> usb_chip)" where
  "own_request host d0 r es v c =
     (case EVENT_USB_Device_ControlRequest (dv_setup v) r host d0 c of
        None \<Rightarrow> Inl NoAnswer
      | Some (True, _) \<Rightarrow> Inl Rebooting
      | Some (False, c) \<Rightarrow>
          (case deviceControlRequest (dv_setup v) r of
             ReadFeature _ \<Rightarrow> Inr (es, Endpoint_ClearSETUP v, c)
           | WriteFeature _ _ \<Rightarrow>
               and_then (waits (Endpoint_ClearStatusStage r es (Endpoint_ClearSETUP v))) (\<lambda>(es, v). Inr (es, v, c))
           | Send d \<Rightarrow>
               and_then (waits (Endpoint_Write_Control_PStream_LE d r es (Endpoint_ClearSETUP v))) (\<lambda>(es, v).
                 and_then (waits (Endpoint_ClearStatusStage r es v)) (\<lambda>(es, v). Inr (es, v, c)))
           | Acknowledge \<Rightarrow>
               and_then (waits (Endpoint_ClearStatusStage r es (Endpoint_ClearSETUP v))) (\<lambda>(es, v). Inr (es, v, c))
           | NoSetup \<Rightarrow> Inr (es, v, c)
           | Unhandled \<Rightarrow> Inr (es, v, c)))"

definition standard_request ::
  "nat \<times> nat \<times> nat \<Rightarrow> (nat \<Rightarrow> u8) \<Rightarrow> (nat \<Rightarrow> u8) \<Rightarrow> u8 \<Rightarrow> USB_Request \<Rightarrow> host_event list \<Rightarrow> usb_dev \<Rightarrow> dev_run" where
  "standard_request version boot_sig past t r es v =
     (if bRequest r = REQ_GetStatus
      then if bmRequestType r = REQDIR_DEVICETOHOST \<or> bmRequestType r = REQDIR_DEVICETOHOST OR REQREC_ENDPOINT
           then USB_Device_GetStatus r es v else Inr (es, v)
      else if bRequest r = REQ_ClearFeature \<or> bRequest r = REQ_SetFeature
      then if bmRequestType r = 0 \<or> bmRequestType r = REQREC_ENDPOINT
           then USB_Device_ClearSetFeature r es v else Inr (es, v)
      else if bRequest r = REQ_SetAddress
      then if bmRequestType r = 0 then USB_Device_SetAddress r es v else Inr (es, v)
      else if bRequest r = REQ_GetDescriptor
      then if bmRequestType r = REQDIR_DEVICETOHOST \<or> bmRequestType r = REQDIR_DEVICETOHOST OR REQREC_INTERFACE
           then USB_Device_GetDescriptor version boot_sig past t r es v else Inr (es, v)
      else if bRequest r = REQ_GetConfiguration
      then if bmRequestType r = REQDIR_DEVICETOHOST then USB_Device_GetConfiguration r es v else Inr (es, v)
      else if bRequest r = REQ_SetConfiguration
      then if bmRequestType r = 0 then USB_Device_SetConfiguration r es v else Inr (es, v)
      else Inr (es, v))"

text \<open>
  The program's handler has the first word; a request that it leaves alone is LUFA's, and one that
  neither takes is answered by a stall.
\<close>

definition USB_Device_ProcessControlRequest ::
  "nat \<times> nat \<times> nat \<Rightarrow> (nat \<Rightarrow> u8) \<Rightarrow> (nat \<Rightarrow> u8) \<Rightarrow> u8 list \<Rightarrow> u8 \<Rightarrow> USB_Request \<Rightarrow> host_event list \<Rightarrow>
   usb_dev \<times> usb_chip \<Rightarrow> halt + (host_event list \<times> usb_dev \<times> usb_chip)" where
  "USB_Device_ProcessControlRequest version boot_sig past host d0 r es vc =
     (case vc of (v, c) \<Rightarrow>
        and_then (own_request host d0 r es v c) (\<lambda>(es, v, c).
          and_then (if dv_setup v then standard_request version boot_sig past (us_deviceType c) r es v
                    else Inr (es, v))
            (\<lambda>(es, v). Inr (es, if dv_setup v then Endpoint_StallTransaction (Endpoint_ClearSETUP v) else v, c))))"

definition USB_DeviceTask ::
  "nat \<times> nat \<times> nat \<Rightarrow> (nat \<Rightarrow> u8) \<Rightarrow> (nat \<Rightarrow> u8) \<Rightarrow> u8 list \<Rightarrow> u8 \<Rightarrow> USB_Request \<Rightarrow> host_event list \<Rightarrow>
   usb_dev \<times> usb_chip \<Rightarrow> halt + (host_event list \<times> usb_dev \<times> usb_chip)" where
  "USB_DeviceTask version boot_sig past host d0 r es vc =
     (case vc of (v, c) \<Rightarrow>
        if USB_DeviceState v = DEVICE_STATE_Unattached then Inr (es, v, c)
        else let prev = dv_selected v; v1 = dv_select 0 v
             in and_then (if dv_setup v1
                          then USB_Device_ProcessControlRequest version boot_sig past host d0 r es (v1, c)
                          else Inr (es, v1, c))
                  (\<lambda>(es, v, c). Inr (es, dv_select prev v, c)))"

section \<open>The bus\<close>

text \<open>
  The interrupt of the USB unit on this chip, which has no detection of the bus voltage: a suspended
  bus counts as a detached one. One flag at a time; the masks that the handler sets are left out, so
  that every flag may come at any time.
\<close>

datatype usb_int = SUSPI | WAKEUPI | EORSTI

definition USB_GEN_vect :: "usb_int \<Rightarrow> usb_dev \<Rightarrow> usb_dev" where
  "USB_GEN_vect i v =
     (case i of
        SUSPI \<Rightarrow> v\<lparr>USB_DeviceState := DEVICE_STATE_Unattached\<rparr>
      | WAKEUPI \<Rightarrow> v\<lparr>USB_DeviceState :=
          (if USB_Device_ConfigurationNumber v \<noteq> 0 then DEVICE_STATE_Configured
           else if USB_Device_IsAddressSet v then DEVICE_STATE_Addressed else DEVICE_STATE_Powered)\<rparr>
      | EORSTI \<Rightarrow> Endpoint_ConfigureEndpoint 0 EP_TYPE_CONTROL (of_nat USB_Device_ControlEndpointSize) 1
          (v\<lparr>USB_DeviceState := DEVICE_STATE_Default, USB_Device_ConfigurationNumber := 0\<rparr>))"

section \<open>What waiting leaves alone\<close>

text \<open>Only what is sent and the flag of the status packet change.\<close>

definition same_dev :: "usb_dev \<Rightarrow> usb_dev \<Rightarrow> bool" where
  "same_dev v w \<longleftrightarrow> w\<lparr>dv_in := [], dv_rxout := False\<rparr> = v\<lparr>dv_in := [], dv_rxout := False\<rparr>"

named_theorems kept \<open>what the waiting operations keep\<close>

lemma same_dev_field: "same_dev v w \<Longrightarrow> (\<And>x. f (x\<lparr>dv_in := [], dv_rxout := False\<rparr>) = f x) \<Longrightarrow> f w = f v"
  unfolding same_dev_def by metis

lemma same_dev_fields:
  assumes "same_dev v w"
  shows "dv_setup w = dv_setup v" "dv_stallrq w = dv_stallrq v" "dv_selected w = dv_selected v"
    "dv_epen w = dv_epen v" "UDADDR w = UDADDR v" "USB_DeviceState w = USB_DeviceState v"
    "USB_Device_ConfigurationNumber w = USB_Device_ConfigurationNumber v"
    "UECFG0X w = UECFG0X v" "UECFG1X w = UECFG1X v"
  using assms by (rule same_dev_field, simp)+

lemma same_dev_refl [simp]: "same_dev v v"
  by (simp add: same_dev_def)

lemma same_dev_trans: "same_dev v w \<Longrightarrow> same_dev w x \<Longrightarrow> same_dev v x"
  by (simp add: same_dev_def)

lemma same_dev_update [simp]:
  "same_dev v (dv_packet bs v)" "same_dev v (v\<lparr>dv_rxout := f\<rparr>)" "same_dev v (Endpoint_ClearOUT v)"
  "same_dev v (v\<lparr>dv_in := out\<rparr>)"
  by (simp_all add: same_dev_def dv_packet_def Endpoint_ClearOUT_def)

lemma status_stage_kept [kept]:
  "Endpoint_ClearStatusStage r es v = Some (es', v') \<Longrightarrow> same_dev v v'"
  by (auto simp: Endpoint_ClearStatusStage_def split: if_splits)

lemma ctl_write_kept: "ctl_write data full es v = Some (es', v') \<Longrightarrow> same_dev v v'"
proof (induction data full es v rule: ctl_write.induct)
  case (2 data full e es v)
  then show ?case
    by (auto split: if_splits intro: same_dev_trans [OF same_dev_update(1)])
qed simp

lemma stream_kept [kept]:
  "Endpoint_Write_Control_PStream_LE d r es v = Some (es', v') \<Longrightarrow> same_dev v v'"
  by (auto simp: Endpoint_Write_Control_PStream_LE_def dest: ctl_write_kept split: if_splits
      intro: same_dev_trans [OF same_dev_update(1)])

lemma waits_Inr: "(waits x = Inr y) = (x = Some y)"
  by (cases x) simp_all

lemma send_descriptor_kept [kept]:
  "send_descriptor d r es v = Inr (es', v') \<Longrightarrow> same_dev (Endpoint_ClearSETUP v) v'"
  by (auto simp: send_descriptor_def and_then_Inr waits_Inr dest!: kept intro: same_dev_trans)

section \<open>Every request is answered or stalled\<close>

text \<open>The requests of the device, whatever the order in which the code looks for them.\<close>

definition standard_supported :: "nat \<times> nat \<times> nat \<Rightarrow> u8 \<Rightarrow> USB_Request \<Rightarrow> bool" where
  "standard_supported version t r \<longleftrightarrow>
     (let b = bRequest r; m = bmRequestType r; ep = ucast (wIndex r) AND ENDPOINT_EPNUM_MASK :: u8;
          num = ucast (wValue r) :: u8
      in b = REQ_GetStatus \<and> (m = 0x80 \<or> m = 0x82 \<and> ep < 5) \<or>
         b \<in> {REQ_ClearFeature, REQ_SetFeature} \<and> m = 2 \<and> (num = 0 \<longrightarrow> ep \<noteq> 0 \<and> ep < 5) \<or>
         b = REQ_SetAddress \<and> m = 0 \<or>
         b = REQ_GetDescriptor \<and> m \<in> {0x80, 0x81} \<and>
           (wValue r = 0x03DC \<or> CALLBACK_USB_GetDescriptor version t (wValue r) \<noteq> NoDescriptor) \<or>
         b = REQ_GetConfiguration \<and> m = 0x80 \<or>
         b = REQ_SetConfiguration \<and> m = 0 \<and> num \<le> 1)"

definition answered :: "usb_dev \<Rightarrow> usb_dev \<Rightarrow> bool" where
  "answered v v' \<longleftrightarrow> \<not> dv_setup v' \<and> dv_stallrq v' 0 = dv_stallrq v 0"

lemma answered_clear:
  "same_dev (Endpoint_ClearSETUP w) v' \<Longrightarrow> dv_stallrq w 0 = dv_stallrq v 0 \<Longrightarrow> answered v v'"
  using same_dev_fields [of "Endpoint_ClearSETUP w" v'] by (simp add: answered_def Endpoint_ClearSETUP_def)

lemma bytesmasks [simp]:
  "Endpoint_BytesToEPSizeMask 32 = 0x20" "Endpoint_BytesToEPSizeMask 64 = 0x30"
  by (simp_all add: Endpoint_BytesToEPSizeMask_def while_unfold)

text \<open>An enabled interrupt endpoint to the host with one bank of 32 bytes.\<close>

definition report_endpoint :: "usb_dev \<Rightarrow> u8 \<Rightarrow> bool" where
  "report_endpoint v ep \<longleftrightarrow> dv_epen v ep \<and> UECFG0X v ep = 0xC1 \<and> UECFG1X v ep = 0x22"

lemma report_endpoint_select [simp]: "report_endpoint (v\<lparr>dv_selected := n\<rparr>) ep = report_endpoint v ep"
  by (simp add: report_endpoint_def)

lemma configuration_changed_fields:
  "dv_setup (configuration_changed v) = dv_setup v" "dv_stallrq (configuration_changed v) = dv_stallrq v"
  "UDADDR (configuration_changed v) = UDADDR v" "USB_DeviceState (configuration_changed v) = USB_DeviceState v"
  "USB_Device_ConfigurationNumber (configuration_changed v) = USB_Device_ConfigurationNumber v"
  "dv_epen (configuration_changed v) = (dv_epen v)(2 := True, 1 := True, 3 := True)"
  "dv_selected (configuration_changed v) = 3" "dv_in (configuration_changed v) = dv_in v"
  "ep = 1 \<or> ep = 2 \<or> ep = 3 \<Longrightarrow> report_endpoint (configuration_changed v) ep"
  by (auto simp add: configuration_changed_def EVENT_USB_Device_ConfigurationChanged_def
      Endpoint_ConfigureEndpoint_def Endpoint_ConfigureEndpoint_Prv_def report_endpoint_def HID_EPSIZE_def
      Let_def bv_def dv_select_def ENDPOINT_TOTAL_ENDPOINTS_def XINPUT_EPADDR_IN_def
      HID_EPADDR_IN_def MIDI_EPADDR_IN_def ENDPOINT_DIR_IN_def word_le_nat_alt)

lemma answered_itself [simp]: "dv_stallrq w 0 = dv_stallrq v 0 \<Longrightarrow> answered v (Endpoint_ClearSETUP w)"
  by (rule answered_clear [OF same_dev_refl])

lemma setup_seen: "deviceControlRequest True r \<noteq> NoSetup"
  by (simp add: deviceControlRequest_def)

lemma own_request_answers:
  assumes "own_request host d0 r es v c = Inr (es', v', c')" "dv_setup v"
  shows "if deviceControlRequest True r = Unhandled then es' = es \<and> v' = v \<and> c' = c else answered v v'"
  using assms setup_seen [of r]
  by (cases "deviceControlRequest True r")
     (auto simp: own_request_def EVENT_USB_Device_ControlRequest_def and_then_Inr waits_Inr
       split: option.splits if_splits bool.splits dest!: kept intro: answered_clear same_dev_trans)

lemma no_endpoint: "ENDPOINT_TOTAL_ENDPOINTS \<le> ep \<longleftrightarrow> \<not> ep < 5"
  by (simp add: ENDPOINT_TOTAL_ENDPOINTS_def not_less)

text \<open>A status stage, on a device that differs from the first in what an answer may change.\<close>

lemma answered_status:
  assumes "Endpoint_ClearStatusStage r es w = Some (es', v')" "\<not> dv_setup w" "dv_stallrq w 0 = dv_stallrq v 0"
  shows "answered v v'"
  using same_dev_fields [OF status_stage_kept [OF assms(1)]] assms(2,3) by (simp add: answered_def)

lemma answered_update [simp]:
  "answered v (configuration_changed w) = answered v w" "answered v (w\<lparr>USB_DeviceState := s\<rparr>) = answered v w"
  "answered v (USB_Device_EnableDeviceAddress w) = answered v w"
  by (simp_all add: answered_def configuration_changed_fields USB_Device_EnableDeviceAddress_def)

lemma setup_cleared [simp]:
  "dv_setup (Endpoint_ClearSETUP v) = False" "dv_stallrq (Endpoint_ClearSETUP v) = dv_stallrq v"
  "dv_setup (dv_packet bs v) = dv_setup v" "dv_stallrq (dv_packet bs v) = dv_stallrq v"
  "dv_stallrq (dv_select ep v) = dv_stallrq v" "dv_setup (dv_select ep v) = dv_setup v"
  "dv_stallrq (USB_Device_SetDeviceAddress a v) = dv_stallrq v"
  by (simp_all add: Endpoint_ClearSETUP_def dv_packet_def dv_select_def USB_Device_SetDeviceAddress_def)

lemma GetStatus_answers:
  assumes "USB_Device_GetStatus r es v = Inr (es', v')" "bmRequestType r = 0x80 \<or> bmRequestType r = 0x82"
  shows "if bmRequestType r = 0x80 \<or> ucast (wIndex r) AND 0x0F < (5 :: u8) then answered v v' else es' = es \<and> v' = v"
  using assms
  by (auto simp: USB_Device_GetStatus_def Let_def no_endpoint waits_Inr intro: answered_status split: if_splits)

lemma stall_other [simp]:
  "dv_selected v \<noteq> 0 \<Longrightarrow> dv_stallrq (Endpoint_StallTransaction v) 0 = dv_stallrq v 0"
  "dv_selected v \<noteq> 0 \<Longrightarrow> dv_stallrq (Endpoint_ClearStall v) 0 = dv_stallrq v 0"
  "dv_selected (dv_select ep v) = ep AND 0x0F"
  by (simp_all add: Endpoint_StallTransaction_def Endpoint_ClearStall_def dv_select_def)

lemma ClearSetFeature_answers:
  assumes "USB_Device_ClearSetFeature r es v = Inr (es', v')" "bmRequestType r = 0 \<or> bmRequestType r = 2"
  shows "if bmRequestType r = 2 \<and> (ucast (wValue r) = (0 :: u8) \<longrightarrow>
           ucast (wIndex r) AND 0x0F \<noteq> (0 :: u8) \<and> ucast (wIndex r) AND 0x0F < (5 :: u8))
         then answered v v' else es' = es \<and> v' = v"
  using assms
  by (auto simp: USB_Device_ClearSetFeature_def Let_def no_endpoint waits_Inr and.assoc
      intro: answered_status split: if_splits)

lemma status_fields:
  assumes "Endpoint_ClearStatusStage r es w = Some (es', v')"
  shows "dv_setup v' = dv_setup w \<and> dv_stallrq v' = dv_stallrq w"
  using same_dev_fields [OF status_stage_kept [OF assms]] by simp

lemma SetAddress_answers: "USB_Device_SetAddress r es v = Inr (es', v') \<Longrightarrow> answered v v'"
  by (auto simp: USB_Device_SetAddress_def Let_def and_then_Inr waits_Inr answered_def
      USB_Device_EnableDeviceAddress_def dest!: status_fields)

lemma SetConfiguration_answers:
  "USB_Device_SetConfiguration r es v = Inr (es', v') \<Longrightarrow>
   if ucast (wValue r) \<le> (1 :: u8) then answered v v' else es' = es \<and> v' = v"
  by (auto simp: USB_Device_SetConfiguration_def Let_def and_then_Inr waits_Inr not_less answered_def
      configuration_changed_fields dest!: status_fields split: if_splits)

lemma GetConfiguration_answers: "USB_Device_GetConfiguration r es v = Inr (es', v') \<Longrightarrow> answered v v'"
  by (auto simp: USB_Device_GetConfiguration_def waits_Inr intro: answered_status)

lemma send_descriptor_answers: "send_descriptor d r es v = Inr (es', v') \<Longrightarrow> answered v v'"
  by (rule answered_clear [OF send_descriptor_kept]) simp_all

lemma GetDescriptor_answers:
  assumes "USB_Device_GetDescriptor version boot_sig past t r es v = Inr (es', v')"
  shows "if wValue r = 0x03DC \<or> CALLBACK_USB_GetDescriptor version t (wValue r) \<noteq> NoDescriptor
         then answered v v' else es' = es \<and> v' = v"
  using assms
  by (cases "CALLBACK_USB_GetDescriptor version t (wValue r)")
     (auto simp: USB_Device_GetDescriptor_def dest: send_descriptor_answers
       intro!: answered_clear [OF same_dev_update(4)] split: if_splits prod.splits stream_end.splits)

lemma standard_request_answers:
  assumes "standard_request version boot_sig past t r es v = Inr (es', v')"
  shows "if standard_supported version t r then answered v v' else es' = es \<and> v' = v"
proof -
  consider (status) "bRequest r = 0" | (feature) "bRequest r \<in> {1, 3}" | (address) "bRequest r = 5"
    | (descriptor) "bRequest r = 6" | (get_config) "bRequest r = 8" | (set_config) "bRequest r = 9"
    | (other) "bRequest r \<notin> {0, 1, 3, 5, 6, 8, 9}"
    by auto
  then show ?thesis
  proof cases
    case status
    with assms GetStatus_answers [of r es v es' v'] show ?thesis
      by (auto simp: standard_request_def standard_supported_def Let_def split: if_splits)
  next
    case feature
    with assms ClearSetFeature_answers [of r es v es' v'] show ?thesis
      by (auto simp: standard_request_def standard_supported_def Let_def split: if_splits)
  next
    case address
    with assms SetAddress_answers [of r es v es' v'] show ?thesis
      by (auto simp: standard_request_def standard_supported_def split: if_splits)
  next
    case descriptor
    with assms GetDescriptor_answers [of version boot_sig past t r es v es' v'] show ?thesis
      by (auto simp: standard_request_def standard_supported_def split: if_splits)
  next
    case get_config
    with assms GetConfiguration_answers [of r es v es' v'] show ?thesis
      by (auto simp: standard_request_def standard_supported_def split: if_splits)
  next
    case set_config
    with assms SetConfiguration_answers [of r es v es' v'] show ?thesis
      by (auto simp: standard_request_def standard_supported_def Let_def split: if_splits)
  next
    case other
    with assms show ?thesis by (simp add: standard_request_def standard_supported_def)
  qed
qed

text \<open>What \<open>own_request\<close> leaves to LUFA it has not touched, so the two tables decide together.\<close>

definition supported :: "nat \<times> nat \<times> nat \<Rightarrow> u8 \<Rightarrow> USB_Request \<Rightarrow> bool" where
  "supported version t r \<longleftrightarrow> deviceControlRequest True r \<noteq> Unhandled \<or> standard_supported version t r"

text \<open>
  C8: when the handling of a control request ends, the request has been answered or stalled, and
  the control endpoint is free for the next one. It is stalled exactly when it is neither one of the
  program's nor one of the standard requests that this device supports, and then nothing has been
  sent, nothing of the host's has been consumed, and nothing but the two flags has changed.
\<close>

theorem request_answered_or_stalled:
  assumes "USB_Device_ProcessControlRequest version boot_sig past host d0 r es (v, c) = Inr (es', v', c')"
    and "dv_setup v" and "dv_selected v = 0"
  shows "if supported version (us_deviceType c) r then answered v v'
         else es' = es \<and> c' = c \<and> v' = v\<lparr>dv_setup := False, dv_stallrq := (dv_stallrq v)(0 := True)\<rparr>"
proof -
  obtain es1 v1 c1 where own: "own_request host d0 r es v c = Inr (es1, v1, c1)"
    and rest: "and_then (if dv_setup v1 then standard_request version boot_sig past (us_deviceType c1) r es1 v1
        else Inr (es1, v1))
      (\<lambda>(es, v). Inr (es, if dv_setup v then Endpoint_StallTransaction (Endpoint_ClearSETUP v) else v, c1)) =
      Inr (es', v', c')"
    using assms(1) by (auto simp: USB_Device_ProcessControlRequest_def and_then_Inr)
  show ?thesis
  proof (cases "deviceControlRequest True r = Unhandled")
    case False
    then show ?thesis
      using own_request_answers [OF own assms(2)] rest by (auto simp: supported_def answered_def and_then_Inr)
  next
    case True
    then have same: "es1 = es" "v1 = v" "c1 = c"
      using own_request_answers [OF own assms(2)] by simp_all
    with rest assms(2) obtain es2 v2
      where std: "standard_request version boot_sig past (us_deviceType c) r es v = Inr (es2, v2)"
        and fin: "es' = es2" "c' = c"
          "v' = (if dv_setup v2 then Endpoint_StallTransaction (Endpoint_ClearSETUP v2) else v2)"
      by (auto simp: and_then_Inr)
    show ?thesis
      using standard_request_answers [OF std] fin True assms(2,3)
      by (auto simp: supported_def answered_def Endpoint_StallTransaction_def Endpoint_ClearSETUP_def split: if_splits)
  qed
qed

text \<open>A vendor request that nobody knows is stalled; the address request is answered.\<close>

definition unknown_request :: USB_Request where
  "unknown_request = \<lparr>bmRequestType = 0x40, bRequest = 0x55, wValue = 1, wIndex = 2, wLength = 0\<rparr>"

definition dv_start :: usb_dev where
  "dv_start = \<lparr>USB_DeviceState = DEVICE_STATE_Unattached, USB_Device_ConfigurationNumber = 0, UDADDR = 0,
     dv_setup = False, dv_rxout = False, dv_selected = 0, dv_stallrq = (\<lambda>_. False), dv_epen = (\<lambda>_. False),
     UECFG0X = (\<lambda>_. 0), UECFG1X = (\<lambda>_. 0), dv_in = []\<rparr>"

theorem request_answered_or_stalled_witness:
  "let v = dv_start\<lparr>dv_setup := True\<rparr> in
   USB_Device_ProcessControlRequest (1, 2, 3) (\<lambda>_. 0) (\<lambda>_. 0) [] 0 unknown_request [Ready] (v, chip_at_rest) =
     Inr ([Ready], v\<lparr>dv_setup := False, dv_stallrq := (dv_stallrq v)(0 := True)\<rparr>, chip_at_rest) \<and>
   \<not> supported (1, 2, 3) (us_deviceType chip_at_rest) unknown_request"
proof -
  let ?v = "dv_start\<lparr>dv_setup := True\<rparr>"
  have no: "\<not> supported (1, 2, 3) (us_deviceType chip_at_rest) unknown_request"
    by (simp add: supported_def deviceControlRequest_def unknown_request_def standard_supported_def)
  have "own_request [] 0 unknown_request [Ready] ?v chip_at_rest = Inr ([Ready], ?v, chip_at_rest)"
    by (simp add: own_request_def EVENT_USB_Device_ControlRequest_def deviceControlRequest_def unknown_request_def
        dv_start_def)
  moreover have "standard_request (1, 2, 3) (\<lambda>_. 0) (\<lambda>_. 0) t unknown_request [Ready] ?v = Inr ([Ready], ?v)" for t
    by (simp add: standard_request_def unknown_request_def)
  ultimately obtain v' where
    run: "USB_Device_ProcessControlRequest (1, 2, 3) (\<lambda>_. 0) (\<lambda>_. 0) [] 0 unknown_request [Ready]
      (?v, chip_at_rest) = Inr ([Ready], v', chip_at_rest)"
    by (simp add: USB_Device_ProcessControlRequest_def)
  show ?thesis
    using request_answered_or_stalled [OF run] no run by (simp add: Let_def dv_start_def)
qed

section \<open>The states of the device\<close>

text \<open>
  At a reset of the bus the controller clears the address and disables every endpoint but the
  control endpoint before the program's interrupt runs; a request sets the flag of its packet.
\<close>

definition bus_reset :: "usb_dev \<Rightarrow> usb_dev" where
  "bus_reset v = v\<lparr>UDADDR := 0, dv_epen := (\<lambda>ep. ep = 0 \<and> dv_epen v ep), dv_stallrq := (\<lambda>_. False)\<rparr>"

inductive dev_step :: "nat \<times> nat \<times> nat \<Rightarrow> (nat \<Rightarrow> u8) \<Rightarrow> (nat \<Rightarrow> u8) \<Rightarrow> usb_dev \<times> usb_chip \<Rightarrow> usb_dev \<times> usb_chip \<Rightarrow> bool"
  for version boot_sig past where
  suspend: "dev_step version boot_sig past (v, c) (USB_GEN_vect SUSPI v, c)"
| wake: "dev_step version boot_sig past (v, c) (USB_GEN_vect WAKEUPI v, c)"
| reset: "dev_step version boot_sig past (v, c) (USB_GEN_vect EORSTI (bus_reset v), c)"
| request: "dev_step version boot_sig past (v, c) (v\<lparr>dv_setup := True\<rparr>, c)"
| chip: "dev_step version boot_sig past (v, c) (v, c')"
| task: "USB_DeviceTask version boot_sig past host d0 r es vc = Inr (es', vc') \<Longrightarrow>
         dev_step version boot_sig past vc vc'"

definition dev_inv :: "usb_dev \<Rightarrow> bool" where
  "dev_inv v \<longleftrightarrow> USB_DeviceState v \<noteq> DEVICE_STATE_Suspended \<and> USB_Device_ConfigurationNumber v \<le> 1 \<and>
     (USB_DeviceState v = DEVICE_STATE_Configured \<or> USB_Device_ConfigurationNumber v \<noteq> 0 \<longrightarrow>
        report_endpoint v 1 \<and> report_endpoint v 2 \<and> report_endpoint v 3)"

text \<open>What only answers keeps the invariant.\<close>

lemma dev_inv_same: "same_dev v w \<Longrightarrow> dev_inv w = dev_inv v"
  by (simp add: dev_inv_def report_endpoint_def same_dev_fields)

lemma dev_inv_update [simp]:
  "dev_inv (Endpoint_ClearSETUP v) = dev_inv v" "dev_inv (Endpoint_StallTransaction v) = dev_inv v"
  "dev_inv (Endpoint_ClearStall v) = dev_inv v" "dev_inv (dv_packet bs v) = dev_inv v"
  "dev_inv (dv_select ep v) = dev_inv v" "dev_inv (v\<lparr>dv_setup := s\<rparr>) = dev_inv v"
  "dev_inv (v\<lparr>dv_in := out\<rparr>) = dev_inv v" "dev_inv (USB_Device_SetDeviceAddress a v) = dev_inv v"
  by (simp_all add: dev_inv_def report_endpoint_def Endpoint_ClearSETUP_def Endpoint_StallTransaction_def Endpoint_ClearStall_def
      dv_packet_def dv_select_def USB_Device_SetDeviceAddress_def)

lemma status_inv: "Endpoint_ClearStatusStage r es v = Some (es', v') \<Longrightarrow> dev_inv v' = dev_inv v"
  by (rule dev_inv_same [OF status_stage_kept])

lemma send_inv: "send_descriptor d r es v = Inr (es', v') \<Longrightarrow> dev_inv v' = dev_inv v"
  using dev_inv_same [OF send_descriptor_kept] by simp

lemma stream_inv: "Endpoint_Write_Control_PStream_LE d r es v = Some (es', v') \<Longrightarrow> dev_inv v' = dev_inv v"
  by (rule dev_inv_same [OF stream_kept])

lemma own_request_inv: "own_request host d0 r es v c = Inr (es', v', c') \<Longrightarrow> dev_inv v' = dev_inv v"
  by (auto simp: own_request_def and_then_Inr waits_Inr dest!: status_inv stream_inv
      split: option.splits prod.splits bool.splits control_answer.splits if_splits)

lemma SetAddress_inv:
  assumes "USB_Device_SetAddress r es v = Inr (es', v')" "dev_inv v"
  shows "dev_inv v'"
proof -
  obtain w where "dev_inv w" and
    "v' = (USB_Device_EnableDeviceAddress w)\<lparr>USB_DeviceState :=
       (if (ucast (wValue r AND 0x7F) :: u8) \<noteq> 0 then DEVICE_STATE_Addressed else DEVICE_STATE_Default)\<rparr>"
    using assms by (auto simp: USB_Device_SetAddress_def Let_def and_then_Inr waits_Inr dest!: status_inv)
  then show ?thesis by (simp add: dev_inv_def report_endpoint_def USB_Device_EnableDeviceAddress_def)
qed

lemma SetConfiguration_inv:
  assumes "USB_Device_SetConfiguration r es v = Inr (es', v')" "dev_inv v"
  shows "dev_inv v'"
proof (cases "ucast (wValue r) \<le> (1 :: u8)")
  case True
  then have "\<not> 1 < (ucast (wValue r) :: u8)" by simp
  with assms(1) obtain w
    where stage: "Endpoint_ClearStatusStage r es
        ((Endpoint_ClearSETUP v)\<lparr>USB_Device_ConfigurationNumber := ucast (wValue r)\<rparr>) = Some (es', w)"
    and v': "v' = configuration_changed (w\<lparr>USB_DeviceState :=
        (if USB_Device_ConfigurationNumber w \<noteq> 0 then DEVICE_STATE_Configured
         else if USB_Device_IsAddressSet w then DEVICE_STATE_Configured else DEVICE_STATE_Powered)\<rparr>)"
    by (auto simp: USB_Device_SetConfiguration_def Let_def and_then_Inr waits_Inr simp del: if_split not_less)
  have "USB_Device_ConfigurationNumber w \<le> 1"
    using same_dev_fields(7) [OF status_stage_kept [OF stage]] True by simp
  then show ?thesis by (simp add: v' dev_inv_def configuration_changed_fields)
next
  case False
  with assms show ?thesis by (simp add: USB_Device_SetConfiguration_def not_le)
qed

lemma standard_request_inv:
  assumes "standard_request version boot_sig past t r es v = Inr (es', v')" "dev_inv v"
  shows "dev_inv v'"
proof -
  have "USB_Device_GetStatus r es v = Inr (es', v') \<Longrightarrow> dev_inv v'"
    "USB_Device_ClearSetFeature r es v = Inr (es', v') \<Longrightarrow> dev_inv v'"
    "USB_Device_GetConfiguration r es v = Inr (es', v') \<Longrightarrow> dev_inv v'"
    using assms(2)
    by (auto simp: USB_Device_GetStatus_def USB_Device_ClearSetFeature_def USB_Device_GetConfiguration_def
        Let_def waits_Inr dest!: status_inv split: if_splits)
  moreover have "USB_Device_GetDescriptor version boot_sig past t r es v = Inr (es', v') \<Longrightarrow> dev_inv v'"
    using assms(2)
    by (auto simp: USB_Device_GetDescriptor_def dest!: send_inv
        split: if_splits descriptor_answer.splits prod.splits stream_end.splits)
  ultimately show ?thesis
    using assms SetAddress_inv SetConfiguration_inv
    by (auto simp: standard_request_def split: if_splits)
qed

lemma control_request_inv:
  assumes "USB_Device_ProcessControlRequest version boot_sig past host d0 r es (v, c) = Inr (es', v', c')" "dev_inv v"
  shows "dev_inv v'"
  using assms
  by (auto simp: USB_Device_ProcessControlRequest_def and_then_Inr split: if_splits
      dest!: own_request_inv dest: standard_request_inv)

lemma dev_step_inv: "dev_step version boot_sig past vc vc' \<Longrightarrow> dev_inv (fst vc) \<Longrightarrow> dev_inv (fst vc')"
proof (induction rule: dev_step.induct)
  case (task host d0 r es vc es' vc')
  then show ?case
    by (cases vc) (auto simp: USB_DeviceTask_def Let_def and_then_Inr split: if_splits dest: control_request_inv)
qed (auto simp: USB_GEN_vect_def dev_inv_def bus_reset_def Endpoint_ConfigureEndpoint_def
    Endpoint_ConfigureEndpoint_Prv_def dv_select_def report_endpoint_def ENDPOINT_TOTAL_ENDPOINTS_def Let_def)

text \<open>
  C4: whatever the host asks for and whenever the bus is reset, suspended or woken, the device is
  never in LUFA's suspended state, its configuration is 0 or 1, and whenever it calls itself configured or
  has a configuration to return to, the endpoints 1, 2 and 3 that the reports are written to are
  enabled interrupt endpoints towards the host with a bank of 32 bytes.
\<close>

theorem configured_endpoints_enabled:
  assumes "(dev_step version boot_sig past)\<^sup>*\<^sup>* (dv_start, c) (v, c')"
  shows "dev_inv v"
proof -
  have "dev_inv (fst vc)" if "(dev_step version boot_sig past)\<^sup>*\<^sup>* (dv_start, c) vc" for vc
    using that by induction (simp add: dev_inv_def dv_start_def, rule dev_step_inv)
  from this [OF assms] show ?thesis by simp
qed

section \<open>Enumeration\<close>

definition set_address :: "u8 \<Rightarrow> USB_Request" where
  "set_address a = \<lparr>bmRequestType = 0, bRequest = REQ_SetAddress, wValue = ucast a, wIndex = 0, wLength = 0\<rparr>"

definition set_configuration :: "u8 \<Rightarrow> USB_Request" where
  "set_configuration n = \<lparr>bmRequestType = 0, bRequest = REQ_SetConfiguration, wValue = ucast n, wIndex = 0, wLength = 0\<rparr>"

text \<open>The main loop's call with a request that the host has just sent.\<close>

definition host_asks ::
  "nat \<times> nat \<times> nat \<Rightarrow> (nat \<Rightarrow> u8) \<Rightarrow> (nat \<Rightarrow> u8) \<Rightarrow> USB_Request \<times> host_event list \<Rightarrow>
   usb_dev \<times> usb_chip \<Rightarrow> halt + (usb_dev \<times> usb_chip)" where
  "host_asks version boot_sig past q vc =
     (case (q, vc) of ((r, es), (v, c)) \<Rightarrow>
        and_then (USB_DeviceTask version boot_sig past [] 0 r es (v\<lparr>dv_setup := True\<rparr>, c)) (\<lambda>(_, v, c). Inr (v, c)))"

definition enumerate_device ::
  "nat \<times> nat \<times> nat \<Rightarrow> (nat \<Rightarrow> u8) \<Rightarrow> (nat \<Rightarrow> u8) \<Rightarrow> u8 \<Rightarrow> nat \<times> nat \<times> nat \<Rightarrow>
   usb_dev \<times> usb_chip \<Rightarrow> halt + (usb_dev \<times> usb_chip)" where
  "enumerate_device version boot_sig past a naks vc =
     (case (naks, vc) of ((i, j, k), (v, c)) \<Rightarrow>
        and_then (host_asks version boot_sig past
            (set_address a, replicate i NotReady @ Ready # replicate j NotReady @ [Ready])
            (USB_GEN_vect EORSTI (bus_reset v), c))
          (host_asks version boot_sig past (set_configuration 1, replicate k NotReady @ [Ready])))"

lemma wait_for_ready [simp]:
  "\<not> quit NotReady \<Longrightarrow> wait_for (\<lambda>e. e = Ready) quit (replicate n NotReady @ Ready # es) = Some (True, es)"
  by (induction n) simp_all

text \<open>The program's own handler leaves both requests to LUFA.\<close>

lemma own_request_unhandled:
  "dv_setup v \<Longrightarrow> deviceControlRequest True r = Unhandled \<Longrightarrow> own_request host d0 r es v c = Inr (es, v, c)"
  by (simp add: own_request_def EVENT_USB_Device_ControlRequest_def)

lemma address_bits: "a \<le> 127 \<Longrightarrow> a AND 0x7F = (a :: u8)"
proof -
  assume "a \<le> 127"
  then have "unat a < 2 ^ 7" by (simp add: word_le_nat_alt)
  then have "unat (take_bit 7 a) = unat a" unfolding unsigned_take_bit_eq by (rule take_bit_nat_eq_self)
  then have "take_bit 7 a = a" by (simp only: word_unat_eq_iff)
  then show ?thesis by (simp add: take_bit_eq_mask mask_eq_exp_minus_1)
qed

lemma set_address_done:
  assumes "dv_setup v" and "a \<le> 127"
  shows "USB_Device_ProcessControlRequest version boot_sig past host d0 (set_address a)
      (replicate i NotReady @ Ready # replicate j NotReady @ [Ready]) (v, c) =
    Inr ([], v\<lparr>dv_setup := False, dv_in := dv_in v @ [[]], UDADDR := (UDADDR v AND 0x80) OR a OR 0x80,
      USB_DeviceState := (if a = 0 then DEVICE_STATE_Default else DEVICE_STATE_Addressed)\<rparr>, c)"
proof -
  have mask: "(ucast (wValue (set_address a) AND 0x7F) :: u8) = a AND 0x7F"
    unfolding set_address_def by (rule u8_eqI, simp add: lt8 bit_simps)
  have bv7: "bv 7 = (0x80 :: u8)" by (simp add: bv_def)
  have r: "bmRequestType (set_address a) = 0" "bRequest (set_address a) = 5" by (simp_all add: set_address_def)
  have plain: "deviceControlRequest True (set_address a) = Unhandled"
    by (simp add: deviceControlRequest_def r)
  show ?thesis
    using assms(1) address_bits [OF assms(2)]
    by (simp add: USB_Device_ProcessControlRequest_def own_request_unhandled plain standard_request_def r
        USB_Device_SetAddress_def mask Endpoint_ClearStatusStage_def USB_Device_SetDeviceAddress_def
        Endpoint_ClearSETUP_def dv_packet_def USB_Device_EnableDeviceAddress_def Let_def bv7 or.assoc)
qed

lemma set_configuration_done:
  assumes "dv_setup v"
  shows "USB_Device_ProcessControlRequest version boot_sig past host d0 (set_configuration 1)
      (replicate k NotReady @ [Ready]) (v, c) =
    Inr ([], configuration_changed (v\<lparr>dv_setup := False, USB_Device_ConfigurationNumber := 1,
      dv_in := dv_in v @ [[]], USB_DeviceState := DEVICE_STATE_Configured\<rparr>), c)"
proof -
  have r: "bmRequestType (set_configuration 1) = 0" "bRequest (set_configuration 1) = 9"
    "wValue (set_configuration 1) = 1" by (simp_all add: set_configuration_def)
  have plain: "deviceControlRequest True (set_configuration 1) = Unhandled"
    by (simp add: deviceControlRequest_def r)
  show ?thesis
    using assms(1)
    by (simp add: USB_Device_ProcessControlRequest_def own_request_unhandled plain standard_request_def r
        USB_Device_SetConfiguration_def Endpoint_ClearStatusStage_def configuration_changed_fields
        Endpoint_ClearSETUP_def dv_packet_def Let_def)
qed

text \<open>
  Enumeration ends in the configured state. However often the host finds the control endpoint busy,
  after a bus reset, an address other than 0 and the choice of the one configuration, the device
  answers at that address, has sent one empty packet for each of the two requests, and its control and
  report endpoints are enabled; the chip's part in the reports is untouched.
\<close>

theorem enumeration_configures:
  assumes "0 < a" and "a \<le> 127"
  shows "\<exists>v'. enumerate_device version boot_sig past a (i, j, k) (v, c) = Inr (v', c) \<and>
     USB_DeviceState v' = DEVICE_STATE_Configured \<and> USB_Device_ConfigurationNumber v' = 1 \<and>
     UDADDR v' = a OR 0x80 \<and> dv_epen v' = (\<lambda>ep. ep \<le> 3) \<and>
     (\<forall>ep \<in> {1, 2, 3}. report_endpoint v' ep) \<and> dv_in v' = dv_in v @ [[], []] \<and>
     \<not> dv_setup v' \<and> dv_stallrq v' = (\<lambda>_. False)"
proof -
  have upto3: "(\<lambda>ep. ep = 0 \<and> dv_epen v ep)(0 := True, 2 := True, 1 := True, 3 := True) = (\<lambda>ep :: u8. ep \<le> 3)"
  proof
    fix ep :: u8
    show "((\<lambda>ep. ep = 0 \<and> dv_epen v ep)(0 := True, 2 := True, 1 := True, 3 := True)) ep = (ep \<le> 3)"
      by (simp add: word_le_nat_alt word_unat_eq_iff)
  qed
  show ?thesis
    using assms
    by (simp add: enumerate_device_def host_asks_def USB_DeviceTask_def USB_GEN_vect_def bus_reset_def
        Endpoint_ConfigureEndpoint_def Endpoint_ConfigureEndpoint_Prv_def ENDPOINT_TOTAL_ENDPOINTS_def
        dv_select_def Let_def set_address_done
        set_configuration_done configuration_changed_fields upto3 word_gt_0)
qed

theorem configured_endpoints_enabled_witness:
  "\<exists>v c. (dev_step (1, 2, 3) (\<lambda>_. 0) (\<lambda>_. 0))\<^sup>*\<^sup>* (dv_start, chip_at_rest) (v, c) \<and>
     USB_DeviceState v = DEVICE_STATE_Configured \<and> dev_inv v"
proof -
  let ?step = "dev_step (1, 2, 3) (\<lambda>_. 0) (\<lambda>_. 0)"
  let ?v1 = "(USB_GEN_vect EORSTI (bus_reset dv_start))\<lparr>dv_setup := True\<rparr>"
  have start: "USB_DeviceState ?v1 = DEVICE_STATE_Default" "dv_setup (dv_select 0 ?v1)"
    by (simp_all add: USB_GEN_vect_def Endpoint_ConfigureEndpoint_def Endpoint_ConfigureEndpoint_Prv_def
        ENDPOINT_TOTAL_ENDPOINTS_def dv_select_def Let_def)
  obtain v2 where task: "USB_DeviceTask (1, 2, 3) (\<lambda>_. 0) (\<lambda>_. 0) [] 0 (set_configuration 1) [Ready]
      (?v1, chip_at_rest) = Inr ([], v2, chip_at_rest)" and conf: "USB_DeviceState v2 = DEVICE_STATE_Configured"
    using set_configuration_done [OF start(2), of "(1, 2, 3)" "\<lambda>_. 0" "\<lambda>_. 0" "[]" 0 0 chip_at_rest] start
    by (simp add: USB_DeviceTask_def Let_def dv_select_def configuration_changed_fields)
  have "?step (dv_start, chip_at_rest) (USB_GEN_vect EORSTI (bus_reset dv_start), chip_at_rest)"
    by (rule dev_step.reset)
  moreover have "?step (USB_GEN_vect EORSTI (bus_reset dv_start), chip_at_rest) (?v1, chip_at_rest)"
    by (rule dev_step.request)
  moreover have "?step (?v1, chip_at_rest) (v2, chip_at_rest)"
    by (rule dev_step.task [OF task])
  ultimately have reach: "?step\<^sup>*\<^sup>* (dv_start, chip_at_rest) (v2, chip_at_rest)"
    by (meson converse_rtranclp_into_rtranclp rtranclp.rtrancl_refl)
  from configured_endpoints_enabled [OF reach] reach conf show ?thesis by blast
qed

end
