(* ===== verification/PicoFlash.thy ===== *)
theory PicoFlash
  imports Eeprom
begin

text \<open>
  The configuration of the boards with a Raspberry Pi Pico (\<open>src/src/pico/lib/eeprom/eeprom.c\<close>): the
  blocks that the host sends are staged in RAM, and the last sector of the flash is erased and
  programmed when a block reaches the end of the configuration; the migrations of older versions.

  The flash from FLASH\_TARGET\_OFFSET on is a map from offsets to bytes. Erasing and programming are functions of
  the Pico SDK, and parameters here; \<open>flash_sdk\<close> is what its documentation says of them.
\<close>

section \<open>The store\<close>

record pico_store =
  pk_flash :: "nat \<Rightarrow> u8"
  newConfig :: "u8 list"

record flash_fns =
  flash_range_erase :: "nat \<Rightarrow> (nat \<Rightarrow> u8) \<Rightarrow> nat \<Rightarrow> u8"
  flash_range_program :: "u8 list \<Rightarrow> (nat \<Rightarrow> u8) \<Rightarrow> nat \<Rightarrow> u8"

abbreviation (input) FLASH_SECTOR_SIZE :: nat where "FLASH_SECTOR_SIZE \<equiv> 4096"
abbreviation (input) FLASH_PAGE_SIZE :: nat where "FLASH_PAGE_SIZE \<equiv> 256"

text \<open>The configuration rounded up to pages.\<close>

definition newConfig_size :: nat where
  "newConfig_size = push_bit 8 (drop_bit 8 config_size + 1)"

text \<open>Whole pages programmed into an erased sector are read back.\<close>

definition flash_sdk :: "flash_fns \<Rightarrow> bool" where
  "flash_sdk f \<longleftrightarrow> (\<forall>bs fl. length bs \<le> FLASH_SECTOR_SIZE \<and> FLASH_PAGE_SIZE dvd length bs \<longrightarrow>
     (\<forall>k<length bs. flash_range_program f bs (flash_range_erase f FLASH_SECTOR_SIZE fl) k = bs ! k))"

text \<open>Programming can only clear bits.\<close>

definition nor_flash :: flash_fns where
  "nor_flash = \<lparr>flash_range_erase = (\<lambda>n fl k. if k < n then 0xFF else fl k),
     flash_range_program = (\<lambda>bs fl k. if k < length bs then bs ! k AND fl k else fl k)\<rparr>"

lemma nor_flash_sdk: "flash_sdk nor_flash"
proof -
  have "(0xFF :: u8) = - 1" by simp
  then have "b AND 0xFF = (b :: u8)" for b by (simp only: and.right_neutral)
  then show ?thesis by (simp add: flash_sdk_def nor_flash_def)
qed

text \<open>Writing beyond the staging buffer is the error None.\<close>

definition pico_writeConfigBlock :: "flash_fns \<Rightarrow> u16 \<Rightarrow> u8 list \<Rightarrow> pico_store \<Rightarrow> pico_store option" where
  "pico_writeConfigBlock f off bs s =
     (if length (newConfig s) < unat off + length bs then None
      else let s1 = s\<lparr>newConfig := list_blit (unat off) bs (newConfig s)\<rparr>
           in Some (if config_size \<le> unat off + length bs
                    then s1\<lparr>pk_flash := flash_range_program f (newConfig s1)
                              (flash_range_erase f FLASH_SECTOR_SIZE (pk_flash s1))\<rparr>
                    else s1))"

definition pico_readConfigBlock :: "u16 \<Rightarrow> nat \<Rightarrow> pico_store \<Rightarrow> u8 list" where
  "pico_readConfigBlock off n s = eeprom_read_block (pk_flash s) (unat off) n"

definition pico_resetConfig :: "flash_fns \<Rightarrow> pico_store \<Rightarrow> pico_store option" where
  "pico_resetConfig f = pico_writeConfigBlock f 0 (config_bytes DEFAULT_CONFIG)"

definition pico_mig_scale :: "Configuration_t \<Rightarrow> Configuration_t" where
  "pico_mig_scale c =
     (if version_of c < 12 then c\<lparr>cfg_axisScale := cfg_axisScale DEFAULT_CONFIG\<rparr> else c)"

definition pico_mig_debounce :: "Configuration_t \<Rightarrow> Configuration_t" where
  "pico_mig_debounce c =
     (if version_of c < 13 then c\<lparr>cfg_debounce := cfg_debounce DEFAULT_CONFIG\<rparr> else c)"

definition pico_migrate :: "(u8 \<Rightarrow> u8) \<Rightarrow> Configuration_t \<Rightarrow> Configuration_t" where
  "pico_migrate past c =
     mig_strum (mig_gyro (pico_mig_debounce (pico_mig_scale (mig_whammy past (mig_signature c)))))"

definition pico_loadConfig ::
  "flash_fns \<Rightarrow> (u8 \<Rightarrow> u8) \<Rightarrow> pico_store \<Rightarrow> (Configuration_t \<times> pico_store) option" where
  "pico_loadConfig f past s =
     (let c1 = pico_migrate past (read_config (pk_flash s) 0);
          c2 = set_main (\<lambda>m. m\<lparr>cfg_version := CONFIG_VERSION\<rparr>) c1;
          stage = (\<lambda>c s. Some (c, s\<lparr>newConfig := list_blit 0 (config_bytes c) (newConfig s)\<rparr>))
      in if version_of c1 < CONFIG_VERSION
         then case pico_writeConfigBlock f 0 (config_bytes c2) s of None \<Rightarrow> None | Some s \<Rightarrow> stage c2 s
         else stage c1 s)"

section \<open>A store that is written in blocks\<close>

text \<open>
  What the host's tool relies on when it writes a configuration: blocks inside the image are
  accepted, and once a block has reached its end, the next start finds what was composed.
\<close>

locale config_store =
  fixes put :: "nat \<Rightarrow> u8 list \<Rightarrow> 's \<Rightarrow> 's option"
    and composed :: "'s \<Rightarrow> u8 list"
    and stored :: "'s \<Rightarrow> u8 list"
    and ready :: "'s \<Rightarrow> bool"
  assumes composed_length: "ready s \<Longrightarrow> length (composed s) = config_size"
    and put_block: "ready s \<Longrightarrow> off + length bs \<le> config_size \<Longrightarrow>
      \<exists>s'. put off bs s = Some s' \<and> ready s' \<and> composed s' = list_blit off bs (composed s)"
    and put_last: "ready s \<Longrightarrow> put off bs s = Some s' \<Longrightarrow> off + length bs = config_size \<Longrightarrow>
      stored s' = composed s'"

fun put_blocks :: "(nat \<Rightarrow> u8 list \<Rightarrow> 's \<Rightarrow> 's option) \<Rightarrow> nat \<Rightarrow> u8 list list \<Rightarrow> 's \<Rightarrow> 's option" where
  "put_blocks put off [] s = Some s"
| "put_blocks put off (bs # bss) s =
     (case put off bs s of None \<Rightarrow> None | Some s \<Rightarrow> put_blocks put (off + length bs) bss s)"

lemma list_blit_append:
  "off + length xs + length ys \<le> length zs \<Longrightarrow>
   list_blit (off + length xs) ys (list_blit off xs zs) = list_blit off (xs @ ys) zs"
  by (simp add: list_blit_def ac_simps)

context config_store begin

lemma blocks_composed:
  assumes "ready s" "off + length (concat bss) \<le> config_size"
  shows "\<exists>s'. put_blocks put off bss s = Some s' \<and> ready s' \<and>
    composed s' = list_blit off (concat bss) (composed s) \<and>
    (bss \<noteq> [] \<and> off + length (concat bss) = config_size \<longrightarrow> stored s' = composed s')"
  using assms
proof (induction bss arbitrary: off s)
  case Nil
  then show ?case by (simp add: list_blit_def)
next
  case (Cons bs bss)
  then have "off + length bs \<le> config_size" by simp
  from put_block [OF Cons.prems(1) this] obtain s1
    where s1: "put off bs s = Some s1" "ready s1" "composed s1 = list_blit off bs (composed s)"
    by blast
  from Cons.prems(2) have "off + length bs + length (concat bss) \<le> config_size" by simp
  from Cons.IH [OF s1(2) this] obtain s'
    where s': "put_blocks put (off + length bs) bss s1 = Some s'" "ready s'"
      "composed s' = list_blit (off + length bs) (concat bss) (composed s1)"
      "bss \<noteq> [] \<and> off + length bs + length (concat bss) = config_size \<longrightarrow> stored s' = composed s'"
    by blast
  have "composed s' = list_blit off (bs @ concat bss) (composed s)"
    using Cons.prems composed_length by (simp add: s'(3) s1(3) list_blit_append)
  moreover have "stored s' = composed s'" if "off + length (concat (bs # bss)) = config_size"
  proof (cases "bss = []")
    case True
    with that s'(1) put_last [OF Cons.prems(1) s1(1)] show ?thesis by simp
  next
    case False
    with that s'(4) show ?thesis by (simp add: add.assoc)
  qed
  ultimately show ?case using s1(1) s'(1,2) by simp
qed

lemma image_stored:
  assumes "ready s" "concat bss = img" "length img = config_size"
  shows "\<exists>s'. put_blocks put 0 bss s = Some s' \<and> ready s' \<and> stored s' = img"
proof -
  have "bss \<noteq> []" using assms(2,3) by (auto simp: config_size_def)
  with blocks_composed [OF assms(1), of 0 bss] assms composed_length show ?thesis
    by (auto simp: list_blit_def)
qed

end

text \<open>The boards with an EEPROM write every byte at once; the Pico only when the image is complete.\<close>

definition avr_put :: "nat \<Rightarrow> nat \<Rightarrow> u8 list \<Rightarrow> eeprom \<Rightarrow> eeprom option" where
  "avr_put cp off bs ee = Some (writeConfigBlock cp (of_nat off) bs ee)"

definition pico_put :: "flash_fns \<Rightarrow> nat \<Rightarrow> u8 list \<Rightarrow> pico_store \<Rightarrow> pico_store option" where
  "pico_put f off = pico_writeConfigBlock f (of_nat off)"

definition pico_ready :: "flash_fns \<Rightarrow> pico_store \<Rightarrow> bool" where
  "pico_ready f s \<longleftrightarrow> flash_sdk f \<and> length (newConfig s) = newConfig_size"

lemma newConfig_512: "newConfig_size = 512"
  by (simp add: newConfig_size_def config_size_def push_bit_eq_mult)

lemma small_offset: "off \<le> config_size \<Longrightarrow> unat (of_nat off :: u16) = off"
  by (simp add: unat_of_nat config_size_def)

lemma read_update_inside:
  "off + length bs \<le> n \<Longrightarrow>
   eeprom_read_block (eeprom_update_block bs (a + off) ee) a n = list_blit off bs (eeprom_read_block ee a n)"
  by (rule nth_equalityI) (auto simp: eeprom_read_block_def eeprom_update_block_def nth_list_blit)

interpretation avr_blocks: config_store "avr_put cp" "\<lambda>ee. eeprom_read_block ee cp config_size"
  "\<lambda>ee. eeprom_read_block ee cp config_size" "\<lambda>_. True" for cp
  by unfold_locales (simp_all add: avr_put_def writeConfigBlock_def small_offset read_update_inside)

lemma pico_programmed:
  "pico_ready f s \<Longrightarrow> length bs = newConfig_size \<Longrightarrow>
   eeprom_read_block (flash_range_program f bs (flash_range_erase f FLASH_SECTOR_SIZE fl)) 0 config_size =
   take config_size bs"
  by (rule nth_equalityI)
    (auto simp: pico_ready_def flash_sdk_def newConfig_512 config_size_def eeprom_read_block_def)

interpretation pico_blocks: config_store "pico_put f" "\<lambda>s. take config_size (newConfig s)"
  "\<lambda>s. eeprom_read_block (pk_flash s) 0 config_size" "pico_ready f" for f
proof
  fix s assume "pico_ready f s"
  then show "length (take config_size (newConfig s)) = config_size"
    by (simp add: pico_ready_def newConfig_512 config_size_def)
next
  fix s off and bs :: "u8 list"
  assume s: "pico_ready f s" and inside: "off + length bs \<le> config_size"
  have "take config_size (list_blit off bs (newConfig s)) = list_blit off bs (take config_size (newConfig s))"
    using s inside
    by (intro nth_equalityI) (auto simp: nth_list_blit pico_ready_def newConfig_512 config_size_def)
  then show "\<exists>s'. pico_put f off bs s = Some s' \<and> pico_ready f s' \<and>
      take config_size (newConfig s') = list_blit off bs (take config_size (newConfig s))"
    using s inside
    by (auto simp: pico_put_def pico_writeConfigBlock_def small_offset Let_def pico_ready_def newConfig_512
        config_size_def)
next
  fix s off bs s'
  assume "pico_ready f s" "pico_put f off bs s = Some s'" "off + length bs = config_size"
  then show "eeprom_read_block (pk_flash s') 0 config_size = take config_size (newConfig s')"
    by (auto simp: pico_put_def pico_writeConfigBlock_def small_offset Let_def pico_programmed pico_ready_def
        split: if_splits)
qed

section \<open>Loading\<close>

lemma pico_mig_keeps [simp]:
  "version_of (pico_mig_scale c) = version_of c" "version_of (pico_mig_debounce c) = version_of c"
  "cfg_signature (cfg_main (pico_mig_scale c)) = cfg_signature (cfg_main c)"
  "cfg_signature (cfg_main (pico_mig_debounce c)) = cfg_signature (cfg_main c)"
  "config_wf (pico_mig_scale c) = config_wf c" "config_wf (pico_mig_debounce c) = config_wf c"
  by (simp_all add: pico_mig_scale_def pico_mig_debounce_def config_wf_def)

lemma pico_migrate_valid:
  "config_wf c \<Longrightarrow> config_wf (pico_migrate past c)"
  "cfg_signature (cfg_main (pico_migrate past c)) = firmware_val ARDWIINO_DEVICE_TYPE"
  by (simp_all add: pico_migrate_def)

lemma not_below: "\<not> v < (15 :: u32) \<Longrightarrow> k \<le> 15 \<Longrightarrow> \<not> v < k"
  by (meson less_le_trans)

lemma pico_migrate_current:
  assumes "cfg_signature (cfg_main c) = firmware_val ARDWIINO_DEVICE_TYPE" "\<not> version_of c < CONFIG_VERSION"
  shows "pico_migrate past c = c"
proof -
  have v: "\<not> version_of c < k" if "k \<le> 15" for k
    using not_below [OF _ that] assms(2) by (simp add: CONFIG_VERSION_def)
  have "mig_signature c = c" using assms(1) by (simp add: mig_signature_def)
  then show ?thesis
    by (simp add: pico_migrate_def mig_whammy_def pico_mig_scale_def pico_mig_debounce_def mig_gyro_def
        mig_strum_def v)
qed

text \<open>The image of a configuration fits, and reaches the end of the configuration.\<close>

lemma pico_write_image:
  assumes "pico_ready f s" "config_wf c"
  shows "\<exists>s'. pico_writeConfigBlock f 0 (config_bytes c) s = Some s' \<and> pico_ready f s' \<and>
    read_config (pk_flash s') 0 = c \<and> newConfig s' = list_blit 0 (config_bytes c) (newConfig s)"
proof -
  have len: "length (config_bytes c) = config_size" using assms(2) by (rule config_bytes_length)
  have "pico_ready f s \<Longrightarrow> length (list_blit 0 (config_bytes c) (newConfig s)) = newConfig_size"
    by (simp add: pico_ready_def len newConfig_512 config_size_def)
  from pico_programmed [OF assms(1) this [OF assms(1)], of "pk_flash s"] assms len
    config_of_bytes_bytes [OF assms(2), of "[]"]
  show ?thesis
    by (auto simp: pico_writeConfigBlock_def Let_def pico_ready_def newConfig_512 config_size_def
        read_config_def list_blit_def)
qed

text \<open>A start with a current configuration stages it and leaves the flash alone.\<close>

lemma pico_load_current:
  assumes "cfg_signature (cfg_main (read_config (pk_flash s) 0)) = firmware_val ARDWIINO_DEVICE_TYPE"
    and "\<not> version_of (read_config (pk_flash s) 0) < CONFIG_VERSION"
  shows "pico_loadConfig f past s = Some (read_config (pk_flash s) 0,
    s\<lparr>newConfig := list_blit 0 (config_bytes (read_config (pk_flash s) 0)) (newConfig s)\<rparr>)"
  using pico_migrate_current [OF assms, of past] assms(2) by (simp add: pico_loadConfig_def Let_def)

text \<open>
  Whatever the flash holds, a start ends with a well-formed, current configuration, which is then in
  the flash and staged; the next start changes nothing.
\<close>

theorem pico_load_valid:
  assumes "pico_ready f s"
  shows "\<exists>c s'. pico_loadConfig f past s = Some (c, s') \<and> config_wf c \<and>
    cfg_signature (cfg_main c) = firmware_val ARDWIINO_DEVICE_TYPE \<and> CONFIG_VERSION \<le> cfg_version (cfg_main c) \<and>
    read_config (pk_flash s') 0 = c \<and> take config_size (newConfig s') = config_bytes c \<and>
    pico_loadConfig f past s' = Some (c, s')"
proof -
  define c1 where "c1 = pico_migrate past (read_config (pk_flash s) 0)"
  have c1: "config_wf c1" "cfg_signature (cfg_main c1) = firmware_val ARDWIINO_DEVICE_TYPE"
    by (simp_all add: c1_def pico_migrate_valid)
  have done_: "\<exists>s'. Some (c, s2) = Some (c, s') \<and> pico_loadConfig f past s' = Some (c, s') \<and>
      take config_size (newConfig s') = config_bytes c \<and> read_config (pk_flash s') 0 = c"
    if "config_wf c" "cfg_signature (cfg_main c) = firmware_val ARDWIINO_DEVICE_TYPE"
      "\<not> version_of c < CONFIG_VERSION" "read_config (pk_flash s2) 0 = c"
      "newConfig s2 = list_blit 0 (config_bytes c) xs" for c s2 xs
  proof -
    have "length (config_bytes c) = config_size" using that(1) by (rule config_bytes_length)
    then have "list_blit 0 (config_bytes c) (newConfig s2) = newConfig s2"
      "take config_size (newConfig s2) = config_bytes c"
      by (simp_all add: that(5) list_blit_def)
    with pico_load_current [of s2 f past] that show ?thesis by simp
  qed
  show ?thesis
  proof (cases "version_of c1 < CONFIG_VERSION")
    case True
    define c2 where "c2 = set_main (\<lambda>m. m\<lparr>cfg_version := CONFIG_VERSION\<rparr>) c1"
    have c2: "config_wf c2" "cfg_signature (cfg_main c2) = firmware_val ARDWIINO_DEVICE_TYPE"
      "version_of c2 = CONFIG_VERSION" using c1 by (simp_all add: c2_def set_main_def config_wf_def)
    from pico_write_image [OF assms c2(1)] obtain s1
      where s1: "pico_writeConfigBlock f 0 (config_bytes c2) s = Some s1" "read_config (pk_flash s1) 0 = c2"
      by blast
    define s2 where "s2 = s1\<lparr>newConfig := list_blit 0 (config_bytes c2) (newConfig s1)\<rparr>"
    have "pico_loadConfig f past s = Some (c2, s2)"
      using True s1(1) by (simp add: pico_loadConfig_def Let_def c1_def [symmetric] c2_def [symmetric] s2_def)
    with done_ [of c2 s2 "newConfig s1"] c2 s1(2) show ?thesis by (auto simp: s2_def)
  next
    case False
    define s2 where "s2 = s\<lparr>newConfig := list_blit 0 (config_bytes c1) (newConfig s)\<rparr>"
    have "read_config (pk_flash s) 0 = c1"
    proof (cases "cfg_signature (cfg_main (read_config (pk_flash s) 0)) = firmware_val ARDWIINO_DEVICE_TYPE")
      case True
      have "version_of c1 = version_of (read_config (pk_flash s) 0)"
        using True by (simp add: c1_def pico_migrate_def mig_signature_def)
      with False pico_migrate_current [OF True] show ?thesis by (simp add: c1_def)
    next
      case bad: False
      then have "version_of c1 = 0" by (simp add: c1_def pico_migrate_def mig_signature_def set_main_def)
      with False show ?thesis by (simp add: CONFIG_VERSION_def)
    qed
    moreover have "pico_loadConfig f past s = Some (c1, s2)"
      using False by (simp add: pico_loadConfig_def Let_def c1_def [symmetric] s2_def)
    ultimately show ?thesis using done_ [of c1 s2 "newConfig s"] c1 False by (auto simp: s2_def not_less)
  qed
qed

text \<open>
  From an image of version 13 or later without a retired subtype, and from one without the firmware's signature, the
  Pico and the AVR boards load the same configuration.
\<close>

lemma migrate_default_zero:
  assumes "cfg_signature (cfg_main c) \<noteq> firmware_val ARDWIINO_DEVICE_TYPE"
  shows "migrate past c = pico_migrate past c"
proof -
  define d where "d = set_main (\<lambda>m. m\<lparr>cfg_version := 0\<rparr>) DEFAULT_CONFIG"
  have "mig_signature c = d" using assms by (simp add: mig_signature_def d_def)
  moreover have "mig_subtype d = d"
    by (rule mig_subtype_id)
      (simp_all add: d_def set_main_def DEFAULT_CONFIG_def DEFAULT_CONFIG_MAIN_def REAL_GUITAR_SUBTYPE_def
        REAL_DRUM_SUBTYPE_def)
  moreover have "mig_midi d = d" "mig_leds d = d" "mig_poll d = d" "mig_rf d = d"
    by (simp_all add: d_def mig_defs DEFAULT_CONFIG_def DEFAULT_CONFIG_MAIN_def)
  moreover have "pico_mig_debounce (pico_mig_scale e) = mig_debounce e" if "version_of e = 0" for e
    using that by (simp add: pico_mig_debounce_def pico_mig_scale_def mig_debounce_def)
  moreover have "version_of d = 0" by (simp add: d_def set_main_def)
  ultimately show ?thesis by (simp add: migrate_def pico_migrate_def)
qed

theorem pico_loads_as_avr:
  assumes "pico_ready f s" and "read_config (pk_flash s) 0 = read_config ee cp"
    and "13 \<le> cfg_version (cfg_main (read_config ee cp))"
    and "subType (cfg_main (read_config ee cp)) \<notin> {REAL_GUITAR_SUBTYPE, REAL_DRUM_SUBTYPE}"
  shows "\<exists>s'. pico_loadConfig f past s = Some (fst (loadConfig past cp tp ee), s')"
proof -
  define c where "c = read_config ee cp"
  have ver: "\<not> version_of c < k" if "k \<le> 13" for k
    using order_trans [OF that assms(3)] by (simp add: c_def not_less)
  have same: "pico_migrate past c = migrate past c"
  proof (cases "cfg_signature (cfg_main c) = firmware_val ARDWIINO_DEVICE_TYPE")
    case True
    then have "mig_signature c = c" by (simp add: mig_signature_def)
    moreover have "mig_subtype c = c" using assms(4) by (intro mig_subtype_id) (auto simp: c_def)
    ultimately show ?thesis
      using ver by (simp add: migrate_def pico_migrate_def mig_midi_def mig_leds_def mig_poll_def mig_rf_def
          mig_whammy_def mig_debounce_def pico_mig_scale_def pico_mig_debounce_def)
  qed (simp add: migrate_default_zero)
  have "config_wf c" by (simp add: c_def)
  from migrate_valid(4) [OF this, of past]
  have "config_wf (set_main (\<lambda>m. m\<lparr>cfg_version := CONFIG_VERSION\<rparr>) (migrate past c))"
    by (simp add: set_main_def config_wf_def)
  from pico_write_image [OF assms(1) this] same assms(2) ver [of 8] show ?thesis
    by (auto simp: pico_loadConfig_def loadConfig_def Let_def c_def)
qed

section \<open>Downloads\<close>

lemma pico_put_early:
  assumes "pico_put f off bs s = Some s'" "off + length bs < config_size"
  shows "pk_flash s' = pk_flash s"
  using assms small_offset [of off]
  by (auto simp: pico_put_def pico_writeConfigBlock_def Let_def split: if_splits)

lemma pico_blocks_early:
  "put_blocks (pico_put f) off bss s = Some s' \<Longrightarrow> off + length (concat bss) < config_size \<Longrightarrow>
   pk_flash s' = pk_flash s"
proof (induction bss arbitrary: off s)
  case (Cons bs bss)
  from Cons.prems(1) obtain s1 where s1: "pico_put f off bs s = Some s1"
    "put_blocks (pico_put f) (off + length bs) bss s1 = Some s'"
    by (auto split: option.splits)
  have "pk_flash s1 = pk_flash s" using Cons.prems(2) by (intro pico_put_early [OF s1(1)]) simp
  moreover have "pk_flash s' = pk_flash s1" using Cons.prems(2) by (intro Cons.IH [OF s1(2)]) simp
  ultimately show ?case by simp
qed simp

text \<open>
  C13: a configuration written in consecutive blocks of any lengths is stored byte for byte by the EEPROM of the
  AVR boards and by the flash of the Pico, and a download that stops before its last byte changes
  nothing in the Pico's flash, so that the next start loads the old configuration; the EEPROM of
  the AVR boards holds the blocks written so far and the rest of the old image.
\<close>

theorem download_stored:
  assumes "pico_ready f s" and "length (concat bss) \<le> config_size" and "bss \<noteq> []"
  shows "\<exists>ee' s'. put_blocks (avr_put cp) 0 bss ee = Some ee' \<and> put_blocks (pico_put f) 0 bss s = Some s' \<and>
    eeprom_read_block ee' cp config_size = concat bss @ drop (length (concat bss)) (eeprom_read_block ee cp config_size) \<and>
    eeprom_read_block (pk_flash s') 0 config_size =
      (if length (concat bss) = config_size then concat bss else eeprom_read_block (pk_flash s) 0 config_size)"
proof -
  obtain ee' where ee': "put_blocks (avr_put cp) 0 bss ee = Some ee'"
    "eeprom_read_block ee' cp config_size = list_blit 0 (concat bss) (eeprom_read_block ee cp config_size)"
    using avr_blocks.blocks_composed [of 0 bss cp ee] assms(2) by auto
  obtain s' where s': "put_blocks (pico_put f) 0 bss s = Some s'"
    "length (concat bss) = config_size \<longrightarrow> eeprom_read_block (pk_flash s') 0 config_size = take config_size (newConfig s')"
    "take config_size (newConfig s') = list_blit 0 (concat bss) (take config_size (newConfig s))"
    using pico_blocks.blocks_composed [OF assms(1), of 0 bss] assms(2,3) by auto
  show ?thesis
  proof (cases "length (concat bss) = config_size")
    case True
    with ee' s' assms(1) show ?thesis
      by (auto simp: list_blit_def pico_ready_def newConfig_512 config_size_def)
  next
    case False
    with pico_blocks_early [OF s'(1)] assms(2) ee' s'(1) show ?thesis by (simp add: list_blit_def)
  qed
qed

theorem download_stored_witness:
  "let s = \<lparr>pk_flash = (\<lambda>_. 0xFF), newConfig = replicate 512 0\<rparr>; bss = [replicate 200 1, replicate 75 2] in
   \<exists>s'. put_blocks (pico_put nor_flash) 0 bss s = Some s' \<and>
     eeprom_read_block (pk_flash s') 0 config_size = replicate 200 1 @ replicate 75 2"
  using download_stored [of nor_flash "\<lparr>pk_flash = (\<lambda>_. 0xFF), newConfig = replicate 512 0\<rparr>"
      "[replicate 200 1, replicate 75 2]" 1 "\<lambda>_. 0xFF"]
  by (auto simp: pico_ready_def nor_flash_sdk newConfig_512 config_size_def Let_def)

end
