(* ===== verification/PicoBoard.thy ===== *)
theory PicoBoard
  imports Pins
begin

text \<open>
  The hardware layer of the boards with a Raspberry Pi Pico: pins and analogue inputs
  (\<open>src/src/pico/lib/pins/pins.c\<close>, \<open>src/src/pico/pins_arduino.h\<close>), the bit order of the serial bus
  (\<open>src/src/pico/lib/spi/spi.c\<close>) and the two-wire transfers (\<open>src/src/pico/lib/i2c/i2c.c\<close>).

  The functions of the Pico SDK are not part of the repository: what they return is a parameter,
  and the calls that change the chip are listed in the order in which they are made. \<open>int\<close> has 32 bits here.
\<close>

section \<open>Digital pins\<close>

abbreviation (input) pico_PIN_A0 :: u8 where "pico_PIN_A0 \<equiv> 26"
abbreviation (input) pico_NUM_ANALOG_INPUTS :: nat where "pico_NUM_ANALOG_INPUTS \<equiv> 3"

datatype gpio_override = GPIO_OVERRIDE_NORMAL | GPIO_OVERRIDE_HIGH

datatype gpio_call =
    gpio_put u8 bool
  | gpio_init u8
  | gpio_set_dir u8 bool
  | gpio_set_pulls u8 bool bool
  | gpio_set_oeover u8 gpio_override
  | gpio_set_outover u8 gpio_override
  | adc_gpio_init u8

record pico_pin =
  pp_eq :: bool
  pp_offset :: u8
  pp_pin :: u8
  pp_lastMillis :: u32
  pp_milliDeBounce :: u8
  pp_sioFunc :: bool
  pp_analogOffset :: u8

definition pico_digitalWrite :: "u8 \<Rightarrow> u8 \<Rightarrow> gpio_call list" where
  "pico_digitalWrite pin v = [gpio_put pin (v \<noteq> 0)]"

definition pico_digitalRead :: "(u8 \<Rightarrow> bool) \<Rightarrow> u8 \<Rightarrow> bool" where
  "pico_digitalRead gpio_get pin = gpio_get pin"

definition pico_setUpDigital :: "Configuration_t \<Rightarrow> u8 \<Rightarrow> u8 \<Rightarrow> bool \<Rightarrow> pico_pin" where
  "pico_setUpDigital config pinNum off inverted =
     \<lparr>pp_eq = inverted, pp_offset = off, pp_pin = pinNum, pp_lastMillis = 0,
      pp_milliDeBounce = deb_buttons (cfg_debounce config), pp_sioFunc = True, pp_analogOffset = INVALID_PIN\<rparr>"

text \<open>A pad outside the array of analogue inputs is None; here both sides of the comparison are ints.\<close>

definition pico_digitalReadPin :: "(u8 \<Rightarrow> bool) \<Rightarrow> AnalogInfo_t list \<Rightarrow> pico_pin \<Rightarrow> bool option" where
  "pico_digitalReadPin gpio_get joy pin =
     (if pp_analogOffset pin = INVALID_PIN then Some (gpio_get (pp_pin pin) = pp_eq pin)
      else if unat (pp_analogOffset pin) < length joy
      then let info = joy ! unat (pp_analogOffset pin)
           in Some (uint (ai_threshold info) < sint (ai_value info))
      else None)"

definition pico_digitalWritePin :: "pico_pin \<Rightarrow> bool \<Rightarrow> gpio_call list" where
  "pico_digitalWritePin pin v =
     (if \<not> pp_sioFunc pin
      then let o' = (if v then GPIO_OVERRIDE_HIGH else GPIO_OVERRIDE_NORMAL)
           in [gpio_set_oeover (pp_pin pin) o', gpio_set_outover (pp_pin pin) o']
      else [gpio_put (pp_pin pin) v])"

definition pico_pinMode :: "u8 \<Rightarrow> u8 \<Rightarrow> gpio_call list" where
  "pico_pinMode pin mode =
     (if mode = INPUT \<and> pico_PIN_A0 \<le> pin then [adc_gpio_init pin]
      else [gpio_init pin, gpio_set_dir pin (mode = OUTPUT), gpio_set_pulls pin (mode = INPUT_PULLUP) False])"

section \<open>Analogue inputs\<close>

text \<open>\<open>PIN_A0 + pin\<close> is cut to the byte that \<open>pinMode\<close> takes.\<close>

record pico_analog =
  pa_calls :: "gpio_call list"
  pa_joyData :: "AnalogInfo_t list"
  pa_validAnalog :: nat

definition pico_push :: "AnalogInfo_t \<Rightarrow> pico_analog \<Rightarrow> pico_analog option" where
  "pico_push info s =
     (if pa_validAnalog s < length (pa_joyData s)
      then Some (s\<lparr>pa_joyData := (pa_joyData s)[pa_validAnalog s := info], pa_validAnalog := pa_validAnalog s + 1\<rparr>)
      else None)"

definition pico_analog_info :: "Configuration_t \<Rightarrow> nat \<Rightarrow> AnalogInfo_t" where
  "pico_analog_info config off =
     (let apin = pins_axis (cfg_pins config) ! off
      in zero_info\<lparr>ai_offset := of_nat off, ai_pin := apin_pin apin, ai_hasDigital := False,
                   ai_inverted := apin_inverted apin\<rparr>)"

definition pico_setUpAnalogPin :: "bool \<Rightarrow> Configuration_t \<Rightarrow> nat \<Rightarrow> pico_analog \<Rightarrow> pico_analog option" where
  "pico_setUpAnalogPin typeIsGuitar config off s =
     (let apin = pins_axis (cfg_pins config) ! off
      in if apin_pin apin = INVALID_PIN then Some s
         else if off = 5 \<and> typeIsGuitar \<and> tiltType (cfg_main config) \<noteq> tilt_val ANALOGUE then Some s
         else pico_push (pico_analog_info config off)
                (s\<lparr>pa_calls := pa_calls s @ pico_pinMode (pico_PIN_A0 + apin_pin apin) INPUT\<rparr>))"

definition pico_setUpAnalogDigitalPin ::
  "pico_pin \<Rightarrow> u8 \<Rightarrow> u16 \<Rightarrow> pico_analog \<Rightarrow> (pico_pin \<times> pico_analog) option" where
  "pico_setUpAnalogDigitalPin button pin threshold s =
     map_option (Pair (button\<lparr>pp_analogOffset := of_nat (pa_validAnalog s)\<rparr>))
       (pico_push (zero_info\<lparr>ai_offset := pin, ai_hasDigital := True, ai_threshold := threshold, ai_pin := pin\<rparr>)
         (s\<lparr>pa_calls := pa_calls s @ pico_pinMode (pico_PIN_A0 + pin) INPUT\<rparr>))"

fun pico_setUpValidPins :: "bool \<Rightarrow> Configuration_t \<Rightarrow> nat list \<Rightarrow> pico_analog \<Rightarrow> pico_analog option" where
  "pico_setUpValidPins g config [] s = Some s"
| "pico_setUpValidPins g config (i # is) s =
     (case pico_setUpAnalogPin g config i s of None \<Rightarrow> None | Some s \<Rightarrow> pico_setUpValidPins g config is s)"

text \<open>\<open>adc\<close> is the result of a conversion after the selection of an input.\<close>

definition pico_analogRead :: "(u32 \<Rightarrow> u16) \<Rightarrow> u8 \<Rightarrow> u16" where
  "pico_analogRead adc pin = drop_bit 2 (adc (ucast pin + ucast pico_PIN_A0))"

definition pico_scale :: "AnalogInfo_t \<Rightarrow> u16 \<Rightarrow> i16" where
  "pico_scale info sample =
     (if \<not> ai_hasDigital info
      then let d = (if ai_inverted info then sample * (- 1) else sample) in (d - 512) * 64
      else sample)"

definition pico_tickAnalog :: "(u32 \<Rightarrow> u16) \<Rightarrow> pico_analog \<Rightarrow> pico_analog" where
  "pico_tickAnalog adc s =
     s\<lparr>pa_joyData := map (\<lambda>info. info\<lparr>ai_value := pico_scale info (pico_analogRead adc (ai_pin info - pico_PIN_A0))\<rparr>)
         (take (pa_validAnalog s) (pa_joyData s)) @ drop (pa_validAnalog s) (pa_joyData s)\<rparr>"

section \<open>The serial and the two-wire bus\<close>

definition revbits2 :: "u8 \<Rightarrow> u8" where
  "revbits2 x =
     (let x = drop_bit 1 (x AND 0xaa) OR push_bit 1 (x AND 0x55);
          x = drop_bit 2 (x AND 0xcc) OR push_bit 2 (x AND 0x33)
      in drop_bit 4 (x AND 0xf0) OR push_bit 4 (x AND 0x0f))"

text \<open>\<open>exchange\<close> is the transfer of a byte by the PIO program, most significant bit first.\<close>

definition pico_spi_transfer :: "(u8 \<Rightarrow> u8) \<Rightarrow> u8 \<Rightarrow> u8" where
  "pico_spi_transfer exchange data = revbits2 (exchange (revbits2 data))"

text \<open>The SDK's transfers return the number of bytes or a negative error; the write cuts it to a byte.\<close>

definition pico_twi_readFrom :: "(u8 \<Rightarrow> u8 \<Rightarrow> bool \<Rightarrow> int \<times> u8 list) \<Rightarrow> u8 \<Rightarrow> u8 \<Rightarrow> bool \<Rightarrow> bool \<times> u8 list" where
  "pico_twi_readFrom i2c_read_blocking address len sendStop =
     (case i2c_read_blocking address len (\<not> sendStop) of (ret, data) \<Rightarrow> (0 < ret, data))"

definition pico_twi_writeTo :: "(u8 \<Rightarrow> u8 list \<Rightarrow> bool \<Rightarrow> int) \<Rightarrow> u8 \<Rightarrow> u8 list \<Rightarrow> bool \<Rightarrow> bool" where
  "pico_twi_writeTo i2c_write_blocking address data sendStop =
     (0 < (word_of_int (i2c_write_blocking address data (\<not> sendStop)) :: u8))"

section \<open>Facts\<close>

lemma bit_twice: "bit (x * 2 :: u8) n \<longleftrightarrow> 1 \<le> n \<and> n < 8 \<and> bit x (n - 1)"
  using bit_push_bit_iff [of 1 x n] by (auto simp: push_bit_eq_mult)

lemma revbits2_bit: "n < 8 \<Longrightarrow> bit (revbits2 x) n = bit x (7 - n)"
proof -
  assume "n < 8"
  then have "n \<in> {0, 1, 2, 3, 4, 5, 6, 7}" by auto
  then show ?thesis
    by (elim insertE emptyE) (simp_all add: revbits2_def Let_def bit_simps bit_twice)
qed

lemma revbits2_involutive [simp]: "revbits2 (revbits2 x) = x"
  by (rule bit_word_eqI) (simp add: revbits2_bit)

text \<open>
  The transfer of a byte over a bus that sends the most significant bit first is one of the reversed
  bytes: a device that sends its least significant bit first is read and written as it is.
\<close>

lemma spi_lsb_first:
  "pico_spi_transfer (revbits2 \<circ> dev \<circ> revbits2) = dev"
  by (simp add: fun_eq_iff pico_spi_transfer_def)

text \<open>
  Negating before subtracting and after it differ by 1024 times 64, which is 0 in 16 bits; what
  both boards store for an axis is the same, for a pad it is not.
\<close>

theorem pico_scale_as_avr:
  "scale_sample info sample = (if ai_hasDigital info then 64 * pico_scale info sample else pico_scale info sample)"
proof -
  have "(- sample - 512) * 64 = (512 - sample) * 64 - (1024 * 64 :: i16)"
    by (simp add: algebra_simps)
  then show ?thesis
    by (simp add: scale_sample_word pico_scale_def mult.commute)
qed

text \<open>The set-up records the configured axes in order as long as there is room for them.\<close>

lemma pico_push_step:
  "pico_setUpAnalogPin g config i s =
     (if \<not> analog_wanted g config i then Some s
      else pico_push (pico_analog_info config i)
             (s\<lparr>pa_calls := pa_calls s @
                  pico_pinMode (pico_PIN_A0 + apin_pin (pins_axis (cfg_pins config) ! i)) INPUT\<rparr>))"
  by (auto simp: pico_setUpAnalogPin_def analog_wanted_def Let_def)

lemma pico_setUp_room:
  assumes "pa_validAnalog s \<le> length (pa_joyData s)"
  shows "case pico_setUpValidPins g config is s of
     None \<Rightarrow> length (pa_joyData s) < pa_validAnalog s + length (filter (analog_wanted g config) is)
   | Some s' \<Rightarrow> pa_validAnalog s' = pa_validAnalog s + length (filter (analog_wanted g config) is) \<and>
       pa_validAnalog s' \<le> length (pa_joyData s') \<and> length (pa_joyData s') = length (pa_joyData s) \<and>
       take (pa_validAnalog s') (pa_joyData s') = take (pa_validAnalog s) (pa_joyData s) @
         map (pico_analog_info config) (filter (analog_wanted g config) is)"
  using assms
proof (induction "is" arbitrary: s)
  case (Cons i "is")
  show ?case
  proof (cases "analog_wanted g config i")
    case False
    with Cons.IH [OF Cons.prems] show ?thesis by (auto simp: pico_push_step split: option.splits)
  next
    case True
    show ?thesis
    proof (cases "pa_validAnalog s < length (pa_joyData s)")
      case room: True
      define s1 where "s1 = s\<lparr>pa_calls := pa_calls s @
          pico_pinMode (pico_PIN_A0 + apin_pin (pins_axis (cfg_pins config) ! i)) INPUT,
        pa_joyData := (pa_joyData s)[pa_validAnalog s := pico_analog_info config i],
        pa_validAnalog := pa_validAnalog s + 1\<rparr>"
      have step: "pico_setUpAnalogPin g config i s = Some s1"
        using True room by (simp add: pico_push_step pico_push_def s1_def)
      have "take (pa_validAnalog s1) (pa_joyData s1) =
          take (pa_validAnalog s) (pa_joyData s) @ [pico_analog_info config i]"
        using room by (simp add: s1_def take_Suc_conv_app_nth)
      with Cons.IH [of s1] room True step show ?thesis
        by (auto simp: s1_def split: option.splits)
    next
      case False
      with True Cons.prems show ?thesis by (simp add: pico_push_step pico_push_def)
    qed
  qed
qed simp

text \<open>
  The Pico's array has three entries: with four or more analogue axes configured, which nothing
  excludes, the set-up writes behind it.
\<close>

theorem pico_axes_in_bounds:
  assumes "pa_validAnalog s = 0" and "length (pa_joyData s) = pico_NUM_ANALOG_INPUTS"
  shows "pico_setUpValidPins g config [0..<6] s = None \<longleftrightarrow>
    3 < length (filter (analog_wanted g config) [0..<6])"
  using pico_setUp_room [of s g config "[0..<6]"] assms
  by (auto split: option.splits simp del: upt.simps)

text \<open>A write that the device does not acknowledge is a negative error, whose byte counts as a success.\<close>

lemma failed_write_succeeds:
  assumes "i2c_write_blocking address data (\<not> sendStop) = - 2"
  shows "pico_twi_writeTo i2c_write_blocking address data sendStop"
  using assms by (simp add: pico_twi_writeTo_def word_less_nat_alt)

end
