(* ===== verification/PicoUsb.thy ===== *)
theory PicoUsb
  imports Usb PicoFlash PicoBoard
begin

text \<open>
  The program of the boards with a Raspberry Pi Pico (\<open>src/src/pico/main/main.c\<close>) as the host sees it:
  the control requests, the descriptors, the driver of the XInput interface
  (\<open>src/src/pico/lib/usb/xinput_device.c\<close>), and the task that sends the reports.

  TinyUSB and the Pico SDK are not part of the repository: whether an endpoint is free, what is
  opened, the board's number and the clock are parameters, and what is handed to TinyUSB is a value. The polls and
  the report's bytes are those of the shared code, parameters here because its model is for the 16-bit
  \<open>int\<close> of the AVR boards.
\<close>

section \<open>Control requests\<close>

datatype control_stage = CONTROL_STAGE_SETUP | CONTROL_STAGE_DATA | CONTROL_STAGE_ACK

text \<open>
  What the callback does: false, and the request is stalled; data for the host; bytes of the host
  into the buffer of 64; a command with its length cut to a byte; nothing in this stage.
\<close>

datatype pico_answer =
  Refused | Xfer "u8 list" | Receive u16 | ObeyWrite u8 u8 | ObeyRead u8 | NothingNow

text \<open>\<open>past\<close> is the memory behind \<open>capabilities1\<close>.\<close>

definition tud_vendor_control_xfer_cb :: "(nat \<Rightarrow> u8) \<Rightarrow> control_stage \<Rightarrow> USB_Request \<Rightarrow> pico_answer" where
  "tud_vendor_control_xfer_cb past stage r =
     (let at_setup = (\<lambda>a. if stage = CONTROL_STAGE_SETUP then a else NothingNow)
      in if bRequest r = HID_REQ_GetReport \<and>
            bmRequestType r = REQDIR_DEVICETOHOST OR REQTYPE_VENDOR OR REQREC_INTERFACE \<and>
            wIndex r = ucast (interface_id INTERFACE_ID_XInput) \<and> wValue r = 0x0000
         then at_setup (Xfer capabilities1)
         else if bRequest r = REQ_GetOSFeatureDescriptor \<and>
                 bmRequestType r = REQDIR_DEVICETOHOST OR REQTYPE_VENDOR OR REQREC_INTERFACE \<and>
                 wIndex r = EXTENDED_PROPERTIES_DESCRIPTOR \<and> wValue r = ucast (interface_id INTERFACE_ID_Config)
         then at_setup (Xfer ExtendedIDs)
         else if bRequest r = REQ_GetOSFeatureDescriptor \<and>
                 bmRequestType r = REQDIR_DEVICETOHOST OR REQTYPE_VENDOR \<and> wIndex r = EXTENDED_COMPAT_ID_DESCRIPTOR
         then at_setup (Xfer DevCompatIDs)
         else if bRequest r = HID_REQ_GetReport \<and> bmRequestType r = REQDIR_DEVICETOHOST OR REQTYPE_VENDOR \<and>
                 wIndex r = 0x00 \<and> wValue r = 0x0000
         then at_setup (Xfer usb_ID)
         else if bRequest r = HID_REQ_GetReport \<and>
                 bmRequestType r = REQDIR_DEVICETOHOST OR REQTYPE_VENDOR OR REQREC_INTERFACE \<and>
                 wIndex r = ucast (interface_id INTERFACE_ID_XInput) \<and> wValue r = 0x0100
         then at_setup (Xfer (capabilities1 @ map past [0..<length capabilities2 - length capabilities1]))
         else if bRequest r = HID_REQ_SetReport \<and> bmRequestType r = REQTYPE_CLASS OR REQREC_INTERFACE
         then case stage of
                CONTROL_STAGE_SETUP \<Rightarrow> Receive (wLength r)
              | CONTROL_STAGE_ACK \<Rightarrow> ObeyWrite (ucast (wValue r)) (ucast (wLength r))
              | CONTROL_STAGE_DATA \<Rightarrow> NothingNow
         else if bRequest r = HID_REQ_GetReport \<and>
                 bmRequestType r = REQDIR_DEVICETOHOST OR REQTYPE_CLASS OR REQREC_INTERFACE
         then at_setup (ObeyRead (ucast (wValue r)))
         else Refused)"

text \<open>
  The write once its bytes are in the buffer: \<open>obey\<close> is processHIDWriteFeatureReport, \<open>forward\<close>
  what the radio does with the command, its header and 30 bytes.
\<close>

definition pico_obey_write ::
  "(u8 \<Rightarrow> u8 \<Rightarrow> u8 list \<Rightarrow> 'b \<Rightarrow> halt + 'b) \<Rightarrow> (u8 list \<Rightarrow> 'b \<Rightarrow> halt + 'b) \<Rightarrow> bool \<Rightarrow> u8 \<Rightarrow> u8 \<Rightarrow> u8 list \<Rightarrow>
   'b \<Rightarrow> halt + 'b" where
  "pico_obey_write obey forward isRF cmd len buf b =
     and_then (obey cmd len buf b) (\<lambda>b. if isRF then forward ([cmd, 0] @ take 30 buf) b else Inr b)"

section \<open>Descriptors\<close>

text \<open>The build gives the index 3 to the serial number.\<close>

definition pico_deviceDescriptor :: "nat \<times> nat \<times> nat \<Rightarrow> u8 list" where
  "pico_deviceDescriptor version = (deviceDescriptor version)[16 := 3]"

definition tud_descriptor_device_cb :: "nat \<times> nat \<times> nat \<Rightarrow> u8 \<Rightarrow> u8 list" where
  "tud_descriptor_device_cb version t =
     (let d = pico_deviceDescriptor version
      in if subtype_val SWITCH_GAMEPAD \<le> t \<and> t < subtype_val MOUSE
         then let offs = unat (t - subtype_val SWITCH_GAMEPAD)
              in list_blit 10 (le16 (pid ! offs)) (list_blit 8 (le16 (vid ! offs)) d)
         else d)"

definition tud_hid_descriptor_report_cb :: "u8 \<Rightarrow> u8 list" where
  "tud_hid_descriptor_report_cb t =
     (if t \<le> subtype_val KEYBOARD_ROCK_BAND_GUITAR then kbd_report_descriptor else ps3_report_descriptor)"

definition pico_subtype :: "(u8 \<Rightarrow> u8) \<Rightarrow> u8 \<Rightarrow> u8" where
  "pico_subtype past t =
     (let d = (if isGuitar past t then REAL_GUITAR_SUBTYPE else t)
      in if isDrum past d then REAL_DRUM_SUBTYPE else d)"

definition tud_descriptor_configuration_cb :: "(u8 \<Rightarrow> u8) \<Rightarrow> u8 \<Rightarrow> u8 list" where
  "tud_descriptor_configuration_cb past t =
     (let d = ConfigurationDescriptor[54 := pico_subtype past t]
      in if pico_subtype past t \<le> subtype_val KEYBOARD_ROCK_BAND_GUITAR
         then list_blit 25 (le16 (of_nat (length kbd_report_descriptor))) d else d)"

definition pico_serial_digit :: "(nat \<Rightarrow> u8) \<Rightarrow> nat \<Rightarrow> u16" where
  "pico_serial_digit board_id i =
     of_char (''0123456789ABCDEF'' ! unat (drop_bit (if odd i then 0 else 4) (board_id (i div 2)) AND 0xF))"

text \<open>None is the null pointer.\<close>

definition tud_descriptor_string_cb :: "(nat \<Rightarrow> u8) \<Rightarrow> u8 \<Rightarrow> u8 list option" where
  "tud_descriptor_string_cb board_id index =
     (if index = 3 then Some (le16 (18 OR push_bit 8 (ucast DTYPE_String)) @
         concat (map (le16 \<circ> pico_serial_digit board_id) [0..<8]))
      else if index < 3 then Some (descriptorStrings ! unat index)
      else if index = 0xEE then Some OSDescriptorString
      else None)"

text \<open>
  A request for a feature report: the pointer to the identifier is assigned to the parameter
  \<open>buffer\<close>, so the caller's buffer stays as it is. The results are the length, the identifier and that buffer.
\<close>

definition tud_hid_get_report_cb :: "u8 \<Rightarrow> bool \<Rightarrow> u8 list \<Rightarrow> u8 list \<Rightarrow> u16 \<times> u8 list \<times> u8 list" where
  "tud_hid_get_report_cb t is_feature ident buffer =
     (if is_feature
      then let ident = (if t \<le> subtype_val PS3_ROCK_BAND_DRUMS then ident[3 := 0x00]
                        else if t \<le> subtype_val PS3_GUITAR_HERO_DRUMS then ident[3 := 0x06] else ident)
           in (of_nat (length ident), ident, buffer)
      else (0, ident, buffer))"

section \<open>Initialisation\<close>

record pico_globals =
  pg_fullDeviceType :: u8
  pg_deviceType :: u8
  pg_pollRate :: u8
  pg_inputType :: u8
  pg_typeIsDrum :: bool
  pg_typeIsGuitar :: bool
  pg_isRF :: bool

text \<open>The initial values; \<open>OUTPUT_TYPE\<close> is a constant of the build.\<close>

definition OUTPUT_TYPE :: u8 where "OUTPUT_TYPE = subtype_val XINPUT_GUITAR_HERO_GUITAR"

definition pico_reset_globals :: pico_globals where
  "pico_reset_globals = \<lparr>pg_fullDeviceType = OUTPUT_TYPE, pg_deviceType = OUTPUT_TYPE, pg_pollRate = 0,
     pg_inputType = 0, pg_typeIsDrum = False, pg_typeIsGuitar = False, pg_isRF = False\<rparr>"

text \<open>The initialisations of the shared parts, as the calls that they are.\<close>

datatype pico_init =
  CallInitRF bool u32 | CallInitInputs Configuration_t | CallInitReports Configuration_t | CallInitLEDs Configuration_t

definition pico_initialise ::
  "flash_fns \<Rightarrow> (u8 \<Rightarrow> u8) \<Rightarrow> pico_store \<Rightarrow> pico_globals \<Rightarrow> (pico_store \<times> pico_globals \<times> pico_init list) option" where
  "pico_initialise f past s g =
     (case pico_loadConfig f past s of
        None \<Rightarrow> None
      | Some (config, s) \<Rightarrow>
          let t = pg_fullDeviceType g; d = isDrum past t; gu = isGuitar past t;
              dt = (if gu \<and> t \<le> subtype_val XINPUT_ARCADE_PAD then REAL_GUITAR_SUBTYPE else t);
              dt = (if d \<and> dt \<le> subtype_val XINPUT_ARCADE_PAD then REAL_DRUM_SUBTYPE else dt);
              rf = rfInEnabled (cfg_rf config)
          in Some (s,
               g\<lparr>pg_deviceType := dt, pg_pollRate := pollRate (cfg_main config),
                 pg_inputType := inputType (cfg_main config), pg_typeIsDrum := d, pg_typeIsGuitar := gu,
                 pg_isRF := (rf \<or> pg_isRF g)\<rparr>,
               (if rf then [CallInitRF False (rf_id (cfg_rf config))] else [CallInitInputs config]) @
               [CallInitReports config, CallInitLEDs config]))"

section \<open>The XInput interface\<close>

abbreviation (input) CFG_TUD_XINPUT :: nat where "CFG_TUD_XINPUT \<equiv> 2"
abbreviation (input) CFG_TUD_VENDOR_EP_BUFSIZE :: nat where "CFG_TUD_VENDOR_EP_BUFSIZE \<equiv> 64"

record xinputd_interface =
  xi_itf_num :: u8
  xi_ep_in :: u8
  xi_ep_out :: u8

definition xinputd_reset :: "xinputd_interface list" where
  "xinputd_reset = replicate CFG_TUD_XINPUT \<lparr>xi_itf_num = 0, xi_ep_in = 0, xi_ep_out = 0\<rparr>"

definition tud_xinput_n_ready :: "bool \<Rightarrow> (u8 \<Rightarrow> bool) \<Rightarrow> xinputd_interface \<Rightarrow> bool" where
  "tud_xinput_n_ready tud_ready busy x \<longleftrightarrow> tud_ready \<and> xi_ep_in x \<noteq> 0 \<and> \<not> busy (xi_ep_in x)"

text \<open>The bytes handed to the endpoint, if it can be claimed.\<close>

definition tud_xinput_n_report :: "bool \<Rightarrow> u8 \<Rightarrow> u8 list \<Rightarrow> u8 list option" where
  "tud_xinput_n_report claimed rid report =
     (if \<not> claimed then None
      else if rid \<noteq> 0 then Some (rid # take (CFG_TUD_VENDOR_EP_BUFSIZE - 1) report)
      else Some (take CFG_TUD_VENDOR_EP_BUFSIZE report))"

text \<open>
  \<open>desc\<close> is the configuration from the interface's descriptor on. \<open>open_pair\<close> is TinyUSB's opening
  of the endpoints described from there on: the addresses of the one from and the one to the host,
  in the order in which they are stored, or a failure. The result 0 refuses the interface.
\<close>

definition xinputd_open ::
  "(u8 list \<Rightarrow> u8 \<Rightarrow> (u8 \<times> u8) option) \<Rightarrow> u8 list \<Rightarrow> u16 \<Rightarrow> xinputd_interface list \<Rightarrow>
   u16 \<times> xinputd_interface list" where
  "xinputd_open open_pair desc max_len itfs =
     (let drv_len = 9 + ucast (desc ! 4) * 7 :: u16;
          free = filter (\<lambda>i. xi_ep_in (itfs ! i) = 0 \<and> xi_ep_out (itfs ! i) = 0) [0..<length itfs];
          x_desc = drop (unat (desc ! 0)) desc
      in if desc ! 5 \<noteq> 0xFF \<or> max_len < drv_len \<or> free = [] then (0, itfs)
         else if desc ! 6 = 0x5D \<and> desc ! 7 = 0x01
         then if x_desc ! 1 \<noteq> 0x21 then (0, itfs)
              else (case open_pair (drop (unat (x_desc ! 0)) x_desc) (desc ! 4) of
                      None \<Rightarrow> (0, itfs)
                    | Some (ep_out, ep_in) \<Rightarrow>
                        (drv_len + 17,
                         itfs[hd free := \<lparr>xi_itf_num = desc ! 2, xi_ep_in = ep_in, xi_ep_out = ep_out\<rparr>]))
         else (drv_len, itfs))"

section \<open>The reports\<close>

datatype pico_send = XInputReport "u8 list" | HidReport u8 "u8 list" | MidiPacket "u8 list" | RemoteWakeup

record pico_task =
  pt_currentReport :: "u8 list"
  pt_previousReport :: "u8 list"
  pt_size :: u8
  pt_start_ms :: u32

record pico_env =
  pe_isRF :: bool
  pe_pollRate :: u8
  pe_now :: u32
  pe_sent :: u32
  pe_xinput_ready :: bool
  pe_claimed :: bool
  pe_hid_ready :: bool
  pe_suspended :: bool

text \<open>
  After the poll: \<open>report\<close> is what fillReport writes. The size was reduced before the test of the
  endpoint, and stays so; a MIDI packet has four bytes whatever the size.
\<close>

definition send_pico_report :: "pico_env \<Rightarrow> pico_task \<Rightarrow> pico_send list \<times> pico_task" where
  "send_pico_report env s =
     (let cur = pt_currentReport s; n = unat (pt_size s); rid = cur ! 0;
          sent = s\<lparr>pt_start_ms := pe_sent env\<rparr>;
          hid = (\<lambda>rid. let s1 = s\<lparr>pt_size := pt_size s - 1\<rparr>
             in if pe_hid_ready env
                then ([HidReport rid (take (unat (pt_size s1)) (tl cur))], s1\<lparr>pt_start_ms := pe_sent env\<rparr>)
                else ([], s1))
      in if rid = report_id REPORT_ID_XINPUT
         then if pe_xinput_ready env
              then (case tud_xinput_n_report (pe_claimed env) 0 (take n cur) of
                      None \<Rightarrow> ([], sent) | Some bs \<Rightarrow> ([XInputReport bs], sent))
              else ([], s)
         else if rid = report_id REPORT_ID_GAMEPAD then hid 0
         else if rid = report_id REPORT_ID_KBD \<or> rid = report_id REPORT_ID_MOUSE then hid rid
         else if rid = report_id REPORT_ID_MIDI
         then ([MidiPacket (take 4 (tl cur))], s\<lparr>pt_size := pt_size s - 1, pt_start_ms := pe_sent env\<rparr>)
         else ([], s))"

definition hid_task :: "pico_env \<Rightarrow> u8 list \<Rightarrow> pico_task \<Rightarrow> pico_send list \<times> pico_task" where
  "hid_task env report s =
     (if \<not> pe_isRF env \<and> pe_now env - pt_start_ms s < ucast (pe_pollRate env) then ([], s)
      else let s1 = s\<lparr>pt_currentReport := list_blit 0 report (pt_currentReport s), pt_size := of_nat (length report)\<rparr>;
               n = length report
           in if take n (pt_currentReport s1) = take n (pt_previousReport s1) then ([], s1)
              else case send_pico_report env s1 of
                     (out, s2) \<Rightarrow> (out @ (if pe_suspended env then [RemoteWakeup] else []), s2))"

section \<open>Facts\<close>

text \<open>
  C12: the Pico answers the requests of the program as the AVR boards do, except that the second
  capabilities are read from the table of the first and what lies behind it, that the length of a write is not cut before
  the bytes are received, and that the remaining class requests are refused.
\<close>

theorem pico_answers_as_avr:
  "tud_vendor_control_xfer_cb past CONTROL_STAGE_SETUP r =
     (case deviceControlRequest True r of
        Send d \<Rightarrow> Xfer (if d = capabilities2 then capabilities1 @ map past [0..<12] else d)
      | ReadFeature cmd \<Rightarrow> ObeyRead cmd
      | WriteFeature cmd len \<Rightarrow> Receive (wLength r)
      | _ \<Rightarrow> Refused)"
proof -
  have lens: "length capabilities2 = 20" "length capabilities1 = 8" "length usb_ID = 4"
    by (simp_all add: capabilities2_def capabilities1_def usb_ID_def)
  have distinct: "capabilities1 \<noteq> capabilities2" "ExtendedIDs \<noteq> capabilities2" "DevCompatIDs \<noteq> capabilities2"
    "usb_ID \<noteq> capabilities2"
    using lens control_data_lengths by (auto dest: arg_cong [of _ _ length])
  show ?thesis
    by (simp add: tud_vendor_control_xfer_cb_def deviceControlRequest_def Let_def distinct lens
        REQ_GetOSFeatureDescriptor_def)
qed

text \<open>The device descriptor is that of the AVR boards but for the index of the serial number.\<close>

lemma device_descriptor_as_avr:
  "tud_descriptor_device_cb version t = (type_descriptor version t DTYPE_Device)[16 := 3]"
proof (cases "subtype_val SWITCH_GAMEPAD \<le> t \<and> t < subtype_val MOUSE")
  case True
  then have "unat (t - subtype_val SWITCH_GAMEPAD) = unat t - 26"
    by (simp add: unat_sub)
  moreover have "length (deviceDescriptor version) = 18"
    by (simp add: deviceDescriptor_def le16_def)
  ultimately show ?thesis
    using True
    by (simp add: tud_descriptor_device_cb_def type_descriptor_def pico_deviceDescriptor_def list_blit_def
        le16_def Let_def list_update_append drop_update_swap)
next
  case False
  then show ?thesis
    by (auto simp: tud_descriptor_device_cb_def type_descriptor_def pico_deviceDescriptor_def Let_def)
qed

text \<open>
  Every string that the device descriptor names is there, as long as it says; the serial number shows only
  the first four of the eight bytes that tell boards apart.
\<close>

lemma strings_complete:
  "index \<in> set (take 3 (drop 14 (tud_descriptor_device_cb version t))) \<Longrightarrow>
   \<exists>s. tud_descriptor_string_cb board_id index = Some s \<and> length s = unat (s ! 0) \<and> s ! 1 = DTYPE_String"
proof -
  assume "index \<in> set (take 3 (drop 14 (tud_descriptor_device_cb version t)))"
  then have "index = 1 \<or> index = 2 \<or> index = 3"
    by (auto simp: tud_descriptor_device_cb_def pico_deviceDescriptor_def deviceDescriptor_def list_blit_def
        le16_def Let_def split: if_splits)
  then show ?thesis
    by (elim disjE) (simp_all add: tud_descriptor_string_cb_def descriptorStrings_def manufacturerString_def
        productString_def string_desc_def le16_def upt_conv_Cons)
qed

lemma serial_half: "(\<forall>i<4. id1 i = id2 i) \<Longrightarrow> tud_descriptor_string_cb id1 3 = tud_descriptor_string_cb id2 3"
  by (simp add: tud_descriptor_string_cb_def pico_serial_digit_def upt_conv_Cons)

text \<open>Keyboards that are numbered above the Rock Band guitar get the gamepad's report descriptor.\<close>

lemma keyboard_descriptor_wrong:
  "t \<in> {subtype_val KEYBOARD_LIVE_GUITAR, subtype_val KEYBOARD_GUITAR_HERO_DRUMS,
        subtype_val KEYBOARD_ROCK_BAND_DRUMS} \<Longrightarrow>
   tud_hid_descriptor_report_cb t = ps3_report_descriptor \<and>
   CALLBACK_USB_GetDescriptor version t (push_bit 8 (ucast HID_DTYPE_Report)) = Descriptor kbd_report_descriptor"
  by (auto simp: tud_hid_descriptor_report_cb_def CALLBACK_USB_GetDescriptor_def Let_def)

text \<open>
  The driver claims the XInput interface with all its descriptors, up to the next interface, and then the
  configuration interface, for which nothing is opened.
\<close>

lemma xinput_interfaces_open:
  "let (n, itfs) = xinputd_open (\<lambda>d k. Some (XINPUT_EPADDR_OUT, XINPUT_EPADDR_IN))
         (drop 41 ConfigurationDescriptor) 141 xinputd_reset
   in n = 40 \<and> ConfigurationDescriptor ! (41 + 40 + 1) = DTYPE_Interface \<and>
      itfs ! 0 = \<lparr>xi_itf_num = interface_id INTERFACE_ID_XInput, xi_ep_in = XINPUT_EPADDR_IN,
                  xi_ep_out = XINPUT_EPADDR_OUT\<rparr> \<and>
      xinputd_open (\<lambda>d k. None) (drop 81 ConfigurationDescriptor) 101 itfs = (9, itfs) \<and>
      ConfigurationDescriptor ! (81 + 9 + 1) = DTYPE_Interface"
  by code_simp

text \<open>The host is told that the report has eight bytes, and gets whatever the buffer held.\<close>

lemma feature_report_not_filled:
  "length ident = 8 \<Longrightarrow> \<exists>ident'. tud_hid_get_report_cb t True ident buffer = (8, ident', buffer)"
  by (simp add: tud_hid_get_report_cb_def Let_def)

text \<open>
  Whatever type of device the configuration asks for, after the initialisation the Pico is the
  Guitar Hero guitar of the build, and its descriptors are those of that guitar.
\<close>

theorem pico_type_is_fixed:
  assumes "pico_ready f s"
  shows "\<exists>s' g' calls. pico_initialise f past s pico_reset_globals = Some (s', g', calls) \<and>
    pg_fullDeviceType g' = OUTPUT_TYPE \<and> pg_deviceType g' = REAL_GUITAR_SUBTYPE \<and>
    pg_typeIsGuitar g' \<and> \<not> pg_typeIsDrum g' \<and> take 2 (drop 8 (tud_descriptor_device_cb version (pg_fullDeviceType g'))) =
      take 2 (drop 8 (pico_deviceDescriptor version)) \<and>
    tud_hid_descriptor_report_cb (pg_fullDeviceType g') = kbd_report_descriptor"
proof -
  have kind: "isGuitar past OUTPUT_TYPE" "\<not> isDrum past OUTPUT_TYPE"
    by (simp_all add: OUTPUT_TYPE_def isGuitar_def isDrum_def types_byte_def types_def GUITAR_def DRUM_def)
  from pico_load_valid [OF assms, of past] obtain c s' where "pico_loadConfig f past s = Some (c, s')" by blast
  with kind show ?thesis
    by (simp add: pico_initialise_def pico_reset_globals_def Let_def tud_descriptor_device_cb_def
        tud_hid_descriptor_report_cb_def OUTPUT_TYPE_def)
qed

text \<open>
  The last report is never remembered: a report with anything but zeros is sent at every poll.
\<close>

lemma hid_task_due:
  assumes "pe_isRF env \<or> ucast (pe_pollRate env) \<le> pe_now env - pt_start_ms s"
    and "pt_previousReport s = replicate n 0" "length report \<le> n" "length (pt_currentReport s) = n"
    and "\<exists>b\<in>set report. b \<noteq> 0" "length report < 256"
  shows "hid_task env report s =
    (case send_pico_report env (s\<lparr>pt_currentReport := list_blit 0 report (pt_currentReport s),
        pt_size := of_nat (length report)\<rparr>) of
       (out, s') \<Rightarrow> (out @ (if pe_suspended env then [RemoteWakeup] else []), s'))"
proof -
  have "take (length report) (list_blit 0 report (pt_currentReport s)) = report"
    using assms(3,4) by (simp add: list_blit_def)
  moreover have "take (length report) (replicate n 0) = replicate (length report) (0 :: u8)"
    using assms(3) by (simp add: min_def)
  moreover have "report \<noteq> replicate (length report) 0" using assms(5) by (metis in_set_replicate)
  ultimately show ?thesis
    using assms(1,2) by (auto simp: hid_task_def Let_def not_less)
qed

text \<open>
  A MIDI device on the Pico hands over exactly one packet at each poll that is due: the first of
  the events of its report, so that the events behind it are lost although their velocities count as
  sent; and when nothing changed, the packet that the buffer still holds from an earlier report,
  so that the old event is repeated at every poll.
\<close>

theorem pico_midi_one_packet:
  assumes "pe_isRF env \<or> ucast (pe_pollRate env) \<le> pe_now env - pt_start_ms s"
    and "pt_previousReport s = replicate n 0" "length evs < n" "length (pt_currentReport s) = n" "length evs < 255"
  shows "fst (hid_task env (report_id REPORT_ID_MIDI # evs) s) =
    MidiPacket (take 4 (evs @ drop (length evs) (tl (pt_currentReport s)))) #
      (if pe_suspended env then [RemoteWakeup] else [])"
proof -
  have "tl (list_blit 0 (report_id REPORT_ID_MIDI # evs) (pt_currentReport s)) =
      evs @ drop (length evs) (tl (pt_currentReport s))"
    by (simp add: list_blit_def drop_Suc)
  moreover have "list_blit 0 (report_id REPORT_ID_MIDI # evs) (pt_currentReport s) ! 0 = report_id REPORT_ID_MIDI"
    by (simp add: list_blit_def)
  ultimately show ?thesis
    using hid_task_due [OF assms(1,2) _ assms(4), of "report_id REPORT_ID_MIDI # evs"] assms(3,5)
    by (simp add: send_pico_report_def Let_def)
qed

end
