(* ===== verification/Variants.thy ===== *)
theory Variants
  imports Pins
begin

text \<open>
  The pins of the three boards with an AVR: the tables of the Uno, the Mega and the Micro
  (\<open>src/src/avr/variants/*/pins_arduino.h\<close>), and the operations of \<open>src/src/avr/lib/pins/pins.c\<close>
  with a board's tables as an argument. The theory Pins has the same operations for the Uno alone, with the
  ports in place of the registers that the three tables of addresses give them; for the pins of the Uno they agree.

  A register is named, not addressed; what a port number without a table entry selects is
  \<open>Wild\<close>. The bytes behind the tables are part of the chip.
\<close>

section \<open>Registers and tables\<close>

datatype port_letter =
  PortA | PortB | PortC | PortD | PortE | PortF | PortG | PortH | PortJ | PortK | PortL

datatype sfr = NoPort | DDR port_letter | PORT port_letter | PIN port_letter | Wild u8

definition PA :: u8 where "PA = 1"
definition PE :: u8 where "PE = 5"
definition PF :: u8 where "PF = 6"
definition PG :: u8 where "PG = 7"
definition PH :: u8 where "PH = 8"
definition PJ :: u8 where "PJ = 10"
definition PK :: u8 where "PK = 11"
definition PL :: u8 where "PL = 12"

definition uno_port_to_mode :: "sfr list" where
  "uno_port_to_mode =
     [NoPort, NoPort, DDR PortB, DDR PortC, DDR PortD]"

definition uno_port_to_output :: "sfr list" where
  "uno_port_to_output =
     [NoPort, NoPort, PORT PortB, PORT PortC, PORT PortD]"

definition uno_port_to_input :: "sfr list" where
  "uno_port_to_input =
     [NoPort, NoPort, PIN PortB, PIN PortC, PIN PortD]"

definition mega_port_to_mode :: "sfr list" where
  "mega_port_to_mode =
     [NoPort, DDR PortA, DDR PortB, DDR PortC, DDR PortD, DDR PortE, DDR PortF, DDR PortG,
      DDR PortH, NoPort, DDR PortJ, DDR PortK, DDR PortL]"

definition mega_port_to_output :: "sfr list" where
  "mega_port_to_output =
     [NoPort, PORT PortA, PORT PortB, PORT PortC, PORT PortD, PORT PortE, PORT PortF,
      PORT PortG, PORT PortH, NoPort, PORT PortJ, PORT PortK, PORT PortL]"

definition mega_port_to_input :: "sfr list" where
  "mega_port_to_input =
     [NoPort, PIN PortA, PIN PortB, PIN PortC, PIN PortD, PIN PortE, PIN PortF, PIN PortG,
      PIN PortH, NoPort, PIN PortJ, PIN PortK, PIN PortL]"

definition mega_pin_to_port :: "u8 list" where
  "mega_pin_to_port =
     [PE, PE, PE, PE, PG, PE, PH, PH, PH, PH, PB, PB, PB, PB, PJ, PJ, PH, PH, PD, PD, PD, PD,
      PA, PA, PA, PA, PA, PA, PA, PA, PC, PC, PC, PC, PC, PC, PC, PC, PD, PG, PG, PG, PL, PL,
      PL, PL, PL, PL, PL, PL, PB, PB, PB, PB, PF, PF, PF, PF, PF, PF, PF, PF, PK, PK, PK, PK,
      PK, PK, PK, PK]"

definition mega_pin_to_bit_mask :: "u8 list" where
  "mega_pin_to_bit_mask =
     [bv 0, bv 1, bv 4, bv 5, bv 5, bv 3, bv 3, bv 4, bv 5, bv 6, bv 4, bv 5, bv 6, bv 7, bv 1,
      bv 0, bv 1, bv 0, bv 3, bv 2, bv 1, bv 0, bv 0, bv 1, bv 2, bv 3, bv 4, bv 5, bv 6, bv 7,
      bv 7, bv 6, bv 5, bv 4, bv 3, bv 2, bv 1, bv 0, bv 7, bv 2, bv 1, bv 0, bv 7, bv 6, bv 5,
      bv 4, bv 3, bv 2, bv 1, bv 0, bv 3, bv 2, bv 1, bv 0, bv 0, bv 1, bv 2, bv 3, bv 4, bv 5,
      bv 6, bv 7, bv 0, bv 1, bv 2, bv 3, bv 4, bv 5, bv 6, bv 7]"

definition micro_port_to_mode :: "sfr list" where
  "micro_port_to_mode =
     [NoPort, NoPort, DDR PortB, DDR PortC, DDR PortD, DDR PortE, DDR PortF]"

definition micro_port_to_output :: "sfr list" where
  "micro_port_to_output =
     [NoPort, NoPort, PORT PortB, PORT PortC, PORT PortD, PORT PortE, PORT PortF]"

definition micro_port_to_input :: "sfr list" where
  "micro_port_to_input =
     [NoPort, NoPort, PIN PortB, PIN PortC, PIN PortD, PIN PortE, PIN PortF]"

definition micro_pin_to_port :: "u8 list" where
  "micro_pin_to_port =
     [PD, PD, PD, PD, PD, PC, PD, PE, PB, PB, PB, PB, PD, PC, PB, PB, PB, PB, PF, PF, PF, PF,
      PF, PF, PD, PD, PB, PB, PB, PD, PD]"

definition micro_pin_to_bit_mask :: "u8 list" where
  "micro_pin_to_bit_mask =
     [bv 2, bv 3, bv 1, bv 0, bv 4, bv 6, bv 7, bv 6, bv 4, bv 5, bv 6, bv 7, bv 6, bv 7, bv 3,
      bv 1, bv 2, bv 0, bv 7, bv 6, bv 5, bv 4, bv 1, bv 0, bv 4, bv 7, bv 4, bv 5, bv 6, bv 6,
      bv 5]"

definition micro_pin_to_channel :: "u8 list" where
  "micro_pin_to_channel = [7, 6, 5, 4, 1, 0, 8, 10, 11, 12, 13, 9]"

text \<open>
  What a board's header defines. \<open>av_channels\<close> is the table of \<open>analogPinToChannel\<close>, which only the
  Micro has; \<open>av_MUX5\<close> is the bit of ADCSRB that the chip's header calls so.
\<close>

record variant =
  av_to_mode :: "sfr list"
  av_to_output :: "sfr list"
  av_to_input :: "sfr list"
  av_port :: "u8 list"
  av_mask :: "u8 list"
  av_A0 :: u8
  av_analog :: nat
  av_channels :: "u8 list option"
  av_MUX5 :: "nat option"

definition uno_variant :: variant where
  "uno_variant = \<lparr>av_to_mode = uno_port_to_mode, av_to_output = uno_port_to_output,
     av_to_input = uno_port_to_input, av_port = digital_pin_to_port_PGM, av_mask = digital_pin_to_bit_mask_PGM,
     av_A0 = PIN_A0, av_analog = 6, av_channels = None, av_MUX5 = None\<rparr>"

definition mega_variant :: variant where
  "mega_variant = \<lparr>av_to_mode = mega_port_to_mode, av_to_output = mega_port_to_output,
     av_to_input = mega_port_to_input, av_port = mega_pin_to_port, av_mask = mega_pin_to_bit_mask,
     av_A0 = 54, av_analog = 16, av_channels = None, av_MUX5 = Some 3\<rparr>"

definition micro_variant :: variant where
  "micro_variant = \<lparr>av_to_mode = micro_port_to_mode, av_to_output = micro_port_to_output,
     av_to_input = micro_port_to_input, av_port = micro_pin_to_port, av_mask = micro_pin_to_bit_mask,
     av_A0 = 18, av_analog = 12, av_channels = Some micro_pin_to_channel, av_MUX5 = Some 5\<rparr>"

section \<open>The operations\<close>

record chip =
  ch_mem :: "sfr \<Rightarrow> u8"
  ch_SREG :: u8
  ch_ADCSRA :: u8
  ch_ADCSRB :: u8
  ch_ADMUX :: u8
  ch_behind_port :: "u8 \<Rightarrow> u8"
  ch_behind_mask :: "u8 \<Rightarrow> u8"
  ch_behind_channel :: "u8 \<Rightarrow> u8"

definition table_byte :: "u8 list \<Rightarrow> (u8 \<Rightarrow> u8) \<Rightarrow> u8 \<Rightarrow> u8" where
  "table_byte tab behind p = (if unat p < length tab then tab ! unat p else behind p)"

definition reg_at :: "sfr list \<Rightarrow> u8 \<Rightarrow> sfr" where
  "reg_at tab p = (if unat p < length tab then tab ! unat p else Wild p)"

definition v_port :: "variant \<Rightarrow> chip \<Rightarrow> u8 \<Rightarrow> u8" where
  "v_port v c = table_byte (av_port v) (ch_behind_port c)"

definition v_mask :: "variant \<Rightarrow> chip \<Rightarrow> u8 \<Rightarrow> u8" where
  "v_mask v c = table_byte (av_mask v) (ch_behind_mask c)"

definition put_bits :: "sfr \<Rightarrow> bool \<Rightarrow> u8 \<Rightarrow> chip \<Rightarrow> chip" where
  "put_bits r high m c =
     c\<lparr>ch_mem := (ch_mem c)(r := if high then ch_mem c r OR m else ch_mem c r AND NOT m)\<rparr>"

definition v_cli :: "chip \<Rightarrow> chip" where "v_cli c = c\<lparr>ch_SREG := bit_clear_m (ch_SREG c) 7\<rparr>"
definition v_sei :: "chip \<Rightarrow> chip" where "v_sei c = c\<lparr>ch_SREG := bit_set_m (ch_SREG c) 7\<rparr>"

definition v_digitalWrite :: "variant \<Rightarrow> u8 \<Rightarrow> u8 \<Rightarrow> chip \<Rightarrow> chip" where
  "v_digitalWrite v pin val c =
     (if v_port v c pin = NOT_A_PIN then c
      else (put_bits (reg_at (av_to_output v) (v_port v c pin)) (val \<noteq> 0) (v_mask v c pin) (v_cli c))
             \<lparr>ch_SREG := ch_SREG c\<rparr>)"

definition v_digitalRead :: "variant \<Rightarrow> chip \<Rightarrow> u8 \<Rightarrow> bool" where
  "v_digitalRead v c pin =
     (if v_port v c pin = NOT_A_PIN then False
      else truthy (ch_mem c (reg_at (av_to_input v) (v_port v c pin)) AND v_mask v c pin))"

definition v_pinMode :: "variant \<Rightarrow> u8 \<Rightarrow> u8 \<Rightarrow> chip \<Rightarrow> chip" where
  "v_pinMode v pin mode c =
     (if v_port v c pin = NOT_A_PIN then c
      else let reg = reg_at (av_to_mode v) (v_port v c pin); out = reg_at (av_to_output v) (v_port v c pin);
               m = v_mask v c pin;
               b = (if mode = INPUT then put_bits out False m (put_bits reg False m (v_cli c))
                    else if mode = INPUT_PULLUP then put_bits out True m (put_bits reg False m (v_cli c))
                    else put_bits reg True m (v_cli c))
           in v_sei (b\<lparr>ch_SREG := ch_SREG c\<rparr>))"

text \<open>The channel that \<open>setUpAnalogPin\<close> stores for a pin.\<close>

definition v_channel :: "variant \<Rightarrow> chip \<Rightarrow> u8 \<Rightarrow> u8" where
  "v_channel v c pin =
     (case av_channels v of
        None \<Rightarrow> pin - av_A0 v
      | Some tab \<Rightarrow> table_byte tab (ch_behind_channel c) (pin - av_A0 v))"

text \<open>The selection of a channel, with its fourth bit in ADCSRB where the chip has MUX5.\<close>

definition v_select :: "variant \<Rightarrow> u8 \<Rightarrow> chip \<Rightarrow> chip" where
  "v_select v channel c =
     (case av_MUX5 v of
        None \<Rightarrow> c
      | Some b \<Rightarrow> c\<lparr>ch_ADCSRB := (ch_ADCSRB c AND NOT (bv b)) OR push_bit b (drop_bit 3 channel AND 0x01)\<rparr>)
     \<lparr>ch_ADMUX := bv 6 OR (channel AND 0x07)\<rparr>"

definition v_start :: "variant \<Rightarrow> u8 \<Rightarrow> chip \<Rightarrow> chip" where
  "v_start v channel c =
     (let c1 = v_select v channel c in c1\<lparr>ch_ADCSRA := bit_set_m (ch_ADCSRA c1) ADSC\<rparr>)"

text \<open>The channel that the converter takes, as its registers select it.\<close>

definition selected :: "variant \<Rightarrow> chip \<Rightarrow> u8" where
  "selected v c = (ch_ADMUX c AND 0x07) OR
     (case av_MUX5 v of None \<Rightarrow> 0 | Some b \<Rightarrow> if bit (ch_ADCSRB c) b then 8 else 0)"

definition v_analogRead :: "variant \<Rightarrow> (u8 \<Rightarrow> u16) \<Rightarrow> u8 \<Rightarrow> chip \<Rightarrow> u16 \<times> chip" where
  "v_analogRead v adc pin c =
     (let pin = (if av_A0 v \<le> pin then pin - av_A0 v else pin);
          channel = (case av_channels v of None \<Rightarrow> pin | Some tab \<Rightarrow> table_byte tab (ch_behind_channel c) pin);
          c1 = v_start v channel c; sample = adc (selected v c1);
          low = (ucast sample :: u8); high = (ucast (drop_bit 8 sample) :: u8)
      in (push_bit 8 (ucast high) OR ucast low, c1\<lparr>ch_ADCSRA := bit_clear_m (ch_ADCSRA c1) ADSC\<rparr>))"

section \<open>What a board's tables promise\<close>

definition letter_of :: "variant \<Rightarrow> nat \<Rightarrow> port_letter \<Rightarrow> bool" where
  "letter_of v i l \<longleftrightarrow> av_port v ! i \<noteq> NOT_A_PIN \<and> reg_at (av_to_mode v) (av_port v ! i) = DDR l \<and>
     reg_at (av_to_output v) (av_port v ! i) = PORT l \<and> reg_at (av_to_input v) (av_port v ! i) = PIN l"

definition same_bit :: "variant \<Rightarrow> u8 \<Rightarrow> u8 \<Rightarrow> bool" where
  "same_bit v p q \<longleftrightarrow> av_port v ! unat p = av_port v ! unat q \<and> av_mask v ! unat p = av_mask v ! unat q"

text \<open>Every pin has a port with all three registers and a bit of it; a port has one number.\<close>

locale pin_tables =
  fixes v :: variant
  assumes same_length: "length (av_mask v) = length (av_port v)"
    and pin_letter: "i < length (av_port v) \<Longrightarrow> \<exists>l. letter_of v i l"
    and pin_bit: "i < length (av_port v) \<Longrightarrow> \<exists>b<8. av_mask v ! i = bv b"
    and one_number: "i < length (av_port v) \<Longrightarrow> j < length (av_port v) \<Longrightarrow> letter_of v i l \<Longrightarrow> letter_of v j l \<Longrightarrow>
      av_port v ! i = av_port v ! j"

lemma bv_and_bv: "a < 8 \<Longrightarrow> b < 8 \<Longrightarrow> (bv a AND bv b :: u8) = (if a = b then bv a else 0)"
  by (auto simp: bv_def bit_eq_iff bit_simps)

definition v_level :: "variant \<Rightarrow> chip \<Rightarrow> u8 \<Rightarrow> bool" where
  "v_level v c pin = truthy (ch_mem c (reg_at (av_to_output v) (v_port v c pin)) AND v_mask v c pin)"

definition v_drives :: "variant \<Rightarrow> chip \<Rightarrow> u8 \<Rightarrow> bool" where
  "v_drives v c pin = truthy (ch_mem c (reg_at (av_to_mode v) (v_port v c pin)) AND v_mask v c pin)"

lemma chip_simps [simp]:
  "ch_mem (v_cli c) = ch_mem c" "ch_mem (v_sei c) = ch_mem c"
  "ch_SREG (put_bits r h m c) = ch_SREG c"
  "v_port v (put_bits r h m c) = v_port v c" "v_mask v (put_bits r h m c) = v_mask v c"
  "v_port v (v_cli c) = v_port v c" "v_mask v (v_cli c) = v_mask v c"
  "v_port v (v_sei c) = v_port v c" "v_mask v (v_sei c) = v_mask v c"
  "v_port v (c\<lparr>ch_SREG := s\<rparr>) = v_port v c" "v_mask v (c\<lparr>ch_SREG := s\<rparr>) = v_mask v c"
  by (simp_all add: v_cli_def v_sei_def put_bits_def v_port_def v_mask_def fun_eq_iff)

lemma mem_put_bits:
  "ch_mem (put_bits r h m c) = (ch_mem c)(r := if h then ch_mem c r OR m else ch_mem c r AND NOT m)"
  by (simp add: put_bits_def)

context pin_tables begin

lemma pin_regs:
  assumes "unat p < length (av_port v)"
  obtains l b where "b < 8" "\<And>c. v_port v c p = av_port v ! unat p" "\<And>c. v_mask v c p = bv b"
    "av_mask v ! unat p = bv b" "letter_of v (unat p) l"
  using pin_letter [OF assms] pin_bit [OF assms] assms same_length
  by (auto simp: v_port_def v_mask_def table_byte_def)

lemma bits_apart:
  assumes "unat p < length (av_port v)" "unat q < length (av_port v)" "av_port v ! unat p = av_port v ! unat q"
  shows "v_mask v c p AND v_mask v c q = (if same_bit v p q then v_mask v c p else 0)" "v_mask v c p \<noteq> 0"
proof -
  obtain l a where p: "a < 8" "v_mask v c p = bv a" "av_mask v ! unat p = bv a"
    by (rule pin_regs [OF assms(1)]) blast
  obtain k b where q: "b < 8" "v_mask v c q = bv b" "av_mask v ! unat q = bv b"
    by (rule pin_regs [OF assms(2)]) blast
  have *: "a < 8 \<Longrightarrow> (bv a :: u8) \<noteq> 0" for a by (auto simp: bv_def bit_eq_iff bit_simps)
  have "bv a = (bv b :: u8) \<longleftrightarrow> a = b"
    using bv_and_bv [OF p(1) q(1)] * [OF p(1)] by (auto split: if_splits)
  then show "v_mask v c p AND v_mask v c q = (if same_bit v p q then v_mask v c p else 0)"
    using p q assms(3) by (simp add: same_bit_def bv_and_bv)
  show "v_mask v c p \<noteq> 0" using p * by simp
qed

lemma put_bits_level:
  assumes "unat p < length (av_port v)" "unat q < length (av_port v)"
    and "reg_at tab (av_port v ! unat p) = reg_at tab (av_port v ! unat q) \<longleftrightarrow> av_port v ! unat p = av_port v ! unat q"
  shows "(ch_mem (put_bits (reg_at tab (v_port v c p)) h (v_mask v c p) d) (reg_at tab (v_port v c q)) AND v_mask v c q = 0)
    \<longleftrightarrow> (if same_bit v p q then \<not> h else ch_mem d (reg_at tab (v_port v c q)) AND v_mask v c q = 0)"
proof -
  have ports: "v_port v c p = av_port v ! unat p" "v_port v c q = av_port v ! unat q"
    using assms(1,2) by (simp_all add: v_port_def table_byte_def)
  show ?thesis
  proof (cases "av_port v ! unat p = av_port v ! unat q")
    case True
    from bits_apart [OF assms(1,2) True, of c] True ports
    show ?thesis
      by (auto simp: put_bits_def mask_set_clear same_bit_def v_mask_def table_byte_def same_length assms(1,2))
  next
    case False
    with assms(3) ports show ?thesis by (auto simp: put_bits_def same_bit_def)
  qed
qed

lemma output_reg_iff:
  assumes "unat p < length (av_port v)" "unat q < length (av_port v)"
  shows "reg_at (av_to_output v) (av_port v ! unat p) = reg_at (av_to_output v) (av_port v ! unat q) \<longleftrightarrow>
      av_port v ! unat p = av_port v ! unat q"
    and "reg_at (av_to_mode v) (av_port v ! unat p) = reg_at (av_to_mode v) (av_port v ! unat q) \<longleftrightarrow>
      av_port v ! unat p = av_port v ! unat q"
proof -
  obtain l where l: "letter_of v (unat p) l" using pin_letter [OF assms(1)] by blast
  obtain k where k: "letter_of v (unat q) k" using pin_letter [OF assms(2)] by blast
  have "l = k \<Longrightarrow> av_port v ! unat p = av_port v ! unat q"
    using one_number [OF assms l] k by simp
  then show "reg_at (av_to_output v) (av_port v ! unat p) = reg_at (av_to_output v) (av_port v ! unat q) \<longleftrightarrow>
      av_port v ! unat p = av_port v ! unat q"
    and "reg_at (av_to_mode v) (av_port v ! unat p) = reg_at (av_to_mode v) (av_port v ! unat q) \<longleftrightarrow>
      av_port v ! unat p = av_port v ! unat q"
    using l k by (auto simp: letter_of_def)
qed

lemma mode_and_level:
  assumes "unat p < length (av_port v)" "unat q < length (av_port v)"
  shows "v_drives v (v_pinMode v p m c) q =
      (if same_bit v p q then m \<noteq> INPUT \<and> m \<noteq> INPUT_PULLUP else v_drives v c q)"
    and "v_level v (v_pinMode v p m c) q =
      (if same_bit v p q \<and> (m = INPUT \<or> m = INPUT_PULLUP) then m = INPUT_PULLUP else v_level v c q)"
proof -
  obtain l where l: "letter_of v (unat p) l" using pin_letter [OF assms(1)] by blast
  obtain k where k: "letter_of v (unat q) k" using pin_letter [OF assms(2)] by blast
  have ports: "v_port v c p = av_port v ! unat p" "v_port v c q = av_port v ! unat q"
    using assms(1,2) by (simp_all add: v_port_def table_byte_def)
  have other: "ch_mem (put_bits (DDR l) h x d) (PORT k) = ch_mem d (PORT k)"
    "ch_mem (put_bits (PORT l) h x d) (DDR k) = ch_mem d (DDR k)" for h x d
    by (simp_all add: mem_put_bits)
  note lk = l [unfolded letter_of_def] k [unfolded letter_of_def]
  show "v_drives v (v_pinMode v p m c) q =
      (if same_bit v p q then m \<noteq> INPUT \<and> m \<noteq> INPUT_PULLUP else v_drives v c q)"
    using lk put_bits_level [OF assms output_reg_iff(2) [OF assms], of c False "v_cli c"]
      put_bits_level [OF assms output_reg_iff(2) [OF assms], of c True "v_cli c"]
    by (simp add: v_drives_def v_pinMode_def Let_def ports other)
  show "v_level v (v_pinMode v p m c) q =
      (if same_bit v p q \<and> (m = INPUT \<or> m = INPUT_PULLUP) then m = INPUT_PULLUP else v_level v c q)"
    using lk put_bits_level [OF assms output_reg_iff(1) [OF assms], of c False
        "put_bits (DDR l) False (v_mask v c p) (v_cli c)"]
      put_bits_level [OF assms output_reg_iff(1) [OF assms], of c True
        "put_bits (DDR l) False (v_mask v c p) (v_cli c)"]
    by (simp add: v_level_def v_pinMode_def Let_def ports other INPUT_def INPUT_PULLUP_def)
qed

lemma written_level:
  assumes "unat p < length (av_port v)" "unat q < length (av_port v)"
  shows "v_level v (v_digitalWrite v p x c) q = (if same_bit v p q then x \<noteq> 0 else v_level v c q)"
    and "v_drives v (v_digitalWrite v p x c) q = v_drives v c q"
    and "v_digitalRead v (v_digitalWrite v p x c) q = v_digitalRead v c q"
proof -
  obtain l where l: "letter_of v (unat p) l" using pin_letter [OF assms(1)] by blast
  obtain k where k: "letter_of v (unat q) k" using pin_letter [OF assms(2)] by blast
  have ports: "v_port v c p = av_port v ! unat p" "v_port v c q = av_port v ! unat q"
    using assms(1,2) by (simp_all add: v_port_def table_byte_def)
  show "v_level v (v_digitalWrite v p x c) q = (if same_bit v p q then x \<noteq> 0 else v_level v c q)"
    using put_bits_level [OF assms output_reg_iff(1) [OF assms], of c "x \<noteq> 0" "v_cli c"] l
    by (auto simp: v_level_def v_digitalWrite_def ports letter_of_def)
  show "v_drives v (v_digitalWrite v p x c) q = v_drives v c q"
    "v_digitalRead v (v_digitalWrite v p x c) q = v_digitalRead v c q"
    using l k by (simp_all add: v_drives_def v_digitalRead_def v_digitalWrite_def ports letter_of_def mem_put_bits)
qed

end

section \<open>The three boards\<close>

text \<open>The promise, as a check of the tables entry by entry.\<close>

definition letters :: "port_letter list" where
  "letters = [PortA, PortB, PortC, PortD, PortE, PortF, PortG, PortH, PortJ, PortK, PortL]"

lemma letters_all: "l \<in> set letters"
  by (cases l) (simp_all add: letters_def)

definition check_tables :: "variant \<Rightarrow> bool" where
  "check_tables v \<longleftrightarrow> length (av_mask v) = length (av_port v) \<and>
     (\<forall>x\<in>set (av_port v). \<exists>l\<in>set letters. x \<noteq> NOT_A_PIN \<and> reg_at (av_to_mode v) x = DDR l \<and>
        reg_at (av_to_output v) x = PORT l \<and> reg_at (av_to_input v) x = PIN l) \<and>
     (\<forall>m\<in>set (av_mask v). \<exists>b\<in>set [0..<8]. m = bv b) \<and>
     (\<forall>x\<in>set (remdups (av_port v)). \<forall>y\<in>set (remdups (av_port v)).
        reg_at (av_to_output v) x = reg_at (av_to_output v) y \<longrightarrow> x = y)"

lemma checked_tables:
  assumes "check_tables v"
  shows "pin_tables v"
proof
  show len: "length (av_mask v) = length (av_port v)" using assms by (simp add: check_tables_def)
  show "\<exists>l. letter_of v i l" if "i < length (av_port v)" for i
    using assms nth_mem [OF that] by (fastforce simp: check_tables_def letter_of_def)
  show "\<exists>b<8. av_mask v ! i = bv b" if "i < length (av_port v)" for i
  proof -
    have "av_mask v ! i \<in> set (av_mask v)" using that len by simp
    with assms show ?thesis by (fastforce simp: check_tables_def simp del: upt.simps)
  qed
  show "av_port v ! i = av_port v ! j"
    if "i < length (av_port v)" "j < length (av_port v)" "letter_of v i l" "letter_of v j l" for i j l
  proof -
    have "reg_at (av_to_output v) (av_port v ! i) = reg_at (av_to_output v) (av_port v ! j)"
      using that(3,4) by (simp add: letter_of_def)
    with assms nth_mem [OF that(1)] nth_mem [OF that(2)] show ?thesis
      unfolding check_tables_def set_remdups by blast
  qed
qed

interpretation uno: pin_tables uno_variant
  by (rule checked_tables) code_simp

interpretation mega: pin_tables mega_variant
  by (rule checked_tables) code_simp

interpretation micro: pin_tables micro_variant
  by (rule checked_tables) code_simp

text \<open>The pins that share a bit with another: none on the Uno and the Mega, six on the Micro.\<close>

definition twins :: "variant \<Rightarrow> (nat \<times> nat) list" where
  "twins v = [(p, q). p \<leftarrow> [0..<length (av_port v)], q \<leftarrow> [Suc p..<length (av_port v)],
     av_port v ! p = av_port v ! q \<and> av_mask v ! p = av_mask v ! q]"

lemma board_twins:
  "twins uno_variant = []" "twins mega_variant = []"
  "twins micro_variant = [(4, 24), (6, 25), (8, 26), (9, 27), (10, 28), (12, 29)]"
  by code_simp+

lemma same_bit_twins:
  assumes "unat p < length (av_port v)" "unat q < length (av_port v)"
  shows "same_bit v p q \<longleftrightarrow> p = q \<or> (unat p, unat q) \<in> set (twins v) \<or> (unat q, unat p) \<in> set (twins v)"
proof -
  have "(i, j) \<in> set (twins v) \<longleftrightarrow> i < j \<and> j < length (av_port v) \<and> av_port v ! i = av_port v ! j \<and>
      av_mask v ! i = av_mask v ! j" for i j
    by (auto simp: twins_def Suc_le_eq)
  then show ?thesis
    using assms by (auto simp: same_bit_def word_unat_eq_iff)
qed

text \<open>
  On each of the boards a write to a pin sets the level that the pin drives and that of its twins,
  and a change of mode the direction and the pull-up of these; no other pin's level or direction, and nothing that is
  read from a pin, changes.
\<close>

theorem board_pins_independent:
  assumes "v \<in> {uno_variant, mega_variant, micro_variant}"
    and "unat p < length (av_port v)" and "unat q < length (av_port v)"
  shows "let same = p = q \<or> (unat p, unat q) \<in> set (twins v) \<or> (unat q, unat p) \<in> set (twins v);
      w = v_digitalWrite v p x c; m = v_pinMode v p mode c
    in v_level v w q = (if same then x \<noteq> 0 else v_level v c q) \<and> v_drives v w q = v_drives v c q \<and>
       v_digitalRead v w q = v_digitalRead v c q \<and>
       v_drives v m q = (if same then mode \<noteq> INPUT \<and> mode \<noteq> INPUT_PULLUP else v_drives v c q) \<and>
       v_level v m q = (if same \<and> (mode = INPUT \<or> mode = INPUT_PULLUP) then mode = INPUT_PULLUP else v_level v c q)"
proof -
  have "pin_tables v"
    using assms(1) uno.pin_tables_axioms mega.pin_tables_axioms micro.pin_tables_axioms by auto
  from pin_tables.written_level [OF this assms(2,3)] pin_tables.mode_and_level [OF this assms(2,3)]
  show ?thesis by (simp add: Let_def same_bit_twins [OF assms(2,3)])
qed

section \<open>The Uno in both models\<close>

definition avr_of :: "variant \<Rightarrow> chip \<Rightarrow> avr" where
  "avr_of v c = \<lparr>ddr = (\<lambda>p. ch_mem c (reg_at (av_to_mode v) p)), port_out = (\<lambda>p. ch_mem c (reg_at (av_to_output v) p)),
     port_in = (\<lambda>p. ch_mem c (reg_at (av_to_input v) p)), SREG = ch_SREG c, ADCSRA = ch_ADCSRA c,
     ADMUX = ch_ADMUX c, flash_port = ch_behind_port c, flash_mask = ch_behind_mask c\<rparr>"

lemma avr_of_tables:
  "digitalPinToPort (avr_of uno_variant c) = v_port uno_variant c"
  "digitalPinToBitMask (avr_of uno_variant c) = v_mask uno_variant c"
  by (simp_all add: fun_eq_iff digitalPinToPort_def digitalPinToBitMask_def v_port_def v_mask_def table_byte_def
      avr_of_def uno_variant_def)

lemma small_port: "unat (p :: u8) < 5 \<Longrightarrow> p \<in> {0, 1, 2, 3, 4}"
proof -
  assume "unat p < 5"
  then have "unat p = 0 \<or> unat p = 1 \<or> unat p = 2 \<or> unat p = 3 \<or> unat p = 4" by linarith
  then show ?thesis by (auto simp: word_unat_eq_iff)
qed

lemma uno_register_unique:
  assumes "q \<in> {PB, PC, PD}"
  shows "reg_at uno_port_to_output p = reg_at uno_port_to_output q \<longleftrightarrow> p = q"
    and "reg_at uno_port_to_mode p = reg_at uno_port_to_mode q \<longleftrightarrow> p = q"
proof -
  have q: "q = 2 \<or> q = 3 \<or> q = 4" using assms by (simp add: PB_def PC_def PD_def)
  have "reg_at uno_port_to_output q \<noteq> Wild r \<and> reg_at uno_port_to_mode q \<noteq> Wild r" for r
    using q by (elim disjE) (simp_all add: reg_at_def uno_port_to_output_def uno_port_to_mode_def)
  moreover have "reg_at uno_port_to_output p = Wild p \<and> reg_at uno_port_to_mode p = Wild p \<and> p \<noteq> q"
    if "\<not> unat p < 5"
    using that q by (auto simp: reg_at_def uno_port_to_output_def uno_port_to_mode_def)
  moreover have "(reg_at uno_port_to_output p = reg_at uno_port_to_output q \<longleftrightarrow> p = q) \<and>
      (reg_at uno_port_to_mode p = reg_at uno_port_to_mode q \<longleftrightarrow> p = q)" if "unat p < 5"
    using small_port [OF that] q
    by (elim insertE disjE emptyE) (simp_all add: reg_at_def uno_port_to_output_def uno_port_to_mode_def)
  ultimately show "reg_at uno_port_to_output p = reg_at uno_port_to_output q \<longleftrightarrow> p = q"
    and "reg_at uno_port_to_mode p = reg_at uno_port_to_mode q \<longleftrightarrow> p = q"
    by (metis (full_types))+
qed

text \<open>For the pins of the Uno the two models do the same.\<close>

theorem uno_as_in_pins:
  assumes "pin < 20"
  shows "avr_of uno_variant (v_digitalWrite uno_variant pin x c) = digitalWrite pin x (avr_of uno_variant c)"
    and "v_digitalRead uno_variant c pin = digitalRead (avr_of uno_variant c) pin"
    and "avr_of uno_variant (v_pinMode uno_variant pin mode c) = pinMode pin mode (avr_of uno_variant c)"
proof -
  define q where "q = v_port uno_variant c pin"
  have "unat pin < length digital_pin_to_port_PGM" using assms by (simp add: word_less_nat_alt)
  then have "q \<in> set digital_pin_to_port_PGM"
    by (simp add: q_def v_port_def table_byte_def uno_variant_def)
  then have q: "q \<in> {PB, PC, PD}" by (auto simp: digital_pin_to_port_PGM_def)
  have tabs: "av_to_output uno_variant = uno_port_to_output" "av_to_mode uno_variant = uno_port_to_mode"
    "av_to_input uno_variant = uno_port_to_input" by (simp_all add: uno_variant_def)
  have apart: "reg_at uno_port_to_output p \<noteq> DDR l" "reg_at uno_port_to_input p \<noteq> DDR l"
    "reg_at uno_port_to_mode p \<noteq> PORT l" "reg_at uno_port_to_input p \<noteq> PORT l" for p l
    using small_port [of p]
    by (auto simp: reg_at_def uno_port_to_output_def uno_port_to_mode_def uno_port_to_input_def)
  have regs: "\<exists>l. reg_at uno_port_to_output q = PORT l \<and> reg_at uno_port_to_mode q = DDR l"
    using q by (auto simp: reg_at_def uno_port_to_output_def uno_port_to_mode_def PB_def PC_def PD_def)
  then obtain l where l: "reg_at uno_port_to_output q = PORT l" "reg_at uno_port_to_mode q = DDR l" by blast
  note uniq = uno_register_unique [OF q, unfolded l]
  have port: "v_port uno_variant c pin = q" by (simp add: q_def)
  show "v_digitalRead uno_variant c pin = digitalRead (avr_of uno_variant c) pin"
    by (simp add: v_digitalRead_def digitalRead_def Let_def avr_of_tables) (simp add: avr_of_def)
  show "avr_of uno_variant (v_digitalWrite uno_variant pin x c) = digitalWrite pin x (avr_of uno_variant c)"
    by (simp add: v_digitalWrite_def digitalWrite_def Let_def avr_of_tables port)
      (auto simp: avr_of_def put_bits_def v_cli_def cli_def write_out_def tabs l apart uniq fun_eq_iff)
  show "avr_of uno_variant (v_pinMode uno_variant pin mode c) = pinMode pin mode (avr_of uno_variant c)"
    by (simp add: v_pinMode_def pinMode_def Let_def avr_of_tables port)
      (auto simp: avr_of_def put_bits_def v_cli_def cli_def v_sei_def sei_def write_out_def write_mode_def tabs l apart
        uniq fun_eq_iff)
qed

section \<open>Channels of the converter\<close>

lemma low_and_high: "channel < (16 :: u8) \<Longrightarrow>
  (channel AND 7) OR (if bit channel 3 then 8 else 0) = channel"
proof -
  assume "channel < 16"
  then have "unat channel < 16" by (simp add: word_less_nat_alt)
  then have "unat channel \<in> set [0..<16]" by simp
  moreover have "\<forall>k\<in>set [0..<16]. (of_nat k AND 7) OR (if bit (of_nat k :: u8) 3 then 8 else 0) = (of_nat k :: u8)"
    by code_simp
  ultimately have "(of_nat (unat channel) AND 7) OR (if bit (of_nat (unat channel) :: u8) 3 then 8 else 0) =
      (of_nat (unat channel) :: u8)" by blast
  then show ?thesis by simp
qed

text \<open>What is written to the registers selects the channel, and leaves the other bits of ADCSRB.\<close>

lemma channel_selected:
  assumes "case av_MUX5 v of None \<Rightarrow> channel < 8 | Some b \<Rightarrow> channel < 16 \<and> b < 8"
  shows "selected v (v_start v channel c) = channel"
    and "av_MUX5 v = Some b \<Longrightarrow> n \<noteq> b \<Longrightarrow> bit (ch_ADCSRB (v_start v channel c)) n = bit (ch_ADCSRB c) n"
proof -
  have high: "bit (push_bit b (drop_bit 3 channel AND 1)) b = bit channel 3" if "b < 8" for b
    using that by (simp add: bit_simps)
  have low: "channel AND 7 = channel" if "channel < 8"
  proof -
    have "unat channel < 8" using that by (simp add: word_less_nat_alt)
    then have "unat channel \<in> set [0..<8]" by simp
    moreover have "\<forall>k\<in>set [0..<8]. of_nat k AND 7 = (of_nat k :: u8)" by code_simp
    ultimately have "of_nat (unat channel) AND 7 = (of_nat (unat channel) :: u8)" by blast
    then show ?thesis by simp
  qed
  have mux: "(64 OR channel AND 7) AND 7 = channel AND 7"
    using mux_channel [of channel] by (simp add: bv_def)
  then have low_mux: "(64 OR channel) AND 7 = channel" if "channel < 8" using low [OF that] by simp
  show "selected v (v_start v channel c) = channel"
    using assms low low_mux low_and_high [of channel] high
    by (auto simp: mux selected_def v_start_def v_select_def Let_def bit_simps bv_def split: option.splits)
  show "av_MUX5 v = Some b \<Longrightarrow> n \<noteq> b \<Longrightarrow> bit (ch_ADCSRB (v_start v channel c)) n = bit (ch_ADCSRB c) n"
    by (auto simp: v_start_def v_select_def Let_def bit_simps bv_def dest: bit_imp_le_length)
qed

text \<open>
  On each board every analogue input converts the channel of its own pin: its number on the Uno and the
  Mega, the channel that the header's table has for it on the Micro; no two inputs share a channel.
\<close>

theorem inputs_convert_own_channel:
  assumes "v \<in> {uno_variant, mega_variant, micro_variant}" and "i < av_analog v" and "j < av_analog v"
  shows "let chan = (\<lambda>i. selected v (v_start v (v_channel v c (av_A0 v + of_nat i)) c))
    in chan i = (case av_channels v of None \<Rightarrow> of_nat i | Some tab \<Rightarrow> tab ! i) \<and> (chan i = chan j \<longrightarrow> i = j)"
proof -
  define num :: "nat \<Rightarrow> u8" where
    "num i = (case av_channels v of None \<Rightarrow> of_nat i | Some tab \<Rightarrow> tab ! i)" for i
  have chan: "selected v (v_start v (v_channel v c (av_A0 v + of_nat k)) c) = num k" if "k < av_analog v" for k
  proof -
    have k: "k < 16" "unat (of_nat k :: u8) = k" and "v_channel v c (av_A0 v + of_nat k) = num k"
      using that assms(1)
      by (auto simp: v_channel_def num_def table_byte_def uno_variant_def mega_variant_def micro_variant_def
          micro_pin_to_channel_def unat_of_nat)
    moreover have "case av_MUX5 v of None \<Rightarrow> num k < 8 | Some b \<Rightarrow> num k < 16 \<and> b < 8"
    proof -
      have "\<forall>x\<in>set micro_pin_to_channel. x < 16" by code_simp
      moreover have "k < 12 \<Longrightarrow> micro_pin_to_channel ! k \<in> set micro_pin_to_channel"
        by (rule nth_mem) (simp add: micro_pin_to_channel_def)
      ultimately show ?thesis
        using k that assms(1)
        by (auto simp: num_def uno_variant_def mega_variant_def micro_variant_def word_less_nat_alt)
    qed
    ultimately show ?thesis by (simp add: channel_selected(1))
  qed
  have "micro_pin_to_channel ! i = micro_pin_to_channel ! j \<longleftrightarrow> i = j" if "i < 12" "j < 12"
  proof (rule nth_eq_iff_index_eq)
    show "distinct micro_pin_to_channel" by code_simp
  qed (use that in \<open>simp_all add: micro_pin_to_channel_def\<close>)
  moreover have "(of_nat i :: u8) = of_nat j \<longleftrightarrow> i = j" if "i < 16" "j < 16"
    using that by (simp add: word_unat_eq_iff unat_of_nat)
  ultimately have "num i = num j \<longrightarrow> i = j"
    using assms by (auto simp: num_def uno_variant_def mega_variant_def micro_variant_def)
  with chan [OF assms(2)] chan [OF assms(3)] show ?thesis by (simp add: num_def Let_def)
qed

end
