(* ===== verification/BridgeRing.thy ===== *)
theory BridgeRing
  imports RingBuffer
begin

text \<open>
  The byte queue of the serial bridge (\<open>src/src/avr/uno/usbserial/Lib/LightweightRingBuff.h\<close>): that of
  the theory RingBuffer with 128 bytes. It offers the same interface; what is new here is what
  happens to a client that does not test for room.
\<close>

section \<open>The queue\<close>

abbreviation (input) BRIDGE_BUFFER_SIZE :: nat where "BRIDGE_BUFFER_SIZE \<equiv> 128"
abbreviation (input) BUFFER_NEARLY_FULL :: u8 where "BUFFER_NEARLY_FULL \<equiv> 96"

definition bridge_InitBuffer :: "RingBuff_t \<Rightarrow> RingBuff_t" where
  "bridge_InitBuffer s = s\<lparr>rb_In := 0, rb_Out := 0\<rparr>"

definition bridge_GetCount :: "RingBuff_t \<Rightarrow> u8" where
  "bridge_GetCount s = rb_Count s"

definition bridge_IsFull :: "RingBuff_t \<Rightarrow> bool" where
  "bridge_IsFull s \<longleftrightarrow> bridge_GetCount s = of_nat BRIDGE_BUFFER_SIZE"

definition bridge_IsEmpty :: "RingBuff_t \<Rightarrow> bool" where
  "bridge_IsEmpty s \<longleftrightarrow> bridge_GetCount s = 0"

definition bridge_next :: "nat \<Rightarrow> nat" where
  "bridge_next i = (if i + 1 = BRIDGE_BUFFER_SIZE then 0 else i + 1)"

definition bridge_Insert :: "u8 \<Rightarrow> RingBuff_t \<Rightarrow> RingBuff_t" where
  "bridge_Insert data s =
     s\<lparr>rb_Buffer := (rb_Buffer s)[rb_In s := data], rb_In := bridge_next (rb_In s), rb_Count := rb_Count s + 1\<rparr>"

definition bridge_Remove :: "RingBuff_t \<Rightarrow> u8 \<times> RingBuff_t" where
  "bridge_Remove s =
     (rb_Buffer s ! rb_Out s, s\<lparr>rb_Out := bridge_next (rb_Out s), rb_Count := rb_Count s - 1\<rparr>)"

section \<open>Refinement\<close>

text \<open>
  What the removals deliver. The count may exceed the size: the invariant asks only that the
  indices are in step with it, and \<open>bridge_inv\<close> that there was room.
\<close>

definition bridge_step_inv :: "RingBuff_t \<Rightarrow> bool" where
  "bridge_step_inv s \<longleftrightarrow> length (rb_Buffer s) = BRIDGE_BUFFER_SIZE \<and> rb_In s < BRIDGE_BUFFER_SIZE \<and>
     rb_Out s < BRIDGE_BUFFER_SIZE \<and> (rb_Out s + unat (rb_Count s)) mod BRIDGE_BUFFER_SIZE = rb_In s"

definition bridge_inv :: "RingBuff_t \<Rightarrow> bool" where
  "bridge_inv s \<longleftrightarrow> bridge_step_inv s \<and> unat (rb_Count s) \<le> BRIDGE_BUFFER_SIZE"

definition bridge_contents :: "RingBuff_t \<Rightarrow> u8 list" where
  "bridge_contents s = ring_read BRIDGE_BUFFER_SIZE (rb_Buffer s) (rb_Out s) (unat (rb_Count s))"

lemma bridge_next_mod: "i < 128 \<Longrightarrow> bridge_next i = (i + 1) mod 128"
  by (simp add: bridge_next_def)

lemma length_bridge_contents [simp]: "length (bridge_contents s) = unat (rb_Count s)"
  by (simp add: bridge_contents_def)

lemma bridge_insert_refines:
  assumes "bridge_inv s" "unat (rb_Count s) < 128"
  shows "bridge_inv (bridge_Insert x s)" "bridge_contents (bridge_Insert x s) = bridge_contents s @ [x]"
proof -
  have c: "unat (rb_Count s + 1) = unat (rb_Count s) + 1"
    using assms(2) by (simp add: unat_word_ariths)
  have s: "length (rb_Buffer s) = 128" "rb_In s < 128" "rb_Out s < 128"
    "rb_In s = (rb_Out s + unat (rb_Count s)) mod 128"
    using assms(1) by (simp_all add: bridge_inv_def bridge_step_inv_def)
  show "bridge_inv (bridge_Insert x s)"
    using s assms(2) by (simp add: bridge_inv_def bridge_step_inv_def bridge_Insert_def c bridge_next_mod mod_simps)
  show "bridge_contents (bridge_Insert x s) = bridge_contents s @ [x]"
    using ring_read_put [OF s(1,3) assms(2)] s(4) by (simp add: bridge_contents_def bridge_Insert_def c)
qed

lemma bridge_remove_refines:
  assumes "bridge_step_inv s" "bridge_contents s \<noteq> []"
  shows "bridge_step_inv (snd (bridge_Remove s))"
    "bridge_contents s = fst (bridge_Remove s) # bridge_contents (snd (bridge_Remove s))"
proof -
  have "0 < length (bridge_contents s)" using assms(2) by blast
  then obtain k where k: "unat (rb_Count s) = Suc k" by (auto dest: gr0_implies_Suc)
  then have c: "unat (rb_Count s - 1) = k"
    by (cases "rb_Count s = 0") (simp_all add: unat_minus_one)
  have s: "length (rb_Buffer s) = 128" "rb_In s < 128" "rb_Out s < 128" "(rb_Out s + Suc k) mod 128 = rb_In s"
    using assms(1) k by (simp_all add: bridge_step_inv_def)
  show "bridge_step_inv (snd (bridge_Remove s))"
    using s by (simp add: bridge_step_inv_def bridge_Remove_def c bridge_next_mod mod_simps)
  show "bridge_contents s = fst (bridge_Remove s) # bridge_contents (snd (bridge_Remove s))"
    using s by (simp add: bridge_contents_def bridge_Remove_def c k bridge_next_mod ring_read_take)
qed

interpretation bridge_rb: byte_queue bridge_Insert bridge_Remove bridge_IsFull bridge_IsEmpty bridge_contents
  bridge_inv BRIDGE_BUFFER_SIZE
proof unfold_locales
  fix s assume inv: "bridge_inv s"
  show "bridge_IsFull s \<longleftrightarrow> length (bridge_contents s) = BRIDGE_BUFFER_SIZE"
    by (simp add: bridge_IsFull_def bridge_GetCount_def word_unat_eq_iff)
  show "bridge_IsEmpty s \<longleftrightarrow> bridge_contents s = []"
    unfolding length_0_conv [symmetric]
    by (simp add: bridge_IsEmpty_def bridge_GetCount_def unsigned_eq_0_iff)
  show "length (bridge_contents s) \<le> BRIDGE_BUFFER_SIZE" using inv by (simp add: bridge_inv_def)
next
  fix s x assume "bridge_inv s" "length (bridge_contents s) < BRIDGE_BUFFER_SIZE"
  then show "bridge_inv (bridge_Insert x s)" "bridge_contents (bridge_Insert x s) = bridge_contents s @ [x]"
    by (simp_all add: bridge_insert_refines)
next
  fix s assume s: "bridge_inv s" "bridge_contents s \<noteq> []"
  then have "unat (rb_Count (snd (bridge_Remove s))) \<le> unat (rb_Count s)"
    using bridge_remove_refines(2) [of s] by (metis bridge_inv_def le_SucI le_refl length_Cons length_bridge_contents)
  with s bridge_remove_refines(1) [of s] show "bridge_inv (snd (bridge_Remove s))" by (simp add: bridge_inv_def)
  show "bridge_contents s = fst (bridge_Remove s) # bridge_contents (snd (bridge_Remove s))"
    using bridge_remove_refines(2) s by (simp add: bridge_inv_def)
qed

text \<open>
  An insertion into a full queue goes to the slot of the oldest byte: that byte is lost, and the new
  one is delivered twice, once in its place and once at the end.
\<close>

lemma overflow_overwrites:
  assumes "bridge_inv s" "bridge_IsFull s"
  shows "bridge_step_inv (bridge_Insert x s)"
    "bridge_contents (bridge_Insert x s) = x # tl (bridge_contents s) @ [x]"
proof -
  have c: "unat (rb_Count s) = 128" "unat (rb_Count s + 1) = 129"
    using assms(2) by (simp_all add: bridge_IsFull_def bridge_GetCount_def unat_word_ariths)
  have s: "length (rb_Buffer s) = 128" "rb_Out s < 128" "rb_In s = rb_Out s"
    using assms(1) c by (auto simp: bridge_inv_def bridge_step_inv_def)
  have "(rb_Out s + 129) mod 128 = Suc (rb_Out s) mod 128"
    using mod_add_self2 [of "Suc (rb_Out s)" 128] by (simp add: add.commute)
  then show "bridge_step_inv (bridge_Insert x s)"
    using s c by (simp add: bridge_step_inv_def bridge_Insert_def bridge_next_mod mod_simps)
  have "ring_read 128 ((rb_Buffer s)[rb_Out s := x]) (rb_Out s) 129 =
      x # tl (ring_read 128 (rb_Buffer s) (rb_Out s) 128) @ [x]"
    using ring_read_wrap [OF s(1,2), of x] by simp
  with s c show "bridge_contents (bridge_Insert x s) = x # tl (bridge_contents s) @ [x]"
    by (simp add: bridge_contents_def bridge_Insert_def)
qed

text \<open>After 256 bytes without a removal the count is 0 again, and nothing is delivered.\<close>

lemma count_wraps:
  "(bridge_Insert y ^^ 256) s = s' \<Longrightarrow> rb_Count s' = rb_Count s"
proof -
  have "rb_Count ((bridge_Insert y ^^ n) s) = rb_Count s + of_nat n" for n
    by (induction n) (simp_all add: bridge_Insert_def)
  then show "(bridge_Insert y ^^ 256) s = s' \<Longrightarrow> rb_Count s' = rb_Count s" by auto
qed

end
