(* ===== verification/SerialBridge.thy ===== *)
theory SerialBridge
  imports BridgeRing Micro UnoMain
begin

text \<open>
  The serial bridge: the firmware that the Uno's USB chip runs while the main chip is programmed
  (\<open>src/src/avr/uno/usbserial/Arduino-usbserial.c\<close>), with LUFA's class driver for a virtual serial
  port (\<open>LUFA/LUFA/Drivers/USB/Class/Device/CDC.c\<close> beside it). The UART is at \<open>UDR1\<close>.

  The main loop is divided into sections, and between two of them interrupts, the bus and the control
  requests, which are served by an interrupt here, come in any order. The state of the device, its
  banks of 64 bytes and the packets that the host has taken are the data sheet's endpoint with one bank.
\<close>

section \<open>State\<close>

record line_encoding =
  le_BaudRateBPS :: u32
  le_CharFormat :: u8
  le_ParityType :: u8
  le_DataBits :: u8

text \<open>The place in the main loop; \<open>Sending\<close> has the value of \<open>BufferCount\<close>.\<close>

datatype bridge_pc = AtReceive | AtFlushTest | Sending u8 | AtTransmit | AtTasks

record bridge =
  br_pc :: bridge_pc
  USBtoUSART_Buffer :: RingBuff_t
  USARTtoUSB_Buffer :: RingBuff_t
  br_line :: line_encoding
  br_host_lines :: u8
  br_configured :: bool
  br_out :: "u8 list option"
  br_in :: "u8 list"
  br_in_busy :: bool
  br_packets :: "u8 list list"
  UDR1 :: "u8 list"
  UBRR1 :: u16
  UCSR1A :: u8
  UCSR1B :: u8
  UCSR1C :: u8
  br_PORTD :: u8
  br_DDRD :: u8
  jmpToBootloader :: u32

text \<open>Ends of the program: a wait that goes on, the watchdog's reset, the jump, a division by zero.\<close>

datatype bridge_end = BridgeWaits | WatchdogReset bridge | JumpsToBootloader bridge | DividesByZero

abbreviation (input) JUMP :: u32 where "JUMP \<equiv> 0xDEAD8001"
abbreviation (input) CDC_TXRX_EPSIZE :: nat where "CDC_TXRX_EPSIZE \<equiv> 64"
abbreviation (input) AVR_RESET_LINE_MASK :: u8 where "AVR_RESET_LINE_MASK \<equiv> bv 7"
abbreviation (input) UPM11 :: nat where "UPM11 \<equiv> 5"
abbreviation (input) UPM10 :: nat where "UPM10 \<equiv> 4"
abbreviation (input) USBS1 :: nat where "USBS1 \<equiv> 3"
abbreviation (input) UCSZ11 :: nat where "UCSZ11 \<equiv> 2"
abbreviation (input) UCSZ10 :: nat where "UCSZ10 \<equiv> 1"
abbreviation (input) U2X1 :: nat where "U2X1 \<equiv> 1"
abbreviation (input) RXCIE1 :: nat where "RXCIE1 \<equiv> 7"
abbreviation (input) RXEN1 :: nat where "RXEN1 \<equiv> 4"
abbreviation (input) TXEN1 :: nat where "TXEN1 \<equiv> 3"

section \<open>The class driver\<close>

definition cdc_off :: "bridge \<Rightarrow> bool" where
  "cdc_off b \<longleftrightarrow> \<not> br_configured b \<or> le_BaudRateBPS (br_line b) = 0"

definition in_allowed :: "bridge \<Rightarrow> bool" where
  "in_allowed b \<longleftrightarrow> \<not> br_in_busy b \<and> length (br_in b) < CDC_TXRX_EPSIZE"

text \<open>The bank goes to the host if it is not with the host already.\<close>

definition cdc_clear_in :: "bridge \<Rightarrow> bridge" where
  "cdc_clear_in b =
     (if br_in_busy b then b else b\<lparr>br_packets := br_packets b @ [br_in b], br_in_busy := True\<rparr>)"

text \<open>The endpoint is ready again once the host has taken the bank.\<close>

definition host_takes :: "bridge \<Rightarrow> bridge" where
  "host_takes b = (if br_in_busy b then b\<lparr>br_in := [], br_in_busy := False\<rparr> else b)"

definition CDC_Device_SendByte :: "ep_poll list \<Rightarrow> u8 \<Rightarrow> bridge \<Rightarrow> bridge_end + bridge" where
  "CDC_Device_SendByte ps x b =
     (if cdc_off b then Inr b
      else if in_allowed b then Inr (b\<lparr>br_in := br_in b @ [x]\<rparr>)
      else let b1 = cdc_clear_in b
           in case Endpoint_WaitUntilReady USB_STREAM_TIMEOUT_MS ps of
                None \<Rightarrow> Inl BridgeWaits
              | Some (err, _) \<Rightarrow>
                  if err \<noteq> READYWAIT_NoError then Inr b1
                  else let b2 = host_takes b1 in Inr (b2\<lparr>br_in := br_in b2 @ [x]\<rparr>))"

definition CDC_Device_Flush :: "ep_poll list \<Rightarrow> bridge \<Rightarrow> bridge_end + bridge" where
  "CDC_Device_Flush ps b =
     (if cdc_off b \<or> br_in b = [] then Inr b
      else let BankFull = \<not> in_allowed b; b1 = cdc_clear_in b
           in if \<not> BankFull then Inr b1
              else case Endpoint_WaitUntilReady USB_STREAM_TIMEOUT_MS ps of
                     None \<Rightarrow> Inl BridgeWaits
                   | Some (err, _) \<Rightarrow>
                       if err \<noteq> READYWAIT_NoError then Inr b1 else Inr (cdc_clear_in (host_takes b1)))"

definition CDC_Device_USBTask :: "ep_poll list \<Rightarrow> bridge \<Rightarrow> bridge_end + bridge" where
  "CDC_Device_USBTask ps b = (if cdc_off b then Inr b else CDC_Device_Flush ps b)"

text \<open>None is the result -1.\<close>

definition CDC_Device_ReceiveByte :: "bridge \<Rightarrow> u8 option \<times> bridge" where
  "CDC_Device_ReceiveByte b =
     (if cdc_off b then (None, b)
      else case br_out b of
             None \<Rightarrow> (None, b)
           | Some [] \<Rightarrow> (None, b\<lparr>br_out := None\<rparr>)
           | Some (x # xs) \<Rightarrow> (Some x, b\<lparr>br_out := if xs = [] then None else Some xs\<rparr>))"

definition CDC_Device_ConfigureEndpoints :: "bridge \<Rightarrow> bridge" where
  "CDC_Device_ConfigureEndpoints b =
     b\<lparr>br_line := \<lparr>le_BaudRateBPS = 0, le_CharFormat = 0, le_ParityType = 0, le_DataBits = 0\<rparr>,
       br_host_lines := 0, br_out := None, br_in := [], br_in_busy := False\<rparr>"

section \<open>Line encoding and control lines\<close>

definition frame_mask :: "line_encoding \<Rightarrow> u8" where
  "frame_mask le =
     (let m = (if le_ParityType le = 1 then bv UPM11 OR bv UPM10 else if le_ParityType le = 2 then bv UPM11 else 0);
          m = (if le_CharFormat le = 2 then m OR bv USBS1 else m)
      in if le_DataBits le = 6 then m OR bv UCSZ10
         else if le_DataBits le = 7 then m OR bv UCSZ11
         else if le_DataBits le = 8 then m OR (bv UCSZ11 OR bv UCSZ10) else m)"

definition EVENT_CDC_Device_LineEncodingChanged :: "bridge \<Rightarrow> bridge_end + bridge" where
  "EVENT_CDC_Device_LineEncodingChanged b =
     (let baud = le_BaudRateBPS (br_line b)
      in if baud = 0 then Inl DividesByZero
         else Inr (b\<lparr>UBRR1 := if baud = 57600 then SERIAL_UBBRVAL baud else SERIAL_2X_UBBRVAL baud,
                     UCSR1A := if baud = 57600 then 0 else bv U2X1,
                     UCSR1B := bv RXCIE1 OR bv TXEN1 OR bv RXEN1, UCSR1C := frame_mask (br_line b)\<rparr>))"

definition EVENT_CDC_Device_ControLineStateChanged :: "bridge \<Rightarrow> bridge_end + bridge" where
  "EVENT_CDC_Device_ControLineStateChanged b =
     (if truthy (br_host_lines b AND bv 0)
      then Inr (b\<lparr>br_PORTD := br_PORTD b AND NOT AVR_RESET_LINE_MASK\<rparr>)
      else let b1 = b\<lparr>br_PORTD := br_PORTD b OR AVR_RESET_LINE_MASK\<rparr>
           in if le_BaudRateBPS (br_line b1) = 1200 then Inl (WatchdogReset (b1\<lparr>jmpToBootloader := JUMP\<rparr>))
              else Inr b1)"

abbreviation (input) REQ_SetLineEncoding :: u8 where "REQ_SetLineEncoding \<equiv> 0x20"
abbreviation (input) REQ_GetLineEncoding :: u8 where "REQ_GetLineEncoding \<equiv> 0x21"
abbreviation (input) REQ_SetControlLineState :: u8 where "REQ_SetControlLineState \<equiv> 0x22"

definition line_bytes :: "line_encoding \<Rightarrow> u8 list" where
  "line_bytes le = le32 (le_BaudRateBPS le) @ [le_CharFormat le, le_ParityType le, le_DataBits le]"

definition line_of_bytes :: "u8 list \<Rightarrow> line_encoding" where
  "line_of_bytes bs = \<lparr>le_BaudRateBPS = un_le32 bs, le_CharFormat = bs ! 4, le_ParityType = bs ! 5, le_DataBits = bs ! 6\<rparr>"

text \<open>\<open>data\<close> is the data stage of a request to the device; the result has that of one to the host.\<close>

definition CDC_Device_ProcessControlRequest ::
  "USB_Request \<Rightarrow> u8 list \<Rightarrow> bridge \<Rightarrow> bridge_end + (u8 list option \<times> bridge)" where
  "CDC_Device_ProcessControlRequest r data b =
     (let to_dev = bmRequestType r = REQTYPE_CLASS OR REQREC_INTERFACE
      in if wIndex r \<noteq> 0 then Inr (None, b)
         else if bRequest r = REQ_GetLineEncoding \<and>
                 bmRequestType r = REQDIR_DEVICETOHOST OR REQTYPE_CLASS OR REQREC_INTERFACE
         then Inr (Some (line_bytes (br_line b)), b)
         else if bRequest r = REQ_SetLineEncoding \<and> to_dev
         then map_sum id (Pair None) (EVENT_CDC_Device_LineEncodingChanged (b\<lparr>br_line := line_of_bytes data\<rparr>))
         else if bRequest r = REQ_SetControlLineState \<and> to_dev
         then map_sum id (Pair None) (EVENT_CDC_Device_ControLineStateChanged (b\<lparr>br_host_lines := ucast (wValue r)\<rparr>))
         else Inr (None, b))"

section \<open>The program\<close>

definition bridge_reset_state :: "u32 \<Rightarrow> bridge" where
  "bridge_reset_state jmp =
     (let ring = \<lparr>rb_Buffer = replicate BRIDGE_BUFFER_SIZE 0, rb_In = 0, rb_Out = 0, rb_Count = 0\<rparr>
      in \<lparr>br_pc = AtReceive, USBtoUSART_Buffer = ring, USARTtoUSB_Buffer = ring,
          br_line = \<lparr>le_BaudRateBPS = 0, le_CharFormat = 0, le_ParityType = 0, le_DataBits = 0\<rparr>, br_host_lines = 0,
          br_configured = False, br_out = None, br_in = [], br_in_busy = False, br_packets = [], UDR1 = [],
          UBRR1 = 0, UCSR1A = 0, UCSR1B = 0, UCSR1C = 0, br_PORTD = 0, br_DDRD = 0, jmpToBootloader = jmp\<rparr>)"

definition SetupHardware :: "bridge \<Rightarrow> bridge" where
  "SetupHardware b =
     b\<lparr>UBRR1 := SERIAL_UBBRVAL 9600, UCSR1C := bv UCSZ11 OR bv UCSZ10, UCSR1A := 0, UCSR1B := bv TXEN1 OR bv RXEN1,
       br_DDRD := br_DDRD b OR bv 3 OR AVR_RESET_LINE_MASK, br_PORTD := br_PORTD b OR bv 2 OR AVR_RESET_LINE_MASK\<rparr>"

text \<open>Up to the loop, after a reset that keeps the section \<open>.noinit\<close>.\<close>

definition bridge_main :: "bridge \<Rightarrow> bridge_end + bridge" where
  "bridge_main b =
     (if jmpToBootloader b = JUMP then Inl (JumpsToBootloader (b\<lparr>jmpToBootloader := 0\<rparr>))
      else let b = SetupHardware b
           in Inr (b\<lparr>br_pc := AtReceive, USBtoUSART_Buffer := bridge_InitBuffer (USBtoUSART_Buffer b),
                     USARTtoUSB_Buffer := bridge_InitBuffer (USARTtoUSB_Buffer b)\<rparr>))"

text \<open>One section of the loop; \<open>tov\<close> is the flag of the flush timer.\<close>

definition main_section :: "bool \<Rightarrow> ep_poll list \<Rightarrow> bridge \<Rightarrow> bridge_end + bridge" where
  "main_section tov ps b =
     (case br_pc b of
        AtReceive \<Rightarrow>
          if \<not> bridge_IsFull (USBtoUSART_Buffer b)
          then case CDC_Device_ReceiveByte b of
                 (None, b) \<Rightarrow> Inr (b\<lparr>br_pc := AtFlushTest\<rparr>)
               | (Some x, b) \<Rightarrow> Inr (b\<lparr>USBtoUSART_Buffer := bridge_Insert x (USBtoUSART_Buffer b), br_pc := AtFlushTest\<rparr>)
          else Inr (b\<lparr>br_pc := AtFlushTest\<rparr>)
      | AtFlushTest \<Rightarrow>
          let BufferCount = bridge_GetCount (USARTtoUSB_Buffer b)
          in Inr (b\<lparr>br_pc := if tov \<or> BUFFER_NEARLY_FULL < BufferCount then Sending BufferCount else AtTransmit\<rparr>)
      | Sending n \<Rightarrow>
          if n = 0 then Inr (b\<lparr>br_pc := AtTransmit\<rparr>)
          else (case bridge_Remove (USARTtoUSB_Buffer b) of
                  (x, q) \<Rightarrow> map_sum id (\<lambda>b. b\<lparr>br_pc := Sending (n - 1)\<rparr>)
                              (CDC_Device_SendByte ps x (b\<lparr>USARTtoUSB_Buffer := q\<rparr>)))
      | AtTransmit \<Rightarrow>
          if \<not> bridge_IsEmpty (USBtoUSART_Buffer b)
          then (case bridge_Remove (USBtoUSART_Buffer b) of
                  (x, q) \<Rightarrow> Inr (b\<lparr>USBtoUSART_Buffer := q, UDR1 := UDR1 b @ [x], br_pc := AtTasks\<rparr>))
          else Inr (b\<lparr>br_pc := AtTasks\<rparr>)
      | AtTasks \<Rightarrow> map_sum id (\<lambda>b. b\<lparr>br_pc := AtReceive\<rparr>) (CDC_Device_USBTask ps b))"

definition bridge_rx_interrupt :: "u8 \<Rightarrow> bridge \<Rightarrow> bridge" where
  "bridge_rx_interrupt x b =
     (if br_configured b then b\<lparr>USARTtoUSB_Buffer := bridge_Insert x (USARTtoUSB_Buffer b)\<rparr> else b)"

text \<open>A packet of the host is taken into the bank if that is free, and refused otherwise.\<close>

datatype bridge_event =
    MainSection bool "ep_poll list"
  | UartReceives u8
  | HostSends "u8 list"
  | HostReads
  | ControlRequest USB_Request "u8 list"
  | ConfigurationChanged bool

definition packet_accepted :: "u8 list \<Rightarrow> bridge \<Rightarrow> bool" where
  "packet_accepted bs b \<longleftrightarrow> br_out b = None \<and> length bs \<le> CDC_TXRX_EPSIZE"

definition bridge_event :: "bridge_event \<Rightarrow> bridge \<Rightarrow> bridge_end + bridge" where
  "bridge_event e b =
     (case e of
        MainSection tov ps \<Rightarrow> main_section tov ps b
      | UartReceives x \<Rightarrow> Inr (bridge_rx_interrupt x b)
      | HostSends bs \<Rightarrow> Inr (if packet_accepted bs b then b\<lparr>br_out := Some bs\<rparr> else b)
      | HostReads \<Rightarrow> Inr (host_takes b)
      | ControlRequest r data \<Rightarrow> map_sum id snd (CDC_Device_ProcessControlRequest r data b)
      | ConfigurationChanged c \<Rightarrow> Inr (CDC_Device_ConfigureEndpoints (b\<lparr>br_configured := c\<rparr>)))"

fun bridge_run :: "bridge_event list \<Rightarrow> bridge \<Rightarrow> bridge_end + bridge" where
  "bridge_run [] b = Inr b"
| "bridge_run (e # es) b = and_then (bridge_event e b) (bridge_run es)"

section \<open>From the host to the UART\<close>

definition out_bytes :: "bridge \<Rightarrow> u8 list" where
  "out_bytes b = (case br_out b of None \<Rightarrow> [] | Some bs \<Rightarrow> bs)"

definition host_gives :: "bridge_event \<Rightarrow> bridge \<Rightarrow> u8 list" where
  "host_gives e b = (case e of HostSends bs \<Rightarrow> if packet_accepted bs b then bs else [] | _ \<Rightarrow> [])"

definition uart_gives :: "bridge_event \<Rightarrow> bridge \<Rightarrow> u8 list" where
  "uart_gives e b = (case e of UartReceives x \<Rightarrow> if br_configured b then [x] else [] | _ \<Rightarrow> [])"

text \<open>What the events of a run bring in.\<close>

fun given :: "(bridge_event \<Rightarrow> bridge \<Rightarrow> u8 list) \<Rightarrow> bridge_event list \<Rightarrow> bridge \<Rightarrow> u8 list" where
  "given g [] b = []"
| "given g (e # es) b = g e b @ (case bridge_event e b of Inl _ \<Rightarrow> [] | Inr b' \<Rightarrow> given g es b')"

declare map_sum_Inr [simp]

lemma send_keeps:
  "CDC_Device_SendByte ps x b = Inr b' \<Longrightarrow> UDR1 b' = UDR1 b \<and> USBtoUSART_Buffer b' = USBtoUSART_Buffer b \<and>
   br_out b' = br_out b \<and> USARTtoUSB_Buffer b' = USARTtoUSB_Buffer b \<and> cdc_off b' = cdc_off b"
  by (auto simp: CDC_Device_SendByte_def Let_def cdc_clear_in_def host_takes_def cdc_off_def
      split: if_splits option.splits)

lemma task_keeps:
  "CDC_Device_USBTask ps b = Inr b' \<Longrightarrow> UDR1 b' = UDR1 b \<and> USBtoUSART_Buffer b' = USBtoUSART_Buffer b \<and>
   br_out b' = br_out b \<and> USARTtoUSB_Buffer b' = USARTtoUSB_Buffer b \<and> cdc_off b' = cdc_off b"
  by (auto simp: CDC_Device_USBTask_def CDC_Device_Flush_def Let_def cdc_clear_in_def host_takes_def cdc_off_def
      split: if_splits option.splits)

lemma control_keeps:
  "CDC_Device_ProcessControlRequest r data b = Inr (d, b') \<Longrightarrow> UDR1 b' = UDR1 b \<and>
   USBtoUSART_Buffer b' = USBtoUSART_Buffer b \<and> br_out b' = br_out b"
  by (auto simp: CDC_Device_ProcessControlRequest_def EVENT_CDC_Device_LineEncodingChanged_def
      EVENT_CDC_Device_ControLineStateChanged_def Let_def split: if_splits)

lemma receive_cases:
  "CDC_Device_ReceiveByte b = (r, b') \<Longrightarrow> UDR1 b' = UDR1 b \<and> USBtoUSART_Buffer b' = USBtoUSART_Buffer b \<and>
   USARTtoUSB_Buffer b' = USARTtoUSB_Buffer b \<and> cdc_off b' = cdc_off b \<and> br_packets b' = br_packets b \<and>
   br_in b' = br_in b \<and> br_in_busy b' = br_in_busy b \<and>
   out_bytes b = (case r of None \<Rightarrow> out_bytes b' | Some x \<Rightarrow> x # out_bytes b')"
  by (auto simp: CDC_Device_ReceiveByte_def out_bytes_def cdc_off_def split: option.splits list.splits if_splits)

lemma to_uart_step:
  assumes "bridge_inv (USBtoUSART_Buffer b)" "bridge_event e b = Inr b'" "\<nexists>c. e = ConfigurationChanged c"
  shows "bridge_inv (USBtoUSART_Buffer b') \<and>
    UDR1 b' @ bridge_contents (USBtoUSART_Buffer b') @ out_bytes b' =
    UDR1 b @ bridge_contents (USBtoUSART_Buffer b) @ out_bytes b @ host_gives e b"
proof (cases e)
  case (MainSection tov ps)
  show ?thesis
  proof (cases "br_pc b")
    case AtReceive
    show ?thesis
    proof (cases "bridge_IsFull (USBtoUSART_Buffer b)")
      case False
      obtain r b1 where rb: "CDC_Device_ReceiveByte b = (r, b1)" by (cases "CDC_Device_ReceiveByte b")
      from False have room: "length (bridge_contents (USBtoUSART_Buffer b)) < 128"
        using bridge_rb.full_iff [OF assms(1)] bridge_rb.bounded [OF assms(1)] by simp
      from receive_cases [OF rb] bridge_rb.ins_inv [OF assms(1) room] bridge_rb.ins_contents [OF assms(1) room]
        assms MainSection AtReceive False rb
      show ?thesis
        by (auto simp: bridge_event_def main_section_def host_gives_def out_bytes_def split: option.splits)
    qed (use assms MainSection AtReceive in
        \<open>auto simp: bridge_event_def main_section_def host_gives_def out_bytes_def\<close>)
  next
    case (Sending n)
    with assms MainSection show ?thesis
      by (auto simp: bridge_event_def main_section_def host_gives_def out_bytes_def
          split: if_splits prod.splits dest!: send_keeps)
  next
    case AtTransmit
    show ?thesis
    proof (cases "bridge_IsEmpty (USBtoUSART_Buffer b)")
      case False
      then have data: "bridge_contents (USBtoUSART_Buffer b) \<noteq> []"
        using bridge_rb.empty_iff [OF assms(1)] by simp
      from bridge_rb.rem_inv [OF assms(1) data] bridge_rb.rem_contents [OF assms(1) data] assms MainSection AtTransmit False
      show ?thesis
        by (auto simp: bridge_event_def main_section_def host_gives_def out_bytes_def split: prod.splits)
    qed (use assms MainSection AtTransmit in
        \<open>auto simp: bridge_event_def main_section_def host_gives_def out_bytes_def\<close>)
  next
    case AtTasks
    with assms MainSection show ?thesis
      by (cases "CDC_Device_USBTask ps b")
        (auto simp: bridge_event_def main_section_def host_gives_def out_bytes_def dest!: task_keeps)
  qed (use assms MainSection in
      \<open>auto simp: bridge_event_def main_section_def host_gives_def out_bytes_def Let_def\<close>)
next
  case (ControlRequest r data)
  with assms show ?thesis
    by (cases "CDC_Device_ProcessControlRequest r data b")
      (auto simp: bridge_event_def host_gives_def out_bytes_def dest!: control_keeps)
next
  case (HostSends bs)
  with assms show ?thesis by (auto simp: bridge_event_def host_gives_def out_bytes_def packet_accepted_def)
qed (use assms in \<open>auto simp: bridge_event_def host_gives_def out_bytes_def bridge_rx_interrupt_def host_takes_def\<close>)

text \<open>
  In whatever order interrupts, packets, requests and the sections of the loop come, the UART sends the
  host's bytes in their order, without loss or repetition: what was sent, then what is queued, then
  the rest of the packet in the bank.
\<close>

theorem bridge_to_uart_in_order:
  assumes "bridge_inv (USBtoUSART_Buffer b)" and "bridge_run es b = Inr b'"
    and "\<forall>e\<in>set es. \<nexists>c. e = ConfigurationChanged c"
  shows "bridge_inv (USBtoUSART_Buffer b') \<and>
    UDR1 b' @ bridge_contents (USBtoUSART_Buffer b') @ out_bytes b' =
    UDR1 b @ bridge_contents (USBtoUSART_Buffer b) @ out_bytes b @ given host_gives es b"
  using assms
proof (induction es arbitrary: b)
  case (Cons e es)
  obtain b1 where b1: "bridge_event e b = Inr b1" "bridge_run es b1 = Inr b'"
    using Cons.prems(2) by (cases "bridge_event e b") (auto simp: and_then_def)
  from to_uart_step [OF Cons.prems(1) b1(1)] Cons.prems(3) Cons.IH [of b1] b1 show ?case by auto
qed simp

section \<open>From the UART to the host\<close>

text \<open>The bytes that have left the queue: packets handed over, then the bank that is still filled.\<close>

definition to_host :: "bridge \<Rightarrow> u8 list" where
  "to_host b = concat (br_packets b) @ (if br_in_busy b then [] else br_in b)"

definition wait_succeeds :: "ep_poll list \<Rightarrow> bool" where
  "wait_succeeds ps \<longleftrightarrow>
     (case Endpoint_WaitUntilReady USB_STREAM_TIMEOUT_MS ps of None \<Rightarrow> False | Some (err, _) \<Rightarrow> err = READYWAIT_NoError)"

text \<open>
  A run in which the port stays open, the host takes the packets in time, and at most sixteen bytes
  arrive from one test of the flush timer to the next; \<open>k\<close> is the number of those that have arrived.
\<close>

fun paced :: "nat \<Rightarrow> bridge_event list \<Rightarrow> bridge \<Rightarrow> bool" where
  "paced k [] b = True"
| "paced k (e # es) b =
     ((case e of MainSection tov ps \<Rightarrow> wait_succeeds ps | UartReceives x \<Rightarrow> k < 16
        | ControlRequest r d \<Rightarrow> False | ConfigurationChanged c \<Rightarrow> False | _ \<Rightarrow> True) \<and>
      (case bridge_event e b of
         Inl _ \<Rightarrow> True
       | Inr b' \<Rightarrow> paced (case e of UartReceives x \<Rightarrow> Suc k
           | MainSection tov ps \<Rightarrow> if br_pc b = AtFlushTest then 0 else k | _ \<Rightarrow> k) es b'))"

definition queue_bound :: "nat \<Rightarrow> bridge \<Rightarrow> bool" where
  "queue_bound k b \<longleftrightarrow> bridge_inv (USARTtoUSB_Buffer b) \<and> \<not> cdc_off b \<and> k \<le> 16 \<and>
     (let c = unat (rb_Count (USARTtoUSB_Buffer b))
      in case br_pc b of Sending n \<Rightarrow> unat n \<le> c \<and> c \<le> unat n + k \<and> unat n \<le> 112 | _ \<Rightarrow> c \<le> 96 + k)"

lemma to_host_simps [simp]:
  "to_host (b\<lparr>br_pc := pc\<rparr>) = to_host b" "to_host (b\<lparr>USARTtoUSB_Buffer := q\<rparr>) = to_host b"
  "to_host (b\<lparr>USBtoUSART_Buffer := q\<rparr>) = to_host b" "to_host (b\<lparr>br_out := r\<rparr>) = to_host b"
  "to_host (b\<lparr>UDR1 := u\<rparr>) = to_host b" "to_host (cdc_clear_in b) = to_host b" "to_host (host_takes b) = to_host b"
  by (simp_all add: to_host_def cdc_clear_in_def host_takes_def)

lemma cdc_off_simps [simp]:
  "cdc_off (b\<lparr>br_pc := pc\<rparr>) = cdc_off b" "cdc_off (b\<lparr>USARTtoUSB_Buffer := q\<rparr>) = cdc_off b"
  "cdc_off (b\<lparr>USBtoUSART_Buffer := q\<rparr>) = cdc_off b" "cdc_off (b\<lparr>br_out := r\<rparr>) = cdc_off b"
  "cdc_off (b\<lparr>UDR1 := u\<rparr>) = cdc_off b" "cdc_off (host_takes b) = cdc_off b"
  by (simp_all add: cdc_off_def host_takes_def)

lemma send_byte_sent:
  assumes "CDC_Device_SendByte ps x b = Inr b'" "wait_succeeds ps" "\<not> cdc_off b"
  shows "to_host b' = to_host b @ [x]"
proof (cases "in_allowed b")
  case True
  with assms show ?thesis by (auto simp: CDC_Device_SendByte_def in_allowed_def to_host_def)
next
  case False
  then have "b' = (host_takes (cdc_clear_in b))\<lparr>br_in := br_in (host_takes (cdc_clear_in b)) @ [x]\<rparr>"
    using assms by (auto simp: CDC_Device_SendByte_def wait_succeeds_def Let_def split: option.splits)
  moreover have "br_in (host_takes (cdc_clear_in b)) = []" "\<not> br_in_busy (host_takes (cdc_clear_in b))"
    by (simp_all add: host_takes_def cdc_clear_in_def)
  moreover have "concat (br_packets (host_takes (cdc_clear_in b))) = to_host b"
    by (simp add: host_takes_def cdc_clear_in_def to_host_def)
  ultimately show ?thesis by (simp add: to_host_def)
qed

lemma task_sent: "CDC_Device_USBTask ps b = Inr b' \<Longrightarrow> to_host b' = to_host b"
  by (auto simp: CDC_Device_USBTask_def CDC_Device_Flush_def Let_def split: if_splits option.splits)

lemma paced_goes_on:
  assumes "paced k (e # es) b" shows "\<exists>b'. bridge_event e b = Inr b'"
proof (cases e)
  case (MainSection tov ps)
  then obtain r where "Endpoint_WaitUntilReady USB_STREAM_TIMEOUT_MS ps = Some r"
    using assms by (auto simp: wait_succeeds_def split: option.splits)
  then have send: "\<exists>b'. CDC_Device_SendByte ps x b = Inr b'" and task: "\<exists>b'. CDC_Device_USBTask ps b = Inr b'" for x b
    by (auto simp: CDC_Device_SendByte_def CDC_Device_USBTask_def CDC_Device_Flush_def Let_def split: prod.splits)
  show ?thesis
  proof (cases "br_pc b")
    case (Sending n)
    obtain x q where "bridge_Remove (USARTtoUSB_Buffer b) = (x, q)" by (cases "bridge_Remove (USARTtoUSB_Buffer b)")
    with send [of x "b\<lparr>USARTtoUSB_Buffer := q\<rparr>"] MainSection Sending show ?thesis
      by (auto simp: bridge_event_def main_section_def)
  next
    case AtTasks
    with task [of b] MainSection show ?thesis by (auto simp: bridge_event_def main_section_def)
  qed (auto simp: bridge_event_def main_section_def MainSection Let_def split: prod.splits option.splits)
qed (use assms in \<open>simp_all add: bridge_event_def\<close>)

lemma to_host_step:
  assumes "queue_bound k b" "bridge_event e b = Inr b'" "paced k (e # es) b"
  shows "\<exists>k'. paced k' es b' \<and> queue_bound k' b' \<and>
    to_host b' @ bridge_contents (USARTtoUSB_Buffer b') =
    to_host b @ bridge_contents (USARTtoUSB_Buffer b) @ uart_gives e b"
proof (cases e)
  case (MainSection tov ps)
  note ev = MainSection assms(2) [unfolded MainSection]
  have inv: "bridge_inv (USARTtoUSB_Buffer b)" "\<not> cdc_off b" using assms(1) by (simp_all add: queue_bound_def)
  show ?thesis
  proof (cases "br_pc b")
    case AtReceive
    obtain r b1 where rb: "CDC_Device_ReceiveByte b = (r, b1)" by (cases "CDC_Device_ReceiveByte b")
    from receive_cases [OF rb] have "to_host b1 = to_host b" by (simp add: to_host_def)
    with receive_cases [OF rb] assms ev AtReceive rb show ?thesis
      by (intro exI [of _ k])
        (auto simp: bridge_event_def main_section_def queue_bound_def uart_gives_def split: if_splits option.splits)
  next
    case AtFlushTest
    let ?c = "rb_Count (USARTtoUSB_Buffer b)"
    have c: "unat ?c \<le> 112" using assms(1) AtFlushTest by (simp add: queue_bound_def Let_def)
    have "queue_bound 0 b'"
      using ev AtFlushTest inv c
      by (auto simp: bridge_event_def main_section_def queue_bound_def bridge_GetCount_def Let_def word_less_nat_alt)
    then show ?thesis
      using ev AtFlushTest assms(3)
      by (intro exI [of _ 0]) (auto simp: bridge_event_def main_section_def uart_gives_def Let_def)
  next
    case (Sending n)
    show ?thesis
    proof (cases "n = 0")
      case True
      with Sending ev assms show ?thesis
        by (intro exI [of _ k]) (auto simp: bridge_event_def main_section_def queue_bound_def uart_gives_def Let_def)
    next
      case False
      obtain x q where xq: "bridge_Remove (USARTtoUSB_Buffer b) = (x, q)" by (cases "bridge_Remove (USARTtoUSB_Buffer b)")
      have n: "unat (n - 1) = unat n - 1" "0 < unat n"
        using False by (simp_all add: unat_minus_one unat_gt_0)
      have "bridge_contents (USARTtoUSB_Buffer b) \<noteq> []"
        unfolding length_0_conv [symmetric] using assms(1) Sending n by (simp add: queue_bound_def Let_def)
      note rem = bridge_rb.rem_inv [OF inv(1) this] bridge_rb.rem_contents [OF inv(1) this]
      have "unat (rb_Count (USARTtoUSB_Buffer b)) = Suc (unat (rb_Count q))"
        using arg_cong [OF rem(2), of length] xq by simp
      moreover obtain b1 where b1: "CDC_Device_SendByte ps x (b\<lparr>USARTtoUSB_Buffer := q\<rparr>) = Inr b1"
        "b' = b1\<lparr>br_pc := Sending (n - 1)\<rparr>"
        using ev Sending False xq by (auto simp: bridge_event_def main_section_def)
      moreover have "to_host b1 = to_host b @ [x]"
        using send_byte_sent [OF b1(1)] assms(3) MainSection inv(2) by simp
      ultimately show ?thesis
        using send_keeps [OF b1(1)] rem xq n Sending assms(1,2,3) ev
        by (intro exI [of _ k]) (auto simp: queue_bound_def uart_gives_def Let_def)
    qed
  next
    case AtTransmit
    with assms ev show ?thesis
      by (intro exI [of _ k])
        (auto simp: bridge_event_def main_section_def queue_bound_def uart_gives_def split: if_splits prod.splits)
  next
    case AtTasks
    then obtain b1 where b1: "CDC_Device_USBTask ps b = Inr b1" "b' = b1\<lparr>br_pc := AtReceive\<rparr>"
      using ev by (auto simp: bridge_event_def main_section_def)
    with task_keeps [OF b1(1)] task_sent [OF b1(1)] assms ev AtTasks show ?thesis
      by (intro exI [of _ k]) (auto simp: queue_bound_def uart_gives_def)
  qed
next
  case (UartReceives x)
  then have b': "b' = bridge_rx_interrupt x b" "k < 16" using assms by (simp_all add: bridge_event_def)
  have inv: "bridge_inv (USARTtoUSB_Buffer b)" "br_configured b"
    using assms(1) by (simp_all add: queue_bound_def cdc_off_def)
  have room: "unat (rb_Count (USARTtoUSB_Buffer b)) < 128"
    using assms(1) b'(2) by (auto simp: queue_bound_def Let_def split: bridge_pc.splits)
  then have up: "unat (rb_Count (USARTtoUSB_Buffer b) + 1) = Suc (unat (rb_Count (USARTtoUSB_Buffer b)))"
    by (simp add: unat_word_ariths)
  have "rb_Count (bridge_Insert x (USARTtoUSB_Buffer b)) = rb_Count (USARTtoUSB_Buffer b) + 1"
    by (simp add: bridge_Insert_def)
  then have "queue_bound (Suc k) b'"
    using assms(1) b' inv bridge_insert_refines(1) [OF inv(1) room] up
    by (auto simp: bridge_rx_interrupt_def queue_bound_def Let_def split: bridge_pc.splits)
  with UartReceives b' inv bridge_insert_refines(2) [OF inv(1) room] assms(2,3) show ?thesis
    by (intro exI [of _ "Suc k"]) (auto simp: bridge_rx_interrupt_def uart_gives_def)
next
  case (HostSends bs)
  with assms show ?thesis
    by (intro exI [of _ k]) (auto simp: bridge_event_def queue_bound_def uart_gives_def split: if_splits)
next
  case HostReads
  moreover have "USARTtoUSB_Buffer (host_takes b) = USARTtoUSB_Buffer b" "br_pc (host_takes b) = br_pc b"
    by (simp_all add: host_takes_def)
  ultimately show ?thesis
    using assms by (intro exI [of _ k]) (auto simp: bridge_event_def queue_bound_def uart_gives_def)
qed (use assms in simp_all)

text \<open>
  C21: while the port is open, the host takes its packets in time, and at most sixteen bytes arrive in a
  turn of the loop, whatever the order of interrupts and sections: the loop goes on, the queue never overflows, and the host
  receives every byte of the UART in its order, in packets, the bank that is being filled, and the queue.
\<close>

theorem bridge_to_host_in_order:
  assumes "queue_bound k b" and "paced k es b"
  shows "\<exists>b'. bridge_run es b = Inr b' \<and> bridge_inv (USARTtoUSB_Buffer b') \<and>
    to_host b' @ bridge_contents (USARTtoUSB_Buffer b') =
    to_host b @ bridge_contents (USARTtoUSB_Buffer b) @ given uart_gives es b"
  using assms
proof (induction es arbitrary: b k)
  case Nil
  then show ?case by (simp add: queue_bound_def)
next
  case (Cons e es)
  from paced_goes_on [OF Cons.prems(2)] obtain b1 where b1: "bridge_event e b = Inr b1" by blast
  from to_host_step [OF Cons.prems(1) b1 Cons.prems(2)] obtain k'
    where k': "paced k' es b1" "queue_bound k' b1"
      "to_host b1 @ bridge_contents (USARTtoUSB_Buffer b1) =
       to_host b @ bridge_contents (USARTtoUSB_Buffer b) @ uart_gives e b"
    by blast
  from Cons.IH [OF k'(2,1)] k'(3) b1 show ?case by auto
qed

text \<open>An open port at 9600 bits per second, and a turn of the loop in which two bytes arrive.\<close>

definition open_port :: bridge where
  "open_port = (bridge_reset_state 0)\<lparr>br_configured := True,
     br_line := \<lparr>le_BaudRateBPS = 9600, le_CharFormat = 0, le_ParityType = 0, le_DataBits = 8\<rparr>\<rparr>"

definition short_turn :: "bridge_event list" where
  "short_turn = [MainSection False [EpReady], UartReceives 0x41, UartReceives 0x42] @ replicate 6 (MainSection True [EpReady]) @
     [HostReads]"

theorem bridge_to_host_witness:
  "\<exists>b'. bridge_run short_turn open_port = Inr b' \<and>
     to_host b' @ bridge_contents (USARTtoUSB_Buffer b') = [0x41, 0x42]"
proof -
  have "queue_bound 0 open_port"
    by (simp add: queue_bound_def bridge_inv_def bridge_step_inv_def open_port_def bridge_reset_state_def cdc_off_def Let_def)
  moreover have "paced 0 short_turn open_port" by code_simp
  moreover have "given uart_gives short_turn open_port = [0x41, 0x42]" by code_simp
  moreover have "to_host open_port = []" "bridge_contents (USARTtoUSB_Buffer open_port) = []"
    by (simp_all add: to_host_def open_port_def bridge_reset_state_def bridge_contents_def ring_read_def Let_def)
  ultimately show ?thesis using bridge_to_host_in_order [of 0 open_port short_turn] by auto
qed

section \<open>Overflow\<close>

text \<open>
  The interrupt does not test for room. The byte after a full queue destroys the oldest one, and the
  removals deliver it twice.
\<close>

lemma interrupt_overflows:
  assumes "bridge_inv (USARTtoUSB_Buffer b)" "bridge_IsFull (USARTtoUSB_Buffer b)" "br_configured b"
  shows "bridge_contents (USARTtoUSB_Buffer (bridge_rx_interrupt x b)) =
    x # tl (bridge_contents (USARTtoUSB_Buffer b)) @ [x]"
  using overflow_overwrites(2) [OF assms(1,2)] assms(3) by (simp add: bridge_rx_interrupt_def)

section \<open>Line encoding\<close>

lemma line_of_line_bytes [simp]: "line_of_bytes (line_bytes le) = le"
  by (simp add: line_of_bytes_def line_bytes_def nth_append)

text \<open>What the data sheet of the 16U2 says that the UART does with its registers.\<close>

definition uart_data_bits :: "bridge \<Rightarrow> nat" where
  "uart_data_bits b = 5 + (if bit (UCSR1C b) UCSZ10 then 1 else 0) + (if bit (UCSR1C b) UCSZ11 then 2 else 0)"

definition uart_stop_bits :: "bridge \<Rightarrow> nat" where
  "uart_stop_bits b = (if bit (UCSR1C b) USBS1 then 2 else 1)"

definition uart_parity :: "bridge \<Rightarrow> u8" where
  "uart_parity b = (if bit (UCSR1C b) UPM11 then if bit (UCSR1C b) UPM10 then 1 else 2 else 0)"

definition uart_divisor :: "bridge \<Rightarrow> nat" where
  "uart_divisor b = (if bit (UCSR1A b) U2X1 then 8 else 16) * (unat (UBRR1 b) + 1)"

text \<open>The quotient of the macros is the nearest integer.\<close>

lemma nearest_quotient:
  assumes "0 < b" "b \<le> (2 * f :: nat)"
  shows "2 * f \<le> b * (2 * ((f + b div 2) div b) + 1)" "b * (2 * ((f + b div 2) div b)) \<le> 2 * f + b"
    "0 < (f + b div 2) div b"
proof -
  let ?q = "(f + b div 2) div b"
  have q: "b * ?q \<le> f + b div 2" "f + b div 2 < b * (?q + 1)"
    using assms(1) by (simp_all add: dividend_less_times_div)
  show "b * (2 * ?q) \<le> 2 * f + b" using q(1) by linarith
  have "2 * f < 2 * (b * (?q + 1)) - 2 * (b div 2)" using q(2) by linarith
  then show "2 * f \<le> b * (2 * ?q + 1)" by (simp add: algebra_simps)
  have "b \<le> f + b div 2" using assms(2) by linarith
  then show "0 < ?q" using assms(1) by (simp add: div_greater_zero_iff)
qed

lemma baud_register:
  fixes b f :: u32
  assumes "489 \<le> unat b" "unat b \<le> 2 * unat f" "unat f \<le> 2000000"
  shows "unat (ucast ((f + b div 2) div b - 1) :: u16) + 1 = (unat f + unat b div 2) div unat b"
    "(unat f + unat b div 2) div unat b \<le> 4096"
proof -
  let ?q = "(unat f + unat b div 2) div unat b"
  have q: "0 < ?q" using nearest_quotient(3) [of "unat b" "unat f"] assms by linarith
  have "(unat f + unat b div 2) < 4097 * unat b" using assms by linarith
  then have "?q < 4097" using assms(1) by (subst div_less_iff_less_mult) simp_all
  then show small: "?q \<le> 4096" by simp
  have sum: "unat (f + b div 2) = unat f + unat b div 2"
    using assms by (simp add: unat_word_ariths unat_div)
  have quot: "unat ((f + b div 2) div b) = ?q" by (simp add: unat_div sum)
  then have "(f + b div 2) div b \<noteq> 0" using q by (metis unat_0 less_irrefl)
  then have "unat ((f + b div 2) div b - 1) = ?q - 1" by (simp add: unat_minus_one quot)
  then have "unat (ucast ((f + b div 2) div b - 1) :: u16) = ?q - 1"
    using small by (simp add: unsigned_ucast_eq unsigned_take_bit_eq take_bit_nat_eq_self)
  with q show "unat (ucast ((f + b div 2) div b - 1) :: u16) + 1 = ?q" by simp
qed

lemma frame_of_mask:
  assumes "UCSR1C b = frame_mask le"
  shows "uart_data_bits b = (if le_DataBits le \<in> {6, 7, 8} then unat (le_DataBits le) else 5)"
    "uart_stop_bits b = (if le_CharFormat le = 2 then 2 else 1)"
    "uart_parity b = (if le_ParityType le \<in> {1, 2} then le_ParityType le else 0)"
proof -
  have bv: "bit (bv k :: u8) n \<longleftrightarrow> k = n \<and> n < 8" for k n by (auto simp: bv_def bit_simps)
  show "uart_data_bits b = (if le_DataBits le \<in> {6, 7, 8} then unat (le_DataBits le) else 5)"
    by (simp add: uart_data_bits_def assms frame_mask_def Let_def bv bit_or_iff)
  show "uart_stop_bits b = (if le_CharFormat le = 2 then 2 else 1)"
    by (simp add: uart_stop_bits_def assms frame_mask_def Let_def bv bit_or_iff)
  show "uart_parity b = (if le_ParityType le \<in> {1, 2} then le_ParityType le else 0)"
    by (simp add: uart_parity_def assms frame_mask_def Let_def bv bit_or_iff)
qed

text \<open>
  A line encoding that the host sets is answered back as it was sent, and for a rate of 489 to 2000000
  bits per second the UART's divisor fits its twelve bits and is the nearest that its mode has;
  the frame has the data bits, stop bits and parity asked for where the chip has them (six to eight, one or two,
  odd or even), and five, one and none in place of any other.
\<close>

theorem line_encoding_programmed:
  fixes b :: bridge and r :: USB_Request
  assumes "wIndex r = 0" "bRequest r = REQ_SetLineEncoding" "bmRequestType r = REQTYPE_CLASS OR REQREC_INTERFACE"
    and "489 \<le> unat (le_BaudRateBPS le)" "unat (le_BaudRateBPS le) \<le> 2000000"
  shows "\<exists>b'. CDC_Device_ProcessControlRequest r (line_bytes le) b = Inr (None, b') \<and> br_line b' = le \<and>
    uart_data_bits b' = (if le_DataBits le \<in> {6, 7, 8} then unat (le_DataBits le) else 5) \<and>
    uart_stop_bits b' = (if le_CharFormat le = 2 then 2 else 1) \<and>
    uart_parity b' = (if le_ParityType le \<in> {1, 2} then le_ParityType le else 0) \<and>
    unat (UBRR1 b') < 4096 \<and>
    (let rate = unat (le_BaudRateBPS le); step = (if rate = 57600 then 16 else 8)
     in 2 * 16000000 \<le> rate * (2 * uart_divisor b' + step) \<and> rate * (2 * uart_divisor b') \<le> 2 * 16000000 + rate * step)"
proof -
  let ?rate = "le_BaudRateBPS le"
  have nz: "?rate \<noteq> 0" using assms(4) by auto
  define b' where "b' = b\<lparr>br_line := le,
    UBRR1 := if ?rate = 57600 then SERIAL_UBBRVAL ?rate else SERIAL_2X_UBBRVAL ?rate,
    UCSR1A := if ?rate = 57600 then 0 else bv U2X1, UCSR1B := bv RXCIE1 OR bv TXEN1 OR bv RXEN1,
    UCSR1C := frame_mask le\<rparr>"
  have run: "CDC_Device_ProcessControlRequest r (line_bytes le) b = Inr (None, b')"
    using assms(1-3) nz
    by (simp add: CDC_Device_ProcessControlRequest_def EVENT_CDC_Device_LineEncodingChanged_def Let_def b'_def)
  have c: "UCSR1C b' = frame_mask le" "br_line b' = le" by (simp_all add: b'_def)
  show ?thesis
  proof (cases "?rate = 57600")
    case True
    then have "unat (UBRR1 b') = 16" "uart_divisor b' = 272"
      by (simp_all add: b'_def SERIAL_UBBRVAL_def F_CPU_def uart_divisor_def)
    with run frame_of_mask [OF c(1)] c(2) True show ?thesis by simp
  next
    case False
    have b2: "bit (bv U2X1 :: u8) U2X1" by (simp add: bv_def bit_simps)
    let ?q = "(2000000 + unat ?rate div 2) div unat ?rate"
    have q: "unat (UBRR1 b') + 1 = ?q" "?q \<le> 4096"
      using baud_register [of ?rate 2000000] assms(4,5) False by (simp_all add: b'_def SERIAL_2X_UBBRVAL_def F_CPU_def)
    then have d: "uart_divisor b' = 8 * ?q"
      using False b2 by (simp add: uart_divisor_def) (simp add: b'_def b2)
    have n: "2 * 2000000 \<le> unat ?rate * (2 * ?q + 1)" "unat ?rate * (2 * ?q) \<le> 2 * 2000000 + unat ?rate"
      using nearest_quotient [of "unat ?rate" 2000000] assms(4,5) by simp_all
    have "2 * 16000000 \<le> unat ?rate * (2 * (8 * ?q) + 8)" "unat ?rate * (2 * (8 * ?q)) \<le> 2 * 16000000 + unat ?rate * 8"
      using n by (simp_all add: algebra_simps)
    moreover have "unat ?rate \<noteq> 57600" using False by (simp add: word_unat_eq_iff)
    ultimately show ?thesis
      using run frame_of_mask [OF c(1)] c(2) q d by (intro exI [of _ b']) (simp add: Let_def)
  qed
qed

section \<open>The way to the boot loader\<close>

lemma dtr_bit: "truthy ((ucast w :: u8) AND bv 0) \<longleftrightarrow> bit (w :: u16) 0"
  using bit_check_nonzero [of "ucast w :: u8" 0] by (simp add: bit_check_m_def bit_simps)

text \<open>
  A port that is closed at 1200 bits per second ends in the watchdog's reset; the start after it jumps to
  the boot loader, and the one after that runs the bridge again, with the main chip out of reset.
\<close>

theorem touch_enters_bootloader:
  assumes "wIndex r = 0" "bRequest r = REQ_SetControlLineState" "bmRequestType r = REQTYPE_CLASS OR REQREC_INTERFACE"
    and "\<not> bit (wValue r) 0" and "le_BaudRateBPS (br_line b) = 1200"
  shows "\<exists>b1 b2 b3. CDC_Device_ProcessControlRequest r data b = Inl (WatchdogReset b1) \<and>
    bridge_main (bridge_reset_state (jmpToBootloader b1)) = Inl (JumpsToBootloader b2) \<and>
    bridge_main (bridge_reset_state (jmpToBootloader b2)) = Inr b3 \<and> bit (br_PORTD b3) 7 \<and> bit (br_DDRD b3) 7"
proof -
  have "(ucast (wValue r) :: u8) AND bv 0 = 0"
    using assms(4) dtr_bit [of "wValue r"] by simp
  then show ?thesis
    using assms
    by (simp add: CDC_Device_ProcessControlRequest_def EVENT_CDC_Device_ControLineStateChanged_def Let_def
        bridge_main_def bridge_reset_state_def SetupHardware_def bv_def bit_simps)
qed

text \<open>A host that opens the port holds the main chip in reset, and closing it lets it go.\<close>

lemma reset_line_follows:
  assumes "wIndex r = 0" "bRequest r = REQ_SetControlLineState" "bmRequestType r = REQTYPE_CLASS OR REQREC_INTERFACE"
    and "le_BaudRateBPS (br_line b) \<noteq> 1200"
  shows "\<exists>b'. CDC_Device_ProcessControlRequest r data b = Inr (None, b') \<and> bit (br_PORTD b') 7 = (\<not> bit (wValue r) 0)"
proof -
  show ?thesis
    using assms dtr_bit [of "wValue r"]
    by (auto simp: CDC_Device_ProcessControlRequest_def EVENT_CDC_Device_ControLineStateChanged_def Let_def bv_def
        bit_simps)
qed

end
