(* ===== verification/CdcDescriptors.thy ===== *)
theory CdcDescriptors
  imports SerialBridge
begin

text \<open>
  The descriptors of the two virtual serial ports: the serial bridge's
  (\<open>src/src/avr/uno/usbserial/Descriptors.c\<close>) and the one-chip radio transmitter's
  (\<open>src/src/avr/micro/rf/Descriptors.c\<close>), as the bytes that the host reads, and the endpoints that LUFA's class driver
  configures for them. \<open>pid\<close> is the product number, which the builds set.
\<close>

section \<open>The descriptors\<close>

definition cdc_device_descriptor :: "u16 \<Rightarrow> u16 \<Rightarrow> u16 \<Rightarrow> u8 list" where
  "cdc_device_descriptor vendor product release =
     [18, DTYPE_Device] @ le16 (VERSION_BCD 1 1 0) @ [0x02, 0x00, 0x00, 8] @ le16 vendor @ le16 product @
     le16 release @ [1, 2, 0xDC, 1]"

definition bridge_device_descriptor :: "u16 \<Rightarrow> u8 list" where
  "bridge_device_descriptor product = cdc_device_descriptor 2341 product 0x0001"

definition micro_tx_device_descriptor :: "u16 \<Rightarrow> u8 list" where
  "micro_tx_device_descriptor product = cdc_device_descriptor 0x1b4f product (VERSION_BCD 0 0 1)"

definition cdc_endpoint_desc :: "u8 \<Rightarrow> u8 \<Rightarrow> u16 \<Rightarrow> u8 \<Rightarrow> u8 list" where
  "cdc_endpoint_desc addr attr sz interval = [7, DTYPE_Endpoint, addr, attr] @ le16 sz @ [interval]"

definition functional_desc :: "u8 \<Rightarrow> u8 list \<Rightarrow> u8 list" where
  "functional_desc subtype data = [of_nat (3 + length data), 0x24, subtype] @ data"

text \<open>The members of the two structs, whose order is the same; \<open>bcd\<close> is the version of the class.\<close>

definition cdc_config_parts :: "u8 list \<Rightarrow> u16 \<Rightarrow> u8 \<Rightarrow> u8 list list" where
  "cdc_config_parts bcd sz interval =
     [interface_desc 0 1 0x02 0x02 0x01, functional_desc 0x00 bcd, functional_desc 0x02 [0x06],
      functional_desc 0x06 [0, 1], cdc_endpoint_desc (0x80 OR 2) EP_TYPE_INTERRUPT 8 0xFF,
      interface_desc 1 2 0x0A 0x00 0x00, cdc_endpoint_desc 4 EP_TYPE_BULK sz interval,
      cdc_endpoint_desc (0x80 OR 3) EP_TYPE_BULK sz interval]"

definition cdc_config_header :: "u8 list list \<Rightarrow> u8 list" where
  "cdc_config_header parts =
     [9, DTYPE_Configuration] @ le16 (of_nat (9 + length (concat parts))) @ [2, 1, NO_DESCRIPTOR, 0x80 OR 0x40, 50]"

definition bridge_config_parts :: "u8 list list" where
  "bridge_config_parts = cdc_config_parts [0x01, 0x10] 64 0x01"

definition bridge_configuration :: "u8 list" where
  "bridge_configuration = cdc_config_header bridge_config_parts @ concat bridge_config_parts"

definition micro_tx_config_parts :: "u8 list list" where
  "micro_tx_config_parts = cdc_config_parts (le16 (VERSION_BCD 1 1 0)) 16 0x05"

definition micro_tx_configuration :: "u8 list" where
  "micro_tx_configuration = cdc_config_header micro_tx_config_parts @ concat micro_tx_config_parts"

definition bridge_strings :: "u8 list list" where
  "bridge_strings = [[4, DTYPE_String] @ le16 0x0409,
     [of_nat (2 + 2 * 24), DTYPE_String] @ concat (map (\<lambda>c. le16 (of_char c)) ''Arduino (www.arduino.cc)''),
     [of_nat (2 + 2 * 11), DTYPE_String] @ concat (map (\<lambda>c. le16 (of_char c)) ''Arduino Uno'')]"

definition micro_tx_strings :: "u8 list list" where
  "micro_tx_strings =
     [[4, DTYPE_String] @ le16 0x0409, string_desc ''Arduino Pro Micro'', string_desc ''SparkFun Electronics'']"

text \<open>The address with the sz; None is the null pointer with NO\_DESCRIPTOR.\<close>

definition cdc_get_descriptor :: "u8 list \<Rightarrow> u8 list \<Rightarrow> u8 list list \<Rightarrow> u16 \<Rightarrow> u8 list option" where
  "cdc_get_descriptor dev conf strings v =
     (let t = (ucast (drop_bit 8 v) :: u8); n = (ucast (v AND 0xFF) :: u8)
      in if t = DTYPE_Device then Some dev
         else if t = DTYPE_Configuration then Some conf
         else if t = DTYPE_String \<and> n \<le> 2 then Some (take (unat (hd (strings ! unat n))) (strings ! unat n))
         else None)"

definition bridge_GetDescriptor :: "u16 \<Rightarrow> u16 \<Rightarrow> u8 list option" where
  "bridge_GetDescriptor product = cdc_get_descriptor (bridge_device_descriptor product) bridge_configuration bridge_strings"

definition micro_tx_GetDescriptor :: "u16 \<Rightarrow> u16 \<Rightarrow> u8 list option" where
  "micro_tx_GetDescriptor product =
     cdc_get_descriptor (micro_tx_device_descriptor product) micro_tx_configuration micro_tx_strings"

section \<open>The endpoints that the driver configures\<close>

text \<open>Address, type and size, in the order of the calls in CDC\_Device\_ConfigureEndpoints.\<close>

definition cdc_configured_endpoints :: "u16 \<Rightarrow> (u8 \<times> u8 \<times> u16) list" where
  "cdc_configured_endpoints sz =
     [(0x80 OR 3, EP_TYPE_BULK, sz), (4, EP_TYPE_BULK, sz), (0x80 OR 2, EP_TYPE_INTERRUPT, 8)]"

section \<open>What the host reads\<close>

definition described_endpoints :: "u8 list list \<Rightarrow> (u8 \<times> u8 \<times> u16) list" where
  "described_endpoints ds = map (\<lambda>e. (e ! 2, e ! 3, un_le16 (drop 4 e))) (filter (\<lambda>e. e ! 1 = DTYPE_Endpoint) ds)"

definition good_configuration :: "u8 list list \<Rightarrow> u16 \<Rightarrow> bool" where
  "good_configuration parts sz \<longleftrightarrow>
     (let ds = cdc_config_header parts # parts
      in unat (un_le16 (drop 2 (hd ds))) = length (concat ds) \<and> list_all (\<lambda>d. unat (d ! 0) = length d \<and> 2 \<le> length d) ds \<and>
         interfaces ds = [(0, 1, [0x82]), (1, 2, [4, 0x83])] \<and>
         set (described_endpoints ds) = set (cdc_configured_endpoints sz))"

text \<open>
  A host that walks the configuration of either port finds descriptors as long as they say, as many bytes as
  the header says, the control and the data interface with the endpoints that they announce, and
  exactly the endpoints that the driver configures, with their types and sizes.
\<close>

theorem cdc_configuration_consistent:
  "usb_walk bridge_configuration = Some (cdc_config_header bridge_config_parts # bridge_config_parts)"
  "good_configuration bridge_config_parts 64"
  "usb_walk micro_tx_configuration = Some (cdc_config_header micro_tx_config_parts # micro_tx_config_parts)"
  "good_configuration micro_tx_config_parts 16"
proof -
  show good: "good_configuration bridge_config_parts 64" "good_configuration micro_tx_config_parts 16"
    by code_simp+
  show "usb_walk bridge_configuration = Some (cdc_config_header bridge_config_parts # bridge_config_parts)"
    using walk_concat [of "cdc_config_header bridge_config_parts # bridge_config_parts"] good(1)
    by (simp add: bridge_configuration_def good_configuration_def Let_def list_all_iff)
  show "usb_walk micro_tx_configuration = Some (cdc_config_header micro_tx_config_parts # micro_tx_config_parts)"
    using walk_concat [of "cdc_config_header micro_tx_config_parts # micro_tx_config_parts"] good(2)
    by (simp add: micro_tx_configuration_def good_configuration_def Let_def list_all_iff)
qed

text \<open>Every string that the device descriptor names is there, whole, and marked as a string.\<close>

lemma cdc_strings_complete:
  "\<forall>n\<in>{1, 2}. \<exists>s. bridge_GetDescriptor product (0x0300 OR n) = Some s \<and> length s = unat (s ! 0) \<and> s ! 1 = DTYPE_String"
  "\<forall>n\<in>{1, 2}. \<exists>s. micro_tx_GetDescriptor product (0x0300 OR n) = Some s \<and> length s = unat (s ! 0) \<and> s ! 1 = DTYPE_String"
  by (simp_all add: bridge_GetDescriptor_def micro_tx_GetDescriptor_def cdc_get_descriptor_def Let_def bridge_strings_def
      micro_tx_strings_def string_desc_def le16_def)

text \<open>The vendor of the bridge is the decimal number 2341 and not Arduino's 0x2341.\<close>

lemma bridge_vendor_wrong: "un_le16 (drop 8 (bridge_device_descriptor product)) = 0x0925"
  by (simp add: bridge_device_descriptor_def cdc_device_descriptor_def le16_def un_le16_def)

end
