(* ===== verification/MicroRf.thy ===== *)
theory MicroRf
  imports RfTx
begin

text \<open>
  The radio transmitter on a board with one chip (\<open>src/src/avr/micro/rf/main.c\<close>). Start, commands and the
  exchange of packets are those of the Uno's transmitter in RfTx; here are the loop, which also
  serves the LEDs and USB, the sleep of the ATmega32U4, and the array for the packet that comes back
  with an acknowledgement, which has 12 bytes instead of 32: in the environment of this board
  \<open>te_junk env 0\<close> has that length.

  The branch of \<open>initialise\<close> that starts a receiver is dead, since the configuration's flag was cleared before.
  What USB\_USBTask does is LUFA's: the events of the virtual serial port are below. The pins in \<open>initRF\<close>
  and the inputs are the Uno's, as the environment's converter and buses stand for any board's.
\<close>

section \<open>Sleep\<close>

text \<open>The registers beside those of the Uno's model: EICRB, and the two that switch modules off.\<close>

record ('i, 'p, 'd) micro_tx =
  mx :: "('i, 'p, 'd) rftx"
  mx_EICRB :: u8
  mx_PRR0 :: u8
  mx_PRR1 :: u8
  mx_strip :: "u8 list"

abbreviation (input) ISC61 :: nat where "ISC61 \<equiv> 5"
abbreviation (input) INT6 :: nat where "INT6 \<equiv> 6"
abbreviation (input) INTF6 :: nat where "INTF6 \<equiv> 6"

text \<open>ADC, SPI, two timers and the two-wire unit; two more timers, the UART and USB.\<close>

definition all_modules_off :: "('i, 'p, 'd) micro_tx \<Rightarrow> ('i, 'p, 'd) micro_tx" where
  "all_modules_off m = m\<lparr>mx_PRR0 := mx_PRR0 m OR 0xAD, mx_PRR1 := mx_PRR1 m OR 0x99\<rparr>"

definition all_modules_on :: "('i, 'p, 'd) micro_tx \<Rightarrow> ('i, 'p, 'd) micro_tx" where
  "all_modules_on m = m\<lparr>mx_PRR0 := mx_PRR0 m AND NOT 0xAD, mx_PRR1 := mx_PRR1 m AND NOT 0x99\<rparr>"

definition on_mx :: "(('i, 'p, 'd) rftx \<Rightarrow> ('i, 'p, 'd) rftx) \<Rightarrow> ('i, 'p, 'd) micro_tx \<Rightarrow> ('i, 'p, 'd) micro_tx" where
  "on_mx f m = m\<lparr>mx := f (mx m)\<rparr>"

text \<open>A one written to a flag of EIFR clears it; the order is the code's.\<close>

definition micro_asleep :: "('i, 'p, 'd) rftx_env \<Rightarrow> ('i, 'p, 'd) micro_tx \<Rightarrow> ('i, 'p, 'd) micro_tx" where
  "micro_asleep env m =
     (let m1 = on_mx (\<lambda>u. on_hw_tx (\<lambda>a. a\<lparr>ADCSRA := 0\<rparr>) (u\<lparr>tx_lastChange := te_time env 1\<rparr>)) m;
          m2 = on_mx (\<lambda>u. snd (on_radio_tx (nrf24_powerDown (te_dev env)) u)) m1;
          m3 = on_mx (\<lambda>u. u\<lparr>tx_sleep := set_sleep_mode SLEEP_MODE_PWR_DOWN (tx_sleep u)\<rparr>) (all_modules_off m2);
          m4 = on_mx (on_hw_tx cli) m3;
          m5 = on_mx (on_radio_regs (\<lambda>r. r\<lparr>EICRA := EICRA r OR bv ISC61, EIMSK := EIMSK r OR bv INT6\<rparr>)) m4;
          m6 = on_mx (\<lambda>u. u\<lparr>tx_sleep := (tx_sleep u)\<lparr>EIFR := EIFR (tx_sleep u) AND NOT (bv INTF6)\<rparr>\<rparr>) m5
      in on_mx (\<lambda>u. on_hw_tx sei (u\<lparr>tx_sleep := sleep_enable (tx_sleep u)\<rparr>)) m6)"

definition INT6_vect :: "('i, 'p, 'd) rftx_env \<Rightarrow> ('i, 'p, 'd) micro_tx \<Rightarrow> ('i, 'p, 'd) micro_tx" where
  "INT6_vect env m =
     (let m1 = all_modules_on (on_mx (\<lambda>u. u\<lparr>tx_sleep := sleep_disable (tx_sleep u)\<rparr>) m);
          m2 = on_mx (\<lambda>u. radio_start env (on_hw_tx setupADC u)) m1
      in on_mx (on_radio_regs (\<lambda>r. r\<lparr>EICRA := EICRA r AND NOT (bv ISC61), EIMSK := EIMSK r AND NOT (bv INT6)\<rparr>)) m2)"

text \<open>
  The interrupts served before the processor goes on: that of the radio (INT3 on this chip, with the same
  handler), and the one that wakes it.
\<close>

definition micro_serve :: "('i, 'p, 'd) rftx_env \<Rightarrow> wake \<Rightarrow> ('i, 'p, 'd) micro_tx \<Rightarrow> ('i, 'p, 'd) micro_tx" where
  "micro_serve env w m =
     (case w of Wake_INT0 \<Rightarrow> on_mx (\<lambda>u. snd (on_radio_tx INT0_vect u)) m | Wake_INT1 \<Rightarrow> INT6_vect env m)"

section \<open>Start and loop\<close>

definition micro_tx_start ::
  "(u8 \<Rightarrow> u8) \<Rightarrow> nat \<Rightarrow> u8 \<Rightarrow> ('i, 'p, 'd) rftx_env \<Rightarrow> ('i, 'p, 'd) micro_tx \<Rightarrow> halt + ('i, 'p, 'd) micro_tx" where
  "micro_tx_start past tp junk env m = map_sum id (\<lambda>u. m\<lparr>mx := u\<rparr>) (tx_start past tp junk env (mx m))"

definition micro_poll ::
  "('i, 'p, 'd) rftx_env \<Rightarrow> ('i, 'p, 'd) micro_tx \<Rightarrow> halt + ('i, 'p, 'd) micro_tx" where
  "micro_poll env m =
     (let u = mx m
      in if ucast (tx_pollRate u) < te_time env 2 - tx_lastPoll u
         then case tickInputs (tx_globals u env) (tx_controller u, bd_input (tx_board u)) (tx_i2c u, tx_ps2 u) of
                Inl e \<Rightarrow> Inl (halt_of e)
              | Inr ((c, s), i, p) \<Rightarrow>
                  (case tickLEDs (tx_drum u) s c (bd_leds (tx_board u)) of
                     None \<Rightarrow> Inl OutOfArray
                   | Some bs \<Rightarrow>
                       map_sum id (\<lambda>u. m\<lparr>mx := u, mx_strip := mx_strip m @ bs\<rparr>)
                         (send_state env (u\<lparr>tx_controller := c, tx_board := (tx_board u)\<lparr>bd_input := s\<rparr>,
                                            tx_i2c := i, tx_ps2 := p\<rparr>)))
         else Inr m)"

definition micro_tx_step ::
  "('i, 'p, 'd) rftx_env \<Rightarrow> ('i, 'p, 'd) micro_tx \<Rightarrow> halt + ('i, 'p, 'd) micro_tx" where
  "micro_tx_step env m =
     micro_poll env
       (if 600000 < te_time env 0 - tx_lastChange (mx m)
        then fold (micro_serve env) (te_wake env) (micro_asleep env m) else m)"

text \<open>The event of the virtual serial port; \<open>rate\<close> is the line encoding's.\<close>

definition micro_LineEncodingChanged :: "u32 \<Rightarrow> ('i, 'p, 'd) micro_tx \<Rightarrow> halt + ('i, 'p, 'd) micro_tx" where
  "micro_LineEncodingChanged rate m = (if rate = 1200 then Inl Bootloader else Inr m)"

section \<open>Facts\<close>

text \<open>
  The bits that choose the edge of the wake-up interrupt are in EICRB, which is never written: the code sets
  those of INT2 in EICRA, and the interrupt stays one on a low level.
\<close>

lemma wake_edge_not_set:
  "mx_EICRB (micro_asleep env m) = mx_EICRB m" "mx_EICRB (INT6_vect env m) = mx_EICRB m"
  by (simp_all add: micro_asleep_def INT6_vect_def Let_def on_mx_def all_modules_off_def all_modules_on_def)

lemma modules_on_again:
  "mx_PRR0 (INT6_vect env m) AND 0xAD = 0" "mx_PRR1 (INT6_vect env m) AND 0x99 = 0"
  by (simp_all add: INT6_vect_def Let_def on_mx_def all_modules_on_def and.assoc)

text \<open>
  Between two sleeps a poll that finds the LEDs in order does what the Uno's transmitter does, with the
  same packets, and sends the LEDs' frames before them.
\<close>

lemma micro_poll_as_uno:
  assumes "micro_poll env m = Inr m'" shows "poll_and_send env (mx m) = Inr (mx m')"
  using assms
  by (auto simp: micro_poll_def poll_and_send_def Let_def map_sum_Inr split: sum.splits option.splits if_splits)

section \<open>A packet that does not fit\<close>

text \<open>The length of the packet that the chip reports, as the code asks for it.\<close>

definition reported_length :: "'d spi_dev \<Rightarrow> radio \<times> 'd \<Rightarrow> u8" where
  "reported_length dev x =
     fst (run_state (State_Monad.bind (nrf24_configRegister dev STATUS (bv RX_DR)) (\<lambda>_. nrf24_payloadLength dev))
       (snd (run_state (nrf24_getStatus dev) (apfst (\<lambda>r. r\<lparr>rf_interrupt := False\<rparr>) x))))"

definition packet_pending :: "'d spi_dev \<Rightarrow> radio \<times> 'd \<Rightarrow> bool" where
  "packet_pending dev x \<longleftrightarrow>
     rx_pipe (fst (run_state (nrf24_getStatus dev) (apfst (\<lambda>r. r\<lparr>rf_interrupt := False\<rparr>) x))) = 0"

lemma run_modify_radio: "run_state (modify_radio f) x = ((), apfst f x)"
  by (cases x) (simp add: modify_radio_def)

lemma getData_overflows:
  "fst (run_state (nrf24_getData dev arr 0) y) = None \<longleftrightarrow>
   length arr < unat (fst (run_state (State_Monad.bind (nrf24_configRegister dev STATUS (bv RX_DR))
                                       (\<lambda>_. nrf24_payloadLength dev)) y))"
  by (simp add: nrf24_getData_def run_bind Let_def not_le del: run_state_bind)

lemma tickRFTX_overflows:
  "fst (run_state (tickRFTX dev bs arr) x) = None \<longleftrightarrow>
   packet_pending dev x \<and> length arr < unat (reported_length dev x)"
  using getData_overflows [of dev arr "snd (run_state (nrf24_getStatus dev) (apfst (\<lambda>r. r\<lparr>rf_interrupt := False\<rparr>) x))"]
  by (simp add: tickRFTX_def packet_pending_def reported_length_def run_bind run_modify_radio Let_def
      del: run_state_bind)

text \<open>
  A write of the host that a Micro forwards comes as a packet of 32 bytes, so that here the first one writes
  behind the array of 12.
\<close>

lemma exchange_overflows:
  assumes "tx_radio u = (r, d)" "packet_pending (te_dev env) (r\<lparr>rf_avr := tx_hw u\<rparr>, d)"
    "length (te_junk env 0) < unat (reported_length (te_dev env) (r\<lparr>rf_avr := tx_hw u\<rparr>, d))"
  shows "exchange_packet env u = Inl OutOfArray"
proof -
  have "fst (run_state (tickRFTX (te_dev env) bs (te_junk env 0)) (r\<lparr>rf_avr := tx_hw u\<rparr>, d)) = None" for bs
    using assms by (simp add: tickRFTX_overflows)
  then have "fst (on_radio_tx (tickRFTX (te_dev env) bs (te_junk env 0)) u) = None" for bs
    using assms(1) by (auto simp: on_radio_tx_def case_prod_beta)
  then show ?thesis by (simp add: exchange_packet_def case_prod_beta)
qed

end
