(* ===== verification/Mpu6050.thy ===== *)
theory Mpu6050
  imports DmpFirmware WiiExt
begin

text \<open>
  The driver of the motion sensor (\<open>src/lib/mpu6050/inv_mpu.c\<close> and \<open>inv_mpu_dmp_motion_driver.c\<close>), in the
  configuration that the header files choose: an MPU-6050 without a compass, no extras.

  An operation takes the driver's two static structs with the bus and returns the function's number with
  the new state; \<open>if (f()) return e;\<close> is \<open>if_fails f e\<close>. The two-wire bus, the time that passes in
  \<open>delay_ms\<close> and the bytes of arrays that are not initialised are a parameter. Left out are the functions of
  the extras, which are not compiled, those that need floating-point numbers or 64 bits, and
  \<open>mpu_read_fifo\<close>, which is for a sensor without its processor.
\<close>

section \<open>State\<close>

record motion_int_cache_s =
  cache_gyro_fsr :: u16
  cache_accel_fsr :: u8
  cache_lpf :: u16
  cache_sample_rate :: u16
  cache_sensors_on :: u8
  cache_fifo_sensors :: u8
  cache_dmp_on :: u8

record chip_cfg_s =
  gyro_fsr :: u8
  accel_fsr :: u8
  sensors :: u8
  lpf :: u8
  clk_src :: u8
  sample_rate :: u16
  fifo_enable :: u8
  int_enable :: u8
  bypass_mode :: u8
  accel_half :: u8
  lp_accel_mode :: u8
  int_motion_only :: u8
  cache :: motion_int_cache_s
  active_low_int :: u8
  latched_int :: u8
  dmp_on :: u8
  dmp_loaded :: u8
  dmp_sample_rate :: u16

record dmp_s =
  orient :: u16
  feature_mask :: u16
  fifo_rate :: u16
  packet_length :: u8

record 'd mpu =
  chip_cfg :: chip_cfg_s
  dmp :: dmp_s
  mpu_dev :: 'd

record 'd mpu_bus =
  mb_write :: "u8 \<Rightarrow> u8 \<Rightarrow> u8 list \<Rightarrow> 'd \<Rightarrow> bool \<times> 'd"
  mb_read :: "'d i2c_read"
  mb_delay :: "nat \<Rightarrow> 'd \<Rightarrow> 'd"
  mb_junk :: "nat \<Rightarrow> u8"

type_synonym 'd mpu_op = "'d mpu \<Rightarrow> int \<times> 'd mpu"

text \<open>The static initialisers: everything is zero.\<close>

definition zero_cache :: motion_int_cache_s where
  "zero_cache = \<lparr>cache_gyro_fsr = 0, cache_accel_fsr = 0, cache_lpf = 0, cache_sample_rate = 0, cache_sensors_on = 0,
     cache_fifo_sensors = 0, cache_dmp_on = 0\<rparr>"

definition st_initial :: chip_cfg_s where
  "st_initial = \<lparr>gyro_fsr = 0, accel_fsr = 0, sensors = 0, lpf = 0, clk_src = 0, sample_rate = 0, fifo_enable = 0,
     int_enable = 0, bypass_mode = 0, accel_half = 0, lp_accel_mode = 0, int_motion_only = 0, cache = zero_cache,
     active_low_int = 0, latched_int = 0, dmp_on = 0, dmp_loaded = 0, dmp_sample_rate = 0\<rparr>"

definition dmp_initial :: dmp_s where
  "dmp_initial = \<lparr>orient = 0, feature_mask = 0, fifo_rate = 0, packet_length = 0\<rparr>"

section \<open>Registers and bits\<close>

abbreviation (input) hw_addr :: u8 where "hw_addr \<equiv> 0x68"
abbreviation (input) hw_max_fifo :: u16 where "hw_max_fifo \<equiv> 1024"
abbreviation (input) hw_num_reg :: u8 where "hw_num_reg \<equiv> 118"
abbreviation (input) hw_bank_size :: nat where "hw_bank_size \<equiv> 256"

abbreviation (input) reg_rate_div :: u8 where "reg_rate_div \<equiv> 0x19"
abbreviation (input) reg_lpf :: u8 where "reg_lpf \<equiv> 0x1A"
abbreviation (input) reg_gyro_cfg :: u8 where "reg_gyro_cfg \<equiv> 0x1B"
abbreviation (input) reg_accel_cfg :: u8 where "reg_accel_cfg \<equiv> 0x1C"
abbreviation (input) reg_fifo_en :: u8 where "reg_fifo_en \<equiv> 0x23"
abbreviation (input) reg_int_pin_cfg :: u8 where "reg_int_pin_cfg \<equiv> 0x37"
abbreviation (input) reg_int_enable :: u8 where "reg_int_enable \<equiv> 0x38"
abbreviation (input) reg_dmp_int_status :: u8 where "reg_dmp_int_status \<equiv> 0x39"
abbreviation (input) reg_int_status :: u8 where "reg_int_status \<equiv> 0x3A"
abbreviation (input) reg_raw_accel :: u8 where "reg_raw_accel \<equiv> 0x3B"
abbreviation (input) reg_raw_gyro :: u8 where "reg_raw_gyro \<equiv> 0x43"
abbreviation (input) reg_user_ctrl :: u8 where "reg_user_ctrl \<equiv> 0x6A"
abbreviation (input) reg_pwr_mgmt_1 :: u8 where "reg_pwr_mgmt_1 \<equiv> 0x6B"
abbreviation (input) reg_pwr_mgmt_2 :: u8 where "reg_pwr_mgmt_2 \<equiv> 0x6C"
abbreviation (input) reg_bank_sel :: u8 where "reg_bank_sel \<equiv> 0x6D"
abbreviation (input) reg_mem_start_addr :: u8 where "reg_mem_start_addr \<equiv> 0x6E"
abbreviation (input) reg_mem_r_w :: u8 where "reg_mem_r_w \<equiv> 0x6F"
abbreviation (input) reg_prgm_start_h :: u8 where "reg_prgm_start_h \<equiv> 0x70"
abbreviation (input) reg_fifo_count_h :: u8 where "reg_fifo_count_h \<equiv> 0x72"
abbreviation (input) reg_fifo_r_w :: u8 where "reg_fifo_r_w \<equiv> 0x74"

abbreviation (input) BIT_FIFO_EN :: u8 where "BIT_FIFO_EN \<equiv> 0x40"
abbreviation (input) BIT_DMP_EN :: u8 where "BIT_DMP_EN \<equiv> 0x80"
abbreviation (input) BIT_FIFO_RST :: u8 where "BIT_FIFO_RST \<equiv> 0x04"
abbreviation (input) BIT_DMP_RST :: u8 where "BIT_DMP_RST \<equiv> 0x08"
abbreviation (input) BIT_FIFO_OVERFLOW :: u8 where "BIT_FIFO_OVERFLOW \<equiv> 0x10"
abbreviation (input) BIT_DATA_RDY_EN :: u8 where "BIT_DATA_RDY_EN \<equiv> 0x01"
abbreviation (input) BIT_DMP_INT_EN :: u8 where "BIT_DMP_INT_EN \<equiv> 0x02"
abbreviation (input) BIT_RESET :: u8 where "BIT_RESET \<equiv> 0x80"
abbreviation (input) BIT_SLEEP :: u8 where "BIT_SLEEP \<equiv> 0x40"
abbreviation (input) BIT_AUX_IF_EN :: u8 where "BIT_AUX_IF_EN \<equiv> 0x20"
abbreviation (input) BIT_ACTL :: u8 where "BIT_ACTL \<equiv> 0x80"
abbreviation (input) BIT_LATCH_EN :: u8 where "BIT_LATCH_EN \<equiv> 0x20"
abbreviation (input) BIT_ANY_RD_CLR :: u8 where "BIT_ANY_RD_CLR \<equiv> 0x10"
abbreviation (input) BIT_BYPASS_EN :: u8 where "BIT_BYPASS_EN \<equiv> 0x02"
abbreviation (input) BIT_LPA_CYCLE :: u8 where "BIT_LPA_CYCLE \<equiv> 0x20"
abbreviation (input) BIT_STBY_XG :: u8 where "BIT_STBY_XG \<equiv> 0x04"
abbreviation (input) BIT_STBY_YG :: u8 where "BIT_STBY_YG \<equiv> 0x02"
abbreviation (input) BIT_STBY_ZG :: u8 where "BIT_STBY_ZG \<equiv> 0x01"
abbreviation (input) BIT_STBY_XYZA :: u8 where "BIT_STBY_XYZA \<equiv> 0x38"
abbreviation (input) BIT_STBY_XYZG :: u8 where "BIT_STBY_XYZG \<equiv> 0x07"
abbreviation (input) INV_CLK_PLL :: u8 where "INV_CLK_PLL \<equiv> 1"

abbreviation (input) INV_X_GYRO :: u8 where "INV_X_GYRO \<equiv> 0x40"
abbreviation (input) INV_Y_GYRO :: u8 where "INV_Y_GYRO \<equiv> 0x20"
abbreviation (input) INV_Z_GYRO :: u8 where "INV_Z_GYRO \<equiv> 0x10"
abbreviation (input) INV_XYZ_GYRO :: u8 where "INV_XYZ_GYRO \<equiv> 0x70"
abbreviation (input) INV_XYZ_ACCEL :: u8 where "INV_XYZ_ACCEL \<equiv> 0x08"
abbreviation (input) INV_XYZ_COMPASS :: u8 where "INV_XYZ_COMPASS \<equiv> 0x01"

section \<open>The statements of the driver\<close>

definition ret :: "int \<Rightarrow> 'd mpu_op" where
  "ret k m = (k, m)"

definition if_fails :: "'d mpu_op \<Rightarrow> int \<Rightarrow> 'd mpu_op \<Rightarrow> 'd mpu_op" where
  "if_fails a e b m = (case a m of (r, m1) \<Rightarrow> if r \<noteq> 0 then (e, m1) else b m1)"

definition and_next :: "'d mpu_op \<Rightarrow> 'd mpu_op \<Rightarrow> 'd mpu_op" where
  "and_next a b m = b (snd (a m))"

definition set_cfg :: "(chip_cfg_s \<Rightarrow> chip_cfg_s) \<Rightarrow> 'd mpu_op \<Rightarrow> 'd mpu_op" where
  "set_cfg f b m = b (m\<lparr>chip_cfg := f (chip_cfg m)\<rparr>)"

definition delay_ms :: "'d mpu_bus \<Rightarrow> nat \<Rightarrow> 'd mpu_op" where
  "delay_ms bus n m = (0, m\<lparr>mpu_dev := mb_delay bus n (mpu_dev m)\<rparr>)"

text \<open>The length is a byte in the functions of the bus.\<close>

definition i2c_write :: "'d mpu_bus \<Rightarrow> u8 \<Rightarrow> u8 list \<Rightarrow> 'd mpu_op" where
  "i2c_write bus r bs m =
     (case mb_write bus hw_addr r (take (length bs mod 256) bs) (mpu_dev m) of
        (ok, d) \<Rightarrow> (if ok then 0 else 1, m\<lparr>mpu_dev := d\<rparr>))"

text \<open>What follows a read gets the array with the bytes that were received.\<close>

definition i2c_read :: "'d mpu_bus \<Rightarrow> u8 \<Rightarrow> nat \<Rightarrow> u8 list \<Rightarrow> 'd mpu \<Rightarrow> (int \<times> u8 list) \<times> 'd mpu" where
  "i2c_read bus r n buf m =
     (case mb_read bus hw_addr r (n mod 256) (mpu_dev m) of
        ((ok, bs), d) \<Rightarrow> ((if ok then 0 else 1, overlay bs buf), m\<lparr>mpu_dev := d\<rparr>))"

definition fresh :: "'d mpu_bus \<Rightarrow> nat \<Rightarrow> u8 list" where
  "fresh bus n = map (mb_junk bus) [0..<n]"

definition read_then :: "'d mpu_bus \<Rightarrow> u8 \<Rightarrow> nat \<Rightarrow> u8 list \<Rightarrow> int \<Rightarrow> (u8 list \<Rightarrow> 'd mpu_op) \<Rightarrow> 'd mpu_op" where
  "read_then bus r n buf e f m =
     (case i2c_read bus r n buf m of ((k, data), m1) \<Rightarrow> if k \<noteq> 0 then (e, m1) else f data m1)"

section \<open>inv\_mpu.c\<close>

definition set_int_enable :: "'d mpu_bus \<Rightarrow> u8 \<Rightarrow> 'd mpu_op" where
  "set_int_enable bus enable m =
     (let c = chip_cfg m;
          put = (\<lambda>tmp. if_fails (i2c_write bus reg_int_enable [tmp]) (-1) (set_cfg (\<lambda>c. c\<lparr>int_enable := tmp\<rparr>) (ret 0)))
      in if truthy (dmp_on c) then put (if truthy enable then BIT_DMP_INT_EN else 0) m
         else if sensors c = 0 then (-1, m)
         else if truthy enable \<and> truthy (int_enable c) then (0, m)
         else put (if truthy enable then BIT_DATA_RDY_EN else 0) m)"

definition mpu_reset_fifo :: "'d mpu_bus \<Rightarrow> 'd mpu_op" where
  "mpu_reset_fifo bus m =
     (let c = chip_cfg m; wr = (\<lambda>r b. if_fails (i2c_write bus r [b]) (-1))
      in if sensors c = 0 then (-1, m)
         else wr reg_int_enable 0 (wr reg_fifo_en 0 (wr reg_user_ctrl 0
           (if truthy (dmp_on c)
            then wr reg_user_ctrl (BIT_FIFO_RST OR BIT_DMP_RST) (and_next (delay_ms bus 50)
                   (wr reg_user_ctrl (BIT_DMP_EN OR BIT_FIFO_EN OR
                                      (if truthy (sensors c AND INV_XYZ_COMPASS) then BIT_AUX_IF_EN else 0))
                   (wr reg_int_enable (if truthy (int_enable c) then BIT_DMP_INT_EN else 0)
                   (wr reg_fifo_en 0 (ret 0)))))
            else wr reg_user_ctrl BIT_FIFO_RST
                   (wr reg_user_ctrl (if truthy (bypass_mode c) \<or> sensors c AND INV_XYZ_COMPASS = 0 then BIT_FIFO_EN
                                      else BIT_FIFO_EN OR BIT_AUX_IF_EN)
                   (and_next (delay_ms bus 50)
                   (wr reg_int_enable (if truthy (int_enable c) then BIT_DATA_RDY_EN else 0)
                   (wr reg_fifo_en (fifo_enable c) (ret 0)))))))) m)"

definition mpu_set_gyro_fsr :: "'d mpu_bus \<Rightarrow> u16 \<Rightarrow> 'd mpu_op" where
  "mpu_set_gyro_fsr bus fsr m =
     (let put = (\<lambda>k. if gyro_fsr (chip_cfg m) = k then (0, m)
                    else if_fails (i2c_write bus reg_gyro_cfg [push_bit 3 k]) (-1) (set_cfg (\<lambda>c. c\<lparr>gyro_fsr := k\<rparr>) (ret 0)) m)
      in if sensors (chip_cfg m) = 0 then (-1, m)
         else if fsr = 250 then put 0 else if fsr = 500 then put 1
         else if fsr = 1000 then put 2 else if fsr = 2000 then put 3 else (-1, m))"

definition mpu_get_gyro_fsr :: "chip_cfg_s \<Rightarrow> u16" where
  "mpu_get_gyro_fsr c =
     (if gyro_fsr c = 0 then 250 else if gyro_fsr c = 1 then 500 else if gyro_fsr c = 2 then 1000
      else if gyro_fsr c = 3 then 2000 else 0)"

definition mpu_set_accel_fsr :: "'d mpu_bus \<Rightarrow> u8 \<Rightarrow> 'd mpu_op" where
  "mpu_set_accel_fsr bus fsr m =
     (let put = (\<lambda>k. if accel_fsr (chip_cfg m) = k then (0, m)
                    else if_fails (i2c_write bus reg_accel_cfg [push_bit 3 k]) (-1) (set_cfg (\<lambda>c. c\<lparr>accel_fsr := k\<rparr>) (ret 0)) m)
      in if sensors (chip_cfg m) = 0 then (-1, m)
         else if fsr = 2 then put 0 else if fsr = 4 then put 1
         else if fsr = 8 then put 2 else if fsr = 16 then put 3 else (-1, m))"

text \<open>None is the result -1.\<close>

definition mpu_get_accel_fsr :: "chip_cfg_s \<Rightarrow> u8 option" where
  "mpu_get_accel_fsr c =
     map_option (\<lambda>fsr. if truthy (accel_half c) then push_bit 1 fsr else fsr)
       (if accel_fsr c = 0 then Some 2 else if accel_fsr c = 1 then Some 4 else if accel_fsr c = 2 then Some 8
        else if accel_fsr c = 3 then Some 16 else None)"

definition mpu_get_accel_sens :: "chip_cfg_s \<Rightarrow> u16 option" where
  "mpu_get_accel_sens c =
     map_option (\<lambda>sens. if truthy (accel_half c) then drop_bit 1 sens else sens)
       (if accel_fsr c = 0 then Some 16384 else if accel_fsr c = 1 then Some 8092
        else if accel_fsr c = 2 then Some 4096 else if accel_fsr c = 3 then Some 2048 else None)"

definition filter_for :: "u16 \<Rightarrow> u8" where
  "filter_for f = (if 188 \<le> f then 1 else if 98 \<le> f then 2 else if 42 \<le> f then 3 else if 20 \<le> f then 4
     else if 10 \<le> f then 5 else 6)"

definition mpu_set_lpf :: "'d mpu_bus \<Rightarrow> u16 \<Rightarrow> 'd mpu_op" where
  "mpu_set_lpf bus f m =
     (let data = filter_for f
      in if sensors (chip_cfg m) = 0 then (-1, m)
         else if lpf (chip_cfg m) = data then (0, m)
         else if_fails (i2c_write bus reg_lpf [data]) (-1) (set_cfg (\<lambda>c. c\<lparr>lpf := data\<rparr>) (ret 0)) m)"

definition mpu_get_lpf :: "chip_cfg_s \<Rightarrow> u16" where
  "mpu_get_lpf c =
     (if lpf c = 1 then 188 else if lpf c = 2 then 98 else if lpf c = 3 then 42 else if lpf c = 4 then 20
      else if lpf c = 5 then 10 else if lpf c = 6 then 5 else 0)"

definition mpu_set_int_latched :: "'d mpu_bus \<Rightarrow> u8 \<Rightarrow> 'd mpu_op" where
  "mpu_set_int_latched bus enable m =
     (let c = chip_cfg m;
          tmp = (if truthy enable then BIT_LATCH_EN OR BIT_ANY_RD_CLR else 0) OR
                (if truthy (bypass_mode c) then BIT_BYPASS_EN else 0) OR (if truthy (active_low_int c) then BIT_ACTL else 0)
      in if latched_int c = enable then (0, m)
         else if_fails (i2c_write bus reg_int_pin_cfg [tmp]) (-1) (set_cfg (\<lambda>c. c\<lparr>latched_int := enable\<rparr>) (ret 0)) m)"

definition mpu_configure_fifo :: "'d mpu_bus \<Rightarrow> u8 \<Rightarrow> 'd mpu_op" where
  "mpu_configure_fifo bus s m =
     (let wanted = s AND NOT INV_XYZ_COMPASS; c = chip_cfg m; prev = fifo_enable c; got = wanted AND sensors c;
          result = (if got \<noteq> wanted then -1 else 0)
      in if truthy (dmp_on c) then (0, m)
         else if sensors c = 0 then (-1, m)
         else set_cfg (\<lambda>c. c\<lparr>fifo_enable := got\<rparr>)
                (and_next (set_int_enable bus (if truthy wanted \<or> truthy (lp_accel_mode c) then 1 else 0))
                   (if truthy wanted
                    then (\<lambda>m. case mpu_reset_fifo bus m of (r, m1) \<Rightarrow>
                            if r \<noteq> 0 then set_cfg (\<lambda>c. c\<lparr>fifo_enable := prev\<rparr>) (ret (-1)) m1 else (result, m1))
                    else ret result)) m)"

text \<open>The results of the functions that are called for their effect are not looked at.\<close>

definition mpu_lp_accel_mode :: "'d mpu_bus \<Rightarrow> u8 \<Rightarrow> 'd mpu_op" where
  "mpu_lp_accel_mode bus rate =
     (let hz = (if rate = 1 then 0 else if rate \<le> 5 then 1 else if rate \<le> 20 then 2 else 3 :: u8);
          f = (if rate \<le> 5 then 5 else if rate \<le> 20 then 10 else 20)
      in if rate = 0
         then and_next (mpu_set_int_latched bus 0)
                (if_fails (i2c_write bus reg_pwr_mgmt_1 [0, BIT_STBY_XYZG]) (-1)
                   (set_cfg (\<lambda>c. c\<lparr>lp_accel_mode := 0\<rparr>) (ret 0)))
         else and_next (mpu_set_int_latched bus 1) (and_next (mpu_set_lpf bus f)
                (if_fails (i2c_write bus reg_pwr_mgmt_1 [BIT_LPA_CYCLE, push_bit 6 hz OR BIT_STBY_XYZG]) (-1)
                   (set_cfg (\<lambda>c. c\<lparr>sensors := INV_XYZ_ACCEL, clk_src := 0, lp_accel_mode := 1\<rparr>)
                      (and_next (mpu_configure_fifo bus 0) (ret 0))))))"

definition mpu_set_sample_rate :: "'d mpu_bus \<Rightarrow> u16 \<Rightarrow> 'd mpu_op" where
  "mpu_set_sample_rate bus rate m =
     (let c = chip_cfg m; rate1 = (if rate < 4 then 4 else if 1000 < rate then 1000 else rate);
          data = ucast (1000 div rate1 - 1) :: u8; actual = 1000 div (1 + ucast data) :: u16;
          full = if_fails (i2c_write bus reg_rate_div [data]) (-1)
                   (set_cfg (\<lambda>c. c\<lparr>sample_rate := actual\<rparr>) (and_next (mpu_set_lpf bus (drop_bit 1 actual)) (ret 0)))
      in if sensors c = 0 \<or> truthy (dmp_on c) then (-1, m)
         else if truthy (lp_accel_mode c)
         then if truthy rate \<and> rate \<le> 40 then and_next (mpu_lp_accel_mode bus (ucast rate)) (ret 0) m
              else and_next (mpu_lp_accel_mode bus 0) full m
         else full m)"

definition mpu_get_sample_rate :: "chip_cfg_s \<Rightarrow> u16 option" where
  "mpu_get_sample_rate c = (if truthy (dmp_on c) then None else Some (sample_rate c))"

definition mpu_set_sensors :: "'d mpu_bus \<Rightarrow> u8 \<Rightarrow> 'd mpu_op" where
  "mpu_set_sensors bus s =
     (let clk = (if truthy (s AND INV_XYZ_GYRO) then INV_CLK_PLL else if truthy s then 0 else BIT_SLEEP);
          off = (if truthy (s AND INV_X_GYRO) then 0 else BIT_STBY_XG) OR
                (if truthy (s AND INV_Y_GYRO) then 0 else BIT_STBY_YG) OR
                (if truthy (s AND INV_Z_GYRO) then 0 else BIT_STBY_ZG) OR
                (if truthy (s AND INV_XYZ_ACCEL) then 0 else BIT_STBY_XYZA);
          try = (\<lambda>r b next m. case i2c_write bus r [b] m of (k, m1) \<Rightarrow>
                   if k \<noteq> 0 then set_cfg (\<lambda>c. c\<lparr>sensors := 0\<rparr>) (ret (-1)) m1 else next m1)
      in try reg_pwr_mgmt_1 clk (set_cfg (\<lambda>c. c\<lparr>clk_src := clk AND NOT BIT_SLEEP\<rparr>)
           (try reg_pwr_mgmt_2 off
              (and_next (if truthy s \<and> s \<noteq> INV_XYZ_ACCEL then mpu_set_int_latched bus 0 else ret 0)
                 (set_cfg (\<lambda>c. c\<lparr>sensors := s, lp_accel_mode := 0\<rparr>) (and_next (delay_ms bus 50) (ret 0)))))))"

definition mpu_set_bypass :: "'d mpu_bus \<Rightarrow> u8 \<Rightarrow> 'd mpu_op" where
  "mpu_set_bypass bus on m =
     (let c = chip_cfg m;
          pins = (if truthy (active_low_int c) then BIT_ACTL else 0) OR
                 (if truthy (latched_int c) then BIT_LATCH_EN OR BIT_ANY_RD_CLR else 0);
          aux = (\<lambda>tmp. if \<not> truthy on \<and> truthy (sensors c AND INV_XYZ_COMPASS) then tmp OR BIT_AUX_IF_EN
                       else tmp AND NOT BIT_AUX_IF_EN)
      in if bypass_mode c = on then (0, m)
         else read_then bus reg_user_ctrl 1 (fresh bus 1) (-1) (\<lambda>data.
                if_fails (i2c_write bus reg_user_ctrl [aux (data ! 0)]) (-1) (and_next (delay_ms bus 3)
                  (if_fails (i2c_write bus reg_int_pin_cfg [if truthy on then BIT_BYPASS_EN OR pins else pins]) (-1)
                     (set_cfg (\<lambda>c. c\<lparr>bypass_mode := on\<rparr>) (ret 0))))) m)"

definition mpu_set_int_level :: "u8 \<Rightarrow> 'd mpu_op" where
  "mpu_set_int_level active_low = set_cfg (\<lambda>c. c\<lparr>active_low_int := active_low\<rparr>) (ret 0)"

definition mpu_init :: "'d mpu_bus \<Rightarrow> 'd mpu_op" where
  "mpu_init bus =
     if_fails (i2c_write bus reg_pwr_mgmt_1 [BIT_RESET]) (-1) (and_next (delay_ms bus 500)
       (if_fails (i2c_write bus reg_pwr_mgmt_1 [0]) (-2)
         (set_cfg (\<lambda>c. c\<lparr>accel_half := 0, sensors := 0xFF, gyro_fsr := 0xFF, accel_fsr := 0xFF, lpf := 0xFF,
                        sample_rate := 0xFFFF, fifo_enable := 0xFF, bypass_mode := 0xFF, clk_src := INV_CLK_PLL,
                        active_low_int := 1, latched_int := 0, int_motion_only := 0, lp_accel_mode := 0,
                        cache := zero_cache, dmp_on := 0, dmp_loaded := 0, dmp_sample_rate := 0\<rparr>)
         (if_fails (mpu_set_gyro_fsr bus 2000) (-30)
         (if_fails (mpu_set_accel_fsr bus 2) (-31)
         (if_fails (mpu_set_lpf bus 42) (-32)
         (if_fails (mpu_set_sample_rate bus 50) (-33)
         (if_fails (mpu_configure_fifo bus 0) (-34)
         (if_fails (mpu_set_bypass bus 0) (-4)
         (and_next (mpu_set_sensors bus 0) (ret 0)))))))))))"

text \<open>The number of bytes of a memory access is at most a bank's; the address is bank and offset.\<close>

definition mem_select :: "'d mpu_bus \<Rightarrow> u16 \<Rightarrow> nat \<Rightarrow> 'd mpu_op \<Rightarrow> 'd mpu_op" where
  "mem_select bus mem_addr n next m =
     (let tmp = [ucast (drop_bit 8 mem_addr), ucast (mem_addr AND 0xFF)] :: u8 list
      in if sensors (chip_cfg m) = 0 \<or> hw_bank_size < unat (tmp ! 1) + n then (-1, m)
         else if_fails (i2c_write bus reg_bank_sel tmp) (-1) next m)"

definition mpu_write_mem :: "'d mpu_bus \<Rightarrow> u16 \<Rightarrow> u8 list \<Rightarrow> 'd mpu_op" where
  "mpu_write_mem bus mem_addr data =
     mem_select bus mem_addr (length data) (if_fails (i2c_write bus reg_mem_r_w data) (-1) (ret 0))"

definition mpu_read_mem :: "'d mpu_bus \<Rightarrow> u16 \<Rightarrow> nat \<Rightarrow> u8 list \<Rightarrow> 'd mpu \<Rightarrow> (int \<times> u8 list) \<times> 'd mpu" where
  "mpu_read_mem bus mem_addr n buf m =
     (case mem_select bus mem_addr n (ret 0) m of
        (k, m1) \<Rightarrow> if k \<noteq> 0 then ((-1, buf), m1)
                   else case i2c_read bus reg_mem_r_w n buf m1 of
                          ((k, data), m2) \<Rightarrow> ((if k \<noteq> 0 then -1 else 0, data), m2))"

abbreviation (input) LOAD_CHUNK :: nat where "LOAD_CHUNK \<equiv> 16"

text \<open>The loop over the image; \<open>fw\<close> is what is left of it, and \<open>cur\<close> is not initialised in the first round only.\<close>

function load_chunks :: "'d mpu_bus \<Rightarrow> nat \<Rightarrow> u8 list \<Rightarrow> u8 list \<Rightarrow> 'd mpu_op \<Rightarrow> 'd mpu_op" where
  "load_chunks bus ii fw cur next m =
     (if fw = [] then next m
      else let chunk = take LOAD_CHUNK fw
           in case mpu_write_mem bus (of_nat ii) chunk m of (k, m1) \<Rightarrow>
                if k \<noteq> 0 then (-2, m1)
                else case mpu_read_mem bus (of_nat ii) (length chunk) cur m1 of ((k, cur), m2) \<Rightarrow>
                  if k \<noteq> 0 then (-3, m2)
                  else if take (length chunk) cur \<noteq> chunk then (-4, m2)
                  else load_chunks bus (ii + length chunk) (drop LOAD_CHUNK fw) cur next m2)"
  by pat_completeness auto
termination by (relation "measure (\<lambda>(bus, ii, fw, cur, next, m). length fw)") auto

declare load_chunks.simps [simp del]

definition mpu_load_firmware :: "'d mpu_bus \<Rightarrow> u8 list \<Rightarrow> u16 \<Rightarrow> u16 \<Rightarrow> 'd mpu_op" where
  "mpu_load_firmware bus firmware start_addr rate m =
     (if truthy (dmp_loaded (chip_cfg m)) then (-1, m)
      else load_chunks bus 0 firmware (fresh bus LOAD_CHUNK)
             (if_fails (i2c_write bus reg_prgm_start_h [ucast (drop_bit 8 start_addr), ucast (start_addr AND 0xFF)]) (-5)
                (set_cfg (\<lambda>c. c\<lparr>dmp_loaded := 1, dmp_sample_rate := rate\<rparr>) (ret 0))) m)"

definition mpu_set_dmp_state :: "'d mpu_bus \<Rightarrow> u8 \<Rightarrow> 'd mpu_op" where
  "mpu_set_dmp_state bus enable m =
     (let c = chip_cfg m
      in if dmp_on c = enable then (0, m)
         else if truthy enable
         then if dmp_loaded c = 0 then (-1, m)
              else and_next (set_int_enable bus 0) (and_next (mpu_set_bypass bus 0)
                     (and_next (mpu_set_sample_rate bus (dmp_sample_rate c))
                     (if_fails (i2c_write bus 0x23 [0]) (-1)
                     (set_cfg (\<lambda>c. c\<lparr>dmp_on := 1\<rparr>)
                     (and_next (set_int_enable bus 1) (and_next (mpu_reset_fifo bus) (ret 0))))))) m
         else and_next (set_int_enable bus 0)
                (if_fails (i2c_write bus 0x23 [fifo_enable c]) (-1)
                (set_cfg (\<lambda>c. c\<lparr>dmp_on := 0\<rparr>) (and_next (mpu_reset_fifo bus) (ret 0)))) m)"

definition mpu_get_int_status :: "'d mpu_bus \<Rightarrow> 'd mpu \<Rightarrow> u16 option \<times> 'd mpu" where
  "mpu_get_int_status bus m =
     (if sensors (chip_cfg m) = 0 then (None, m)
      else case i2c_read bus reg_dmp_int_status 2 (fresh bus 2) m of ((k, tmp), m1) \<Rightarrow>
             (if k \<noteq> 0 then None else Some (push_bit 8 (wide (tmp ! 0)) OR wide (tmp ! 1)), m1))"

text \<open>\<open>mpu_get_gyro_reg\<close> and \<open>mpu_get_accel_reg\<close>: three words, if the sensor is on and the read succeeds.\<close>

definition get_raw :: "u8 \<Rightarrow> u8 \<Rightarrow> 'd mpu_bus \<Rightarrow> 'd mpu \<Rightarrow> i16 list option \<times> 'd mpu" where
  "get_raw feats r bus m =
     (if sensors (chip_cfg m) AND feats = 0 then (None, m)
      else case i2c_read bus r 6 (fresh bus 6) m of ((k, tmp), m1) \<Rightarrow>
             (if k \<noteq> 0 then None
              else Some (map (\<lambda>i. push_bit 8 (wide (tmp ! (2 * i))) OR wide (tmp ! (2 * i + 1))) [0..<3]), m1))"

definition mpu_get_gyro_reg :: "'d mpu_bus \<Rightarrow> 'd mpu \<Rightarrow> i16 list option \<times> 'd mpu" where
  "mpu_get_gyro_reg = get_raw INV_XYZ_GYRO reg_raw_gyro"

definition mpu_get_accel_reg :: "'d mpu_bus \<Rightarrow> 'd mpu \<Rightarrow> i16 list option \<times> 'd mpu" where
  "mpu_get_accel_reg = get_raw INV_XYZ_ACCEL reg_raw_accel"

text \<open>
  The factory's offsets of the sensors, three words of two bytes, and what is subtracted from them; the
  accelerometer's lowest bits stay as they are.
\<close>

fun read_words :: "'d mpu_bus \<Rightarrow> u8 list \<Rightarrow> 'd mpu \<Rightarrow> i32 list option \<times> 'd mpu" where
  "read_words bus [] m = (Some [], m)"
| "read_words bus (r # rs) m =
     (case i2c_read bus r 2 (fresh bus 2) m of ((k, data), m1) \<Rightarrow>
        if k \<noteq> 0 then (None, m1)
        else apfst (map_option (Cons (push_bit 8 (ucast (data ! 0)) OR ucast (data ! 1)))) (read_words bus rs m1))"

fun write_words :: "'d mpu_bus \<Rightarrow> (u8 \<times> i32) list \<Rightarrow> 'd mpu_op" where
  "write_words bus [] = ret 0"
| "write_words bus ((r, w) # ws) =
     if_fails (i2c_write bus r [ucast (signed_drop_bit 8 w AND 0xff), ucast (w AND 0xff)]) (-1) (write_words bus ws)"

definition shift_words :: "'d mpu_bus \<Rightarrow> u8 list \<Rightarrow> i32 list \<Rightarrow> 'd mpu_op" where
  "shift_words bus rs bias m =
     (case read_words bus rs m of
        (None, m1) \<Rightarrow> (-1, m1) | (Some ws, m1) \<Rightarrow> write_words bus (zip rs (map2 (-) ws bias)) m1)"

definition mpu_read_gyro_bias :: "'d mpu_bus \<Rightarrow> 'd mpu \<Rightarrow> i32 list option \<times> 'd mpu" where
  "mpu_read_gyro_bias bus = read_words bus [0x13, 0x15, 0x17]"

definition mpu_read_6050_accel_bias :: "'d mpu_bus \<Rightarrow> 'd mpu \<Rightarrow> i32 list option \<times> 'd mpu" where
  "mpu_read_6050_accel_bias bus = read_words bus [0x06, 0x08, 0x0A]"

definition mpu_read_6500_accel_bias :: "'d mpu_bus \<Rightarrow> 'd mpu \<Rightarrow> i32 list option \<times> 'd mpu" where
  "mpu_read_6500_accel_bias bus = read_words bus [0x77, 0x7A, 0x7D]"

definition mpu_set_gyro_bias_reg :: "'d mpu_bus \<Rightarrow> i32 list \<Rightarrow> 'd mpu_op" where
  "mpu_set_gyro_bias_reg bus bias = shift_words bus [0x13, 0x15, 0x17] bias"

definition mpu_set_accel_bias_6050_reg :: "'d mpu_bus \<Rightarrow> i32 list \<Rightarrow> 'd mpu_op" where
  "mpu_set_accel_bias_6050_reg bus bias = shift_words bus [0x06, 0x08, 0x0A] (map (\<lambda>b. b AND NOT 1) bias)"

definition mpu_set_accel_bias_6500_reg :: "'d mpu_bus \<Rightarrow> i32 list \<Rightarrow> 'd mpu_op" where
  "mpu_set_accel_bias_6500_reg bus bias = shift_words bus [0x77, 0x7A, 0x7D] (map (\<lambda>b. b AND NOT 1) bias)"

text \<open>Single registers, and all of them; neither reads the windows to the queue and to the memory.\<close>

definition mpu_read_reg :: "'d mpu_bus \<Rightarrow> u8 \<Rightarrow> 'd mpu \<Rightarrow> u8 option \<times> 'd mpu" where
  "mpu_read_reg bus r m =
     (if r = reg_fifo_r_w \<or> r = reg_mem_r_w \<or> hw_num_reg \<le> r then (None, m)
      else case i2c_read bus r 1 (fresh bus 1) m of ((k, data), m1) \<Rightarrow> (if k \<noteq> 0 then None else Some (data ! 0), m1))"

fun dump_regs :: "'d mpu_bus \<Rightarrow> nat list \<Rightarrow> 'd mpu_op" where
  "dump_regs bus [] = ret 0"
| "dump_regs bus (ii # is) =
     (let r = of_nat ii
      in if r = reg_fifo_r_w \<or> r = reg_mem_r_w then dump_regs bus is
         else read_then bus r 1 (fresh bus 1) (-1) (\<lambda>_. dump_regs bus is))"

definition mpu_reg_dump :: "'d mpu_bus \<Rightarrow> 'd mpu_op" where
  "mpu_reg_dump bus = dump_regs bus [0..<unat hw_num_reg]"

text \<open>
  A packet of the given length, with the number of packets that remain when that was stored. The caller's
  length is not 0 once a feature of the processor is enabled.
\<close>

definition mpu_read_fifo_stream ::
  "'d mpu_bus \<Rightarrow> u16 \<Rightarrow> u8 list \<Rightarrow> 'd mpu \<Rightarrow> (int \<times> u8 list \<times> u8 option) \<times> 'd mpu" where
  "mpu_read_fifo_stream bus len data m =
     (let c = chip_cfg m
      in if dmp_on c = 0 then ((-1, data, None), m)
         else if sensors c = 0 then ((-2, data, None), m)
         else case i2c_read bus reg_fifo_count_h 2 (fresh bus 2) m of ((k, tmp), m1) \<Rightarrow>
           if k \<noteq> 0 then ((-3, data, None), m1)
           else let fifo_count = push_bit 8 (wide (tmp ! 0)) OR wide (tmp ! 1) :: u16;
                    deliver = (\<lambda>m. case i2c_read bus reg_fifo_r_w (unat len) data m of ((k, data), m2) \<Rightarrow>
                       if k \<noteq> 0 then ((-7, data, None), m2) else ((0, data, Some (ucast (fifo_count div len - 1))), m2))
                in if fifo_count < len then ((-4, data, Some 0), m1)
                   else if drop_bit 1 hw_max_fifo < fifo_count
                   then case i2c_read bus reg_int_status 1 tmp m1 of ((k, tmp), m2) \<Rightarrow>
                          if k \<noteq> 0 then ((-5, data, None), m2)
                          else if truthy (tmp ! 0 AND BIT_FIFO_OVERFLOW)
                          then ((-6, data, None), snd (mpu_reset_fifo bus m2))
                          else deliver m2
                   else deliver m1)"

section \<open>inv\_mpu\_dmp\_motion\_driver.c\<close>

abbreviation (input) sStartAddress :: u16 where "sStartAddress \<equiv> 0x0400"
abbreviation (input) DMP_SAMPLE_RATE :: u16 where "DMP_SAMPLE_RATE \<equiv> 200"
abbreviation (input) DMP_MAX_PACKET_LENGTH :: nat where "DMP_MAX_PACKET_LENGTH \<equiv> 32"
abbreviation (input) D_0_22 :: u16 where "D_0_22 \<equiv> 534"
abbreviation (input) D_0_104 :: u16 where "D_0_104 \<equiv> 104"
abbreviation (input) CFG_6 :: u16 where "CFG_6 \<equiv> 2753"
abbreviation (input) CFG_8 :: u16 where "CFG_8 \<equiv> 2718"
abbreviation (input) CFG_15 :: u16 where "CFG_15 \<equiv> 2727"
abbreviation (input) CFG_27 :: u16 where "CFG_27 \<equiv> 2742"
abbreviation (input) CFG_LP_QUAT :: u16 where "CFG_LP_QUAT \<equiv> 2712"
abbreviation (input) CFG_MOTION_BIAS :: u16 where "CFG_MOTION_BIAS \<equiv> 1208"
abbreviation (input) CFG_GYRO_RAW_DATA :: u16 where "CFG_GYRO_RAW_DATA \<equiv> 2722"
abbreviation (input) CFG_FIFO_ON_EVENT :: u16 where "CFG_FIFO_ON_EVENT \<equiv> 2690"
abbreviation (input) FCFG_1 :: u16 where "FCFG_1 \<equiv> 1062"
abbreviation (input) FCFG_2 :: u16 where "FCFG_2 \<equiv> 1066"
abbreviation (input) FCFG_3 :: u16 where "FCFG_3 \<equiv> 1088"
abbreviation (input) FCFG_7 :: u16 where "FCFG_7 \<equiv> 1073"

abbreviation (input) DMP_FEATURE_TAP :: u16 where "DMP_FEATURE_TAP \<equiv> 0x001"
abbreviation (input) DMP_FEATURE_ANDROID_ORIENT :: u16 where "DMP_FEATURE_ANDROID_ORIENT \<equiv> 0x002"
abbreviation (input) DMP_FEATURE_LP_QUAT :: u16 where "DMP_FEATURE_LP_QUAT \<equiv> 0x004"
abbreviation (input) DMP_FEATURE_PEDOMETER :: u16 where "DMP_FEATURE_PEDOMETER \<equiv> 0x008"
abbreviation (input) DMP_FEATURE_6X_LP_QUAT :: u16 where "DMP_FEATURE_6X_LP_QUAT \<equiv> 0x010"
abbreviation (input) DMP_FEATURE_GYRO_CAL :: u16 where "DMP_FEATURE_GYRO_CAL \<equiv> 0x020"
abbreviation (input) DMP_FEATURE_SEND_RAW_ACCEL :: u16 where "DMP_FEATURE_SEND_RAW_ACCEL \<equiv> 0x040"
abbreviation (input) DMP_FEATURE_SEND_CAL_GYRO :: u16 where "DMP_FEATURE_SEND_CAL_GYRO \<equiv> 0x100"
abbreviation (input) DMP_FEATURE_SEND_ANY_GYRO :: u16 where "DMP_FEATURE_SEND_ANY_GYRO \<equiv> 0x180"
abbreviation (input) INV_WXYZ_QUAT :: u16 where "INV_WXYZ_QUAT \<equiv> 0x100"

definition dmp_load_motion_driver_firmware :: "'d mpu_bus \<Rightarrow> 'd mpu_op" where
  "dmp_load_motion_driver_firmware bus = mpu_load_firmware bus dmp_memory sStartAddress DMP_SAMPLE_RATE"

text \<open>
  The axes of gyroscope and accelerometer, and then their signs. None is a read behind the tables, which
  an axis of 3 brings about.
\<close>

definition dmp_set_orientation :: "'d mpu_bus \<Rightarrow> u16 \<Rightarrow> 'd mpu \<Rightarrow> (int \<times> 'd mpu) option" where
  "dmp_set_orientation bus ori m =
     (let axes = map (\<lambda>k. unat (drop_bit k ori AND 3)) [0, 3, 6];
          sign = (\<lambda>b bt. if truthy (ori AND bt) then b OR 1 else b)
      in if 3 \<in> set axes then None
         else Some (if_fails (mpu_write_mem bus FCFG_1 (map (nth [0x4c, 0xcd, 0x6c]) axes)) (-1)
           (if_fails (mpu_write_mem bus FCFG_2 (map (nth [0x0c, 0xc9, 0x2c]) axes)) (-1)
           (if_fails (mpu_write_mem bus FCFG_3 [sign 0x36 4, sign 0x56 0x20, sign 0x76 0x100]) (-1)
           (if_fails (mpu_write_mem bus FCFG_7 [sign 0x26 4, sign 0x46 0x20, sign 0x66 0x100]) (-1)
           (\<lambda>m. (0, m\<lparr>dmp := (dmp m)\<lparr>orient := ori\<rparr>\<rparr>))))) m))"

text \<open>None is the division by zero of a rate of 0.\<close>

definition dmp_set_fifo_rate :: "'d mpu_bus \<Rightarrow> u16 \<Rightarrow> 'd mpu \<Rightarrow> (int \<times> 'd mpu) option" where
  "dmp_set_fifo_rate bus rate m =
     (let regs_end = [0xfe, 0xf2, 0xab, 0xc4, 0xaa, 0xf1, 0xdf, 0xdf, 0xBB, 0xAF, 0xdf, 0xdf];
          div16 = DMP_SAMPLE_RATE div rate - 1
      in if DMP_SAMPLE_RATE < rate then Some (-1, m)
         else if rate = 0 then None
         else Some (if_fails (mpu_write_mem bus D_0_22 [ucast (drop_bit 8 div16 AND 0xFF), ucast (div16 AND 0xFF)]) (-1)
                (if_fails (mpu_write_mem bus CFG_6 regs_end) (-1)
                (\<lambda>m. (0, m\<lparr>dmp := (dmp m)\<lparr>fifo_rate := rate\<rparr>\<rparr>))) m))"

definition dmp_enable_gyro_cal :: "'d mpu_bus \<Rightarrow> bool \<Rightarrow> 'd mpu_op" where
  "dmp_enable_gyro_cal bus enable =
     mpu_write_mem bus CFG_MOTION_BIAS
       (if enable then [0xb8, 0xaa, 0xb3, 0x8d, 0xb4, 0x98, 0x0d, 0x35, 0x5d]
        else [0xb8, 0xaa, 0xaa, 0xaa, 0xb0, 0x88, 0xc3, 0xc5, 0xc7])"

definition dmp_enable_lp_quat :: "'d mpu_bus \<Rightarrow> bool \<Rightarrow> 'd mpu_op" where
  "dmp_enable_lp_quat bus enable =
     and_next (mpu_write_mem bus CFG_LP_QUAT (if enable then [0xc0, 0xc2, 0xc4, 0xc6] else replicate 4 0x8B))
       (mpu_reset_fifo bus)"

definition dmp_enable_6x_lp_quat :: "'d mpu_bus \<Rightarrow> bool \<Rightarrow> 'd mpu_op" where
  "dmp_enable_6x_lp_quat bus enable =
     and_next (mpu_write_mem bus CFG_8 (if enable then [0x20, 0x28, 0x30, 0x38] else replicate 4 0xA3))
       (mpu_reset_fifo bus)"

definition packet_length_of :: "u16 \<Rightarrow> u8" where
  "packet_length_of feats =
     (if truthy (feats AND DMP_FEATURE_SEND_RAW_ACCEL) then 6 else 0) +
     (if truthy (feats AND DMP_FEATURE_SEND_ANY_GYRO) then 6 else 0) +
     (if truthy (feats AND (DMP_FEATURE_LP_QUAT OR DMP_FEATURE_6X_LP_QUAT)) then 16 else 0) +
     (if truthy (feats AND (DMP_FEATURE_TAP OR DMP_FEATURE_ANDROID_ORIENT)) then 4 else 0)"

text \<open>GYRO\_SF is 46850825, or 0x02CAE309.\<close>

definition dmp_enable_feature :: "'d mpu_bus \<Rightarrow> u16 \<Rightarrow> 'd mpu_op" where
  "dmp_enable_feature bus feats =
     (let has = (\<lambda>f. truthy (feats AND f)); any_gyro = has DMP_FEATURE_SEND_ANY_GYRO
      in and_next (mpu_write_mem bus D_0_104 [0x02, 0xCA, 0xE3, 0x09])
         (and_next (mpu_write_mem bus CFG_15
            ([0xA3] @ (if has DMP_FEATURE_SEND_RAW_ACCEL then [0xC0, 0xC8, 0xC2] else [0xA3, 0xA3, 0xA3]) @
             (if any_gyro then [0xC4, 0xCC, 0xC6] else [0xA3, 0xA3, 0xA3]) @ [0xA3, 0xA3, 0xA3]))
         (and_next (mpu_write_mem bus CFG_27
            [if has (DMP_FEATURE_TAP OR DMP_FEATURE_ANDROID_ORIENT) then 0x20 else 0xD8])
         (and_next (dmp_enable_gyro_cal bus (has DMP_FEATURE_GYRO_CAL))
         (and_next
            (if any_gyro
             then mpu_write_mem bus CFG_GYRO_RAW_DATA
                    (if has DMP_FEATURE_SEND_CAL_GYRO then [0xB2, 0x8B, 0xB6, 0x9B] else [0xb0, 0x80, 0xb4, 0x90])
             else ret 0)
         (and_next (dmp_enable_lp_quat bus (has DMP_FEATURE_LP_QUAT))
         (and_next (dmp_enable_6x_lp_quat bus (has DMP_FEATURE_6X_LP_QUAT))
         (and_next (\<lambda>m. mpu_reset_fifo bus (m\<lparr>dmp := (dmp m)\<lparr>feature_mask := feats OR DMP_FEATURE_PEDOMETER\<rparr>\<rparr>))
         (\<lambda>m. (0, m\<lparr>dmp := (dmp m)\<lparr>packet_length := packet_length_of feats\<rparr>\<rparr>))))))))))"

definition dmp_set_interrupt_mode :: "'d mpu_bus \<Rightarrow> u8 \<Rightarrow> 'd mpu_op" where
  "dmp_set_interrupt_mode bus mode =
     (if mode = 2
      then mpu_write_mem bus CFG_FIFO_ON_EVENT [0xd8, 0xb1, 0xb9, 0xf3, 0x8b, 0xa3, 0x91, 0xb6, 0x09, 0xb4, 0xd9]
      else if mode = 1
      then mpu_write_mem bus CFG_FIFO_ON_EVENT [0xda, 0xb1, 0xb9, 0xf3, 0x8b, 0xa3, 0x91, 0xb6, 0xda, 0xb4, 0xda]
      else ret (-1))"

section \<open>Reading a packet\<close>

abbreviation (input) QUAT_MAG_SQ_MIN :: i32 where "QUAT_MAG_SQ_MIN \<equiv> 0xF000000"
abbreviation (input) QUAT_MAG_SQ_MAX :: i32 where "QUAT_MAG_SQ_MAX \<equiv> 0x11000000"

definition be_word :: "u8 list \<Rightarrow> nat \<Rightarrow> i32" where
  "be_word data i =
     push_bit 24 (ucast (data ! i)) OR push_bit 16 (ucast (data ! (i + 1))) OR push_bit 8 (ucast (data ! (i + 2))) OR
     ucast (data ! (i + 3))"

text \<open>The sum of the squares of the upper halves, in the 32 bits of a \<open>long\<close>.\<close>

definition quat_mag_sq :: "i32 list \<Rightarrow> i32" where
  "quat_mag_sq q = (\<Sum>w\<leftarrow>q. signed_drop_bit 16 w * signed_drop_bit 16 w)"

definition quat_accepted :: "i32 list \<Rightarrow> bool" where
  "quat_accepted q \<longleftrightarrow> \<not> (quat_mag_sq q <s QUAT_MAG_SQ_MIN \<or> QUAT_MAG_SQ_MAX <s quat_mag_sq q)"

text \<open>
  What a call stores through its pointers; None is a pointer's target that stays as it was, which for the
  guitar's NULL pointers is the only thing that may happen.
\<close>

record fifo_packet =
  pk_quat :: "i32 list option"
  pk_accel :: "i16 list option"
  pk_gyro :: "i16 list option"
  pk_sensors :: u16
  pk_more :: "u8 option"

definition three_shorts :: "u8 list \<Rightarrow> nat \<Rightarrow> i16 list" where
  "three_shorts data i =
     map (\<lambda>k. push_bit 8 (wide (data ! (i + 2 * k))) OR wide (data ! (i + 2 * k + 1))) [0..<3]"

definition dmp_read_fifo :: "'d mpu_bus \<Rightarrow> 'd mpu \<Rightarrow> (int \<times> fifo_packet) \<times> 'd mpu" where
  "dmp_read_fifo bus m =
     (let none = \<lparr>pk_quat = None, pk_accel = None, pk_gyro = None, pk_sensors = 0, pk_more = None\<rparr>;
          feats = feature_mask (dmp m); has = (\<lambda>f. truthy (feats AND f));
          with_quat = has (DMP_FEATURE_LP_QUAT OR DMP_FEATURE_6X_LP_QUAT)
      in case mpu_read_fifo_stream bus (ucast (packet_length (dmp m))) (fresh bus DMP_MAX_PACKET_LENGTH) m of
           ((output, data, left), m1) \<Rightarrow>
             if output \<noteq> 0 then ((output * 10, none\<lparr>pk_more := left\<rparr>), m1)
             else let q = map (be_word data) [0, 4, 8, 12]
                  in if with_quat \<and> \<not> quat_accepted q
                     then ((-2, none\<lparr>pk_quat := Some q, pk_more := left\<rparr>), snd (mpu_reset_fifo bus m1))
                     else let ii = (if with_quat then 16 else 0);
                              accel = has DMP_FEATURE_SEND_RAW_ACCEL; gyro = has DMP_FEATURE_SEND_ANY_GYRO;
                              jj = (if accel then ii + 6 else ii)
                          in ((0, \<lparr>pk_quat = if with_quat then Some q else None,
                                   pk_accel = if accel then Some (three_shorts data ii) else None,
                                   pk_gyro = if gyro then Some (three_shorts data jj) else None,
                                   pk_sensors = (if with_quat then INV_WXYZ_QUAT else 0) OR
                                     (if accel then ucast INV_XYZ_ACCEL else 0) OR (if gyro then ucast INV_XYZ_GYRO else 0),
                                   pk_more = left\<rparr>), m1))"

section \<open>The calls of guitar.h\<close>

text \<open>
  None is the division by zero in \<open>dmp_set_fifo_rate\<close>. The \<open>sei()\<close> at the start serves the interrupts of
  the two-wire driver, which is a parameter.
\<close>

definition initMPU6050 :: "'d mpu_bus \<Rightarrow> u16 \<Rightarrow> 'd mpu \<Rightarrow> 'd mpu option" where
  "initMPU6050 bus rate m =
     (let m1 = snd (and_next (mpu_init bus)
            (and_next (mpu_set_sensors bus (INV_XYZ_GYRO OR INV_XYZ_ACCEL))
            (and_next (mpu_set_gyro_fsr bus 2000)
            (and_next (mpu_set_accel_fsr bus 2)
            (and_next (mpu_configure_fifo bus (INV_XYZ_GYRO OR INV_XYZ_ACCEL))
            (dmp_load_motion_driver_firmware bus))))) m)
      in map_option (\<lambda>(_, m2). snd (and_next (mpu_set_dmp_state bus 1) (dmp_enable_feature bus DMP_FEATURE_6X_LP_QUAT) m2))
           (dmp_set_fifo_rate bus rate m1))"

text \<open>The words of the packet if the test of \<open>tickMPUTilt\<close> holds: the parameter of Input's tilt.\<close>

definition tilt_words :: "fifo_packet \<Rightarrow> (i32 \<times> i32 \<times> i32 \<times> i32) option" where
  "tilt_words p =
     (if pk_sensors p = INV_WXYZ_QUAT
      then map_option (\<lambda>q. (q ! 0, q ! 1, q ! 2, q ! 3)) (pk_quat p) else None)"

end
