(* ===== verification/Motion.thy ===== *)
theory Motion
  imports Mpu6050 Input
begin

text \<open>
  The motion sensor's driver over a chip that does what its register map says: what is configured
  when \<open>initMPU6050\<close> of \<open>guitar.h\<close> returns, how the image of the sensor's processor is loaded, what a poll delivers, and
  what happens when there is no sensor.
\<close>

section \<open>The chip\<close>

text \<open>
  The configuration registers, the window to the memory of the processor (bank, offset and
  data at 0x6D to 0x6F), and the queue of packets. A reset clears the registers; the reset bits of
  the control register clear themselves.
\<close>

record mpu_chip =
  mc_regs :: "u8 \<Rightarrow> u8"
  mc_bank :: u8
  mc_addr :: u8
  mc_mem :: "u16 \<Rightarrow> u8"
  mc_fifo :: "u8 list"

definition mem_at :: "mpu_chip \<Rightarrow> u16" where
  "mem_at c = push_bit 8 (ucast (mc_bank c)) OR ucast (mc_addr c)"

definition reset_regs :: "u8 \<Rightarrow> u8" where
  "reset_regs r = (if r = 0x6B then 0x40 else if r = 0x75 then 0x68 else 0)"

definition write_reg :: "u8 \<Rightarrow> u8 \<Rightarrow> mpu_chip \<Rightarrow> mpu_chip" where
  "write_reg r b c =
     (if r = reg_mem_r_w then c\<lparr>mc_mem := (mc_mem c)(mem_at c := b), mc_addr := mc_addr c + 1\<rparr>
      else if r = reg_bank_sel then c\<lparr>mc_bank := b\<rparr>
      else if r = reg_mem_start_addr then c\<lparr>mc_addr := b\<rparr>
      else if r = reg_pwr_mgmt_1 \<and> bit b 7 then c\<lparr>mc_regs := reset_regs, mc_fifo := []\<rparr>
      else if r = reg_user_ctrl
      then c\<lparr>mc_regs := (mc_regs c)(r := b AND 0xF0), mc_fifo := if bit b 2 then [] else mc_fifo c\<rparr>
      else c\<lparr>mc_regs := (mc_regs c)(r := b)\<rparr>)"

fun burst :: "u8 \<Rightarrow> u8 list \<Rightarrow> mpu_chip \<Rightarrow> mpu_chip" where
  "burst r [] c = c"
| "burst r (b # bs) c = burst (if r = reg_mem_r_w then r else r + 1) bs (write_reg r b c)"

definition mem_bytes :: "nat \<Rightarrow> mpu_chip \<Rightarrow> u8 list" where
  "mem_bytes n c = map (\<lambda>i. mc_mem c (mem_at c + of_nat i)) [0..<n]"

text \<open>
  While an access goes on, packets may arrive, and a running processor may change its own memory.
\<close>

definition dmp_running :: "mpu_chip \<Rightarrow> bool" where
  "dmp_running c \<longleftrightarrow> bit (mc_regs c reg_user_ctrl) 7"

definition agrees :: "mpu_chip \<Rightarrow> mpu_chip \<Rightarrow> bool" where
  "agrees c' c \<longleftrightarrow> mc_regs c' = mc_regs c \<and> mc_bank c' = mc_bank c \<and> mc_addr c' = mc_addr c \<and>
     (\<not> dmp_running c \<longrightarrow> mc_mem c' = mc_mem c) \<and> (\<exists>arrived. mc_fifo c' = mc_fifo c @ arrived)"

text \<open>Writes through the window fill consecutive places of the memory.\<close>

lemma unat_mem_at: "unat (mem_at c) = 256 * unat (mc_bank c) + unat (mc_addr c)"
proof -
  have "mem_at c = push_bit 8 (ucast (mc_bank c)) + ucast (mc_addr c)"
    unfolding mem_at_def
    by (rule disjunctive_add [symmetric]) (auto simp: bit_simps dest: bit_imp_le_length)
  moreover have "unat (mc_bank c) < 256" "unat (mc_addr c) < 256"
    using unsigned_less [of "mc_bank c"] unsigned_less [of "mc_addr c"] by simp_all
  ultimately show ?thesis
    by (simp add: unat_word_ariths push_bit_eq_mult unsigned_ucast_eq unsigned_take_bit_eq take_bit_nat_eq_self)
qed

lemma burst_mem:
  assumes "unat (mc_addr c) + length bs \<le> 256"
  shows "mc_mem (burst reg_mem_r_w bs c) a =
    (if unat (mem_at c) \<le> unat a \<and> unat a < unat (mem_at c) + length bs
     then bs ! (unat a - unat (mem_at c)) else mc_mem c a)"
  using assms
proof (induction bs arbitrary: c)
  case (Cons b bs)
  let ?c = "write_reg reg_mem_r_w b c"
  have mem: "mc_mem ?c = (mc_mem c)(mem_at c := b)" by (simp add: write_reg_def)
  show ?case
  proof (cases "bs = []")
    case True
    then show ?thesis by (auto simp: write_reg_def word_unat_eq_iff)
  next
    case False
    then have "unat (mc_addr c + 1) = unat (mc_addr c) + 1"
      using Cons.prems by (cases bs) (simp_all add: unat_word_ariths)
    then have at: "unat (mc_addr ?c) = unat (mc_addr c) + 1" "unat (mem_at ?c) = unat (mem_at c) + 1"
      unfolding unat_mem_at by (simp_all add: write_reg_def)
    from Cons.IH [of ?c] Cons.prems at show ?thesis
      by (auto simp: mem nth_Cons' word_unat_eq_iff)
  qed
qed auto

lemma chunk_fits: "16 dvd n \<Longrightarrow> n mod 256 + 16 \<le> (256 :: nat)"
proof -
  assume "16 dvd n"
  then obtain q where q: "n = 16 * q" by (elim dvdE)
  have "n mod 256 = 16 * (q mod 16)" using mult_mod_right [of 16 q 16] q by simp
  moreover have "q mod 16 < 16" by simp
  ultimately show "n mod 256 + 16 \<le> 256" by linarith
qed

lemma unat_sum: "i + k < 65536 \<Longrightarrow> unat (of_nat i + of_nat k :: u16) = i + k"
  by (simp add: unat_of_nat flip: of_nat_add)

text \<open>Two neighbouring pieces of memory are one.\<close>

lemma pieces_append:
  "(if ii + length xs \<le> x \<and> x < ii + length xs + length ys then ys ! (x - (ii + length xs))
    else if ii \<le> x \<and> x < ii + length xs then xs ! (x - ii) else r) =
   (if ii \<le> x \<and> x < ii + length (xs @ ys) then (xs @ ys) ! (x - ii) else r)"
  by (auto simp: nth_append)

lemma low_byte: "unat (ucast (a :: u16) :: u8) = unat a mod 256"
  by (simp add: unsigned_ucast_eq unsigned_take_bit_eq take_bit_eq_mod)

lemma bank_and_offset:
  "push_bit 8 (ucast (ucast (drop_bit 8 a) :: u8)) OR ucast (ucast a :: u8) = (a :: u16)"
  by (rule bit_word_eqI) (auto simp: bit_simps)

lemma count_word:
  assumes "n < 65536"
  shows "push_bit 8 (wide (of_nat (n div 256))) OR wide (of_nat n) = (of_nat n :: u16)"
proof -
  have "ucast (drop_bit 8 (of_nat n :: u16)) = (of_nat (n div 256) :: u8)" "ucast (of_nat n :: u16) = (of_nat n :: u8)"
    using assms
    by (simp_all add: word_unat_eq_iff unsigned_ucast_eq unsigned_take_bit_eq unat_of_nat take_bit_eq_mod
        drop_bit_eq_div unat_div mod_mod_cancel)
  then show ?thesis using bank_and_offset [of "of_nat n"] by simp
qed

lemma burst_at: "mc_bank (burst reg_mem_r_w bs c) = mc_bank c"
  by (induction bs arbitrary: c) (simp_all add: write_reg_def)

text \<open>
  What the register map promises of a chip on the bus, as long as its queue has room. \<open>view\<close> is the chip in a
  state of the bus.
\<close>

definition dev_put :: "'d mpu_bus \<Rightarrow> u8 \<Rightarrow> u8 list \<Rightarrow> 'd \<Rightarrow> 'd" where
  "dev_put bus r bs d = snd (mb_write bus hw_addr r bs d)"

lemma regs_write_reg:
  "mc_regs (write_reg r b c) =
     (if r \<in> {reg_mem_r_w, reg_bank_sel, reg_mem_start_addr} then mc_regs c
      else if r = reg_pwr_mgmt_1 \<and> bit b 7 then reset_regs
      else if r = reg_user_ctrl then (mc_regs c)(r := b AND 0xF0) else (mc_regs c)(r := b))"
  by (simp add: write_reg_def)

lemma mpu_update_eq [simp]:
  "m\<lparr>chip_cfg := c, mpu_dev := x\<rparr> = m\<lparr>chip_cfg := c', mpu_dev := d\<rparr> \<longleftrightarrow> c = c' \<and> x = (d :: 'd)"
  "m\<lparr>mpu_dev := x, dmp := p\<rparr> = m\<lparr>dmp := p', mpu_dev := d\<rparr> \<longleftrightarrow> p = p' \<and> x = (d :: 'd)"
  "m\<lparr>mpu_dev := x, chip_cfg := c\<rparr> = m\<lparr>chip_cfg := c', mpu_dev := d\<rparr> \<longleftrightarrow> c = c' \<and> x = (d :: 'd)"
  for m :: "'d mpu"
  by (cases m; auto)+

text \<open>The driver's state and the registers when the image is about to be loaded.\<close>

definition raw_cfg :: chip_cfg_s where
  "raw_cfg = \<lparr>gyro_fsr = 3, accel_fsr = 0, sensors = 0x78, lpf = 4, clk_src = 1, sample_rate = 50, fifo_enable = 0x78,
     int_enable = 1, bypass_mode = 0, accel_half = 0, lp_accel_mode = 0, int_motion_only = 0, cache = zero_cache,
     active_low_int = 1, latched_int = 0, dmp_on = 0, dmp_loaded = 0, dmp_sample_rate = 0\<rparr>"

definition raw_regs :: "u8 \<Rightarrow> u8" where
  "raw_regs = reset_regs(reg_pwr_mgmt_1 := 1, reg_gyro_cfg := 0x18, reg_accel_cfg := 0, reg_lpf := 4, reg_rate_div := 19,
     reg_int_pin_cfg := 0x80, reg_user_ctrl := 0x40, reg_pwr_mgmt_2 := 0, reg_int_enable := 1, reg_fifo_en := 0x78)"

text \<open>The same when the processor runs.\<close>

definition running_cfg :: chip_cfg_s where
  "running_cfg = raw_cfg\<lparr>lpf := 2, sample_rate := 200, int_enable := 2, dmp_on := 1, dmp_loaded := 1, dmp_sample_rate := 200\<rparr>"

definition running_regs :: "u8 \<Rightarrow> u8" where
  "running_regs = raw_regs(reg_prgm_start_h := 4, 0x71 := 0, reg_lpf := 2, reg_rate_div := 4, reg_user_ctrl := 0xC0,
     reg_int_enable := 2, reg_fifo_en := 0)"

definition dev_select :: "'d mpu_bus \<Rightarrow> u16 \<Rightarrow> 'd \<Rightarrow> 'd" where
  "dev_select bus a = dev_put bus reg_bank_sel [ucast (drop_bit 8 a), ucast (a AND 0xFF)]"

definition dev_reset :: "'d mpu_bus \<Rightarrow> 'd \<Rightarrow> 'd" where
  "dev_reset bus d =
     dev_put bus reg_fifo_en [0] (dev_put bus reg_int_enable [2] (dev_put bus reg_user_ctrl [0xC0]
       (mb_delay bus 50 (dev_put bus reg_user_ctrl [0x0C] (dev_put bus reg_user_ctrl [0]
       (dev_put bus reg_fifo_en [0] (dev_put bus reg_int_enable [0] d)))))))"

text \<open>The four words of a packet.\<close>

definition packet_words :: "u8 list \<Rightarrow> i32 list" where
  "packet_words f = map (be_word f) [0, 4, 8, 12]"

locale motion_chip =
  fixes bus :: "'d mpu_bus" and view :: "'d \<Rightarrow> mpu_chip"
  assumes write_ok: "bs \<noteq> [] \<Longrightarrow> length bs < 32 \<Longrightarrow> fst (mb_write bus hw_addr r bs d)"
    and write_agrees:
      "bs \<noteq> [] \<Longrightarrow> length bs < 32 \<Longrightarrow> agrees (view (snd (mb_write bus hw_addr r bs d))) (burst r bs (view d))"
    and delay_agrees: "agrees (view (mb_delay bus n d)) (view d)"
    and ctrl_read: "fst (mb_read bus hw_addr reg_user_ctrl 1 d) = (True, [mc_regs (view d) reg_user_ctrl])"
      "agrees (view (snd (mb_read bus hw_addr reg_user_ctrl 1 d))) (view d)"
    and mem_read: "0 < n \<Longrightarrow> n < 32 \<Longrightarrow> \<not> dmp_running (view d) \<Longrightarrow>
        fst (mb_read bus hw_addr reg_mem_r_w n d) = (True, mem_bytes n (view d)) \<and>
        agrees (view (snd (mb_read bus hw_addr reg_mem_r_w n d))) ((view d)\<lparr>mc_addr := mc_addr (view d) + of_nat n\<rparr>)"
    and count_read: "fst (mb_read bus hw_addr reg_fifo_count_h 2 d) =
        (True, [of_nat (length (mc_fifo (view d)) div 256), of_nat (length (mc_fifo (view d)))])"
      "agrees (view (snd (mb_read bus hw_addr reg_fifo_count_h 2 d))) (view d)"
    and fifo_read: "n \<le> length (mc_fifo (view d)) \<Longrightarrow>
        fst (mb_read bus hw_addr reg_fifo_r_w n d) = (True, take n (mc_fifo (view d))) \<and>
        agrees (view (snd (mb_read bus hw_addr reg_fifo_r_w n d))) ((view d)\<lparr>mc_fifo := drop n (mc_fifo (view d))\<rparr>)"
begin

lemma write_run [simp]:
  assumes "bs \<noteq> []" "length bs < 32"
  shows "i2c_write bus r bs m = (0, m\<lparr>mpu_dev := dev_put bus r bs (mpu_dev m)\<rparr>)"
  using assms write_ok [of bs r "mpu_dev m"] by (simp add: i2c_write_def dev_put_def case_prod_beta)

lemma put_regs [simp]:
  assumes "bs \<noteq> []" "length bs < 32"
  shows "mc_regs (view (dev_put bus r bs d)) = mc_regs (burst r bs (view d))"
    "mc_bank (view (dev_put bus r bs d)) = mc_bank (burst r bs (view d))"
    "mc_addr (view (dev_put bus r bs d)) = mc_addr (burst r bs (view d))"
    "dmp_running (view (dev_put bus r bs d)) = dmp_running (burst r bs (view d))"
    "\<not> dmp_running (burst r bs (view d)) \<Longrightarrow> mc_mem (view (dev_put bus r bs d)) = mc_mem (burst r bs (view d))"
  using write_agrees [OF assms, of r d] by (simp_all add: agrees_def dev_put_def dmp_running_def)

lemma delay_regs [simp]:
  "mc_regs (view (mb_delay bus n d)) = mc_regs (view d)" "dmp_running (view (mb_delay bus n d)) = dmp_running (view d)"
  "\<not> dmp_running (view d) \<Longrightarrow> mc_mem (view (mb_delay bus n d)) = mc_mem (view d)"
  using delay_agrees [of n d] by (simp_all add: agrees_def dmp_running_def)

lemma ctrl_run [simp]:
  "read_then bus reg_user_ctrl (Suc 0) buf e f m =
   f (overlay [mc_regs (view (mpu_dev m)) reg_user_ctrl] buf)
     (m\<lparr>mpu_dev := snd (mb_read bus hw_addr reg_user_ctrl (Suc 0) (mpu_dev m))\<rparr>)"
  using ctrl_read(1) [of "mpu_dev m"] by (simp add: read_then_def i2c_read_def case_prod_beta)

lemma ctrl_regs [simp]:
  "mc_regs (view (snd (mb_read bus hw_addr reg_user_ctrl (Suc 0) d))) = mc_regs (view d)"
  using ctrl_read(2) [of d] by (simp add: agrees_def)

lemmas statements = if_fails_def and_next_def set_cfg_def ret_def delay_ms_def Let_def

lemma configured_raw:
  "\<exists>d. and_next (mpu_init bus) (and_next (mpu_set_sensors bus 0x78) (and_next (mpu_set_gyro_fsr bus 2000)
        (and_next (mpu_set_accel_fsr bus 2) (mpu_configure_fifo bus 0x78)))) m = (0, m\<lparr>chip_cfg := raw_cfg, mpu_dev := d\<rparr>) \<and>
     mc_regs (view d) = raw_regs"
proof -
  have cfg: "c\<lparr>accel_half := 0, active_low_int := 1, latched_int := 0, int_motion_only := 0, cache := zero_cache,
      dmp_on := 0, dmp_loaded := 0, dmp_sample_rate := 0, gyro_fsr := 3, accel_fsr := 0, sample_rate := 50, lpf := 4,
      bypass_mode := 0, clk_src := 1, sensors := 120, lp_accel_mode := 0, fifo_enable := 120, int_enable := 1\<rparr> =
    raw_cfg" for c :: chip_cfg_s
    by (cases c) (simp add: raw_cfg_def)
  show ?thesis
    by (simp add: statements mpu_init_def mpu_set_gyro_fsr_def mpu_set_accel_fsr_def mpu_set_lpf_def filter_for_def
        mpu_set_sample_rate_def mpu_configure_fifo_def set_int_enable_def mpu_set_bypass_def mpu_set_sensors_def
        mpu_set_int_latched_def mpu_reset_fifo_def overlay_def cfg raw_cfg_def regs_write_reg raw_regs_def fun_eq_iff)
qed

text \<open>An access to the memory, and the reset of the queue while the processor runs, as one step of the bus.\<close>

lemma mem_select_run [simp]:
  "sensors (chip_cfg m) \<noteq> 0 \<Longrightarrow> unat a mod 256 + n \<le> 256 \<Longrightarrow>
   mem_select bus a n next m = next (m\<lparr>mpu_dev := dev_select bus a (mpu_dev m)\<rparr>)"
  by (simp add: mem_select_def if_fails_def dev_select_def low_byte Let_def)

lemma select_regs [simp]:
  "mc_regs (view (dev_select bus a d)) = mc_regs (view d)"
  "dmp_running (view (dev_select bus a d)) = dmp_running (view d)"
  "mem_at (view (dev_select bus a d)) = a" "mc_addr (view (dev_select bus a d)) = ucast a"
  "\<not> dmp_running (view d) \<Longrightarrow> mc_mem (view (dev_select bus a d)) = mc_mem (view d)"
  by (simp_all add: dev_select_def write_reg_def mem_at_def dmp_running_def bank_and_offset ucast_and_0xff)

lemma write_mem_run [simp]:
  "sensors (chip_cfg m) \<noteq> 0 \<Longrightarrow> unat a mod 256 + length bs \<le> 256 \<Longrightarrow> bs \<noteq> [] \<Longrightarrow> length bs < 32 \<Longrightarrow>
   mpu_write_mem bus a bs m = (0, m\<lparr>mpu_dev := dev_put bus reg_mem_r_w bs (dev_select bus a (mpu_dev m))\<rparr>)"
  by (simp add: mpu_write_mem_def if_fails_def ret_def)

lemma regs_mem_burst [simp]: "mc_regs (burst reg_mem_r_w bs c) = mc_regs c"
  by (induction bs arbitrary: c) (simp_all add: write_reg_def)

lemma reset_run:
  assumes "sensors (chip_cfg m) = 0x78" "dmp_on (chip_cfg m) = 1" "int_enable (chip_cfg m) = 2"
  shows "mpu_reset_fifo bus m = (0, m\<lparr>mpu_dev := dev_reset bus (mpu_dev m)\<rparr>)"
  using assms by (simp add: mpu_reset_fifo_def statements dev_reset_def)

lemma reset_regs [simp]:
  "mc_regs (view (dev_reset bus d)) = (mc_regs (view d))(reg_int_enable := 2, reg_fifo_en := 0, reg_user_ctrl := 0xC0)"
  by (simp add: dev_reset_def regs_write_reg fun_eq_iff)

lemma feature_run:
  assumes "sensors (chip_cfg m) = 0x78" "dmp_on (chip_cfg m) = 1" "int_enable (chip_cfg m) = 2"
  shows "\<exists>d. dmp_enable_feature bus 0x10 m =
      (0, m\<lparr>dmp := (dmp m)\<lparr>feature_mask := 0x18, packet_length := 16\<rparr>, mpu_dev := d\<rparr>) \<and>
    mc_regs (view d) = (mc_regs (view (mpu_dev m)))(reg_int_enable := 2, reg_fifo_en := 0, reg_user_ctrl := 0xC0)"
  using assms
  by (simp add: dmp_enable_feature_def statements dmp_enable_gyro_cal_def dmp_enable_lp_quat_def
      dmp_enable_6x_lp_quat_def packet_length_of_def reset_run regs_write_reg fun_eq_iff)

lemma put_mem:
  assumes "\<not> dmp_running (view d)" "unat a mod 256 + length bs \<le> 256" "bs \<noteq> []" "length bs < 32"
  shows "mc_mem (view (dev_put bus reg_mem_r_w bs (dev_select bus a d))) x =
    (if unat a \<le> unat x \<and> unat x < unat a + length bs then bs ! (unat x - unat a) else mc_mem (view d) x)"
    "\<not> dmp_running (view (dev_put bus reg_mem_r_w bs (dev_select bus a d)))"
  using assms burst_mem [of "view (dev_select bus a d)" bs x] low_byte [of a]
  by (simp_all add: dmp_running_def)

lemma read_mem_run:
  assumes "\<not> dmp_running (view (mpu_dev m))" "unat a mod 256 + n \<le> 256" "0 < n" "n < 32" "sensors (chip_cfg m) \<noteq> 0"
  shows "\<exists>d. mpu_read_mem bus a n buf m =
      ((0, overlay (map (\<lambda>i. mc_mem (view (mpu_dev m)) (a + of_nat i)) [0..<n]) buf), m\<lparr>mpu_dev := d\<rparr>) \<and>
    mc_regs (view d) = mc_regs (view (mpu_dev m)) \<and> mc_mem (view d) = mc_mem (view (mpu_dev m))"
proof -
  let ?d = "dev_select bus a (mpu_dev m)"
  have r: "fst (mb_read bus hw_addr reg_mem_r_w n ?d) = (True, mem_bytes n (view ?d))"
    "agrees (view (snd (mb_read bus hw_addr reg_mem_r_w n ?d))) ((view ?d)\<lparr>mc_addr := mc_addr (view ?d) + of_nat n\<rparr>)"
    using mem_read [of n ?d] assms by simp_all
  then have "mc_regs (view (snd (mb_read bus hw_addr reg_mem_r_w n ?d))) = mc_regs (view (mpu_dev m))"
    "mc_mem (view (snd (mb_read bus hw_addr reg_mem_r_w n ?d))) = mc_mem (view (mpu_dev m))"
    using assms(1) by (simp_all add: agrees_def dmp_running_def)
  moreover have "mem_bytes n (view ?d) = map (\<lambda>i. mc_mem (view (mpu_dev m)) (a + of_nat i)) [0..<n]"
    using assms(1) by (simp add: mem_bytes_def)
  ultimately show ?thesis
    using r(1) assms
    by (intro exI [of _ "snd (mb_read bus hw_addr reg_mem_r_w n ?d)"])
      (simp add: mpu_read_mem_def ret_def i2c_read_def case_prod_beta)
qed

lemma load_step:
  assumes "sensors (chip_cfg m) \<noteq> 0" "\<not> dmp_running (view (mpu_dev m))" "16 dvd ii"
    "ii + length fw \<le> 65536" "fw \<noteq> []"
  shows "\<exists>d. load_chunks bus ii fw cur next m =
      load_chunks bus (ii + length (take 16 fw)) (drop 16 fw) (overlay (take 16 fw) cur) next (m\<lparr>mpu_dev := d\<rparr>) \<and>
    mc_regs (view d) = mc_regs (view (mpu_dev m)) \<and>
    (\<forall>x. mc_mem (view d) x = (if ii \<le> unat x \<and> unat x < ii + length (take 16 fw)
       then take 16 fw ! (unat x - ii) else mc_mem (view (mpu_dev m)) x))"
proof -
  define chunk where "chunk = take 16 fw"
  have c: "chunk \<noteq> []" "length chunk \<le> 16" "length chunk < 32" "ii + length chunk \<le> 65536"
    using assms(4,5) by (simp_all add: chunk_def)
  have ii: "unat (of_nat ii :: u16) = ii" using c(1,4) by (cases chunk) (simp_all add: unat_of_nat)
  from ii c(2) have fits: "unat (of_nat ii :: u16) mod 256 + length chunk \<le> 256"
    using chunk_fits [OF assms(3)] by simp
  let ?d1 = "dev_put bus reg_mem_r_w chunk (dev_select bus (of_nat ii) (mpu_dev m))"
  note put = put_mem [OF assms(2) fits c(1,3), unfolded ii]
  obtain d2 where d2: "mpu_read_mem bus (of_nat ii) (length chunk) cur (m\<lparr>mpu_dev := ?d1\<rparr>) =
      ((0, overlay (map (\<lambda>i. mc_mem (view ?d1) (of_nat ii + of_nat i)) [0..<length chunk]) cur), m\<lparr>mpu_dev := d2\<rparr>)"
    "mc_regs (view d2) = mc_regs (view ?d1)" "mc_mem (view d2) = mc_mem (view ?d1)"
    using read_mem_run [of "m\<lparr>mpu_dev := ?d1\<rparr>" "of_nat ii" "length chunk" cur] put(2) fits c(1-3) assms(1) by auto
  have "map (\<lambda>i. mc_mem (view ?d1) (of_nat ii + of_nat i)) [0..<length chunk] = chunk"
  proof (rule nth_equalityI)
    fix i assume i: "i < length (map (\<lambda>i. mc_mem (view ?d1) (of_nat ii + of_nat i)) [0..<length chunk])"
    then have "unat (of_nat ii + of_nat i :: u16) = ii + i" using c(4) by (intro unat_sum) simp
    with i put(1) [of "of_nat ii + of_nat i"]
    show "map (\<lambda>i. mc_mem (view ?d1) (of_nat ii + of_nat i)) [0..<length chunk] ! i = chunk ! i" by simp
  qed simp
  with d2(1) have read: "mpu_read_mem bus (of_nat ii) (length chunk) cur (m\<lparr>mpu_dev := ?d1\<rparr>) =
      ((0, overlay chunk cur), m\<lparr>mpu_dev := d2\<rparr>)" by simp
  have wr: "mpu_write_mem bus (of_nat ii) chunk m = (0, m\<lparr>mpu_dev := ?d1\<rparr>)"
    using assms(1) fits c(1,3) by simp
  have "load_chunks bus ii fw cur next m =
      load_chunks bus (ii + length chunk) (drop 16 fw) (overlay chunk cur) next (m\<lparr>mpu_dev := d2\<rparr>)"
    using assms(5)
    by (subst load_chunks.simps) (simp only: chunk_def [symmetric] Let_def wr read overlay_def if_False prod.case
        not_True_eq_False take_append diff_self_eq_0 take_0 append_Nil2 take_all_iff le_refl simp_thms)
  moreover have "mc_regs (view d2) = mc_regs (view (mpu_dev m))" using d2(2) c(1,3) by simp
  moreover have "mc_mem (view d2) x = (if ii \<le> unat x \<and> unat x < ii + length chunk
      then chunk ! (unat x - ii) else mc_mem (view (mpu_dev m)) x)" for x
    unfolding d2(3) by (rule put(1))
  ultimately show ?thesis unfolding chunk_def by blast
qed

lemma load_run:
  assumes "sensors (chip_cfg m) \<noteq> 0" "\<not> dmp_running (view (mpu_dev m))" "fw \<noteq> [] \<longrightarrow> 16 dvd ii"
    "ii + length fw \<le> 65536"
  shows "\<exists>d. load_chunks bus ii fw cur next m = next (m\<lparr>mpu_dev := d\<rparr>) \<and>
    mc_regs (view d) = mc_regs (view (mpu_dev m)) \<and>
    (\<forall>x. mc_mem (view d) x =
       (if ii \<le> unat x \<and> unat x < ii + length fw then fw ! (unat x - ii) else mc_mem (view (mpu_dev m)) x))"
  using assms
proof (induction "length fw" arbitrary: ii fw cur m rule: less_induct)
  case less
  show ?case
  proof (cases "fw = []")
    case True
    then show ?thesis by (intro exI [of _ "mpu_dev m"]) (auto simp: load_chunks.simps)
  next
    case False
    from load_step [OF less.prems(1,2) _ less.prems(4) False] less.prems(3) False obtain d1
      where d1: "load_chunks bus ii fw cur next m =
          load_chunks bus (ii + length (take 16 fw)) (drop 16 fw) (overlay (take 16 fw) cur) next (m\<lparr>mpu_dev := d1\<rparr>)"
        "mc_regs (view d1) = mc_regs (view (mpu_dev m))"
        "\<And>x. mc_mem (view d1) x = (if ii \<le> unat x \<and> unat x < ii + length (take 16 fw)
           then take 16 fw ! (unat x - ii) else mc_mem (view (mpu_dev m)) x)"
      by metis
    have pre: "length (drop 16 fw) < length fw" "sensors (chip_cfg (m\<lparr>mpu_dev := d1\<rparr>)) \<noteq> 0"
      "\<not> dmp_running (view (mpu_dev (m\<lparr>mpu_dev := d1\<rparr>)))" "drop 16 fw \<noteq> [] \<longrightarrow> 16 dvd ii + length (take 16 fw)"
      "ii + length (take 16 fw) + length (drop 16 fw) \<le> 65536"
      using False less.prems d1(2) by (simp_all add: dmp_running_def)
    from less.hyps [OF pre, of "overlay (take 16 fw) cur"] obtain d
      where d: "load_chunks bus ii fw cur next m = next (m\<lparr>mpu_dev := d\<rparr>)" "mc_regs (view d) = mc_regs (view (mpu_dev m))"
        "\<And>x. mc_mem (view d) x = (if ii + length (take 16 fw) \<le> unat x \<and>
             unat x < ii + length (take 16 fw) + length (drop 16 fw)
           then drop 16 fw ! (unat x - (ii + length (take 16 fw))) else mc_mem (view d1) x)"
      using d1(1,2) by auto
    have "mc_mem (view d) x =
        (if ii \<le> unat x \<and> unat x < ii + length fw then fw ! (unat x - ii) else mc_mem (view (mpu_dev m)) x)" for x
      using pieces_append [of ii "take 16 fw" "unat x" "drop 16 fw" "mc_mem (view (mpu_dev m)) x"]
      unfolding d(3) d1(3) append_take_drop_id .
    with d(1,2) show ?thesis by blast
  qed
qed

text \<open>From the loaded image on; \<open>rate\<close> is that of the packets.\<close>

lemma rate_run:
  assumes "sensors (chip_cfg m) = 0x78" "rate \<noteq> 0" "rate \<le> 200"
  shows "\<exists>d. dmp_set_fifo_rate bus rate m = Some (0, m\<lparr>dmp := (dmp m)\<lparr>fifo_rate := rate\<rparr>, mpu_dev := d\<rparr>) \<and>
    mc_regs (view d) = mc_regs (view (mpu_dev m))"
  using assms by (simp add: dmp_set_fifo_rate_def statements not_less regs_write_reg)

lemma dmp_state_run:
  assumes "chip_cfg m = raw_cfg\<lparr>dmp_loaded := 1, dmp_sample_rate := 200\<rparr>"
  shows "\<exists>d. mpu_set_dmp_state bus 1 m = (0, m\<lparr>chip_cfg := running_cfg, mpu_dev := d\<rparr>) \<and>
    mc_regs (view d) = (mc_regs (view (mpu_dev m)))(reg_lpf := 2, reg_rate_div := 4, reg_user_ctrl := 0xC0,
      reg_int_enable := 2, reg_fifo_en := 0)"
  using assms
  by (simp add: mpu_set_dmp_state_def statements raw_cfg_def set_int_enable_def mpu_set_bypass_def
      mpu_set_sample_rate_def mpu_set_lpf_def filter_for_def reset_run running_cfg_def regs_write_reg fun_eq_iff)

lemma loaded:
  assumes "chip_cfg m = raw_cfg" "mc_regs (view (mpu_dev m)) = raw_regs"
  shows "\<exists>d. dmp_load_motion_driver_firmware bus m =
      (0, m\<lparr>chip_cfg := raw_cfg\<lparr>dmp_loaded := 1, dmp_sample_rate := 200\<rparr>, mpu_dev := d\<rparr>) \<and>
    mc_regs (view d) = raw_regs(reg_prgm_start_h := 4, 0x71 := 0) \<and>
    (\<forall>x. unat x < DMP_CODE_SIZE \<longrightarrow> mc_mem (view d) x = dmp_memory ! unat x)"
proof -
  have off: "\<not> dmp_running (view (mpu_dev m))" "sensors (chip_cfg m) \<noteq> 0" "dmp_loaded (chip_cfg m) = 0"
    using assms by (simp_all add: dmp_running_def raw_regs_def raw_cfg_def)
  define cont where "cont = if_fails (i2c_write bus reg_prgm_start_h [4, 0]) (-5)
    (set_cfg (\<lambda>c. c\<lparr>dmp_loaded := 1, dmp_sample_rate := 200\<rparr>) (ret 0))"
  from load_run [OF off(2,1), of dmp_memory 0 "fresh bus 16" cont] obtain d
    where d: "load_chunks bus 0 dmp_memory (fresh bus 16) cont m = cont (m\<lparr>mpu_dev := d\<rparr>)"
      "mc_regs (view d) = raw_regs" "\<And>x. unat x < DMP_CODE_SIZE \<Longrightarrow> mc_mem (view d) x = dmp_memory ! unat x"
    using assms(2) by (auto simp: length_dmp_memory)
  have "dmp_load_motion_driver_firmware bus m = load_chunks bus 0 dmp_memory (fresh bus 16) cont m"
    using off(3) by (simp add: dmp_load_motion_driver_firmware_def mpu_load_firmware_def cont_def)
  then show ?thesis
    using d assms(1)
    by (simp add: cont_def statements regs_write_reg dmp_running_def raw_regs_def write_reg_def)
qed

lemma init_run:
  assumes "rate \<noteq> 0" "rate \<le> 200"
  shows "\<exists>d. initMPU6050 bus rate m = Some (m\<lparr>chip_cfg := running_cfg,
      dmp := (dmp m)\<lparr>feature_mask := 0x18, fifo_rate := rate, packet_length := 16\<rparr>, mpu_dev := d\<rparr>) \<and>
    mc_regs (view d) = running_regs"
proof -
  obtain d1 where d1: "and_next (mpu_init bus) (and_next (mpu_set_sensors bus 0x78) (and_next (mpu_set_gyro_fsr bus 2000)
      (and_next (mpu_set_accel_fsr bus 2) (mpu_configure_fifo bus 0x78)))) m = (0, m\<lparr>chip_cfg := raw_cfg, mpu_dev := d1\<rparr>)"
    "mc_regs (view d1) = raw_regs" using configured_raw by blast
  let ?m1 = "m\<lparr>chip_cfg := raw_cfg, mpu_dev := d1\<rparr>"
  from loaded [of ?m1] d1(2) obtain d2 where d2: "dmp_load_motion_driver_firmware bus ?m1 =
      (0, ?m1\<lparr>chip_cfg := raw_cfg\<lparr>dmp_loaded := 1, dmp_sample_rate := 200\<rparr>, mpu_dev := d2\<rparr>)"
    "mc_regs (view d2) = raw_regs(reg_prgm_start_h := 4, 0x71 := 0)" by auto
  let ?m2 = "m\<lparr>chip_cfg := raw_cfg\<lparr>dmp_loaded := 1, dmp_sample_rate := 200\<rparr>, mpu_dev := d2\<rparr>"
  from rate_run [of ?m2 rate] assms obtain d3 where d3: "dmp_set_fifo_rate bus rate ?m2 =
      Some (0, ?m2\<lparr>dmp := (dmp m)\<lparr>fifo_rate := rate\<rparr>, mpu_dev := d3\<rparr>)" "mc_regs (view d3) = mc_regs (view d2)"
    by (auto simp: raw_cfg_def)
  let ?m3 = "?m2\<lparr>dmp := (dmp m)\<lparr>fifo_rate := rate\<rparr>, mpu_dev := d3\<rparr>"
  from dmp_state_run [of ?m3] obtain d4 where d4: "mpu_set_dmp_state bus 1 ?m3 =
      (0, ?m3\<lparr>chip_cfg := running_cfg, mpu_dev := d4\<rparr>)"
    "mc_regs (view d4) = (mc_regs (view d3))(reg_lpf := 2, reg_rate_div := 4, reg_user_ctrl := 0xC0,
      reg_int_enable := 2, reg_fifo_en := 0)" by auto
  let ?m4 = "?m3\<lparr>chip_cfg := running_cfg, mpu_dev := d4\<rparr>"
  from feature_run [of ?m4] obtain d5 where d5: "dmp_enable_feature bus 0x10 ?m4 =
      (0, ?m4\<lparr>dmp := (dmp ?m4)\<lparr>feature_mask := 0x18, packet_length := 16\<rparr>, mpu_dev := d5\<rparr>)"
    "mc_regs (view d5) = (mc_regs (view d4))(reg_int_enable := 2, reg_fifo_en := 0, reg_user_ctrl := 0xC0)"
    by (auto simp: running_cfg_def raw_cfg_def)
  have "mc_regs (view d5) = running_regs"
    unfolding d5(2) d4(2) d3(2) d2(2) by (simp add: running_regs_def fun_eq_iff)
  moreover have "initMPU6050 bus rate m = Some (m\<lparr>chip_cfg := running_cfg,
      dmp := (dmp m)\<lparr>feature_mask := 0x18, fifo_rate := rate, packet_length := 16\<rparr>, mpu_dev := d5\<rparr>)"
    using d1(1) d2(1) d3(1) d4(1) d5(1)
    by (cases m) (simp add: initMPU6050_def Let_def and_next_def)
  ultimately show ?thesis by blast
qed

text \<open>The count that a poll reads, and the packet.\<close>

lemma count_run:
  "i2c_read bus reg_fifo_count_h 2 buf m =
     ((0, overlay [of_nat (length (mc_fifo (view (mpu_dev m))) div 256), of_nat (length (mc_fifo (view (mpu_dev m))))] buf),
      m\<lparr>mpu_dev := snd (mb_read bus hw_addr reg_fifo_count_h 2 (mpu_dev m))\<rparr>)"
  using count_read(1) [of "mpu_dev m"] by (simp add: i2c_read_def case_prod_beta)

lemma fifo_run:
  "n \<le> length (mc_fifo (view (mpu_dev m))) \<Longrightarrow> n < 256 \<Longrightarrow> i2c_read bus reg_fifo_r_w n buf m =
     ((0, overlay (take n (mc_fifo (view (mpu_dev m)))) buf),
      m\<lparr>mpu_dev := snd (mb_read bus hw_addr reg_fifo_r_w n (mpu_dev m))\<rparr>)"
  using fifo_read [of n "mpu_dev m"] by (simp add: i2c_read_def case_prod_beta)

lemma after_count:
  "\<exists>arrived. mc_fifo (view (snd (mb_read bus hw_addr reg_fifo_count_h 2 d))) = mc_fifo (view d) @ arrived"
  using count_read(2) [of d] by (simp add: agrees_def)

lemma after_fifo:
  "n \<le> length (mc_fifo (view d)) \<Longrightarrow>
   \<exists>arrived. mc_fifo (view (snd (mb_read bus hw_addr reg_fifo_r_w n d))) = drop n (mc_fifo (view d)) @ arrived"
  using fifo_read [of n d] by (auto simp: agrees_def)

lemma poll_regs:
  "mc_regs (view (snd (mb_read bus hw_addr reg_fifo_count_h 2 d))) = mc_regs (view d)"
  "n \<le> length (mc_fifo (view d)) \<Longrightarrow> mc_regs (view (snd (mb_read bus hw_addr reg_fifo_r_w n d))) = mc_regs (view d)"
  using count_read(2) [of d] fifo_read [of n d] by (simp_all add: agrees_def)

lemma stream_run:
  assumes "dmp_on (chip_cfg m) \<noteq> 0" "sensors (chip_cfg m) \<noteq> 0" "length buf = 32"
    "length (mc_fifo (view (mpu_dev m))) \<le> 512"
  defines "f \<equiv> mc_fifo (view (mpu_dev m))"
  shows "\<exists>d left. mpu_read_fifo_stream bus 16 buf m =
      ((if length f < 16 then -4 else 0, if length f < 16 then buf else overlay (take 16 f) buf, left), m\<lparr>mpu_dev := d\<rparr>) \<and>
    mc_regs (view d) = mc_regs (view (mpu_dev m)) \<and>
    (\<exists>a. mc_fifo (view d) = (if length f < 16 then f else drop 16 f) @ a)"
proof -
  let ?d1 = "snd (mb_read bus hw_addr reg_fifo_count_h 2 (mpu_dev m))"
  have n: "length f \<le> 512" using assms(4) by (simp add: f_def)
  have w: "(of_nat (length f) :: u16) < 16 \<longleftrightarrow> length f < 16" "\<not> (512 :: u16) < of_nat (length f)"
    using n by (simp_all add: word_less_nat_alt unat_of_nat)
  note count = count_run [of "fresh bus 2" m, folded f_def] count_word [of "length f"]
  obtain a where a: "mc_fifo (view ?d1) = f @ a" using after_count [of "mpu_dev m"] by (auto simp: f_def)
  show ?thesis
  proof (cases "length f < 16")
    case True
    with assms(1,2) n w count a show ?thesis
      by (intro exI [of _ ?d1]) (simp add: mpu_read_fifo_stream_def Let_def overlay_def fresh_def poll_regs(1))
  next
    case False
    have fr: "i2c_read bus reg_fifo_r_w 16 buf (m\<lparr>mpu_dev := ?d1\<rparr>) =
        ((0, overlay (take 16 f) buf), m\<lparr>mpu_dev := snd (mb_read bus hw_addr reg_fifo_r_w 16 ?d1)\<rparr>)"
      using fifo_run [of 16 "m\<lparr>mpu_dev := ?d1\<rparr>" buf] a False by simp
    have "mc_regs (view (snd (mb_read bus hw_addr reg_fifo_r_w 16 ?d1))) = mc_regs (view (mpu_dev m))"
      "\<exists>b. mc_fifo (view (snd (mb_read bus hw_addr reg_fifo_r_w 16 ?d1))) = drop 16 f @ b"
      using poll_regs(2) [of 16 ?d1] poll_regs(1) [of "mpu_dev m"] after_fifo [of 16 ?d1] a False by auto
    with False assms(1,2) n w count fr show ?thesis
      by (intro exI [of _ "snd (mb_read bus hw_addr reg_fifo_r_w 16 ?d1)"])
        (simp add: mpu_read_fifo_stream_def Let_def overlay_def fresh_def)
  qed
qed

lemma poll_run:
  assumes "chip_cfg m = running_cfg" "feature_mask (dmp m) = 0x18" "packet_length (dmp m) = 16"
    "mc_regs (view (mpu_dev m)) = running_regs" "length (mc_fifo (view (mpu_dev m))) \<le> 512"
  defines "f \<equiv> mc_fifo (view (mpu_dev m))"
  shows "\<exists>k p d. dmp_read_fifo bus m = ((k, p), m\<lparr>mpu_dev := d\<rparr>) \<and> mc_regs (view d) = running_regs \<and>
    (if length f < 16 then k = -40 \<and> tilt_words p = None \<and> (\<exists>a. mc_fifo (view d) = f @ a)
     else if quat_accepted (packet_words f)
     then k = 0 \<and> tilt_words p = Some (be_word f 0, be_word f 4, be_word f 8, be_word f 12) \<and>
       (\<exists>a. mc_fifo (view d) = drop 16 f @ a)
     else k = -2 \<and> tilt_words p = None)"
proof -
  have on: "dmp_on (chip_cfg m) \<noteq> 0" "sensors (chip_cfg m) \<noteq> 0" "length (fresh bus 32) = 32"
    using assms(1) by (simp_all add: running_cfg_def raw_cfg_def fresh_def)
  from stream_run [OF on assms(5), folded f_def] obtain d left where
    st: "mpu_read_fifo_stream bus 16 (fresh bus 32) m = ((if length f < 16 then -4 else 0,
        if length f < 16 then fresh bus 32 else overlay (take 16 f) (fresh bus 32), left), m\<lparr>mpu_dev := d\<rparr>)"
      "mc_regs (view d) = running_regs" "\<exists>a. mc_fifo (view d) = (if length f < 16 then f else drop 16 f) @ a"
    using assms(4) by auto
  have rs: "mpu_reset_fifo bus (m\<lparr>mpu_dev := d\<rparr>) = (0, m\<lparr>mpu_dev := dev_reset bus d\<rparr>)"
    using reset_run [of "m\<lparr>mpu_dev := d\<rparr>"] assms(1) by (simp add: running_cfg_def raw_cfg_def)
  have rr: "mc_regs (view (dev_reset bus d)) = running_regs"
    using st(2) by (simp add: running_regs_def fun_eq_iff)
  show ?thesis
  proof (cases "length f < 16")
    case True
    with st assms(2,3) show ?thesis
      by (auto simp: dmp_read_fifo_def tilt_words_def Let_def intro!: exI [of _ d])
  next
    case False
    then have q: "map (be_word (overlay (take 16 f) (fresh bus 32))) [0, 4, 8, 12] = packet_words f"
      by (simp add: packet_words_def be_word_def overlay_def nth_append)
    show ?thesis
    proof (cases "quat_accepted (packet_words f)")
      case True
      with False st q assms(2,3) show ?thesis
        by (auto simp: dmp_read_fifo_def tilt_words_def Let_def packet_words_def intro!: exI [of _ d])
    next
      case rej: False
      with False st q assms(2,3) rs rr show ?thesis
        by (auto simp: dmp_read_fifo_def tilt_words_def Let_def intro!: exI [of _ "dev_reset bus d"])
    qed
  qed
qed

end

section \<open>The test for corruption\<close>

text \<open>The upper halves of a packet's words, as numbers.\<close>

definition quat_norm :: "i32 list \<Rightarrow> int" where
  "quat_norm q = (\<Sum>w\<leftarrow>q. (sint w div 2 ^ 16) ^ 2)"

lemma upper_half: "sint (signed_drop_bit 16 w :: i32) = sint w div 2 ^ 16"
  by (simp add: sint_signed_drop_bit_eq drop_bit_eq_div)

lemma upper_half_square: "0 \<le> (sint (w :: i32) div 2 ^ 16) ^ 2" "(sint (w :: i32) div 2 ^ 16) ^ 2 \<le> 2 ^ 30"
proof -
  have "- (2 ^ 31) \<le> sint w" "sint w < 2 ^ 31"
    using sint_range_size [of w] by (simp_all add: word_size)
  then have "- 32768 \<le> sint w div 2 ^ 16" "sint w div 2 ^ 16 \<le> 32768"
    using zdiv_mono1 [of "- (2 ^ 31)" "sint w" "2 ^ 16"] zdiv_mono1 [of "sint w" "2 ^ 31" "2 ^ 16"] by simp_all
  then have "\<bar>sint w div 2 ^ 16\<bar> \<le> \<bar>32768\<bar>" by linarith
  then have "(sint w div 2 ^ 16) ^ 2 \<le> 32768 ^ 2" unfolding abs_le_square_iff .
  then show "(sint w div 2 ^ 16) ^ 2 \<le> 2 ^ 30" by simp
qed simp

lemma wrapped_sum:
  assumes "0 \<le> s \<and> s \<le> 2 ^ 32"
  shows "s < 2 ^ 31 \<and> sint (word_of_int s :: i32) = s \<or> 2 ^ 31 \<le> s \<and> sint (word_of_int s :: i32) \<le> 0"
proof (cases "s < 2 ^ 31")
  case True
  with assms sint_of_int_32 [of s] show ?thesis by simp
next
  case False
  have "(word_of_int (s - 2 ^ 32) :: i32) = word_of_int s" by simp
  moreover have "sint (word_of_int (s - 2 ^ 32) :: i32) = s - 2 ^ 32"
    by (rule sint_of_int_32) (use False assms in simp_all)
  ultimately have "sint (word_of_int s :: i32) = s - 2 ^ 32" by (simp only:)
  with False assms show ?thesis by linarith
qed

lemma quat_accepted_exact:
  assumes "length q = 4"
  shows "quat_accepted q \<longleftrightarrow> 2 ^ 28 - 2 ^ 24 \<le> quat_norm q \<and> quat_norm q \<le> 2 ^ 28 + 2 ^ 24"
proof -
  let ?s = "quat_norm q"
  have bounds: "0 \<le> ?s \<and> ?s \<le> 2 ^ 32"
  proof -
    obtain a b c d where "q = [a, b, c, d]" using assms by (auto simp: length_Suc_conv numeral_eq_Suc)
    then show ?thesis
      using upper_half_square [of a] upper_half_square [of b] upper_half_square [of c] upper_half_square [of d]
      by (simp add: quat_norm_def)
  qed
  have "quat_mag_sq q = word_of_int ?s"
    unfolding quat_mag_sq_def quat_norm_def
  proof (induction q)
    case (Cons w q)
    have "signed_drop_bit 16 w = word_of_int (sint w div 2 ^ 16)"
      unfolding upper_half [symmetric] by simp
    with Cons show ?case by (simp add: power2_eq_square flip: wi_hom_mult wi_hom_add)
  qed simp
  then consider "?s < 2 ^ 31" "sint (quat_mag_sq q) = ?s" | "2 ^ 31 \<le> ?s" "sint (quat_mag_sq q) \<le> 0"
    using wrapped_sum [OF bounds] by auto
  then show ?thesis
    by cases (use bounds in \<open>auto simp: quat_accepted_def word_sless_alt\<close>)
qed

section \<open>A chip, and none\<close>

text \<open>The chip of the register map on a bus of its own, with no packet on the way.\<close>

definition chip_bus :: "mpu_chip mpu_bus" where
  "chip_bus = \<lparr>mb_write = (\<lambda>a r bs c. if a = hw_addr then (True, burst r bs c) else (False, c)),
     mb_read = (\<lambda>a r n c.
       if a \<noteq> hw_addr then ((False, []), c)
       else if r = reg_mem_r_w then ((True, mem_bytes n c), c\<lparr>mc_addr := mc_addr c + of_nat n\<rparr>)
       else if r = reg_fifo_r_w then ((True, take n (mc_fifo c)), c\<lparr>mc_fifo := drop n (mc_fifo c)\<rparr>)
       else if r = reg_fifo_count_h
       then ((True, take n [of_nat (length (mc_fifo c) div 256), of_nat (length (mc_fifo c))]), c)
       else ((True, map (\<lambda>i. mc_regs c (r + of_nat i)) [0..<n]), c)),
     mb_delay = (\<lambda>n c. c), mb_junk = (\<lambda>_. 0)\<rparr>"

interpretation ref_chip: motion_chip chip_bus "\<lambda>c. c"
  by unfold_locales (simp_all add: chip_bus_def agrees_def)

text \<open>
  Without a sensor every access fails. The set-up then ends with the processor off, and the polls
  leave the tilt as it is.
\<close>

definition nobody_answers :: "'d mpu_bus \<Rightarrow> bool" where
  "nobody_answers bus \<longleftrightarrow>
     (\<forall>a r bs d. \<not> fst (mb_write bus a r bs d)) \<and> (\<forall>a r n d. \<not> fst (fst (mb_read bus a r n d)))"

lemma dead_write [simp]:
  "nobody_answers bus \<Longrightarrow> i2c_write bus r bs m = (1, m\<lparr>mpu_dev := snd (mb_write bus hw_addr r (take (length bs mod 256) bs) (mpu_dev m))\<rparr>)"
  by (simp add: nobody_answers_def i2c_write_def case_prod_beta)

text \<open>A driver that has no sensor on and no program loaded does nothing.\<close>

lemma nothing_on:
  assumes "sensors (chip_cfg m) = 0" "dmp_on (chip_cfg m) = 0" "dmp_loaded (chip_cfg m) = 0"
  shows "mpu_write_mem bus a bs m = (-1, m)" "mpu_reset_fifo bus m = (-1, m)" "mpu_set_gyro_fsr bus g m = (-1, m)"
    "mpu_set_accel_fsr bus f m = (-1, m)" "mpu_configure_fifo bus s m = (-1, m)" "mpu_set_dmp_state bus 1 m = (-1, m)"
    "dmp_load_motion_driver_firmware bus m = (-2, m)" "rate \<noteq> 0 \<Longrightarrow> dmp_set_fifo_rate bus rate m = Some (-1, m)"
proof -
  show mem: "mpu_write_mem bus a bs m = (-1, m)" for a bs
    using assms by (simp add: mpu_write_mem_def mem_select_def Let_def)
  have "dmp_memory \<noteq> []" using length_dmp_memory by auto
  with assms mem show "dmp_load_motion_driver_firmware bus m = (-2, m)"
    by (simp add: dmp_load_motion_driver_firmware_def mpu_load_firmware_def load_chunks.simps Let_def)
  show "rate \<noteq> 0 \<Longrightarrow> dmp_set_fifo_rate bus rate m = Some (-1, m)"
    using mem by (simp add: dmp_set_fifo_rate_def if_fails_def Let_def)
  show "mpu_reset_fifo bus m = (-1, m)" "mpu_set_gyro_fsr bus g m = (-1, m)" "mpu_set_accel_fsr bus f m = (-1, m)"
    "mpu_configure_fifo bus s m = (-1, m)" "mpu_set_dmp_state bus 1 m = (-1, m)"
    using assms
    by (simp_all add: mpu_reset_fifo_def mpu_set_gyro_fsr_def mpu_set_accel_fsr_def mpu_configure_fifo_def
        mpu_set_dmp_state_def Let_def)
qed

lemma no_sensor:
  assumes "nobody_answers bus" "chip_cfg m = st_initial"
  shows "\<exists>m'. initMPU6050 bus 30 m = Some m' \<and> chip_cfg m' = st_initial \<and> packet_length (dmp m') = 16 \<and>
    (\<exists>p. dmp_read_fifo bus m' = ((-10, p), m') \<and> tilt_words p = None)"
proof -
  obtain d1 where m1: "mpu_init bus m = (-1, m\<lparr>mpu_dev := d1\<rparr>)"
    using assms(1) by (simp add: mpu_init_def if_fails_def)
  let ?m1 = "m\<lparr>mpu_dev := d1\<rparr>"
  obtain d2 where m2: "mpu_set_sensors bus 0x78 ?m1 = (-1, m\<lparr>mpu_dev := d2, chip_cfg := st_initial\<rparr>)"
    using assms by (auto simp: mpu_set_sensors_def Let_def set_cfg_def ret_def st_initial_def)
  let ?m2 = "m\<lparr>mpu_dev := d2, chip_cfg := st_initial\<rparr>"
  have off: "sensors st_initial = 0" "dmp_on st_initial = 0" "dmp_loaded st_initial = 0" by (simp_all add: st_initial_def)
  let ?m3 = "?m2\<lparr>dmp := (dmp m)\<lparr>feature_mask := 0x18\<rparr>\<rparr>"
  let ?m4 = "?m2\<lparr>dmp := (dmp m)\<lparr>feature_mask := 0x18, packet_length := 16\<rparr>\<rparr>"
  have "dmp_enable_feature bus 0x10 ?m2 = (0, ?m4)"
    using off
    by (simp add: dmp_enable_feature_def and_next_def nothing_on ret_def Let_def dmp_enable_gyro_cal_def
        dmp_enable_lp_quat_def dmp_enable_6x_lp_quat_def packet_length_of_def)
  then have "initMPU6050 bus 30 m = Some ?m4"
    using m1 m2 off by (simp add: initMPU6050_def and_next_def nothing_on Let_def)
  moreover have "\<exists>p. dmp_read_fifo bus ?m4 = ((-10, p), ?m4) \<and> tilt_words p = None"
    using off by (simp add: dmp_read_fifo_def mpu_read_fifo_stream_def tilt_words_def Let_def)
  ultimately show ?thesis by auto
qed

section \<open>Properties\<close>


definition blank_chip :: mpu_chip where
  "blank_chip = \<lparr>mc_regs = (\<lambda>_. 0), mc_bank = 0, mc_addr = 0, mc_mem = (\<lambda>_. 0), mc_fifo = []\<rparr>"


lemma poll_delivers:
  assumes "motion_chip bus view" "chip_cfg m = running_cfg" "feature_mask (dmp m) = 0x18" "packet_length (dmp m) = 16"
    and "mc_regs (view (mpu_dev m)) = running_regs" "length (mc_fifo (view (mpu_dev m))) \<le> 512"
  defines "f \<equiv> mc_fifo (view (mpu_dev m))"
  defines "whole \<equiv> 16 \<le> length f \<and> \<bar>quat_norm (packet_words f) - 2 ^ 28\<bar> \<le> 2 ^ 24"
  shows "\<exists>k p d. dmp_read_fifo bus m = ((k, p), m\<lparr>mpu_dev := d\<rparr>) \<and> mc_regs (view d) = running_regs \<and>
    tilt_words p = (if whole then Some (be_word f 0, be_word f 4, be_word f 8, be_word f 12) else None) \<and>
    (whole \<longrightarrow> (\<exists>arrived. mc_fifo (view d) = drop 16 f @ arrived)) \<and>
    (length f < 16 \<longrightarrow> (\<exists>arrived. mc_fifo (view d) = f @ arrived))"
proof -
  have "quat_accepted (packet_words f) \<longleftrightarrow> \<bar>quat_norm (packet_words f) - 2 ^ 28\<bar> \<le> 2 ^ 24"
    by (subst quat_accepted_exact) (auto simp: packet_words_def)
  with motion_chip.poll_run [OF assms(1-6), folded f_def] obtain k p d
    where "dmp_read_fifo bus m = ((k, p), m\<lparr>mpu_dev := d\<rparr>)" "mc_regs (view d) = running_regs"
      "if length f < 16 then k = -40 \<and> tilt_words p = None \<and> (\<exists>a. mc_fifo (view d) = f @ a)
       else if \<bar>quat_norm (packet_words f) - 2 ^ 28\<bar> \<le> 2 ^ 24
       then k = 0 \<and> tilt_words p = Some (be_word f 0, be_word f 4, be_word f 8, be_word f 12) \<and>
         (\<exists>a. mc_fifo (view d) = drop 16 f @ a)
       else k = -2 \<and> tilt_words p = None"
    by (simp only:) blast
  then show ?thesis by (intro exI [of _ k] exI [of _ p] exI [of _ d]) (auto simp: whole_def split: if_splits)
qed

text \<open>The poll of \<open>guitar.h\<close> with its sensor.\<close>

definition tickMPUTilt_sensor ::
  "'d mpu_bus \<Rightarrow> 'd mpu \<Rightarrow> guitar_state \<Rightarrow> Controller_t \<times> direct_state \<Rightarrow>
   (guitar_state \<times> Controller_t \<times> direct_state) \<times> 'd mpu" where
  "tickMPUTilt_sensor bus m gs cs =
     (case dmp_read_fifo bus m of ((k, p), m') \<Rightarrow> (tickMPUTilt (tilt_words p) gs cs, m'))"

definition tilt_of :: "u8 list \<Rightarrow> guitar_state \<Rightarrow> i16" where
  "tilt_of f gs =
     (let t = quaternionToEuler \<lparr>q_w = quat_part (be_word f 0), q_x = quat_part (be_word f 4),
                q_y = quat_part (be_word f 8), q_z = quat_part (be_word f 12)\<rparr> (mpuTilt gs) (mpuOrientation gs)
      in if tiltInverted gs then - t else t)"

text \<open>
  C23: a poll of a running sensor whose queue is at most half full shows the tilt of the next packet exactly
  when a whole packet is there and the squares of its words' upper halves sum up to 2^28, give or take
  2^24, although the sum is computed in 32 bits; else the tilt stays as it was. It takes that packet from
  the queue and no other byte, and whatever it finds, the sensor keeps running.
\<close>

theorem tilt_follows_sensor:
  assumes "motion_chip bus view" "chip_cfg m = running_cfg" "feature_mask (dmp m) = 0x18" "packet_length (dmp m) = 16"
    and "mc_regs (view (mpu_dev m)) = running_regs" "length (mc_fifo (view (mpu_dev m))) \<le> 512"
  defines "f \<equiv> mc_fifo (view (mpu_dev m))"
  defines "whole \<equiv> 16 \<le> length f \<and> \<bar>quat_norm (packet_words f) - 2 ^ 28\<bar> \<le> 2 ^ 24"
  shows "\<exists>gs' cs' d. tickMPUTilt_sensor bus m gs cs = ((gs', cs'), m\<lparr>mpu_dev := d\<rparr>) \<and>
    mpuTilt gs' = (if whole then tilt_of f gs else mpuTilt gs) \<and> mc_regs (view d) = running_regs \<and>
    (whole \<longrightarrow> (\<exists>arrived. mc_fifo (view d) = drop 16 f @ arrived)) \<and>
    (length f < 16 \<longrightarrow> (\<exists>arrived. mc_fifo (view d) = f @ arrived))"
proof -
  obtain k p d where r: "dmp_read_fifo bus m = ((k, p), m\<lparr>mpu_dev := d\<rparr>)" "mc_regs (view d) = running_regs"
    "tilt_words p = (if whole then Some (be_word f 0, be_word f 4, be_word f 8, be_word f 12) else None)"
    "whole \<longrightarrow> (\<exists>arrived. mc_fifo (view d) = drop 16 f @ arrived)"
    "length f < 16 \<longrightarrow> (\<exists>arrived. mc_fifo (view d) = f @ arrived)"
    using poll_delivers [OF assms(1-6)] unfolding f_def whole_def by blast
  obtain gs' cs' where t: "tickMPUTilt (tilt_words p) gs cs = (gs', cs')" by (cases "tickMPUTilt (tilt_words p) gs cs")
  then have "mpuTilt gs' = (if whole then tilt_of f gs else mpuTilt gs)"
    using r(3) by (cases cs) (auto simp: tickMPUTilt_def tilt_of_def Let_def split: if_splits)
  with r t show ?thesis by (simp add: tickMPUTilt_sensor_def) blast
qed

text \<open>A sensor at rest: the quaternion (1, 0, 0, 0) in the queue, and the first two bytes of the next packet.\<close>

definition resting_sensor :: "mpu_chip mpu" where
  "resting_sensor = \<lparr>chip_cfg = running_cfg, dmp = dmp_initial\<lparr>feature_mask := 0x18, fifo_rate := 30, packet_length := 16\<rparr>,
     mpu_dev = blank_chip\<lparr>mc_regs := running_regs,
       mc_fifo := [0x40, 0, 0, 0, 0, 0, 0, 0, 0, 0, 0, 0, 0, 0, 0, 0, 0x3F, 0xFF]\<rparr>\<rparr>"

theorem tilt_follows_sensor_witness:
  "\<forall>gs cs. \<exists>gs' cs' d. tickMPUTilt_sensor chip_bus resting_sensor gs cs = ((gs', cs'), resting_sensor\<lparr>mpu_dev := d\<rparr>) \<and>
     mpuTilt gs' = tilt_of (mc_fifo (mpu_dev resting_sensor)) gs"
proof (intro allI)
  fix gs cs
  have f: "mc_fifo (mpu_dev resting_sensor) = [0x40, 0, 0, 0, 0, 0, 0, 0, 0, 0, 0, 0, 0, 0, 0, 0, 0x3F, 0xFF]"
    by (simp add: resting_sensor_def)
  have "packet_words (mc_fifo (mpu_dev resting_sensor)) = [0x40000000, 0, 0, 0]"
    unfolding f by (simp add: packet_words_def be_word_def)
  then have "\<bar>quat_norm (packet_words (mc_fifo (mpu_dev resting_sensor))) - 2 ^ 28\<bar> \<le> 2 ^ 24"
    by (simp add: quat_norm_def)
  with tilt_follows_sensor [OF ref_chip.motion_chip_axioms, of resting_sensor gs cs] f
  show "\<exists>gs' cs' d. tickMPUTilt_sensor chip_bus resting_sensor gs cs = ((gs', cs'), resting_sensor\<lparr>mpu_dev := d\<rparr>) \<and>
      mpuTilt gs' = tilt_of (mc_fifo (mpu_dev resting_sensor)) gs"
    by (auto simp: resting_sensor_def dmp_initial_def)
qed

end
