(* ===== verification/PioSpi.thy ===== *)
theory PioSpi
  imports PicoBoard
begin

text \<open>
  The serial bus of a board with a Raspberry Pi Pico: the loops that keep the two queues of a PIO state
  machine moving (\<open>src/src/pico/lib/spi/pio_spi.c\<close>), the transfer of a byte on top of them
  (\<open>src/src/pico/lib/spi/spi.c\<close>), and the two programs that the state machine runs
  (\<open>src/src/pico/lib/spi/spi.pio\<close>).

  The loops are written over the four accesses to the queues, each of which may let time pass. The locale
  \<open>pio_port\<close> states what they rely on; it is interpreted for the state machine running either program, with queues
  of four bytes and any number of its cycles between two accesses.
\<close>

section \<open>The loops\<close>

text \<open>Reading whether the queues are full and empty; writing and reading a byte.\<close>

record 'p pio_fns =
  pio_sm_is_tx_fifo_full :: "'p \<Rightarrow> bool \<times> 'p"
  pio_sm_is_rx_fifo_empty :: "'p \<Rightarrow> bool \<times> 'p"
  pio_txf :: "u8 \<Rightarrow> 'p \<Rightarrow> 'p"
  pio_rxf :: "'p \<Rightarrow> u8 \<times> 'p"

text \<open>The two halves of a round: \<open>src\<close> is what is left to send, \<open>dst\<close> what was received, \<open>n\<close> is \<open>rx_remain\<close>.\<close>

definition pio_send :: "'p pio_fns \<Rightarrow> u8 list \<Rightarrow> 'p \<Rightarrow> u8 list \<times> 'p" where
  "pio_send f src p =
     (case src of [] \<Rightarrow> ([], p)
      | b # bs \<Rightarrow> (case pio_sm_is_tx_fifo_full f p of (full, p) \<Rightarrow> if full then (src, p) else (bs, pio_txf f b p)))"

definition pio_receive :: "'p pio_fns \<Rightarrow> u8 list \<Rightarrow> nat \<Rightarrow> 'p \<Rightarrow> u8 list \<times> nat \<times> 'p" where
  "pio_receive f dst n p =
     (if n = 0 then (dst, n, p)
      else case pio_sm_is_rx_fifo_empty f p of (none, p) \<Rightarrow>
        if none then (dst, n, p) else (case pio_rxf f p of (b, p) \<Rightarrow> (dst @ [b], n - 1, p)))"

text \<open>The loop may wait for ever: then its result is None.\<close>

partial_function (option) pio_exchange ::
  "'p pio_fns \<Rightarrow> u8 list \<Rightarrow> u8 list \<Rightarrow> nat \<Rightarrow> 'p \<Rightarrow> (u8 list \<times> 'p) option" where
  "pio_exchange f src dst n p =
     (if src = [] \<and> n = 0 then Some (dst, p)
      else let s = pio_send f src p; r = pio_receive f dst n (snd s)
           in pio_exchange f (fst s) (fst r) (fst (snd r)) (snd (snd r)))"

definition pio_spi_write8_blocking :: "'p pio_fns \<Rightarrow> u8 list \<Rightarrow> 'p \<Rightarrow> 'p option" where
  "pio_spi_write8_blocking f src p = map_option snd (pio_exchange f src [] (length src) p)"

definition pio_spi_read8_blocking :: "'p pio_fns \<Rightarrow> nat \<Rightarrow> 'p \<Rightarrow> (u8 list \<times> 'p) option" where
  "pio_spi_read8_blocking f len p = pio_exchange f (replicate len 0) [] len p"

definition pio_spi_write8_read8_blocking :: "'p pio_fns \<Rightarrow> u8 list \<Rightarrow> 'p \<Rightarrow> (u8 list \<times> 'p) option" where
  "pio_spi_write8_read8_blocking f src p = pio_exchange f src [] (length src) p"

definition pio_spi_transfer :: "'p pio_fns \<Rightarrow> u8 \<Rightarrow> 'p \<Rightarrow> (u8 \<times> 'p) option" where
  "pio_spi_transfer f data p =
     (case pio_spi_write8_read8_blocking f [revbits2 data] p of
        None \<Rightarrow> None | Some (resp, p) \<Rightarrow> Some (revbits2 (resp ! 0), p))"

section \<open>What the loops rely on\<close>

text \<open>The answers of a device to bytes in turn.\<close>

primrec answers :: "(u8 \<Rightarrow> 'd \<Rightarrow> u8 \<times> 'd) \<Rightarrow> u8 list \<Rightarrow> 'd \<Rightarrow> u8 list \<times> 'd" where
  "answers ans [] d = ([], d)"
| "answers ans (b # bs) d =
     (case ans b d of (a, d) \<Rightarrow> case answers ans bs d of (as, d) \<Rightarrow> (a # as, d))"

lemma answers_append:
  "answers ans (xs @ ys) d =
   (case answers ans xs d of (as, d) \<Rightarrow> case answers ans ys d of (bs, d) \<Rightarrow> (as @ bs, d))"
  by (induction xs arbitrary: d) (simp_all add: case_prod_beta)

lemma length_answers [simp]: "length (fst (answers ans bs d)) = length bs"
  by (induction bs arbitrary: d) (simp_all add: case_prod_beta)

text \<open>
  \<open>view\<close> are the bytes that will have been received when everything written has been exchanged, and the
  device then. Time does not change it; \<open>wait\<close> falls whenever a byte is under way and not there yet.
\<close>

locale pio_port =
  fixes f :: "'p pio_fns" and ans :: "u8 \<Rightarrow> 'd \<Rightarrow> u8 \<times> 'd" and view :: "'p \<Rightarrow> u8 list \<times> 'd"
    and wait :: "'p \<Rightarrow> nat" and ok :: "'p \<Rightarrow> bool"
  assumes full: "ok p \<Longrightarrow> pio_sm_is_tx_fifo_full f p = (b, p') \<Longrightarrow>
      ok p' \<and> view p' = view p \<and> wait p' \<le> wait p \<and> (b \<longrightarrow> fst (view p) \<noteq> [])"
    and put: "ok p \<Longrightarrow> pio_sm_is_tx_fifo_full f p = (False, p') \<Longrightarrow>
      ok (pio_txf f c p') \<and>
      view (pio_txf f c p') = (case view p of (rs, d) \<Rightarrow> case ans c d of (a, d) \<Rightarrow> (rs @ [a], d))"
    and none: "ok p \<Longrightarrow> pio_sm_is_rx_fifo_empty f p = (b, p') \<Longrightarrow>
      ok p' \<and> view p' = view p \<and> (b \<longrightarrow> fst (view p) \<noteq> [] \<longrightarrow> wait p' < wait p)"
    and get: "ok p \<Longrightarrow> pio_sm_is_rx_fifo_empty f p = (False, p') \<Longrightarrow>
      fst (view p) \<noteq> [] \<and> fst (pio_rxf f p') = hd (fst (view p)) \<and> ok (snd (pio_rxf f p')) \<and>
      view (snd (pio_rxf f p')) = (tl (fst (view p)), snd (view p))"
begin

lemma send_step:
  assumes "ok p" "pio_send f src p = (src', p')"
  shows "ok p' \<and> (src' = src \<and> view p' = view p \<and> wait p' \<le> wait p \<and> (src \<noteq> [] \<longrightarrow> fst (view p) \<noteq> []) \<or>
    (\<exists>c. src = c # src' \<and>
      view p' = (case view p of (rs, d) \<Rightarrow> case ans c d of (a, d) \<Rightarrow> (rs @ [a], d))))"
proof (cases src)
  case Nil
  with assms show ?thesis by (auto simp: pio_send_def)
next
  case (Cons c cs)
  obtain b p1 where r: "pio_sm_is_tx_fifo_full f p = (b, p1)" by force
  show ?thesis
  proof (cases b)
    case True
    with assms Cons r full [OF assms(1) r] show ?thesis by (auto simp: pio_send_def)
  next
    case False
    with r have r: "pio_sm_is_tx_fifo_full f p = (False, p1)" by simp
    from assms Cons r put [OF assms(1) r, of c] show ?thesis by (auto simp: pio_send_def)
  qed
qed

lemma receive_step:
  assumes "ok p" "pio_receive f dst n p = (dst', n', p')" "n = 0 \<longleftrightarrow> fst (view p) = []"
  shows "ok p' \<and> (n = 0 \<and> dst' = dst \<and> n' = 0 \<and> p' = p \<or>
    n \<noteq> 0 \<and> dst' = dst \<and> n' = n \<and> view p' = view p \<and> wait p' < wait p \<or>
    n = Suc n' \<and> dst' = dst @ [hd (fst (view p))] \<and> view p' = (tl (fst (view p)), snd (view p)))"
proof (cases "n = 0")
  case True
  with assms show ?thesis by (simp add: pio_receive_def)
next
  case False
  obtain b p1 where r: "pio_sm_is_rx_fifo_empty f p = (b, p1)" by force
  show ?thesis
  proof (cases b)
    case True
    with assms False r none [OF assms(1) r] show ?thesis by (auto simp: pio_receive_def)
  next
    case b: False
    with r have r: "pio_sm_is_rx_fifo_empty f p = (False, p1)" by simp
    from assms False r get [OF assms(1) r] show ?thesis
      by (cases n) (auto simp: pio_receive_def case_prod_beta)
  qed
qed

lemma exchange_returns:
  assumes "ok p" "length (fst (view p)) + length src = n"
  shows "\<exists>p'. ok p' \<and> view p' = ([], snd (answers ans src (snd (view p)))) \<and>
    pio_exchange f src dst n p = Some (dst @ fst (view p) @ fst (answers ans src (snd (view p))), p')"
  using assms
proof (induction "(length src + n, wait p)" arbitrary: src dst n p rule: wf_induct_rule
    [OF wf_lex_prod [OF wf_less wf_less]])
  case (1 src n p dst)
  obtain rs d where v: "view p = (rs, d)" by force
  show ?case
  proof (cases "src = [] \<and> n = 0")
    case True
    with 1(2,3) v show ?thesis by (intro exI [of _ p]) (auto simp: pio_exchange.simps [of f "[]" dst 0 p])
  next
    case False
    obtain src1 p1 where s: "pio_send f src p = (src1, p1)" by force
    obtain dst2 n2 p2 where r: "pio_receive f dst n p1 = (dst2, n2, p2)" using prod_cases3 by blast
    have step: "pio_exchange f src dst n p = pio_exchange f src1 dst2 n2 p2"
      using s r by (subst pio_exchange.simps, subst if_not_P [OF False]) (simp add: Let_def)
    from False 1(3) v have n: "n \<noteq> 0" by auto
    note s1 = send_step [OF 1(2) s]
    have more: "fst (view p1) \<noteq> []"
      using s1 v 1(3) n by (auto simp: case_prod_beta)
    from s1 have ok1: "ok p1" by blast
    note r1 = receive_step [OF ok1 r]
    obtain rs1 d1 where v1: "view p1 = (rs1, d1)" by force
    have total: "length rs1 + length src1 = n \<and>
        rs1 @ fst (answers ans src1 d1) = rs @ fst (answers ans src d) \<and>
        snd (answers ans src1 d1) = snd (answers ans src d)"
      using s1 v v1 1(3) by (auto simp: case_prod_beta)
    have r2: "ok p2 \<and> (dst2 = dst \<and> n2 = n \<and> view p2 = view p1 \<and> wait p2 < wait p1 \<or>
        n = Suc n2 \<and> dst2 = dst @ [hd rs1] \<and> view p2 = (tl rs1, d1))"
      using r1 n more v1 by auto
    obtain rs2 d2 where v2: "view p2 = (rs2, d2)" by force
    have count: "length (fst (view p2)) + length src1 = n2"
      using r2 total v1 v2 more by (auto simp: neq_Nil_conv)
    have less: "length src1 + n2 < length src + n \<or> length src1 + n2 = length src + n \<and> wait p2 < wait p"
      using r2 s1 by auto
    have same: "dst2 @ rs2 = dst @ rs1 \<and> d2 = d1"
      using r2 v1 v2 more by (auto simp: neq_Nil_conv)
    from less have "((length src1 + n2, wait p2), length src + n, wait p) \<in>
        {(x, y). x < y} <*lex*> {(x, y). x < y}" by simp
    from 1(1) [OF this conjunct1 [OF r2] count, of dst2]
    obtain p3 where p3: "ok p3" "view p3 = ([], snd (answers ans src1 d2))"
      "pio_exchange f src1 dst2 n2 p2 = Some (dst2 @ rs2 @ fst (answers ans src1 d2), p3)"
      unfolding v2 fst_conv snd_conv by blast
    have "dst2 @ rs2 @ fst (answers ans src1 d2) = dst @ rs @ fst (answers ans src d)"
      using same total by (metis append_assoc)
    with p3 same total v step show ?thesis by (intro exI [of _ p3]) simp
  qed
qed

text \<open>Every transfer ends, with the answers to its own bytes, and leaves nothing behind.\<close>

lemma idle_exchange:
  assumes "ok p" "view p = ([], d)"
  shows "\<exists>p'. ok p' \<and> view p' = ([], snd (answers ans src d)) \<and>
    pio_spi_write8_read8_blocking f src p = Some (fst (answers ans src d), p') \<and>
    pio_spi_write8_blocking f src p = Some p'"
  using exchange_returns [of p src "length src" "[]"] assms
  by (auto simp: pio_spi_write8_read8_blocking_def pio_spi_write8_blocking_def case_prod_beta)

lemma idle_read:
  assumes "ok p" "view p = ([], d)"
  shows "\<exists>p'. ok p' \<and> view p' = ([], snd (answers ans (replicate len 0) d)) \<and>
    pio_spi_read8_blocking f len p = Some (fst (answers ans (replicate len 0) d), p')"
  using exchange_returns [of p "replicate len 0" len "[]"] assms
  by (auto simp: pio_spi_read8_blocking_def case_prod_beta)

lemma idle_transfer:
  assumes "ok p" "view p = ([], d)"
  shows "\<exists>p'. ok p' \<and> view p' = ([], snd (ans (revbits2 b) d)) \<and>
    pio_spi_transfer f b p = Some (pico_spi_transfer (\<lambda>c. fst (ans c d)) b, p')"
  using idle_exchange [OF assms, of "[revbits2 b]"]
  by (auto simp: pio_spi_transfer_def pico_spi_transfer_def case_prod_beta)

end

section \<open>The state machine\<close>

text \<open>
  The programs of \<open>spi.pio\<close>: instruction, level of the clock set beside it, and cycles of delay. The shift
  registers are the bits left to send and those received, the most significant one first; they are
  refilled from the queue, and emptied into the other, after eight bits.
\<close>

datatype pio_instr = Out_pins | Out_x | Mov_pins_x | In_pins

definition spi_program :: "bool \<Rightarrow> (pio_instr \<times> bool \<times> nat) list" where
  "spi_program cpha =
     (if cpha then [(Out_x, False, 0), (Mov_pins_x, True, 1), (In_pins, False, 0)]
      else [(Out_pins, False, 1), (In_pins, True, 1)])"

record 'd pio_sm =
  sm_tx :: "u8 list"
  sm_rx :: "u8 list"
  sm_osr :: "bool list"
  sm_isr :: "bool list"
  sm_x :: bool
  sm_mosi :: bool
  sm_sck :: bool
  sm_pc :: nat
  sm_delay :: nat
  sm_dev :: 'd

definition bits8 :: "u8 \<Rightarrow> bool list" where
  "bits8 b = map (bit b) [7, 6, 5, 4, 3, 2, 1, 0]"

definition of_bits8 :: "bool list \<Rightarrow> u8" where
  "of_bits8 bs = foldl (\<lambda>w c. push_bit 1 w OR (if c then 1 else 0)) 0 bs"

definition sm_refill :: "'d pio_sm \<Rightarrow> 'd pio_sm" where
  "sm_refill s = (case sm_tx s of [] \<Rightarrow> s | b # bs \<Rightarrow> s\<lparr>sm_osr := bits8 b, sm_tx := bs\<rparr>)"

definition sm_go :: "bool \<Rightarrow> nat \<Rightarrow> 'd pio_sm \<Rightarrow> 'd pio_sm" where
  "sm_go cpha delay s = s\<lparr>sm_pc := Suc (sm_pc s) mod length (spi_program cpha), sm_delay := delay\<rparr>"

text \<open>\<open>dbit\<close> is what the device does in a period of the clock with the bit that it is sent.\<close>

definition sm_in :: "(bool \<Rightarrow> 'd \<Rightarrow> bool \<times> 'd) \<Rightarrow> 'd pio_sm \<Rightarrow> 'd pio_sm" where
  "sm_in dbit s =
     (case dbit (sm_mosi s) (sm_dev s) of (c, d) \<Rightarrow>
        if length (sm_isr s) = 7
        then s\<lparr>sm_dev := d, sm_isr := [], sm_rx := sm_rx s @ [of_bits8 (sm_isr s @ [c])]\<rparr>
        else s\<lparr>sm_dev := d, sm_isr := sm_isr s @ [c]\<rparr>)"

definition sm_cycle :: "bool \<Rightarrow> (bool \<Rightarrow> 'd \<Rightarrow> bool \<times> 'd) \<Rightarrow> 'd pio_sm \<Rightarrow> 'd pio_sm" where
  "sm_cycle cpha dbit s0 =
     (if sm_delay s0 \<noteq> 0 then s0\<lparr>sm_delay := sm_delay s0 - 1\<rparr>
      else case spi_program cpha ! sm_pc s0 of (ins, side, delay) \<Rightarrow>
        let s = s0\<lparr>sm_sck := side\<rparr>
        in case ins of
             Out_pins \<Rightarrow> (case sm_osr s of [] \<Rightarrow> sm_refill s
                         | c # cs \<Rightarrow> sm_go cpha delay (s\<lparr>sm_osr := cs, sm_mosi := c\<rparr>))
           | Out_x \<Rightarrow> (case sm_osr s of [] \<Rightarrow> sm_refill s
                      | c # cs \<Rightarrow> sm_go cpha delay (s\<lparr>sm_osr := cs, sm_x := c\<rparr>))
           | Mov_pins_x \<Rightarrow> sm_go cpha delay (s\<lparr>sm_mosi := sm_x s\<rparr>)
           | In_pins \<Rightarrow> if length (sm_isr s) = 7 \<and> 4 \<le> length (sm_rx s) then s
                        else sm_go cpha delay (sm_in dbit s))"

text \<open>\<open>k + 1\<close> cycles pass while the program reads a flag.\<close>

definition sm_time :: "bool \<Rightarrow> (bool \<Rightarrow> 'd \<Rightarrow> bool \<times> 'd) \<Rightarrow> nat \<Rightarrow> 'd pio_sm \<Rightarrow> 'd pio_sm" where
  "sm_time cpha dbit k = sm_cycle cpha dbit ^^ Suc k"

definition sm_port :: "bool \<Rightarrow> (bool \<Rightarrow> 'd \<Rightarrow> bool \<times> 'd) \<Rightarrow> nat \<Rightarrow> 'd pio_sm pio_fns" where
  "sm_port cpha dbit k =
     \<lparr>pio_sm_is_tx_fifo_full = (\<lambda>s. (4 \<le> length (sm_tx s), sm_time cpha dbit k s)),
      pio_sm_is_rx_fifo_empty = (\<lambda>s. (sm_rx s = [], sm_time cpha dbit k s)),
      pio_txf = (\<lambda>b s. s\<lparr>sm_tx := sm_tx s @ [b]\<rparr>),
      pio_rxf = (\<lambda>s. (hd (sm_rx s), s\<lparr>sm_rx := tl (sm_rx s)\<rparr>))\<rparr>"

section \<open>Bytes from bits\<close>

primrec exbits :: "(bool \<Rightarrow> 'd \<Rightarrow> bool \<times> 'd) \<Rightarrow> bool list \<Rightarrow> 'd \<Rightarrow> bool list \<times> 'd" where
  "exbits dbit [] d = ([], d)"
| "exbits dbit (b # bs) d =
     (case dbit b d of (a, d) \<Rightarrow> case exbits dbit bs d of (as, d) \<Rightarrow> (a # as, d))"

lemma length_exbits [simp]: "length (fst (exbits dbit bs d)) = length bs"
  by (induction bs arbitrary: d) (simp_all add: case_prod_beta)

definition exbyte :: "(bool \<Rightarrow> 'd \<Rightarrow> bool \<times> 'd) \<Rightarrow> u8 \<Rightarrow> 'd \<Rightarrow> u8 \<times> 'd" where
  "exbyte dbit b d = map_prod of_bits8 id (exbits dbit (bits8 b) d)"

definition sm_flight :: "bool \<Rightarrow> 'd pio_sm \<Rightarrow> bool list" where
  "sm_flight cpha s =
     (case fst (spi_program cpha ! sm_pc s) of
        Mov_pins_x \<Rightarrow> [sm_x s] | In_pins \<Rightarrow> [sm_mosi s] | _ \<Rightarrow> [])"

definition sm_ok :: "bool \<Rightarrow> 'd pio_sm \<Rightarrow> bool" where
  "sm_ok cpha s \<longleftrightarrow> sm_pc s < length (spi_program cpha) \<and> length (sm_isr s) < 8 \<and>
     length (sm_isr s) + length (sm_flight cpha s) + length (sm_osr s) \<in> {0, 8}"

definition sm_view :: "bool \<Rightarrow> (bool \<Rightarrow> 'd \<Rightarrow> bool \<times> 'd) \<Rightarrow> 'd pio_sm \<Rightarrow> u8 list \<times> 'd" where
  "sm_view cpha dbit s =
     (let e = exbits dbit (sm_flight cpha s @ sm_osr s) (sm_dev s); got = sm_isr s @ fst e;
          a = answers (exbyte dbit) (sm_tx s) (snd e)
      in (sm_rx s @ (if got = [] then [] else [of_bits8 got]) @ fst a, snd a))"

text \<open>Cycles until everything written has been exchanged.\<close>

definition sm_work :: "bool \<Rightarrow> 'd pio_sm \<Rightarrow> nat" where
  "sm_work cpha s =
     sm_delay s + (if sm_pc s = 0 then 0 else if cpha \<and> sm_pc s = 1 then 3 else if cpha then 1 else 2) +
     4 * length (sm_osr s) + 33 * length (sm_tx s)"

lemmas sm_defs = spi_program_def sm_flight_def sm_ok_def sm_view_def sm_cycle_def sm_go_def sm_refill_def
  sm_in_def Let_def

lemma sm_pc_cases:
  assumes "sm_ok cpha s"
  obtains "sm_ok cpha s" "sm_pc s = 0" | "sm_ok cpha s" "sm_pc s = 1" | "sm_ok cpha s" "cpha" "sm_pc s = 2"
  using assms by (cases cpha) (auto simp: sm_ok_def spi_program_def less_Suc_eq numeral_2_eq_2)

lemma length_bits8 [simp]: "length (bits8 b) = 8"
  by (simp add: bits8_def)

lemma bits8_not_Nil [simp]: "bits8 b \<noteq> []"
  by (simp add: bits8_def)

lemma cycle_ok: "sm_ok cpha s \<Longrightarrow> sm_ok cpha (sm_cycle cpha dbit s)"
  by (erule sm_pc_cases; cases cpha)
     (auto simp: sm_defs case_prod_beta split: list.splits if_splits)

lemma exbits_Nil_iff: "fst (exbits dbit bs d) = [] \<longleftrightarrow> bs = []"
  by (metis length_0_conv length_exbits)

lemma cycle_view: "sm_ok cpha s \<Longrightarrow> sm_view cpha dbit (sm_cycle cpha dbit s) = sm_view cpha dbit s"
  by (erule sm_pc_cases; cases cpha)
     (auto simp: sm_defs exbyte_def exbits_Nil_iff case_prod_beta split: list.splits if_splits)

lemma cycle_work:
  "sm_ok cpha s \<Longrightarrow> sm_work cpha (sm_cycle cpha dbit s) \<le> sm_work cpha s \<and>
   (sm_rx s = [] \<longrightarrow> fst (sm_view cpha dbit s) \<noteq> [] \<longrightarrow> sm_work cpha (sm_cycle cpha dbit s) < sm_work cpha s)"
  by (erule sm_pc_cases; cases cpha)
     (auto simp: sm_defs sm_work_def exbits_Nil_iff case_prod_beta split: list.splits if_splits)

lemma time_ok: "sm_ok cpha s \<Longrightarrow> sm_ok cpha (sm_time cpha dbit k s)"
  and time_view: "sm_ok cpha s \<Longrightarrow> sm_view cpha dbit (sm_time cpha dbit k s) = sm_view cpha dbit s"
  and time_work: "sm_ok cpha s \<Longrightarrow> sm_work cpha (sm_time cpha dbit k s) \<le> sm_work cpha (sm_cycle cpha dbit s)"
proof (induction k)
  case 0
  { case 1 then show ?case by (simp add: sm_time_def cycle_ok) }
  { case 2 then show ?case by (simp add: sm_time_def cycle_view) }
  { case 3 then show ?case by (simp add: sm_time_def) }
next
  case (Suc k)
  have step: "sm_time cpha dbit (Suc k) s = sm_cycle cpha dbit (sm_time cpha dbit k s)"
    by (simp add: sm_time_def)
  { case 1 with Suc show ?case by (simp add: step cycle_ok) }
  { case 2 with Suc show ?case by (simp add: step cycle_view) }
  { case 3
    with Suc have "sm_ok cpha (sm_time cpha dbit k s)"
      "sm_work cpha (sm_time cpha dbit k s) \<le> sm_work cpha (sm_cycle cpha dbit s)" by blast+
    with cycle_work [of cpha "sm_time cpha dbit k s" dbit] show ?case by (simp add: step) }
qed

lemma cycle_queues:
  "length (sm_tx (sm_cycle cpha dbit s)) \<le> length (sm_tx s)" "\<exists>bs. sm_rx (sm_cycle cpha dbit s) = sm_rx s @ bs"
  by (auto simp: sm_cycle_def sm_go_def sm_refill_def sm_in_def Let_def case_prod_beta split: pio_instr.splits list.splits)

lemma time_rx: "\<exists>bs. sm_rx (sm_time cpha dbit k s) = sm_rx s @ bs"
proof (induction k)
  case (Suc k)
  then show ?case
    using cycle_queues(2) [of cpha dbit "sm_time cpha dbit k s"] by (auto simp: sm_time_def)
qed (simp add: sm_time_def cycle_queues(2))

lemma flight_queues [simp]:
  "sm_flight cpha (s\<lparr>sm_tx := bs\<rparr>) = sm_flight cpha s" "sm_flight cpha (s\<lparr>sm_rx := cs\<rparr>) = sm_flight cpha s"
  by (simp_all add: sm_flight_def split: pio_instr.split)

lemma ok_queues [simp]:
  "sm_ok cpha (s\<lparr>sm_tx := bs\<rparr>) = sm_ok cpha s" "sm_ok cpha (s\<lparr>sm_rx := cs\<rparr>) = sm_ok cpha s"
  by (simp_all add: sm_ok_def)

lemma view_put:
  "sm_view cpha dbit (s\<lparr>sm_tx := sm_tx s @ [b]\<rparr>) =
   (case sm_view cpha dbit s of (rs, d) \<Rightarrow> case exbyte dbit b d of (a, d) \<Rightarrow> (rs @ [a], d))"
  by (simp add: sm_view_def Let_def answers_append case_prod_beta)

lemma view_get:
  "sm_rx s \<noteq> [] \<Longrightarrow> sm_view cpha dbit (s\<lparr>sm_rx := tl (sm_rx s)\<rparr>) =
     (tl (fst (sm_view cpha dbit s)), snd (sm_view cpha dbit s)) \<and>
   hd (sm_rx s) = hd (fst (sm_view cpha dbit s)) \<and> fst (sm_view cpha dbit s) \<noteq> []"
  by (cases "sm_rx s") (simp_all add: sm_view_def Let_def)

lemma full_view: "4 \<le> length (sm_tx s) \<Longrightarrow> fst (sm_view cpha dbit s) \<noteq> []"
  by (auto simp: sm_view_def Let_def simp flip: length_0_conv)

text \<open>Either program, at any speed, is a port that exchanges bytes with the device.\<close>

interpretation pio: pio_port "sm_port cpha dbit k" "exbyte dbit" "sm_view cpha dbit" "sm_work cpha" "sm_ok cpha"
  for cpha and dbit :: "bool \<Rightarrow> 'd \<Rightarrow> bool \<times> 'd" and k
proof
  fix s s' :: "'d pio_sm" and b c
  assume ok: "sm_ok cpha s"
  note time = time_ok [OF ok, of dbit k] time_view [OF ok, of dbit k]
    order_trans [OF time_work [OF ok, of dbit k]] le_less_trans [OF time_work [OF ok, of dbit k]]
  show "sm_ok cpha s' \<and> sm_view cpha dbit s' = sm_view cpha dbit s \<and> sm_work cpha s' \<le> sm_work cpha s \<and>
      (b \<longrightarrow> fst (sm_view cpha dbit s) \<noteq> [])"
    if "pio_sm_is_tx_fifo_full (sm_port cpha dbit k) s = (b, s')"
    using that time cycle_work [OF ok, of dbit] full_view [of s cpha dbit] by (auto simp: sm_port_def)
  show "sm_ok cpha (pio_txf (sm_port cpha dbit k) c s') \<and>
      sm_view cpha dbit (pio_txf (sm_port cpha dbit k) c s') =
      (case sm_view cpha dbit s of (rs, d) \<Rightarrow> case exbyte dbit c d of (a, d) \<Rightarrow> (rs @ [a], d))"
    if "pio_sm_is_tx_fifo_full (sm_port cpha dbit k) s = (False, s')"
    using that time by (auto simp: sm_port_def view_put)
  show "sm_ok cpha s' \<and> sm_view cpha dbit s' = sm_view cpha dbit s \<and>
      (b \<longrightarrow> fst (sm_view cpha dbit s) \<noteq> [] \<longrightarrow> sm_work cpha s' < sm_work cpha s)"
    if "pio_sm_is_rx_fifo_empty (sm_port cpha dbit k) s = (b, s')"
    using that time cycle_work [OF ok, of dbit] by (auto simp: sm_port_def)
  show "fst (sm_view cpha dbit s) \<noteq> [] \<and>
      fst (pio_rxf (sm_port cpha dbit k) s') = hd (fst (sm_view cpha dbit s)) \<and>
      sm_ok cpha (snd (pio_rxf (sm_port cpha dbit k) s')) \<and>
      sm_view cpha dbit (snd (pio_rxf (sm_port cpha dbit k) s')) =
      (tl (fst (sm_view cpha dbit s)), snd (sm_view cpha dbit s))"
    if "pio_sm_is_rx_fifo_empty (sm_port cpha dbit k) s = (False, s')"
    using that time time_rx [of cpha dbit k s] view_get [of s' cpha dbit] by (auto simp: sm_port_def)
qed

section \<open>A byte on the wire\<close>

lemma bit_shifted_in:
  "bit (w * 2 OR (if c then 1 else 0) :: u8) n \<longleftrightarrow> (if n = 0 then c else n < 8 \<and> bit w (n - 1))"
  by (cases n; cases c) (simp_all only: bit_or_iff bit_twice bit_1_iff bit_0_eq if_True if_False, auto)

lemma bit_of_bits8:
  "length bs \<le> 8 \<Longrightarrow> bit (of_bits8 bs) n \<longleftrightarrow> n < length bs \<and> bs ! (length bs - 1 - n)"
proof (induction bs arbitrary: n rule: rev_induct)
  case (snoc c bs)
  have "of_bits8 (bs @ [c]) = of_bits8 bs * 2 OR (if c then 1 else 0)"
    by (simp add: of_bits8_def)
  then show ?case
    using snoc by (cases n) (simp_all add: bit_shifted_in nth_append, linarith)
qed (simp add: of_bits8_def)

lemma bits8_of_bits8: "length bs = 8 \<Longrightarrow> bits8 (of_bits8 bs) = bs"
  by (simp add: bits8_def bit_of_bits8 list_eq_iff_nth_eq nth_Cons' less_Suc_eq eval_nat_numeral)

lemma bits8_revbits2: "bits8 (revbits2 b) = map (bit b) [0..<8]"
  by (simp add: bits8_def revbits2_bit upt_conv_Cons eval_nat_numeral)

text \<open>
  Whichever program \<open>spi_begin\<close> chose and whatever bit order it was asked for, a transfer on an idle port ends, sends the byte
  with its lowest bit first, returns the bits that the device answered in the same order,
  and leaves the port idle.
\<close>

theorem transfer_lowest_bit_first:
  assumes "sm_ok cpha s" "sm_view cpha dbit s = ([], d)"
  shows "\<exists>r s'. pio_spi_transfer (sm_port cpha dbit k) b s = Some (r, s') \<and> sm_ok cpha s' \<and>
    (case exbits dbit (map (bit b) [0..<8]) d of (as, e) \<Rightarrow>
       map (bit r) [0..<8] = as \<and> sm_view cpha dbit s' = ([], e))"
proof -
  from pio.idle_transfer [OF assms, where k = k and b = b]
  obtain s' where s': "sm_ok cpha s'" "sm_view cpha dbit s' = ([], snd (exbyte dbit (revbits2 b) d))"
    "pio_spi_transfer (sm_port cpha dbit k) b s = Some (revbits2 (fst (exbyte dbit (revbits2 b) d)), s')"
    by (auto simp: pico_spi_transfer_def)
  let ?e = "exbits dbit (map (bit b) [0..<8]) d"
  have "bits8 (of_bits8 (fst ?e)) = fst ?e" by (rule bits8_of_bits8) simp
  then have "map (bit (revbits2 (of_bits8 (fst ?e)))) [0..<8] = fst ?e"
    using bits8_revbits2 [of "revbits2 (of_bits8 (fst ?e))"] by simp
  then show ?thesis
    using s' by (intro exI conjI) (auto simp: exbyte_def bits8_revbits2 case_prod_beta)
qed

text \<open>Any number of bytes: those to send all at once, and so many zeros for a read.\<close>

lemma pio_transfers:
  assumes "sm_ok cpha s" "sm_view cpha dbit s = ([], d)"
  shows "\<exists>s'. pio_spi_write8_read8_blocking (sm_port cpha dbit k) src s =
      Some (fst (answers (exbyte dbit) src d), s') \<and> pio_spi_write8_blocking (sm_port cpha dbit k) src s = Some s'"
    and "\<exists>s'. pio_spi_read8_blocking (sm_port cpha dbit k) len s =
      Some (fst (answers (exbyte dbit) (replicate len 0) d), s')"
  using pio.idle_exchange [OF assms, where k = k and src = src] pio.idle_read [OF assms, where k = k and len = len] by blast+

text \<open>
  A radio or LED strip wants the highest bit first, and \<open>spi_begin\<close> is told so: on a wire that returns what
  is sent, the first bit is the lowest all the same.
\<close>

definition sm_start :: "'d \<Rightarrow> 'd pio_sm" where
  "sm_start d = \<lparr>sm_tx = [], sm_rx = [], sm_osr = [], sm_isr = [], sm_x = False, sm_mosi = False,
     sm_sck = False, sm_pc = 0, sm_delay = 0, sm_dev = d\<rparr>"

lemma start_idle: "sm_ok cpha (sm_start d)" "sm_view cpha dbit (sm_start d) = ([], d)"
  by (simp_all add: sm_start_def sm_defs)

lemma exbits_record: "exbits (\<lambda>c seen. (c, seen @ [c])) bs d = (bs, d @ bs)"
  by (induction bs arbitrary: d) simp_all

lemma wire_lowest_first:
  "\<exists>s'. pio_spi_transfer (sm_port cpha (\<lambda>c seen. (c, seen @ [c])) k) b (sm_start []) = Some (b, s') \<and>
     sm_view cpha (\<lambda>c seen. (c, seen @ [c])) s' = ([], map (bit b) [0..<8])"
proof -
  from transfer_lowest_bit_first [OF start_idle,
    where dbit = "\<lambda>c seen. (c, seen @ [c])" and d = "[]" and k = k and b = b and cpha = cpha]
  obtain r s' where r: "pio_spi_transfer (sm_port cpha (\<lambda>c seen. (c, seen @ [c])) k) b (sm_start []) = Some (r, s')"
    "map (bit r) [0..<8] = map (bit b) [0..<8]"
    "sm_view cpha (\<lambda>c seen. (c, seen @ [c])) s' = ([], map (bit b) [0..<8])"
    by (auto simp: exbits_record)
  from r(2) have "r = b" by (intro bit_word_eqI) (auto simp: list_eq_iff_nth_eq simp del: upt.simps)
  with r show ?thesis by blast
qed

end
