(* ===== verification/PicoRf.thy ===== *)
theory PicoRf
  imports PicoUsb RfTx
begin

text \<open>
  The radio transmitter on a board with a Raspberry Pi Pico (\<open>src/src/pico/rf/main.c\<close>): the start and the
  main loop over what the shared code, the radio and the SDK do, which are parameters as in PicoUsb. With the Uno's
  operations in their place the loop is that of the Uno's transmitter, which is shown below.
\<close>

section \<open>Start\<close>

text \<open>
  The radio comes before the configuration; its second id is the one that the flashing tool writes
  beside the first. Nothing prepares the reports, which a transmitter does not make.
\<close>

definition pico_rf_start ::
  "flash_fns \<Rightarrow> (u8 \<Rightarrow> u8) \<Rightarrow> pico_store \<Rightarrow> pico_globals \<Rightarrow> (pico_store \<times> pico_globals \<times> pico_init list) option" where
  "pico_rf_start f past s g =
     (case pico_loadConfig f past s of
        None \<Rightarrow> None
      | Some (config0, s) \<Rightarrow>
          let config = config0\<lparr>cfg_rf := (cfg_rf config0)\<lparr>rfInEnabled := False\<rparr>\<rparr>; t = pg_fullDeviceType g
          in Some (s,
               g\<lparr>pg_deviceType := t, pg_pollRate := pollRate (cfg_main config),
                 pg_inputType := inputType (cfg_main config), pg_typeIsDrum := isDrum past t,
                 pg_typeIsGuitar := isGuitar past t\<rparr>,
               [CallInitRF True rftxID, CallInitInputs config, CallInitLEDs config]))"

section \<open>The main loop\<close>

text \<open>
  What the loop calls, over a state \<open>'w\<close> of everything else: the clock at its readings in turn, the poll, the
  LEDs, a packet with what came back, the answer to a read, the two kinds of command, the
  sleep until an edge of the wake-up pin, and the arrays of the stack, of 12 bytes in the loop and 32 in the reply.
\<close>

record 'w ptx_ops =
  po_now :: "nat \<Rightarrow> u32"
  po_poll :: "Controller_t \<Rightarrow> 'w \<Rightarrow> halt + Controller_t \<times> 'w"
  po_leds :: "Controller_t \<Rightarrow> 'w \<Rightarrow> halt + 'w"
  po_packet :: "u8 list \<Rightarrow> u8 list \<Rightarrow> 'w \<Rightarrow> halt + (bool \<times> u8 list) \<times> 'w"
  po_read :: "u8 \<Rightarrow> 'w \<Rightarrow> halt + u8 list \<times> 'w"
  po_write :: "u8 \<Rightarrow> u8 \<Rightarrow> u8 list \<Rightarrow> 'w \<Rightarrow> halt + 'w"
  po_command :: "u8 \<Rightarrow> 'w \<Rightarrow> halt + 'w"
  po_dormant :: "'w \<Rightarrow> 'w"
  po_junk :: "nat \<Rightarrow> u8 list"

record 'w ptx =
  pw_world :: 'w
  pw_globals :: pico_globals
  pw_controller :: Controller_t
  pw_prevCtrl :: Controller_t
  pw_lastPoll :: u32
  pw_lastChange :: u32
  pw_lastButtons :: u32

definition writeToUSB_ptx :: "'w ptx_ops \<Rightarrow> u8 list \<Rightarrow> 'w \<Rightarrow> halt + 'w" where
  "writeToUSB_ptx f bs w = and_then (po_packet f bs (po_junk f 1) w) (\<lambda>(_, w). Inr w)"

definition ptx_obey :: "'w ptx_ops \<Rightarrow> u8 list \<Rightarrow> 'w \<Rightarrow> halt + 'w" where
  "ptx_obey f data w =
     (let cmd = data ! 0
      in if truthy (data ! 1) then and_then (po_read f cmd w) (\<lambda>(bs, w). writeToUSB_ptx f bs w)
         else if cmd = cmd_val COMMAND_WRITE_CONFIG then po_write f cmd 30 (drop 2 data) w
         else po_command f cmd w)"

definition ptx_exchange :: "'w ptx_ops \<Rightarrow> Controller_t \<Rightarrow> 'w \<Rightarrow> halt + 'w" where
  "ptx_exchange f c w =
     and_then (po_packet f (controller_bytes c) (po_junk f 0) w)
       (\<lambda>((got, data), w). if got then ptx_obey f data w else Inr w)"

definition ptx_note_buttons :: "'w ptx_ops \<Rightarrow> 'w ptx \<Rightarrow> 'w ptx" where
  "ptx_note_buttons f s =
     (if pw_lastButtons s \<noteq> ucast (buttons (pw_controller s))
      then s\<lparr>pw_lastButtons := ucast (buttons (pw_controller s)), pw_lastChange := po_now f 5\<rparr>
      else s)"

definition ptx_send :: "'w ptx_ops \<Rightarrow> 'w ptx \<Rightarrow> halt + 'w ptx" where
  "ptx_send f s =
     (if pw_controller s \<noteq> pw_prevCtrl s \<or> 100 < po_now f 3 - pw_lastPoll s
      then and_then (ptx_exchange f (pw_controller s) (pw_world s)) (\<lambda>w.
             Inr (ptx_note_buttons f
               (s\<lparr>pw_world := w, pw_lastPoll := po_now f 4, pw_prevCtrl := pw_controller s\<rparr>)))
      else Inr s)"

definition ptx_poll :: "'w ptx_ops \<Rightarrow> 'w ptx \<Rightarrow> halt + 'w ptx" where
  "ptx_poll f s =
     (if ucast (pg_pollRate (pw_globals s)) < po_now f 2 - pw_lastPoll s
      then and_then (po_poll f (pw_controller s) (pw_world s)) (\<lambda>(c, w).
           and_then (po_leds f c w) (\<lambda>w.
             ptx_send f (s\<lparr>pw_controller := c, pw_world := w\<rparr>)))
      else Inr s)"

text \<open>Ten minutes without a change of the buttons and the board sleeps; the radio stays on.\<close>

definition ptx_step :: "'w ptx_ops \<Rightarrow> 'w ptx \<Rightarrow> halt + 'w ptx" where
  "ptx_step f s =
     ptx_poll f
       (if 600000 < po_now f 0 - pw_lastChange s
        then s\<lparr>pw_lastChange := po_now f 1, pw_world := po_dormant f (pw_world s)\<rparr> else s)"

section \<open>The Uno's operations in their place\<close>

text \<open>The Uno's transmitter drives no LEDs; what its state has beside the world is not looked at.\<close>

definition uno_ops :: "('i, 'p, 'd) rftx_env \<Rightarrow> ('i, 'p, 'd) rftx ptx_ops" where
  "uno_ops env =
     \<lparr>po_now = te_time env,
      po_poll = (\<lambda>c u.
        case tickInputs (tx_globals u env) (c, bd_input (tx_board u)) (tx_i2c u, tx_ps2 u) of
          Inl e \<Rightarrow> Inl (halt_of e)
        | Inr ((c, s), i, p) \<Rightarrow> Inr (c, u\<lparr>tx_board := (tx_board u)\<lparr>bd_input := s\<rparr>, tx_i2c := i, tx_ps2 := p\<rparr>)),
      po_leds = (\<lambda>_. Inr),
      po_packet = (\<lambda>bs arr u.
        case on_radio_tx (tickRFTX (te_dev env) bs arr) u of (None, _) \<Rightarrow> Inl OutOfArray | (Some r, u) \<Rightarrow> Inr (r, u)),
      po_read = (\<lambda>cmd u.
        and_then (local_reply (te_cp env) (te_name env) (te_boot_sig env) cmd (tx_board u))
          (\<lambda>(n, bd). Inr (take (unat n) (bd_dbuf bd), u\<lparr>tx_board := bd\<rparr>))),
      po_write = (\<lambda>cmd len data u.
        and_then (processHIDWriteFeatureReport (te_cp env) (env_adc (te_input env)) cmd len data (tx_board u))
          (\<lambda>bd. Inr (u\<lparr>tx_board := bd\<rparr>))),
      po_command = (\<lambda>cmd u.
        and_then (handleCommand (te_cp env) (env_adc (te_input env)) cmd (tx_board u))
          (\<lambda>(_, bd). Inr (u\<lparr>tx_board := bd\<rparr>))),
      po_dormant = id,
      po_junk = te_junk env\<rparr>"

definition to_uno :: "('i, 'p, 'd) rftx ptx \<Rightarrow> ('i, 'p, 'd) rftx" where
  "to_uno s =
     (pw_world s)\<lparr>tx_controller := pw_controller s, tx_prevCtrl := pw_prevCtrl s, tx_lastPoll := pw_lastPoll s,
       tx_lastChange := pw_lastChange s, tx_lastButtons := pw_lastButtons s,
       tx_pollRate := pg_pollRate (pw_globals s)\<rparr>"

text \<open>The rest of the transmitter's state, as an update that the operations do not see.\<close>

abbreviation with_loop ::
  "Controller_t \<Rightarrow> Controller_t \<Rightarrow> u32 \<Rightarrow> u32 \<Rightarrow> u32 \<Rightarrow> u8 \<Rightarrow> ('i, 'p, 'd) rftx \<Rightarrow> ('i, 'p, 'd) rftx" where
  "with_loop c pc lp lc lb pr u \<equiv>
     u\<lparr>tx_controller := c, tx_prevCtrl := pc, tx_lastPoll := lp, tx_lastChange := lc, tx_lastButtons := lb,
       tx_pollRate := pr\<rparr>"

lemma uno_ops_now [simp]: "po_now (uno_ops env) = te_time env"
  and uno_ops_leds [simp]: "po_leds (uno_ops env) c u = Inr u"
  and uno_ops_poll: "po_poll (uno_ops env) c u =
     (case tickInputs (tx_globals u env) (c, bd_input (tx_board u)) (tx_i2c u, tx_ps2 u) of
        Inl e \<Rightarrow> Inl (halt_of e)
      | Inr ((c, s), i, p) \<Rightarrow> Inr (c, u\<lparr>tx_board := (tx_board u)\<lparr>bd_input := s\<rparr>, tx_i2c := i, tx_ps2 := p\<rparr>))"
  by (simp_all add: uno_ops_def)

lemma packet_frame:
  "on_radio_tx m (with_loop c pc lp lc lb pr u) = map_prod id (with_loop c pc lp lc lb pr) (on_radio_tx m u)"
  by (simp add: on_radio_tx_def on_hw_tx_def case_prod_beta)

lemma reply_frame:
  "writeToUSB_tx env bs (with_loop c pc lp lc lb pr u) =
   map_sum id (with_loop c pc lp lc lb pr) (writeToUSB_ptx (uno_ops env) bs u)"
  by (simp add: writeToUSB_tx_def writeToUSB_ptx_def uno_ops_def packet_frame case_prod_beta split: option.splits)

lemma obey_frame:
  "obey env data (with_loop c pc lp lc lb pr u) =
   map_sum id (with_loop c pc lp lc lb pr) (ptx_obey (uno_ops env) data u)"
proof -
  have reply: "writeToUSB_tx env bs ((with_loop c pc lp lc lb pr u)\<lparr>tx_board := bd\<rparr>) =
      map_sum id (with_loop c pc lp lc lb pr) (writeToUSB_ptx (uno_ops env) bs (u\<lparr>tx_board := bd\<rparr>))" for bs bd
    using reply_frame [where u = "u\<lparr>tx_board := bd\<rparr>" and c = c and pc = pc and lp = lp and lc = lc and
        lb = lb and pr = pr] by (cases u) simp
  show ?thesis
    by (simp add: obey_def ptx_obey_def Let_def reply)
       (simp add: uno_ops_def and_then_def case_prod_beta split: sum.splits)
qed

lemma exchange_frame:
  "exchange_packet env (with_loop c pc lp lc lb pr u) =
   map_sum id (with_loop c pc lp lc lb pr) (ptx_exchange (uno_ops env) c u)"
  by (simp add: exchange_packet_def ptx_exchange_def packet_frame obey_frame case_prod_beta split: option.splits)
     (simp add: uno_ops_def case_prod_beta)

lemma note_frame: "to_uno (ptx_note_buttons (uno_ops env) s) = note_buttons env (to_uno s)"
  by (cases "pw_world s") (simp add: ptx_note_buttons_def note_buttons_def to_uno_def)

lemma ptx_send_frame: "map_sum id to_uno (ptx_send (uno_ops env) s) = send_state env (to_uno s)"
proof -
  let ?loop = "with_loop (pw_controller s) (pw_prevCtrl s) (te_time env 4) (pw_lastChange s) (pw_lastButtons s)
     (pg_pollRate (pw_globals s))"
  let ?x = "ptx_exchange (uno_ops env) (pw_controller s) (pw_world s)"
  have "(to_uno s)\<lparr>tx_lastPoll := te_time env 4\<rparr> = ?loop (pw_world s)"
    by (cases "pw_world s") (simp add: to_uno_def)
  then have packet: "exchange_packet env ((to_uno s)\<lparr>tx_lastPoll := te_time env 4\<rparr>) = map_sum id ?loop ?x"
    by (simp only: exchange_frame)
  have after: "(?loop w)\<lparr>tx_prevCtrl := tx_controller (?loop w)\<rparr> =
      to_uno (s\<lparr>pw_world := w, pw_lastPoll := te_time env 4, pw_prevCtrl := pw_controller s\<rparr>)" for w
    by (cases w) (simp add: to_uno_def)
  have due: "tx_controller (to_uno s) = pw_controller s" "tx_prevCtrl (to_uno s) = pw_prevCtrl s"
    "tx_lastPoll (to_uno s) = pw_lastPoll s"
    by (simp_all add: to_uno_def)
  show ?thesis
    unfolding ptx_send_def send_state_def packet due uno_ops_now
    by (cases ?x) (simp_all add: note_frame after [simplified])
qed

text \<open>
  Between two sleeps a round of the Pico's loop over the Uno's operations is a round of the Uno's: the
  same polls, packets and commands, and the same state after it.
\<close>

theorem pico_poll_as_uno:
  "map_sum id to_uno (ptx_poll (uno_ops env) s) = poll_and_send env (to_uno s)"
proof (cases "ucast (pg_pollRate (pw_globals s)) < te_time env 2 - pw_lastPoll s")
  case True
  let ?u = "pw_world s"
  show ?thesis
  proof (cases "tickInputs (tx_globals ?u env) (pw_controller s, bd_input (tx_board ?u)) (tx_i2c ?u, tx_ps2 ?u)")
    case (Inl e)
    with True show ?thesis
      by (simp add: ptx_poll_def poll_and_send_def uno_ops_poll to_uno_def tx_globals_def)
  next
    case (Inr r)
    obtain c st i p where r: "r = ((c, st), i, p)" by (metis prod.exhaust)
    let ?v = "?u\<lparr>tx_board := (tx_board ?u)\<lparr>bd_input := st\<rparr>, tx_i2c := i, tx_ps2 := p\<rparr>"
    have polled: "(to_uno s)\<lparr>tx_controller := c, tx_board := (tx_board (to_uno s))\<lparr>bd_input := st\<rparr>,
        tx_i2c := i, tx_ps2 := p\<rparr> = to_uno (s\<lparr>pw_controller := c, pw_world := ?v\<rparr>)"
      by (cases ?u) (simp add: to_uno_def)
    have same: "tx_globals (to_uno s) env = tx_globals ?u env" "tx_board (to_uno s) = tx_board ?u"
      "tx_controller (to_uno s) = pw_controller s" "tx_i2c (to_uno s) = tx_i2c ?u" "tx_ps2 (to_uno s) = tx_ps2 ?u"
      "tx_pollRate (to_uno s) = pg_pollRate (pw_globals s)" "tx_lastPoll (to_uno s) = pw_lastPoll s"
      by (simp_all add: to_uno_def tx_globals_def)
    show ?thesis
      using True Inr polled by (simp add: ptx_poll_def poll_and_send_def uno_ops_poll same r ptx_send_frame)
  qed
qed (simp add: ptx_poll_def poll_and_send_def to_uno_def)

text \<open>Whatever type the configuration asks for, the board stays the build's.\<close>

lemma pico_rf_type_is_fixed:
  assumes "pico_ready f s"
  shows "\<exists>s' g' calls. pico_rf_start f past s pico_reset_globals = Some (s', g', calls) \<and>
    pg_fullDeviceType g' = OUTPUT_TYPE \<and> pg_typeIsGuitar g' \<and> \<not> pg_typeIsDrum g' \<and>
    hd calls = CallInitRF True rftxID"
proof -
  have kind: "isGuitar past OUTPUT_TYPE" "\<not> isDrum past OUTPUT_TYPE"
    by (simp_all add: OUTPUT_TYPE_def isGuitar_def isDrum_def types_byte_def types_def GUITAR_def DRUM_def)
  from pico_load_valid [OF assms, of past] obtain c s' where "pico_loadConfig f past s = Some (c, s')" by blast
  with kind show ?thesis
    by (simp add: pico_rf_start_def pico_reset_globals_def Let_def)
qed

text \<open>A packet that the loop's 12 bytes do not hold stops it before anything else is done.\<close>

lemma ptx_packet_lost:
  assumes "po_packet f (controller_bytes (pw_controller s)) (po_junk f 0) (pw_world s) = Inl e"
    and "pw_controller s \<noteq> pw_prevCtrl s \<or> 100 < po_now f 3 - pw_lastPoll s"
  shows "ptx_send f s = Inl e"
  using assms by (simp add: ptx_send_def ptx_exchange_def)

end
