(* ===== verification/Spec2Isabelle.thy ===== *)
theory Spec2Isabelle
  imports Eeprom RingBuffer Twi Reports RfLink Micro UsbDevice PicoUsb Variants CdcDescriptors MicroRf Motion PioSpi PicoRf
begin

text \<open>
  Ardwiino, the firmware of an adaptor that turns guitars, drum kits and other controllers (Wii
  extensions, PlayStation pads, or buttons and sensors wired directly) into a USB game controller, MIDI
  device, keyboard or mouse. This development models the builds for the AVR boards: the Arduino Uno, whose main
  chip (an ATmega328P) polls the controller and whose USB chip (an ATmega16U2) talks to the host; the
  same board as a radio transmitter or receiver; the one-chip boards (ATmega32U4), as a device and as a
  transmitter; and the bridge that the USB chip runs while the main chip is programmed. \<open>int\<close> has 16 bits
  there. Of the build for the Raspberry Pi Pico it models what is not shared with the others. Paths are relative to
  the repository.

  \<^bold>\<open>How the program works.\<close> The configuration is loaded from the EEPROM, migrated and stored again.
  From it the inputs are initialised, and then the main loop polls: a controller on the two-wire or
  the serial bus, the pins, the analogue inputs and the motion sensor update one record
  (\<open>Controller_t\<close>). When the record changed and the host is ready, a report in the format of the
  device's type is written: on the Uno as a frame over the serial line to the USB chip, which strips the frame
  and hands the report to the right endpoint; on the other boards straight to the endpoint. The host sends
  commands through control requests (write or read the configuration, LED colours, find a pin, reboot),
  which the USB chip forwards over the serial line. With radio boards the polls happen on the
  transmitter; the receiver's radio carries states one way and forwarded commands, in the
  acknowledgements, the other.

  \<^bold>\<open>Theories, in the order in which they import each other.\<close>
  \<^item> Prelude: words, byte images, the bit macros of \<open>util.h\<close>, errors as a sum with \<open>and_then\<close>.
  \<^item> Colours, Config, Configuration, Layout: \<open>src/src/shared/config\<close>, \<open>shared/controller\<close> and
    \<open>led_colours.h\<close>: the enums with their numbers, the packed configuration and its byte image of 275 bytes.
  \<^item> Eeprom: \<open>avr/lib/eeprom/eeprom.c\<close>. \<open>loadConfig\<close> with all its migrations, the block accesses.
  \<^item> PicoFlash: \<open>pico/lib/eeprom/eeprom.c\<close>, the same configuration in the Pico's flash.
  \<^item> Fxpt: \<open>src/lib/fxpt_math\<close> and \<open>mpu_math.c\<close>, the angles of the tilt sensor.
  \<^item> Pins, Spi, Timer, Twi: \<open>avr/lib\<close>: the pin tables of the Uno, the analogue converter's round
    robin, the serial bus, the clock, the two-wire driver with its interrupt handler.
  \<^item> Variants: the pin tables of the Uno, the Mega and the one-chip boards (\<open>avr/variants\<close>) with the operations of
    Pins over any of them. PicoBoard: pins, analogue inputs and buses of the Pico (\<open>pico/lib\<close>). PioSpi: the Pico's
    serial bus, the loops of \<open>pio_spi.c\<close> over the state machine that runs the programs of \<open>spi.pio\<close>.
  \<^item> RingBuffer, LufaRing, BridgeRing: the byte queues, \<open>src/lib/LightweightRingBuff.h\<close>, LUFA's, and the bridge's.
  \<^item> WiiExt, Ps2, Direct, Input: \<open>shared/input\<close>: the three kinds of controllers and the poll
    (\<open>tickInputs\<close>) that joins them with debouncing and the tilt sensors.
  \<^item> DmpFirmware, Mpu6050, Motion: the motion sensor (\<open>src/lib/mpu6050\<close>): the image of its processor, its driver, and
    the driver with a chip that obeys its register map, joined to the tilt of Input.
  \<^item> Reports, Leds: the five report formats and the LED frames.
  \<^item> Nrf24, Rf, RfTx, MicroRf, PicoRf, RfLink: the radio chip's driver, \<open>shared/rf/rf.c\<close>, the transmitters' programs
    (\<open>avr/uno/rf/main.c\<close>, \<open>avr/micro/rf/main.c\<close>, \<open>pico/rf/main.c\<close>), and transmitter, air and receiver as one system.
  \<^item> Serial, UnoMain, UnoUsb, UnoLink: the host's commands (\<open>shared/output/serial_handler.c\<close>), the
    programs of the Uno's two chips, and both with the serial line between them.
  \<^item> Descriptors, Usb, UsbDevice: the descriptors as bytes with a parser of report descriptors, the program's
    control requests (\<open>avr/shared/usb/usb.h\<close>), and LUFA's device stack that drives them.
  \<^item> Micro: the program of the one-chip boards (\<open>avr/micro/main/main.c\<close>). PicoUsb: that of the Pico (\<open>pico/main/main.c\<close>
    and its XInput driver).
  \<^item> SerialBridge, CdcDescriptors: the serial bridge (\<open>avr/uno/usbserial\<close>) with LUFA's class driver of a virtual serial
    port, and the descriptors of the two programs that have such a port.

  \<^bold>\<open>Correspondence.\<close> A definition carries the name of the C function, table or constant that it
  translates. The globals of a file are a record (\<open>analog\<close>, \<open>direct_state\<close>, \<open>input_state\<close>,
  \<open>twi\<close>, \<open>uno\<close>, \<open>usb_chip\<close>, \<open>usb_dev\<close> and so on), which the operations take and return. Words have the
  width of the C type, arithmetic wraps or is sign-extended as the promotions of C have it. A read or
  write outside an array, a call through an unset pointer and a loop that does not end are results
  (\<open>Inl\<close> of an error, or \<open>None\<close>), so that their absence is something to prove. Code outside
  the repository is a parameter: what the devices on the buses answer, the converter's samples, the
  clock, the interrupts' times, the host's packets, and uninitialised memory.

  \<^bold>\<open>Interfaces.\<close> The locale \<open>byte_queue\<close> (RingBuffer) states what the users of a byte queue rely on;
  it is interpreted for the light-weight buffer, LUFA's, the bridge's and the USB chip's byte-wide receive
  buffer, and gives each of them the same behaviour for runs of operations. The locale \<open>config_store\<close> (PicoFlash) states what
  the download of a configuration in blocks relies on, and is interpreted for the EEPROM and for the Pico's staging
  buffer. The locale \<open>pin_tables\<close> (Variants) states what the pin operations need of a board's tables, and
  is interpreted for the three boards. The locale \<open>motion_chip\<close> (Motion) is what the motion sensor's register map
  promises its driver, interpreted for a chip that is the register map. The locale \<open>pio_port\<close> (PioSpi) is what the
  Pico's serial loops rely on, interpreted for the state machine with either program at any speed. The locale \<open>i2c_bus\<close> (WiiExt) states
  what the Wii code relies on when it reads a register; Twi interprets it with the driver
  over any device that obeys the data sheet. \<open>obeys_datasheet\<close> and \<open>obeys_queues\<close> (Nrf24, RfLink) and \<open>legal_dev\<close> (Twi) are
  the contracts of the chips, each with an instance.

  \<^bold>\<open>What is proved.\<close> The claims C1 to C40 stand at the theorems named in the manifest. In groups:
  \<^item> Configuration: loading gives a well-formed configuration whatever the EEPROM holds, is
    idempotent, and inverts storing (C1 to C3); commands write it and read it back (C36, C37).
  \<^item> Pico: a download is stored byte for byte by EEPROM and flash, and what a broken one leaves differs (C13); the control
    requests are answered as by the AVR boards, with the exceptions listed (C12). Serial transfers end, in step with the
    device and with the lowest bit first (PioSpi.transfer_lowest_bit_first); the transmitter's loop is the Uno's
    (PicoRf.pico_poll_as_uno).
  \<^item> Inputs: the set-ups record exactly what is configured and stay inside their arrays (C5, C19), the poll never
    faults and keeps its invariant (C25, C26), each decoder reads its packets as specified
    (C14, C17), debouncing and scaling do what they are for (C20, C22), the converter's round robin leaves no input
    behind (C7), arithmetic stays in range (C9, C10). The motion sensor is configured as wanted (C24), and the tilt
    shows exactly its valid packets (C23). The pins of the three boards are independent (Variants.board_pins_independent).
  \<^item> Drivers: the two-wire handler stays in bounds in every reachable state, reads deliver, and
    every transfer returns (C27 to C29); the exchange with a PlayStation pad ends (C17); the radio's
    registers end as configured (C33); the queues are first-in first-out (C11); the clocks are exact until they wrap (C34).
  \<^item> Reports: each format shows the state that it is made of (C30 to C32, C35), and a host that
    interprets the descriptors reads it back (C40).
  \<^item> USB: every control request is answered or stalled (C8), the report endpoints are enabled whenever the
    device is configured (C4), descriptors arrive patched (C39), and enumeration ends configured.
  \<^item> Bridge: between host and UART bytes are delivered in order (C21 and SerialBridge.bridge_to_uart_in_order), the line encoding
    is what the UART is programmed to, closing the port at 1200 bits per second enters the boot loader, and the descriptors agree with
    the endpoints of the driver (SerialBridge.line_encoding_programmed, touch_enters_bootloader,
    CdcDescriptors.cdc_configuration_consistent).
  \<^item> Systems: a report reaches the host as one packet (C38), the one-chip boards send what the
    Uno sends (C18), the radio receiver shows the transmitter's state after every round (C6).
  \<^item> What goes wrong is stated as theorems too: C15, C16, parts of C12, C13, C22, C28, C30, C31,
    C37, C39 and C40, and Eeprom.first_boot_differs_from_reset, Direct.drum_pad_slot, WiiExt.drum_velocity_pads,
    Input.undriven_button_sticks, RfLink.receiver_stays_behind, SerialBridge.interrupt_overflows,
    MicroRf.exchange_overflows, MicroRf.wake_edge_not_set, PicoUsb.pico_type_is_fixed, Ps2.guitar_bindings_unused,
    Input.CHECK_JOY_threshold, RfLink.radio_block_spills and RfLink.radio_leds_dropped.

  \<^bold>\<open>Bounds and fuel.\<close> Loops that wait for hardware take the answers as a list, one for each round, and run out with it:
  the list is universally quantified, and where the code promises to return, that is proved for
  enough of it. The retried PlayStation commands have fuel 26, more than the retries that their
  clock allows (C17). The two-wire time-outs count down from 32767 as in the code, and C29 shows
  that no transfer outlasts them. Loops over pins, keys, LEDs and
  bytes recurse on what is left. C39 assumes as many ready rounds as the descriptors have packets, three. Micro's wait for an endpoint polls 8
  times in each of the 100 frames of its time-out.

  \<^bold>\<open>Not modelled.\<close> Of the Pico port (\<open>src/src/pico\<close>): the bodies that only call the Pico SDK or TinyUSB, which are not in the
  repository, and the stubs
  \<open>pico/usb_passthrough\<close> and \<open>pico/test\<close>; the shared code is modelled for the AVR boards' 16-bit \<open>int\<close> and a
  parameter of the Pico's program. Of the motion sensor's driver what is not compiled, what needs floating-point numbers or
  64 bits, and the packets of a sensor without its processor; nothing calls them. Of LUFA what this firmware does not run: host
  mode, other chips, other class drivers, the demos and projects, and the set-up of clock and regulator; the bridge's own copy of
  LUFA's device stack is not repeated. Of the one-chip boards the boot loader's event on a port that the device's descriptors do not have.
\<close>

end
